(* ===== verification/Prelude.thy ===== *)
theory Prelude
  imports Main "HOL-Library.Word" "HOL-Library.Char_ord" "HOL-Library.List_Lexorder"
    "HOL-Library.Code_Target_Nat"
begin

text \<open>
  Shared vocabulary of the development: machine-integer types and Rust's saturating
  arithmetic on them, \<open>Result\<close> as a sum with its \<open>?\<close> operator, UTF-8 strings,
  and the two map containers of the standard library (\<open>BTreeMap\<close> as a strictly sorted
  association list, \<open>HashMap\<close> as an association list in iteration order) behind one
  interface.
\<close>

unbundle bit_operations_syntax

type_synonym u8 = "8 word"
type_synonym u32 = "32 word"
type_synonym u64 = "64 word"
type_synonym uuid = "128 word"

named_theorems result_simps \<open>rewrite rules for results and their sequencing\<close>
named_theorems sat_simps \<open>saturating arithmetic read through unat\<close>

section \<open>Results\<close>

text \<open>\<open>Inl\<close> is \<open>Err\<close>, \<open>Inr\<close> is \<open>Ok\<close>; \<open>rbind m k\<close> is \<open>let x = m?; k x\<close>.\<close>

definition rbind :: "'e + 'a \<Rightarrow> ('a \<Rightarrow> 'e + 'b) \<Rightarrow> 'e + 'b" where
  "rbind m k = (case m of Inl e \<Rightarrow> Inl e | Inr a \<Rightarrow> k a)"

definition ok_or :: "'a option \<Rightarrow> 'e \<Rightarrow> 'e + 'a" where
  "ok_or v e = (case v of None \<Rightarrow> Inl e | Some a \<Rightarrow> Inr a)"

definition map_err :: "('e \<Rightarrow> 'f) \<Rightarrow> 'e + 'a \<Rightarrow> 'f + 'a" where
  "map_err f m = (case m of Inl e \<Rightarrow> Inl (f e) | Inr a \<Rightarrow> Inr a)"

lemma rbind_Inl [simp, result_simps]: "rbind (Inl e) k = Inl e"
  and rbind_Inr [simp, result_simps]: "rbind (Inr a) k = k a"
  by (simp_all add: rbind_def)

lemma ok_or_None [simp, result_simps]: "ok_or None e = Inl e"
  and ok_or_Some [simp, result_simps]: "ok_or (Some a) e = Inr a"
  by (simp_all add: ok_or_def)

lemma map_err_Inl [simp, result_simps]: "map_err f (Inl e) = Inl (f e)"
  and map_err_Inr [simp, result_simps]: "map_err f (Inr a) = Inr a"
  by (simp_all add: map_err_def)

lemma rbind_eq_Inr [result_simps]: "rbind m k = Inr b \<longleftrightarrow> (\<exists>a. m = Inr a \<and> k a = Inr b)"
  by (cases m) simp_all

lemma ok_or_eq_Inr [result_simps]: "ok_or v e = Inr a \<longleftrightarrow> v = Some a"
  by (cases v) simp_all

lemma map_err_eq_Inr [result_simps]: "map_err f m = Inr a \<longleftrightarrow> m = Inr a"
  by (cases m) simp_all

lemma rbind_assoc: "rbind (rbind m k) l = rbind m (\<lambda>x. rbind (k x) l)"
  by (cases m) simp_all

lemma if_Inl_eq_Inr [result_simps]:
  "(if b then Inl e else m) = Inr a \<longleftrightarrow> \<not> b \<and> m = Inr a"
  by simp

section \<open>Saturating arithmetic\<close>

definition sat_add :: "'a::len word \<Rightarrow> 'a word \<Rightarrow> 'a word" where
  "sat_add a b = (if unat a + unat b < 2 ^ LENGTH('a) then a + b else - 1)"

definition sat_sub :: "'a::len word \<Rightarrow> 'a word \<Rightarrow> 'a word" where
  "sat_sub a b = (if a < b then 0 else a - b)"

definition sat_mul :: "'a::len word \<Rightarrow> 'a word \<Rightarrow> 'a word" where
  "sat_mul a b = (if unat a * unat b < 2 ^ LENGTH('a) then a * b else - 1)"

lemma unat_max_word: "unat (- 1 :: 'a::len word) = 2 ^ LENGTH('a) - 1"
  by (simp add: unsigned_minus_1_eq_mask mask_eq_exp_minus_1)

lemma unat_less_pow: "unat (a :: 'a::len word) < 2 ^ LENGTH('a)"
  by (rule unsigned_less)

lemma unat_sat_add [sat_simps]:
  "unat (sat_add a b) = min (2 ^ LENGTH('a) - 1) (unat a + unat (b :: 'a::len word))"
proof (cases "unat a + unat b < 2 ^ LENGTH('a)")
  case True
  then have "unat a + unat b \<le> 2 ^ LENGTH('a) - 1"
    by linarith
  with True show ?thesis
    by (simp add: sat_add_def unat_word_ariths min_absorb2)
next
  case False
  then have "2 ^ LENGTH('a) - 1 \<le> unat a + unat b"
    by linarith
  with False show ?thesis
    by (simp only: sat_add_def if_False unat_max_word min_absorb1)
qed

lemma unat_sat_sub [sat_simps]: "unat (sat_sub a b) = unat a - unat b"
  by (cases "a < b") (simp_all add: sat_sub_def word_less_nat_alt unat_sub_if')

lemma unat_sat_mul [sat_simps]:
  "unat (sat_mul a b) = min (2 ^ LENGTH('a) - 1) (unat a * unat (b :: 'a::len word))"
proof (cases "unat a * unat b < 2 ^ LENGTH('a)")
  case True
  then have "unat a * unat b \<le> 2 ^ LENGTH('a) - 1"
    by linarith
  with True show ?thesis
    by (simp add: sat_mul_def unat_word_ariths min_absorb2)
next
  case False
  then have "2 ^ LENGTH('a) - 1 \<le> unat a * unat b"
    by linarith
  with False show ?thesis
    by (simp only: sat_mul_def if_False unat_max_word min_absorb1)
qed

lemma sat_add_ge_left: "a \<le> sat_add a b"
proof -
  have "unat a \<le> 2 ^ LENGTH('a) - 1"
    using unat_less_pow [of a] by linarith
  then show ?thesis
    by (simp add: word_le_nat_alt unat_sat_add)
qed

lemma sat_add_less_one: "a < - 1 \<Longrightarrow> a < sat_add a 1"
proof -
  assume "a < - 1"
  then have "unat a < 2 ^ LENGTH('a) - 1"
    by (simp add: word_less_nat_alt unat_max_word)
  then show "a < sat_add a 1"
    by (simp add: word_less_nat_alt unat_sat_add)
qed

section \<open>Little-endian integers\<close>

type_synonym u16 = "16 word"

definition to_le_bytes :: "u32 \<Rightarrow> u8 list" where
  "to_le_bytes n = [ucast n, ucast (drop_bit 8 n), ucast (drop_bit 16 n), ucast (drop_bit 24 n)]"

definition from_le_bytes :: "u8 list \<Rightarrow> u32" where
  "from_le_bytes h = ucast (h ! 0) OR push_bit 8 (ucast (h ! 1)) OR push_bit 16 (ucast (h ! 2)) OR
     push_bit 24 (ucast (h ! 3))"

definition to_le_bytes16 :: "u16 \<Rightarrow> u8 list" where
  "to_le_bytes16 n = [ucast n, ucast (drop_bit 8 n)]"

definition from_le_bytes16 :: "u8 list \<Rightarrow> u16" where
  "from_le_bytes16 h = ucast (h ! 0) OR push_bit 8 (ucast (h ! 1))"

lemma length_to_le_bytes [simp]: "length (to_le_bytes n) = 4" "length (to_le_bytes16 k) = 2"
  by (simp_all add: to_le_bytes_def to_le_bytes16_def)

lemma from_to_le_bytes: "from_le_bytes (to_le_bytes n) = n"
proof (rule bit_word_eqI)
  fix i
  assume "i < LENGTH(32)"
  then consider "i < 8" | "8 \<le> i" "i < 16" | "16 \<le> i" "i < 24" | "24 \<le> i" "i < 32"
    by fastforce
  then show "bit (from_le_bytes (to_le_bytes n)) i = bit n i"
    by cases (auto simp: from_le_bytes_def to_le_bytes_def bit_simps)
qed

lemma from_to_le_bytes16: "from_le_bytes16 (to_le_bytes16 n) = n"
proof (rule bit_word_eqI)
  fix i
  assume "i < LENGTH(16)"
  then consider "i < 8" | "8 \<le> i" "i < 16"
    by fastforce
  then show "bit (from_le_bytes16 (to_le_bytes16 n)) i = bit n i"
    by cases (auto simp: from_le_bytes16_def to_le_bytes16_def bit_simps)
qed

section \<open>UTF-8 strings\<close>

text \<open>
  A Rust \<open>String\<close> is its UTF-8 bytes: an Isabelle \<open>string\<close> whose characters are those
  bytes, so \<open>length\<close> is \<open>str::len\<close>. \<open>utf8_valid\<close> is the well-formedness
  \<open>std::str::from_utf8\<close> checks (no overlong forms, no surrogates, at most U+10FFFF).
\<close>

definition is_cont :: "u8 \<Rightarrow> bool" where
  "is_cont b \<longleftrightarrow> 0x80 \<le> b \<and> b \<le> 0xBF"

fun utf8_valid :: "u8 list \<Rightarrow> bool" where
  "utf8_valid [] = True"
| "utf8_valid (b # bs) =
     (if b < 0x80 then utf8_valid bs
      else if 0xC2 \<le> b \<and> b \<le> 0xDF then
        (case bs of c # r \<Rightarrow> is_cont c \<and> utf8_valid r | _ \<Rightarrow> False)
      else if 0xE0 \<le> b \<and> b \<le> 0xEF then
        (case bs of c # d # r \<Rightarrow>
           is_cont c \<and> is_cont d \<and> (b = 0xE0 \<longrightarrow> 0xA0 \<le> c) \<and> (b = 0xED \<longrightarrow> c \<le> 0x9F) \<and> utf8_valid r
         | _ \<Rightarrow> False)
      else if 0xF0 \<le> b \<and> b \<le> 0xF4 then
        (case bs of c # d # e # r \<Rightarrow>
           is_cont c \<and> is_cont d \<and> is_cont e \<and> (b = 0xF0 \<longrightarrow> 0x90 \<le> c) \<and> (b = 0xF4 \<longrightarrow> c \<le> 0x8F)
           \<and> utf8_valid r
         | _ \<Rightarrow> False)
      else False)"

definition byte_of_char :: "char \<Rightarrow> u8" where
  "byte_of_char c = of_nat (of_char c)"

definition char_of_byte :: "u8 \<Rightarrow> char" where
  "char_of_byte b = char_of (unat b)"

definition as_bytes :: "string \<Rightarrow> u8 list" where
  "as_bytes s = map byte_of_char s"

definition from_utf8 :: "u8 list \<Rightarrow> string option" where
  "from_utf8 bs = (if utf8_valid bs then Some (map char_of_byte bs) else None)"

text \<open>The invariant every value of Rust's \<open>String\<close> and \<open>str\<close> satisfies.\<close>

definition str_ok :: "string \<Rightarrow> bool" where
  "str_ok s \<longleftrightarrow> utf8_valid (as_bytes s)"

lemma of_char_lt_256: "(of_char c :: nat) < 256"
  using nat_of_char_less_256 .

lemma char_of_byte_of_char [simp]: "char_of_byte (byte_of_char c) = c"
proof -
  have "unat (of_nat (of_char c) :: u8) = of_char c"
    using of_char_lt_256 [of c] by (simp add: unat_of_nat)
  then show ?thesis
    by (simp add: char_of_byte_def byte_of_char_def)
qed

lemma byte_of_char_of_byte [simp]: "byte_of_char (char_of_byte b) = b"
proof -
  have "(of_char (char_of (unat b)) :: nat) = unat b mod 256"
    by simp
  also have "\<dots> = unat b"
    using unat_less_pow [of b] by simp
  finally show ?thesis
    by (simp add: char_of_byte_def byte_of_char_def)
qed

lemma length_as_bytes [simp]: "length (as_bytes s) = length s"
  by (simp add: as_bytes_def)

lemma from_utf8_as_bytes [simp]: "str_ok s \<Longrightarrow> from_utf8 (as_bytes s) = Some s"
  by (simp add: from_utf8_def str_ok_def as_bytes_def comp_def)

lemma from_utf8_SomeD: "from_utf8 bs = Some s \<Longrightarrow> as_bytes s = bs \<and> str_ok s"
  by (auto simp: from_utf8_def str_ok_def as_bytes_def comp_def split: if_splits)

lemma from_utf8_length: "from_utf8 bs = Some s \<Longrightarrow> length s = length bs"
  by (auto simp: from_utf8_def split: if_splits)

text \<open>\<open>String::from_utf8_lossy\<close>: each maximal ill-formed part becomes U+FFFD.\<close>

definition replacement :: "u8 list" where
  "replacement = [0xEF, 0xBF, 0xBD]"

definition second_ok :: "u8 \<Rightarrow> u8 \<Rightarrow> bool" where
  "second_ok b c \<longleftrightarrow> is_cont c \<and> (b = 0xE0 \<longrightarrow> 0xA0 \<le> c) \<and> (b = 0xED \<longrightarrow> c \<le> 0x9F) \<and>
     (b = 0xF0 \<longrightarrow> 0x90 \<le> c) \<and> (b = 0xF4 \<longrightarrow> c \<le> 0x8F)"

fun lossy_bytes :: "u8 list \<Rightarrow> u8 list" where
  "lossy_bytes [] = []"
| "lossy_bytes (b # bs) =
     (if b < 0x80 then b # lossy_bytes bs
      else if 0xC2 \<le> b \<and> b \<le> 0xDF then
        (case bs of c # r \<Rightarrow> if is_cont c then b # c # lossy_bytes r else replacement @ lossy_bytes bs
         | [] \<Rightarrow> replacement)
      else if 0xE0 \<le> b \<and> b \<le> 0xEF then
        (case bs of
           c # d # r \<Rightarrow>
             if second_ok b c then
               (if is_cont d then b # c # d # lossy_bytes r else replacement @ lossy_bytes (d # r))
             else replacement @ lossy_bytes bs
         | [c] \<Rightarrow> if second_ok b c then replacement else replacement @ lossy_bytes bs
         | [] \<Rightarrow> replacement)
      else if 0xF0 \<le> b \<and> b \<le> 0xF4 then
        (case bs of
           c # d # e # r \<Rightarrow>
             if second_ok b c then
               (if is_cont d then
                  (if is_cont e then b # c # d # e # lossy_bytes r else replacement @ lossy_bytes (e # r))
                else replacement @ lossy_bytes (d # e # r))
             else replacement @ lossy_bytes bs
         | [c, d] \<Rightarrow>
             if second_ok b c then (if is_cont d then replacement else replacement @ lossy_bytes [d])
             else replacement @ lossy_bytes bs
         | [c] \<Rightarrow> if second_ok b c then replacement else replacement @ lossy_bytes bs
         | [] \<Rightarrow> replacement)
      else replacement @ lossy_bytes bs)"

definition from_utf8_lossy :: "u8 list \<Rightarrow> string" where
  "from_utf8_lossy bs = map char_of_byte (lossy_bytes bs)"

lemma second_ok3: "0xE0 \<le> b \<Longrightarrow> b \<le> 0xEF \<Longrightarrow>
    second_ok b c \<longleftrightarrow> is_cont c \<and> (b = 0xE0 \<longrightarrow> 0xA0 \<le> c) \<and> (b = 0xED \<longrightarrow> c \<le> 0x9F)"
  unfolding second_ok_def by auto

lemma second_ok4: "0xF0 \<le> b \<Longrightarrow> b \<le> 0xF4 \<Longrightarrow>
    second_ok b c \<longleftrightarrow> is_cont c \<and> (b = 0xF0 \<longrightarrow> 0x90 \<le> c) \<and> (b = 0xF4 \<longrightarrow> c \<le> 0x8F)"
  unfolding second_ok_def by auto

lemma lossy_bytes_valid: "utf8_valid bs \<Longrightarrow> lossy_bytes bs = bs"
proof (induction bs rule: length_induct)
  case (1 bs)
  show ?case
  proof (cases bs)
    case (Cons b r)
    have v: "utf8_valid (b # r)"
      using 1 Cons by simp
    consider (a) "b < 0x80" | (b) "\<not> b < 0x80" "0xC2 \<le> b \<and> b \<le> 0xDF"
      | (c) "\<not> b < 0x80" "\<not> (0xC2 \<le> b \<and> b \<le> 0xDF)" "0xE0 \<le> b \<and> b \<le> 0xEF"
      | (d) "\<not> b < 0x80" "\<not> (0xC2 \<le> b \<and> b \<le> 0xDF)" "\<not> (0xE0 \<le> b \<and> b \<le> 0xEF)" "0xF0 \<le> b \<and> b \<le> 0xF4"
      using v by (auto split: if_splits)
    then show ?thesis
    proof cases
      case a
      with 1 Cons show ?thesis
        by simp
    next
      case b
      with v obtain x s where r: "r = x # s" "is_cont x" "utf8_valid s"
        by (auto split: list.splits)
      have "lossy_bytes s = s"
        using 1 r Cons by simp
      with r b show ?thesis
        unfolding Cons by (subst lossy_bytes.simps) (simp del: lossy_bytes.simps)
    next
      case c
      with v obtain x y s where r: "r = x # y # s" "is_cont y" "utf8_valid s" "is_cont x"
        "b = 0xE0 \<longrightarrow> 0xA0 \<le> x" "b = 0xED \<longrightarrow> x \<le> 0x9F"
        by (auto split: list.splits)
      then have "second_ok b x"
        using c(3) second_ok3 by blast
      moreover have "lossy_bytes s = s"
        using 1 r Cons by simp
      ultimately show ?thesis
        unfolding Cons using r c by (subst lossy_bytes.simps) (auto simp del: lossy_bytes.simps)
    next
      case d
      with v obtain x y z s where r: "r = x # y # z # s" "is_cont y" "is_cont z" "utf8_valid s" "is_cont x"
        "b = 0xF0 \<longrightarrow> 0x90 \<le> x" "b = 0xF4 \<longrightarrow> x \<le> 0x8F"
        by (auto split: list.splits)
      then have "second_ok b x"
        using d(4) second_ok4 by blast
      moreover have "lossy_bytes s = s"
        using 1 r Cons by simp
      ultimately show ?thesis
        unfolding Cons using r d by (subst lossy_bytes.simps) (auto simp del: lossy_bytes.simps)
    qed
  qed simp
qed

lemma from_utf8_lossy_as_bytes [simp]: "str_ok s \<Longrightarrow> from_utf8_lossy (as_bytes s) = s"
  by (simp add: from_utf8_lossy_def str_ok_def lossy_bytes_valid as_bytes_def comp_def)

text \<open>\<open>str::split\<close> on a character and \<open>str::split_once\<close>.\<close>

fun split_on :: "char \<Rightarrow> string \<Rightarrow> string list" where
  "split_on d [] = [[]]"
| "split_on d (c # s) =
     (if c = d then [] # split_on d s
      else (case split_on d s of [] \<Rightarrow> [[c]] | p # ps \<Rightarrow> (c # p) # ps))"

fun split_once :: "char \<Rightarrow> string \<Rightarrow> (string \<times> string) option" where
  "split_once d [] = None"
| "split_once d (c # s) =
     (if c = d then Some ([], s)
      else map_option (\<lambda>(a, b). (c # a, b)) (split_once d s))"

lemma split_on_no_sep: "d \<notin> set s \<Longrightarrow> split_on d s = [s]"
  by (induction s) auto

lemma split_on_append: "d \<notin> set a \<Longrightarrow> split_on d (a @ d # s) = a # split_on d s"
  by (induction a) auto

lemma split_once_None: "d \<notin> set s \<Longrightarrow> split_once d s = None"
  by (induction s) auto

text \<open>\<open>str::trim\<close>: the UTF-8 forms of the characters with the \<open>White_Space\<close> property,
  removed from both ends.\<close>

definition white_space :: "string list" where
  "white_space = map (map char_of_byte)
     ([[b]. b \<leftarrow> [9, 10, 11, 12, 13, 32]] @ [[0xC2, 0x85], [0xC2, 0xA0], [0xE1, 0x9A, 0x80]] @
      [[0xE2, 0x80, b]. b \<leftarrow> [0x80, 0x81, 0x82, 0x83, 0x84, 0x85, 0x86, 0x87, 0x88, 0x89, 0x8A, 0xA8, 0xA9, 0xAF]] @
      [[0xE2, 0x81, 0x9F], [0xE3, 0x80, 0x80]])"

definition strip_prefix :: "string \<Rightarrow> string \<Rightarrow> string option" where
  "strip_prefix p s = (if take (length p) s = p then Some (drop (length p) s) else None)"

fun first_stripped :: "string list \<Rightarrow> string \<Rightarrow> string option" where
  "first_stripped [] s = None"
| "first_stripped (w # ws) s = (case strip_prefix w s of Some r \<Rightarrow> Some r | None \<Rightarrow> first_stripped ws s)"

lemma first_stripped_decreases: "[] \<notin> set ws \<Longrightarrow> first_stripped ws s = Some r \<Longrightarrow> length r < length s"
proof (induction ws)
  case (Cons w ws)
  have "s \<noteq> []" if "take (length w) s = w"
    using that Cons.prems(1) by auto
  with Cons show ?case
    by (cases "take (length w) s = w") (auto simp: strip_prefix_def split: option.splits)
qed simp

function strip_while :: "string list \<Rightarrow> string \<Rightarrow> string" where
  "strip_while ws s =
     (if [] \<in> set ws then s
      else case first_stripped ws s of Some r \<Rightarrow> strip_while ws r | None \<Rightarrow> s)"
  by pat_completeness auto
termination
  by (relation "measure (\<lambda>(ws, s). length s)") (simp_all add: first_stripped_decreases)

declare strip_while.simps [simp del]

definition trim :: "string \<Rightarrow> string" where
  "trim s = rev (strip_while (map rev white_space) (rev (strip_while white_space s)))"

lemma set_first_stripped: "first_stripped ws s = Some r \<Longrightarrow> set r \<subseteq> set s"
  by (induction ws) (auto simp: strip_prefix_def split: option.splits if_splits dest: in_set_dropD)

lemma set_strip_while: "set (strip_while ws s) \<subseteq> set s"
proof (induction ws s rule: strip_while.induct)
  case (1 ws s)
  show ?case
  proof (cases "first_stripped ws s")
    case None
    then show ?thesis
      by (simp add: strip_while.simps [of ws s])
  next
    case (Some r)
    with 1 set_first_stripped [OF Some] show ?thesis
      by (auto simp: strip_while.simps [of ws s])
  qed
qed

lemma set_trim: "set (trim s) \<subseteq> set s"
  using set_strip_while [of white_space s] set_strip_while [of "map rev white_space" "rev (strip_while white_space s)"]
  by (auto simp: trim_def)

text \<open>\<open>chars().count()\<close>: the bytes that do not continue a character.\<close>

definition char_count :: "string \<Rightarrow> nat" where
  "char_count s = length (filter (\<lambda>c. \<not> (128 \<le> (of_char c :: nat) \<and> (of_char c :: nat) < 192)) s)"

text \<open>\<open>encode_utf16().count()\<close>: a character of four bytes makes two units.\<close>

definition utf16_count :: "string \<Rightarrow> nat" where
  "utf16_count s = char_count s + length (filter (\<lambda>c. 240 \<le> (of_char c :: nat)) s)"

definition is_ascii_digit :: "char \<Rightarrow> bool" where
  "is_ascii_digit c = (let n = (of_char c :: nat) in 48 \<le> n \<and> n \<le> 57)"

text \<open>\<open>u32::from_str_radix(_, 16)\<close>.\<close>

definition hex_digit :: "char \<Rightarrow> nat option" where
  "hex_digit c =
     (let n = of_char c in
      if 48 \<le> n \<and> n \<le> 57 then Some (n - 48)
      else if 97 \<le> n \<and> n \<le> 102 then Some (n - 87)
      else if 65 \<le> n \<and> n \<le> 70 then Some (n - 55) else None)"

fun hex_value :: "nat \<Rightarrow> string \<Rightarrow> nat option" where
  "hex_value acc [] = Some acc"
| "hex_value acc (c # s) = Option.bind (hex_digit c) (\<lambda>d. hex_value (16 * acc + d) s)"

definition from_str_radix16 :: "string \<Rightarrow> u32 option" where
  "from_str_radix16 s =
     (let digits = (case s of CHR ''+'' # r \<Rightarrow> r | _ \<Rightarrow> s) in
      if digits = [] then None
      else Option.bind (hex_value 0 digits) (\<lambda>v. if v < 2 ^ 32 then Some (of_nat v) else None))"

section \<open>Lists\<close>

text \<open>\<open>Iterator::min_by_key\<close>: the first of the elements with the least key.\<close>

fun min_by_key :: "('a \<Rightarrow> 'k::linorder) \<Rightarrow> 'a list \<Rightarrow> 'a option" where
  "min_by_key f [] = None"
| "min_by_key f (x # xs) =
     (case min_by_key f xs of
        None \<Rightarrow> Some x
      | Some y \<Rightarrow> if f y < f x then Some y else Some x)"

lemma min_by_key_None [simp]: "min_by_key f xs = None \<longleftrightarrow> xs = []"
  by (cases xs) (auto split: option.splits)

lemma min_by_key_in: "min_by_key f xs = Some x \<Longrightarrow> x \<in> set xs"
  by (induction xs arbitrary: x) (auto split: option.splits if_splits)

lemma min_by_key_le: "min_by_key f xs = Some x \<Longrightarrow> y \<in> set xs \<Longrightarrow> f x \<le> f y"
  by (induction xs arbitrary: x) (fastforce split: option.splits if_splits)+

text \<open>\<open>Iterator::max_by_key\<close>: the last of the elements with the greatest key.\<close>

fun max_by_key :: "('a \<Rightarrow> 'k::linorder) \<Rightarrow> 'a list \<Rightarrow> 'a option" where
  "max_by_key f [] = None"
| "max_by_key f (x # xs) =
     (case max_by_key f xs of
        None \<Rightarrow> Some x
      | Some y \<Rightarrow> if f x \<le> f y then Some y else Some x)"

lemma max_by_key_None [simp]: "max_by_key f xs = None \<longleftrightarrow> xs = []"
  by (cases xs) (auto split: option.splits)

lemma max_by_key_in: "max_by_key f xs = Some x \<Longrightarrow> x \<in> set xs"
  by (induction xs arbitrary: x) (auto split: option.splits if_splits)

lemma max_by_key_ge: "max_by_key f xs = Some x \<Longrightarrow> y \<in> set xs \<Longrightarrow> f y \<le> f x"
  by (induction xs arbitrary: x) (fastforce split: option.splits if_splits)+

section \<open>Maps\<close>

text \<open>
  The interface the components rely on: what a lookup returns after an insertion or a
  removal, and that the entries are exactly the bindings, each key once. Sizes follow.
\<close>

locale finite_map =
  fixes get :: "'m \<Rightarrow> 'k \<Rightarrow> 'v option"
    and insert :: "'k \<Rightarrow> 'v \<Rightarrow> 'm \<Rightarrow> 'm"
    and remove :: "'k \<Rightarrow> 'm \<Rightarrow> 'm"
    and entries :: "'m \<Rightarrow> ('k \<times> 'v) list"
    and inv :: "'m \<Rightarrow> bool"
  assumes get_insert: "inv m \<Longrightarrow> get (insert k v m) = (get m)(k \<mapsto> v)"
    and get_remove: "inv m \<Longrightarrow> get (remove k m) = (get m)(k := None)"
    and inv_insert: "inv m \<Longrightarrow> inv (insert k v m)"
    and inv_remove: "inv m \<Longrightarrow> inv (remove k m)"
    and entries_get: "inv m \<Longrightarrow> (k, v) \<in> set (entries m) \<longleftrightarrow> get m k = Some v"
    and entries_distinct: "inv m \<Longrightarrow> distinct (map fst (entries m))"
begin

lemma keys_dom: "inv m \<Longrightarrow> fst ` set (entries m) = dom (get m)"
proof -
  assume m: "inv m"
  have "k \<in> fst ` set es \<longleftrightarrow> (\<exists>v. (k, v) \<in> set es)" for k and es :: "('k \<times> 'v) list"
    by (induction es) auto
  with m show ?thesis
    by (auto simp: entries_get)
qed

lemma length_entries: "inv m \<Longrightarrow> length (entries m) = card (dom (get m))"
  using distinct_card [OF entries_distinct, of m] by (simp add: keys_dom)

lemma finite_dom_get: "inv m \<Longrightarrow> finite (dom (get m))"
  using keys_dom [of m] finite_set [of "entries m"] by (metis finite_imageI)

lemma length_insert:
  assumes "inv m"
  shows "length (entries (insert k v m)) =
    (if get m k = None then Suc (length (entries m)) else length (entries m))"
  using assms finite_dom_get [OF assms]
  by (auto simp: length_entries inv_insert get_insert insert_absorb card_insert_if domIff)

lemma length_remove:
  assumes "inv m"
  shows "length (entries (remove k m)) =
    (if get m k = None then length (entries m) else length (entries m) - 1)"
proof -
  have "dom ((get m)(k := None)) = dom (get m) - {k}"
    by auto
  then show ?thesis
    using assms finite_dom_get [OF assms]
    by (auto simp: length_entries inv_remove get_remove card_Diff_singleton_if domIff)
qed

end

text \<open>\<open>BTreeMap\<close>: an association list with strictly increasing keys, which is its
  iteration order.\<close>

fun bt_insert :: "'k::linorder \<Rightarrow> 'v \<Rightarrow> ('k \<times> 'v) list \<Rightarrow> ('k \<times> 'v) list" where
  "bt_insert k v [] = [(k, v)]"
| "bt_insert k v ((j, w) # m) =
     (if k < j then (k, v) # (j, w) # m
      else if k = j then (k, v) # m
      else (j, w) # bt_insert k v m)"

definition bt_remove :: "'k::linorder \<Rightarrow> ('k \<times> 'v) list \<Rightarrow> ('k \<times> 'v) list" where
  "bt_remove k m = filter (\<lambda>e. fst e \<noteq> k) m"

definition bt_ok :: "('k::linorder \<times> 'v) list \<Rightarrow> bool" where
  "bt_ok m \<longleftrightarrow> sorted_wrt (<) (map fst m)"

lemma map_of_bt_insert: "map_of (bt_insert k v m) = (map_of m)(k \<mapsto> v)"
  by (induction k v m rule: bt_insert.induct) (auto simp: fun_eq_iff)

lemma set_keys_bt_insert: "fst ` set (bt_insert k v m) = insert k (fst ` set m)"
  by (induction k v m rule: bt_insert.induct) auto

lemma bt_ok_insert: "bt_ok m \<Longrightarrow> bt_ok (bt_insert k v m)"
proof (induction k v m rule: bt_insert.induct)
  case (2 k v j w m)
  then show ?case
    using set_keys_bt_insert [of k v m] by (auto simp: bt_ok_def)
qed (simp add: bt_ok_def)

lemma bt_ok_distinct: "bt_ok m \<Longrightarrow> distinct (map fst m)"
  by (simp add: bt_ok_def strict_sorted_iff)

lemma map_of_filter_ne: "map_of (filter (\<lambda>e. fst e \<noteq> k) m) = (map_of m)(k := None)"
  by (induction m) (auto simp: fun_eq_iff)

lemma bt_ok_remove: "bt_ok m \<Longrightarrow> bt_ok (bt_remove k m)"
  unfolding bt_ok_def bt_remove_def
  by (induction m) auto

interpretation bt: finite_map map_of bt_insert bt_remove "\<lambda>m. m" bt_ok
proof
  show "bt_ok m \<Longrightarrow> map_of (bt_insert k v m) = (map_of m)(k \<mapsto> v)" for m and k :: "'a::linorder" and v :: 'b
    by (rule map_of_bt_insert)
  show "bt_ok m \<Longrightarrow> map_of (bt_remove k m) = (map_of m)(k := None)" for m and k :: "'a::linorder"
    by (simp add: bt_remove_def map_of_filter_ne)
qed (auto simp: bt_ok_insert bt_ok_remove bt_ok_distinct)

text \<open>\<open>HashMap\<close>: an association list without repeated keys. Its order stands for the
  (unspecified) iteration order; a new key goes to the front, and the components that
  iterate allow any reordering between two operations.\<close>

fun hm_insert :: "'k \<Rightarrow> 'v \<Rightarrow> ('k \<times> 'v) list \<Rightarrow> ('k \<times> 'v) list" where
  "hm_insert k v m =
     (if map_of m k = None then (k, v) # m
      else map (\<lambda>e. if fst e = k then (k, v) else e) m)"

definition hm_remove :: "'k \<Rightarrow> ('k \<times> 'v) list \<Rightarrow> ('k \<times> 'v) list" where
  "hm_remove k m = filter (\<lambda>e. fst e \<noteq> k) m"

definition hm_ok :: "('k \<times> 'v) list \<Rightarrow> bool" where
  "hm_ok m \<longleftrightarrow> distinct (map fst m)"

lemma map_of_replace:
  "map_of (map (\<lambda>e. if fst e = k then (k, v) else e) m) j =
    (if j = k \<and> map_of m k \<noteq> None then Some v else map_of m j)"
  by (induction m) auto

lemma keys_replace: "map fst (map (\<lambda>e. if fst e = k then (k, v) else e) m) = map fst m"
  by (induction m) auto

lemma map_of_hm_insert: "map_of (hm_insert k v m) = (map_of m)(k \<mapsto> v)"
  by (auto simp: fun_eq_iff map_of_replace simp del: map_map)

lemma hm_ok_insert: "hm_ok m \<Longrightarrow> hm_ok (hm_insert k v m)"
  by (auto simp: hm_ok_def keys_replace map_of_eq_None_iff simp del: map_map)

interpretation hm: finite_map map_of hm_insert hm_remove "\<lambda>m. m" hm_ok
proof
  show "hm_ok m \<Longrightarrow> map_of (hm_insert k v m) = (map_of m)(k \<mapsto> v)" for m and k :: 'a and v :: 'b
    by (rule map_of_hm_insert)
  show "hm_ok m \<Longrightarrow> map_of (hm_remove k m) = (map_of m)(k := None)" for m and k :: 'a
    by (simp add: hm_remove_def map_of_filter_ne)
  show "hm_ok m \<Longrightarrow> hm_ok (hm_remove k m)" for m and k :: 'a
    by (auto simp: hm_ok_def hm_remove_def intro: distinct_map_filter)
  show "hm_ok m \<Longrightarrow> hm_ok (hm_insert k v m)" for m and k :: 'a and v :: 'b
    by (rule hm_ok_insert)
qed (auto simp: hm_ok_def)

lemmas bt_specs = bt.get_insert bt.get_remove bt.inv_insert bt.inv_remove
lemmas hm_specs = hm.get_insert hm.get_remove hm.inv_insert hm.inv_remove

end
