(* ===== verification/Lib0.thy ===== *)
theory Lib0
  imports Prelude
begin

text \<open>
  The lib0 byte encoding shared by the collaboration protocol modules: the bounded cursor
  and the variable-length unsigned integers of \<open>src/collab/y_sync.rs\<close>,
  \<open>src/collab/wire.rs\<close> and \<open>src/collab/awareness.rs\<close>. The three modules carry
  the same reader over their own error type, so the reader here takes the two error values
  it can return; each module instantiates it.
\<close>

definition LIB0_MAX_SAFE_UINT :: u64 where
  "LIB0_MAX_SAFE_UINT = push_bit 53 1 - 1"

lemma LIB0_MAX_SAFE_UINT_code [code]: "LIB0_MAX_SAFE_UINT = 0x1FFFFFFFFFFFFF"
  by (simp add: LIB0_MAX_SAFE_UINT_def push_bit_eq_mult)

record cursor =
  input :: "u8 list"
  pos :: nat

definition cursor_new :: "u8 list \<Rightarrow> cursor" where
  "cursor_new bs = \<lparr>input = bs, pos = 0\<rparr>"

definition remaining :: "cursor \<Rightarrow> nat" where
  "remaining c = length (input c) - pos c"

definition read_byte :: "'e \<Rightarrow> cursor \<Rightarrow> 'e + (u8 \<times> cursor)" where
  "read_byte truncated c =
     (if pos c \<ge> length (input c) then Inl truncated
      else Inr (input c ! pos c, c\<lparr>pos := pos c + 1\<rparr>))"

definition read_exact :: "'e \<Rightarrow> nat \<Rightarrow> cursor \<Rightarrow> 'e + (u8 list \<times> cursor)" where
  "read_exact truncated len c =
     (if remaining c < len then Inl truncated
      else Inr (take len (drop (pos c) (input c)), c\<lparr>pos := pos c + len\<rparr>))"

text \<open>The loop \<open>for _ in 0..10\<close>, with the iterations left, the value so far and the shift.\<close>

fun read_var_uint_loop :: "'e \<Rightarrow> 'e \<Rightarrow> nat \<Rightarrow> u64 \<Rightarrow> nat \<Rightarrow> cursor \<Rightarrow> 'e + (u64 \<times> cursor)" where
  "read_var_uint_loop truncated invalid 0 result shift c = Inl invalid"
| "read_var_uint_loop truncated invalid (Suc n) result shift c =
     rbind (read_byte truncated c) (\<lambda>(byte, c).
       let bits = (ucast (byte AND 0x7f) :: u64) in
       if shift \<ge> 64 \<or> bits > drop_bit shift (- 1) then Inl invalid
       else
         let result = result OR push_bit shift bits in
         if byte AND 0x80 = 0 then
           (if result > LIB0_MAX_SAFE_UINT then Inl invalid else Inr (result, c))
         else read_var_uint_loop truncated invalid n result (shift + 7) c)"

definition read_var_uint :: "'e \<Rightarrow> 'e \<Rightarrow> cursor \<Rightarrow> 'e + (u64 \<times> cursor)" where
  "read_var_uint truncated invalid c = read_var_uint_loop truncated invalid 10 0 0 c"

lemma unat_drop_bit_div: "unat (drop_bit n (w :: 'a::len word)) = unat w div 2 ^ n"
  by (subst unat_drop_bit_eq) (rule drop_bit_eq_div)

lemma drop_seven_less: "\<not> (rest :: u64) < 0x80 \<Longrightarrow> unat (drop_bit 7 rest) < unat rest"
proof -
  assume "\<not> rest < 0x80"
  then have "128 \<le> unat rest"
    by (simp add: word_less_nat_alt)
  then show ?thesis
    by (simp add: unat_drop_bit_div)
qed

function write_var_uint :: "u8 list \<Rightarrow> u64 \<Rightarrow> u8 list" where
  "write_var_uint out rest =
     (if rest < 0x80 then out @ [ucast rest]
      else write_var_uint (out @ [(ucast rest AND 0x7f) OR 0x80]) (drop_bit 7 rest))"
  by pat_completeness auto
termination
  by (relation "measure (\<lambda>(out, rest). unat rest)") (simp_all add: drop_seven_less)

declare write_var_uint.simps [simp del]

definition write_var_bytes :: "u8 list \<Rightarrow> u8 list \<Rightarrow> u8 list" where
  "write_var_bytes out value = write_var_uint out (of_nat (length value)) @ value"

section \<open>The cursor as a position in the input\<close>

text \<open>\<open>cursor_at pre rest\<close> has consumed \<open>pre\<close> and has \<open>rest\<close> left.\<close>

definition cursor_at :: "u8 list \<Rightarrow> u8 list \<Rightarrow> cursor" where
  "cursor_at pre rest = \<lparr>input = pre @ rest, pos = length pre\<rparr>"

lemma cursor_new_at: "cursor_new bs = cursor_at [] bs"
  by (simp add: cursor_new_def cursor_at_def)

lemma remaining_at [simp]: "remaining (cursor_at pre rest) = length rest"
  by (simp add: remaining_def cursor_at_def)

lemma read_byte_at [simp]:
  "read_byte e (cursor_at pre (b # rest)) = Inr (b, cursor_at (pre @ [b]) rest)"
  by (simp add: read_byte_def cursor_at_def nth_append)

lemma read_exact_at [simp]:
  "read_exact e (length bs) (cursor_at pre (bs @ rest)) = Inr (bs, cursor_at (pre @ bs) rest)"
  by (simp add: read_exact_def cursor_at_def remaining_def)

lemma input_at [simp]: "input (cursor_at pre rest) = pre @ rest"
  and pos_at [simp]: "pos (cursor_at pre rest) = length pre"
  by (simp_all add: cursor_at_def)

section \<open>Integers: what the writer emits, what the reader accepts\<close>

definition var_uint :: "u64 \<Rightarrow> u8 list" where
  "var_uint v = write_var_uint [] v"

lemma write_var_uint_append: "write_var_uint out v = out @ var_uint v"
proof -
  have "write_var_uint (out @ more) v = out @ write_var_uint more v" for more
  proof (induction more v arbitrary: out rule: write_var_uint.induct)
    case (1 more v)
    then show ?case
      by (subst (1 2) write_var_uint.simps) auto
  qed
  from this [of "[]"] show ?thesis
    by (simp add: var_uint_def)
qed

lemma var_uint_small: "v < 0x80 \<Longrightarrow> var_uint v = [ucast v]"
  by (simp add: var_uint_def write_var_uint.simps)

lemma var_uint_step:
  "\<not> v < 0x80 \<Longrightarrow> var_uint v = ((ucast v AND 0x7f) OR 0x80) # var_uint (drop_bit 7 v)"
  unfolding var_uint_def
  by (subst write_var_uint.simps) (simp add: write_var_uint_append [of "[_]"] var_uint_def)

text \<open>The seven payload bits of a byte with the continuation flag set, and of the last byte.\<close>

lemma low_bits: "(0x7f :: 'a::len word) = mask 7"
  by (simp add: mask_eq_exp_minus_1)

lemma bit_flag: "bit (0x80 :: u8) n \<longleftrightarrow> n = 7"
proof -
  have "bit (2 ^ 7 :: u8) n \<longleftrightarrow> n = 7"
    by (simp only: bit_exp_iff possible_bit_word) auto
  moreover have "(2 ^ 7 :: u8) = 0x80"
    by simp
  ultimately show ?thesis
    by (simp only:)
qed

lemma ucast_low_bits: "(ucast (ucast (v :: u64) AND mask 7 :: u8) :: u64) = take_bit 7 v"
  by (rule bit_word_eqI) (auto simp: bit_simps)

lemma payload_continued:
  "(ucast (((ucast (v :: u64) AND 0x7f) OR 0x80) AND 0x7f :: u8) :: u64) = take_bit 7 v"
proof -
  have "(((ucast v AND mask 7) OR 0x80) AND mask 7 :: u8) = ucast v AND mask 7"
    by (rule bit_word_eqI) (auto simp: bit_and_iff bit_or_iff bit_mask_iff bit_flag
        simp del: bit_numeral_word_iff)
  then show ?thesis
    by (simp only: low_bits ucast_low_bits)
qed

lemma flag_continued: "((ucast (v :: u64) AND 0x7f) OR 0x80) AND 0x80 \<noteq> (0 :: u8)"
proof -
  have "bit (((ucast v AND 0x7f) OR 0x80) AND 0x80 :: u8) 7"
    by (simp add: bit_and_iff bit_or_iff bit_flag)
  then show ?thesis
    by (metis bit_0_eq bot_apply bot_bool_def)
qed

lemma small_bits: "(v :: u64) < 0x80 \<Longrightarrow> take_bit 7 v = v"
proof -
  assume "v < 0x80"
  then have "unat v < 2 ^ 7"
    by (simp add: word_less_nat_alt)
  then have "unat (take_bit 7 v) = unat v"
    by (simp add: unsigned_take_bit_eq take_bit_nat_eq_self_iff del: take_bit_eq_mod)
  then show ?thesis
    by (simp only: word_unat_eq_iff)
qed

lemma payload_last:
  assumes "(v :: u64) < 0x80"
  shows "(ucast (ucast v AND 0x7f :: u8) :: u64) = v"
  using ucast_low_bits [of v] small_bits [OF assms] by (simp only: low_bits)

lemma flag_last:
  assumes "(v :: u64) < 0x80"
  shows "ucast v AND 0x80 = (0 :: u8)"
  by (subst small_bits [OF assms, symmetric]) (rule bit_word_eqI, auto simp: bit_and_iff bit_unsigned_iff bit_take_bit_iff bit_flag
      simp del: bit_numeral_word_iff)

lemma split_seven:
  "push_bit s (take_bit 7 v) OR push_bit (s + 7) (drop_bit 7 v) = push_bit s (v :: u64)"
proof (rule bit_word_eqI)
  fix n
  assume "n < LENGTH(64)"
  then show "bit (push_bit s (take_bit 7 v) OR push_bit (s + 7) (drop_bit 7 v)) n = bit (push_bit s v) n"
  proof (cases "n < s + 7")
    case True
    then show ?thesis
      by (auto simp: bit_simps)
  next
    case False
    then have "7 + (n - (s + 7)) = n - s" and "s \<le> n"
      by auto
    with False \<open>n < LENGTH(64)\<close> show ?thesis
      by (auto simp: bit_simps)
  qed
qed

text \<open>The reader's overflow guard never fires on bits that belong to a 64-bit value.\<close>

lemma bits_fit:
  assumes "unat v * 2 ^ s < 2 ^ 64" and "s < 64"
  shows "\<not> take_bit 7 v > (drop_bit s (- 1) :: u64)"
proof -
  have "unat (drop_bit s (- 1) :: u64) = (2 ^ 64 - 1) div 2 ^ s"
    by (simp only: unat_drop_bit_div unat_max_word) simp
  also have "\<dots> \<ge> unat v"
    using assms(1) by (subst less_eq_div_iff_mult_less_eq) auto
  finally have "unat v \<le> unat (drop_bit s (- 1) :: u64)" .
  moreover have "unat (take_bit 7 v) \<le> unat v"
    by (simp add: unsigned_take_bit_eq)
  ultimately show ?thesis
    by (simp add: word_less_nat_alt)
qed

lemma read_var_uint_loop_write:
  assumes "unat v < 2 ^ (7 * n)" and "0 < n" and "unat v * 2 ^ s < 2 ^ 64" and "s < 64"
  shows "read_var_uint_loop tr iv n acc s (cursor_at pre (var_uint v @ rest)) =
    (let r = acc OR push_bit s v in
     if r > LIB0_MAX_SAFE_UINT then Inl iv else Inr (r, cursor_at (pre @ var_uint v) rest))"
  using assms
proof (induction n arbitrary: v acc s pre)
  case (Suc n)
  note fit = bits_fit [OF Suc.prems(3,4)]
  show ?case
  proof (cases "v < 0x80")
    case True
    then have "\<not> v > drop_bit s (- 1)"
      using fit small_bits by simp
    with True Suc.prems(4) show ?thesis
      by (simp add: var_uint_small payload_last flag_last Let_def)
  next
    case False
    let ?w = "drop_bit 7 v"
    have big: "128 \<le> unat v"
      using False by (simp add: word_less_nat_alt)
    have w: "unat ?w = unat v div 128"
      by (simp add: unat_drop_bit_div)
    have n: "0 < n"
      using big Suc.prems(1) by (cases n) auto
    have small: "unat ?w < 2 ^ (7 * n)"
      using Suc.prems(1) by (simp add: w less_mult_imp_div_less power_add)
    have "unat ?w * 2 ^ (s + 7) = (unat v div 128 * 128) * 2 ^ s"
      by (simp add: w power_add)
    also have "\<dots> \<le> unat v * 2 ^ s"
      by (simp add: mult_le_mono1)
    finally have fit': "unat ?w * 2 ^ (s + 7) < 2 ^ 64"
      using Suc.prems(3) by linarith
    have "2 ^ (s + 7) \<le> unat v * 2 ^ s"
      using mult_le_mono1 [OF big, of "2 ^ s"] by (simp add: power_add)
    then have "(2 :: nat) ^ (s + 7) < 2 ^ 64"
      using Suc.prems(3) by linarith
    then have s: "s + 7 < 64"
      by (rule power_less_imp_less_exp [rotated]) simp
    let ?b = "(ucast v AND 0x7f) OR 0x80 :: u8"
    let ?acc = "acc OR push_bit s (take_bit 7 v)"
    have "read_var_uint_loop tr iv (Suc n) acc s (cursor_at pre (var_uint v @ rest)) =
        read_var_uint_loop tr iv n ?acc (s + 7) (cursor_at (pre @ [?b]) (var_uint ?w @ rest))"
      using fit Suc.prems(4)
      by (simp add: var_uint_step [OF False] payload_continued flag_continued Let_def
          del: drop_bit_minus_one)
    also have "\<dots> = (let r = ?acc OR push_bit (s + 7) ?w in
        if r > LIB0_MAX_SAFE_UINT then Inl iv
        else Inr (r, cursor_at ((pre @ [?b]) @ var_uint ?w) rest))"
      by (rule Suc.IH [OF small n fit' s])
    finally show ?thesis
      by (simp only: var_uint_step [OF False] or.assoc split_seven append_assoc append_Cons append_Nil)
  qed
qed simp

text \<open>Reading back a written integer: the exact answer for every 64-bit value.\<close>

lemma read_var_uint_write:
  "read_var_uint tr iv (cursor_at pre (var_uint v @ rest)) =
    (if v > LIB0_MAX_SAFE_UINT then Inl iv else Inr (v, cursor_at (pre @ var_uint v) rest))"
proof -
  have "unat v < 2 ^ 64"
    using unat_less_pow [of v] by simp
  then have "unat v < 2 ^ (7 * 10)" and "unat v * 2 ^ 0 < 2 ^ 64"
    by simp_all
  from read_var_uint_loop_write [OF this(1) _ this(2), of tr iv 0 pre rest] show ?thesis
    by (simp only: read_var_uint_def Let_def) simp
qed

text \<open>Which values a module uses for its errors does not change what it accepts.\<close>

lemma read_byte_Inr_errs: "read_byte e c = Inr x \<Longrightarrow> read_byte e' c = Inr x"
  by (simp add: read_byte_def split: if_splits)

lemma read_exact_Inr_errs: "read_exact e n c = Inr x \<Longrightarrow> read_exact e' n c = Inr x"
  by (simp add: read_exact_def split: if_splits)

lemma read_var_uint_loop_Inr_errs:
  "read_var_uint_loop tr iv n acc s c = Inr x \<Longrightarrow> read_var_uint_loop tr' iv' n acc s c = Inr x"
proof (induction n arbitrary: acc s c)
  case (Suc n)
  then obtain b d where b: "read_byte tr c = Inr (b, d)"
    by (cases "read_byte tr c") auto
  with Suc show ?case
    by (auto simp: Let_def read_byte_Inr_errs [OF b] split: if_splits)
qed simp

lemma read_var_uint_Inr_errs: "read_var_uint tr iv c = Inr x \<Longrightarrow> read_var_uint tr' iv' c = Inr x"
  unfolding read_var_uint_def by (rule read_var_uint_loop_Inr_errs)

section \<open>Progress and bounds of the reader\<close>

text \<open>A successful read keeps the input and moves forward inside it.\<close>

definition advances :: "cursor \<Rightarrow> cursor \<Rightarrow> bool" where
  "advances c d \<longleftrightarrow> input d = input c \<and> pos c \<le> pos d \<and> pos d \<le> length (input c)"

lemma advances_trans [trans]: "advances a b \<Longrightarrow> advances b c \<Longrightarrow> advances a c"
  by (auto simp: advances_def)

lemma read_byte_advances: "read_byte e c = Inr (b, d) \<Longrightarrow> advances c d \<and> pos d = Suc (pos c)"
  by (auto simp: read_byte_def advances_def split: if_splits)

lemma read_exact_advances:
  "read_exact e n c = Inr (bs, d) \<Longrightarrow> pos c \<le> length (input c) \<Longrightarrow>
    advances c d \<and> pos d = pos c + n \<and> length bs = n \<and> bs = take n (drop (pos c) (input c))"
  by (auto simp: read_exact_def advances_def remaining_def split: if_splits)

lemma read_var_uint_loop_advances:
  assumes "read_var_uint_loop tr iv n acc s c = Inr (v, d)"
  shows "v \<le> LIB0_MAX_SAFE_UINT \<and> advances c d \<and> pos c < pos d \<and> pos d \<le> pos c + n"
  using assms
proof (induction n arbitrary: acc s c)
  case (Suc n)
  then obtain b c' where b: "read_byte tr c = Inr (b, c')"
    by (cases "read_byte tr c") auto
  note step = read_byte_advances [OF b]
  show ?case
  proof (cases "b AND 0x80 = 0")
    case True
    with Suc.prems b step show ?thesis
      by (auto simp: Let_def not_less split: if_splits)
  next
    case False
    with Suc.prems b have "read_var_uint_loop tr iv n (acc OR push_bit s (ucast (b AND 0x7f)))
        (s + 7) c' = Inr (v, d)"
      by (auto simp: Let_def split: if_splits)
    from Suc.IH [OF this] step show ?thesis
      by (auto intro: advances_trans)
  qed
qed simp

lemma read_var_uint_advances:
  "read_var_uint tr iv c = Inr (v, d) \<Longrightarrow>
    v \<le> LIB0_MAX_SAFE_UINT \<and> advances c d \<and> pos c < pos d \<and> pos d \<le> pos c + 10"
  unfolding read_var_uint_def by (rule read_var_uint_loop_advances)

section \<open>The interface of a self-delimiting encoding\<close>

text \<open>
  What a decoder promises an encoder: after any prefix and before any suffix, reading
  returns what was written and stops exactly behind it. Sequences of items, and unique
  decodability, follow once for every such pair.
\<close>

fun read_n :: "nat \<Rightarrow> (cursor \<Rightarrow> 'e + ('a \<times> cursor)) \<Rightarrow> 'a list \<Rightarrow> cursor \<Rightarrow> 'e + ('a list \<times> cursor)" where
  "read_n 0 item acc c = Inr (acc, c)"
| "read_n (Suc n) item acc c = rbind (item c) (\<lambda>(x, c). read_n n item (acc @ [x]) c)"

locale cursor_codec =
  fixes put :: "'a \<Rightarrow> u8 list"
    and get :: "cursor \<Rightarrow> 'e + ('a \<times> cursor)"
    and ok :: "'a \<Rightarrow> bool"
  assumes get_put: "ok x \<Longrightarrow> get (cursor_at pre (put x @ rest)) = Inr (x, cursor_at (pre @ put x) rest)"
begin

lemma get_put_end: "ok x \<Longrightarrow> get (cursor_at pre (put x)) = Inr (x, cursor_at (pre @ put x) [])"
  using get_put [of x pre "[]"] by simp

lemma read_n_put:
  "list_all ok xs \<Longrightarrow> read_n (length xs) get acc (cursor_at pre (concat (map put xs) @ rest)) =
    Inr (acc @ xs, cursor_at (pre @ concat (map put xs)) rest)"
  by (induction xs arbitrary: acc pre) (simp_all add: get_put)

lemma put_unique:
  assumes "ok x" and "ok y" and "put x @ r = put y @ s"
  shows "x = y \<and> r = s"
proof -
  have "Inr (x, cursor_at (put x) r) = (Inr (y, cursor_at (put y) s) :: 'e + 'a \<times> cursor)"
    using get_put [OF assms(1), of "[]" r] get_put [OF assms(2), of "[]" s] assms(3) by simp
  then show ?thesis
    using assms(3) by simp
qed

end

interpretation var_uint_codec: cursor_codec var_uint "read_var_uint tr iv" "\<lambda>v. v \<le> LIB0_MAX_SAFE_UINT"
  for tr iv
  by unfold_locales (simp add: read_var_uint_write not_less)

text \<open>Length-prefixed bytes: the part every module's \<open>read_var_bytes\<close> and
  \<open>read_var_string\<close> shares. \<open>usize\<close> is 64 bits wide, so \<open>usize::try_from\<close> never fails.\<close>

definition usize_try_from :: "u64 \<Rightarrow> nat option" where
  "usize_try_from v = (if unat v < 2 ^ 64 then Some (unat v) else None)"

lemma usize_try_from_Some [simp]: "usize_try_from v = Some (unat v)"
  using unat_less_pow [of v] by (simp add: usize_try_from_def)

definition var_bytes :: "u8 list \<Rightarrow> u8 list" where
  "var_bytes bs = var_uint (of_nat (length bs)) @ bs"

lemma write_var_bytes_append: "write_var_bytes out bs = out @ var_bytes bs"
  by (simp add: write_var_bytes_def write_var_uint_append var_bytes_def)

lemma LIB0_unat: "unat LIB0_MAX_SAFE_UINT = 2 ^ 53 - 1"
  by (simp add: LIB0_MAX_SAFE_UINT_def push_bit_eq_mult)

lemma safe_length:
  "n < 2 ^ 53 \<Longrightarrow> unat (of_nat n :: u64) = n \<and> (of_nat n :: u64) \<le> LIB0_MAX_SAFE_UINT"
  by (simp add: word_le_nat_alt LIB0_unat unat_of_nat)

lemma read_var_uint_length:
  "n < 2 ^ 53 \<Longrightarrow> read_var_uint tr iv (cursor_at pre (var_uint (of_nat n) @ rest)) =
    Inr (of_nat n, cursor_at (pre @ var_uint (of_nat n)) rest)"
  using safe_length by (simp add: var_uint_codec.get_put)

lemma var_uint_nonempty [simp]: "var_uint v \<noteq> []"
  by (cases "v < 0x80") (simp_all add: var_uint_small var_uint_step)

lemma length_var_uint_pos [simp]: "0 < length (var_uint v)"
  by simp

lemma length_var_uint_le: "unat v < 2 ^ (7 * n) \<Longrightarrow> 0 < n \<Longrightarrow> length (var_uint v) \<le> n"
proof (induction n arbitrary: v)
  case (Suc n)
  show ?case
  proof (cases "v < 0x80")
    case True
    then show ?thesis
      by (simp add: var_uint_small)
  next
    case False
    then have "128 \<le> unat v"
      by (simp add: word_less_nat_alt)
    then have "0 < n"
      using Suc.prems(1) by (cases n) auto
    moreover have "unat (drop_bit 7 v) < 2 ^ (7 * n)"
      using Suc.prems(1) by (simp add: unat_drop_bit_div less_mult_imp_div_less power_add)
    ultimately show ?thesis
      using Suc.IH by (simp add: var_uint_step [OF False])
  qed
qed simp

lemma length_var_uint_10: "length (var_uint v) \<le> 10"
  using unat_less_pow [of v] by (intro length_var_uint_le) simp_all

section \<open>Readers are local\<close>

text \<open>
  \<open>reads get enc x\<close>: wherever \<open>enc\<close> stands in the input, \<open>get\<close> consumes exactly
  \<open>enc\<close> and returns \<open>x\<close>. A reader is local when each of its successful runs has this
  form, so a slice of the input that was read once reads the same on its own.
\<close>

definition reads :: "(cursor \<Rightarrow> 'e + ('a \<times> cursor)) \<Rightarrow> u8 list \<Rightarrow> 'a \<Rightarrow> bool" where
  "reads get enc x \<longleftrightarrow> (\<forall>pre rest. get (cursor_at pre (enc @ rest)) = Inr (x, cursor_at (pre @ enc) rest))"

definition local_reader :: "(cursor \<Rightarrow> 'e + ('a \<times> cursor)) \<Rightarrow> bool" where
  "local_reader get \<longleftrightarrow> (\<forall>pre bs x d. get (cursor_at pre bs) = Inr (x, d) \<longrightarrow>
     (\<exists>enc rest. bs = enc @ rest \<and> d = cursor_at (pre @ enc) rest \<and> reads get enc x))"

lemma local_readerE:
  assumes "local_reader get" and "get (cursor_at pre bs) = Inr (x, d)"
  obtains enc rest where "bs = enc @ rest" and "d = cursor_at (pre @ enc) rest" and "reads get enc x"
  using assms unfolding local_reader_def by blast

lemma readsD: "reads get enc x \<Longrightarrow> get (cursor_at pre (enc @ rest)) = Inr (x, cursor_at (pre @ enc) rest)"
  by (simp add: reads_def)

lemma readsD_end: "reads get enc x \<Longrightarrow> get (cursor_at pre enc) = Inr (x, cursor_at (pre @ enc) [])"
  using readsD [of get enc x pre "[]"] by simp

lemma reads_mono: "reads g enc x \<Longrightarrow> (\<And>c y. g c = Inr y \<Longrightarrow> h c = Inr y) \<Longrightarrow> reads h enc x"
  by (simp add: reads_def)

lemma local_reader_bind:
  assumes g: "local_reader g" and k: "\<And>a. local_reader (k a)"
  shows "local_reader (\<lambda>c. rbind (g c) (\<lambda>(a, c). k a c))"
  unfolding local_reader_def
proof (intro allI impI)
  fix pre bs x d
  assume "rbind (g (cursor_at pre bs)) (\<lambda>(a, c). k a c) = Inr (x, d)"
  then obtain a c where a: "g (cursor_at pre bs) = Inr (a, c)" and x: "k a c = Inr (x, d)"
    by (auto simp: result_simps)
  from g a obtain e r where e: "bs = e @ r" "c = cursor_at (pre @ e) r" "reads g e a"
    by (rule local_readerE)
  from k x [unfolded e(2)] obtain f s where f: "r = f @ s" "d = cursor_at ((pre @ e) @ f) s" "reads (k a) f x"
    by (rule local_readerE)
  have "reads (\<lambda>c. rbind (g c) (\<lambda>(a, c). k a c)) (e @ f) x"
    using e(3) f(3) by (simp add: reads_def)
  with e f show "\<exists>enc rest. bs = enc @ rest \<and> d = cursor_at (pre @ enc) rest \<and>
      reads (\<lambda>c. rbind (g c) (\<lambda>(a, c). k a c)) enc x"
    by (intro exI [of _ "e @ f"] exI [of _ s]) simp
qed

lemma local_reader_fail: "local_reader (\<lambda>c. Inl e)"
  and local_reader_return: "local_reader (\<lambda>c. Inr (x, c))"
  by (auto simp: local_reader_def reads_def intro: exI [of _ "[]"])

lemma local_reader_if: "(b \<Longrightarrow> local_reader f) \<Longrightarrow> (\<not> b \<Longrightarrow> local_reader g) \<Longrightarrow> local_reader (\<lambda>c. if b then f c else g c)"
  by (cases b) simp_all

lemma local_reader_result:
  "(\<And>a. m = Inr a \<Longrightarrow> local_reader (k a)) \<Longrightarrow> local_reader (\<lambda>c. rbind m (\<lambda>a. k a c))"
  by (cases m) (simp_all add: local_reader_fail)

lemma local_read_byte: "local_reader (read_byte e)"
  unfolding local_reader_def
proof (intro allI impI)
  fix pre bs x d
  assume r: "read_byte e (cursor_at pre bs) = Inr (x, d)"
  then obtain r where "bs = x # r"
    by (cases bs) (simp_all add: read_byte_def cursor_at_def)
  with r show "\<exists>enc rest. bs = enc @ rest \<and> d = cursor_at (pre @ enc) rest \<and> reads (read_byte e) enc x"
    by (intro exI [of _ "[x]"] exI [of _ r]) (simp add: reads_def)
qed

lemma local_read_exact: "local_reader (read_exact e n)"
  unfolding local_reader_def
proof (intro allI impI)
  fix pre bs x d
  assume r: "read_exact e n (cursor_at pre bs) = Inr (x, d)"
  then have n: "n \<le> length bs"
    by (auto simp: read_exact_def split: if_splits)
  have "reads (read_exact e n) (take n bs) (take n bs)"
    using n read_exact_at [of e "take n bs"] by (simp add: reads_def min_absorb2)
  moreover from this [THEN readsD, of pre "drop n bs"] r
  have "d = cursor_at (pre @ take n bs) (drop n bs)" and "x = take n bs"
    by simp_all
  ultimately show "\<exists>enc rest. bs = enc @ rest \<and> d = cursor_at (pre @ enc) rest \<and> reads (read_exact e n) enc x"
    by (intro exI [of _ "take n bs"] exI [of _ "drop n bs"]) simp
qed

lemma local_read_var_uint_loop: "local_reader (read_var_uint_loop tr iv n acc s)"
proof (induction n arbitrary: acc s)
  case 0
  show ?case
    using local_reader_fail [of iv] by (simp add: fun_eq_iff)
next
  case (Suc n)
  have eq: "read_var_uint_loop tr iv (Suc n) acc s = (\<lambda>c. rbind (read_byte tr c) (\<lambda>(byte, c).
      if s \<ge> 64 \<or> (ucast (byte AND 0x7f) :: u64) > drop_bit s (- 1) then Inl iv
      else if byte AND 0x80 = 0 then
        (if acc OR push_bit s (ucast (byte AND 0x7f)) > LIB0_MAX_SAFE_UINT then Inl iv
         else Inr (acc OR push_bit s (ucast (byte AND 0x7f)), c))
      else read_var_uint_loop tr iv n (acc OR push_bit s (ucast (byte AND 0x7f))) (s + 7) c))"
    by (rule ext) (simp only: read_var_uint_loop.simps Let_def)
  show ?case
    unfolding eq
    by (intro local_reader_bind local_read_byte local_reader_if local_reader_fail
        local_reader_return Suc.IH)
qed

lemma local_read_var_uint: "local_reader (read_var_uint tr iv)"
  using local_read_var_uint_loop [of tr iv 10 0 0] by (simp add: read_var_uint_def [abs_def])

lemmas local_readers = local_reader_bind local_reader_result local_reader_if local_reader_fail
  local_reader_return local_read_exact local_read_var_uint

end
