(* ===== verification/YSync.thy ===== *)
theory YSync
  imports Lib0
begin

text \<open>
  \<open>src/collab/y_sync.rs\<close>: the y-protocol sync envelope inside a Hocuspocus Sync payload
  (a step number and a length-prefixed update), its parser and its encoder.
\<close>

datatype sync_step = Step1 | Step2 | Update

datatype y_sync_error = YTruncated | YInvalidVarUint | YBinaryTooLong

definition y_read_var_uint :: "cursor \<Rightarrow> y_sync_error + (u64 \<times> cursor)" where
  "y_read_var_uint c = read_var_uint YTruncated YInvalidVarUint c"

definition y_read_var_bytes :: "nat \<Rightarrow> cursor \<Rightarrow> y_sync_error + (u8 list \<times> cursor)" where
  "y_read_var_bytes max_binary c =
     rbind (y_read_var_uint c) (\<lambda>(len, c).
       rbind (ok_or (usize_try_from len) YBinaryTooLong) (\<lambda>len.
         if len > max_binary then Inl YBinaryTooLong else read_exact YTruncated len c))"

definition parse_sync_payload :: "u8 list \<Rightarrow> nat \<Rightarrow> y_sync_error + (sync_step \<times> u8 list)" where
  "parse_sync_payload y_protocol max_binary =
     rbind (y_read_var_uint (cursor_new y_protocol)) (\<lambda>(step_value, c).
       rbind (if step_value = 0 then Inr Step1
              else if step_value = 1 then Inr Step2
              else if step_value = 2 then Inr Update
              else Inl YInvalidVarUint) (\<lambda>step.
         rbind (y_read_var_bytes max_binary c) (\<lambda>(payload, c).
           if remaining c \<noteq> 0 then Inl YTruncated else Inr (step, payload))))"

definition sync_step_value :: "sync_step \<Rightarrow> u64" where
  "sync_step_value step = (case step of Step1 \<Rightarrow> 0 | Step2 \<Rightarrow> 1 | Update \<Rightarrow> 2)"

definition encode_sync_payload :: "sync_step \<Rightarrow> u8 list \<Rightarrow> u8 list" where
  "encode_sync_payload step payload =
     write_var_bytes (write_var_uint [] (sync_step_value step)) payload"

definition is_empty_update :: "u8 list \<Rightarrow> bool" where
  "is_empty_update payload \<longleftrightarrow> payload = [0, 0]"

section \<open>Lemmas\<close>

lemma y_read_var_bytes_at:
  assumes "length bs < 2 ^ 53"
  shows "y_read_var_bytes m (cursor_at pre (var_bytes bs @ rest)) =
    (if length bs > m then Inl YBinaryTooLong
     else Inr (bs, cursor_at (pre @ var_bytes bs) rest))"
  using assms safe_length [OF assms]
  by (simp add: y_read_var_bytes_def y_read_var_uint_def var_bytes_def read_var_uint_length)

lemma sync_step_value_safe: "sync_step_value step \<le> LIB0_MAX_SAFE_UINT"
  by (cases step) (simp_all add: sync_step_value_def word_le_nat_alt LIB0_unat)

lemma encode_sync_payload_eq:
  "encode_sync_payload step payload = var_uint (sync_step_value step) @ var_bytes payload"
  by (simp add: encode_sync_payload_def write_var_bytes_append write_var_uint_append)

lemma parse_encode_sync_payload:
  assumes "length payload < 2 ^ 53"
  shows "parse_sync_payload (encode_sync_payload step payload) m =
    (if length payload > m then Inl YBinaryTooLong else Inr (step, payload))"
proof -
  have "y_read_var_uint (cursor_new (encode_sync_payload step payload)) =
      Inr (sync_step_value step, cursor_at (var_uint (sync_step_value step)) (var_bytes payload))"
    using sync_step_value_safe [of step]
    by (simp add: y_read_var_uint_def encode_sync_payload_eq cursor_new_at
        var_uint_codec.get_put [where pre = "[]", simplified])
  moreover have "y_read_var_bytes m (cursor_at pre (var_bytes payload)) =
      (if length payload > m then Inl YBinaryTooLong
       else Inr (payload, cursor_at (pre @ var_bytes payload) []))" for pre
    using y_read_var_bytes_at [OF assms, of m pre "[]"] by simp
  ultimately show ?thesis
    by (cases step) (simp_all add: parse_sync_payload_def sync_step_value_def)
qed

text \<open>The reader inside \<open>parse_sync_payload\<close>: parsing succeeds exactly when it reads the
  whole input.\<close>

definition y_sync_reader :: "nat \<Rightarrow> cursor \<Rightarrow> y_sync_error + ((sync_step \<times> u8 list) \<times> cursor)" where
  "y_sync_reader m c =
     rbind (y_read_var_uint c) (\<lambda>(v, c).
     rbind (if v = 0 then Inr Step1 else if v = 1 then Inr Step2
            else if v = 2 then Inr Update else Inl YInvalidVarUint) (\<lambda>st.
     rbind (y_read_var_bytes m c) (\<lambda>(p, c). Inr ((st, p), c))))"

lemma parse_sync_payload_reader:
  "parse_sync_payload bs m =
    rbind (y_sync_reader m (cursor_new bs)) (\<lambda>(x, c). if remaining c \<noteq> 0 then Inl YTruncated else Inr x)"
  by (simp add: parse_sync_payload_def y_sync_reader_def rbind_assoc case_prod_unfold cong: if_cong)

lemma local_y_read_var_bytes: "local_reader (y_read_var_bytes m)"
  unfolding y_read_var_bytes_def [abs_def] y_read_var_uint_def
  by (intro local_readers)

lemma local_y_sync_reader: "local_reader (y_sync_reader m)"
  unfolding y_sync_reader_def [abs_def] y_read_var_uint_def
  by (intro local_readers local_y_read_var_bytes)

lemma parse_sync_payload_Inr:
  "parse_sync_payload bs m = Inr x \<longleftrightarrow> reads (y_sync_reader m) bs x"
proof
  assume "parse_sync_payload bs m = Inr x"
  then obtain d where "y_sync_reader m (cursor_at [] bs) = Inr (x, d)" and d: "remaining d = 0"
    by (auto simp: parse_sync_payload_reader cursor_new_at result_simps split: if_splits)
  from local_readerE [OF local_y_sync_reader this(1)] obtain enc rest where
    "bs = enc @ rest" "d = cursor_at ([] @ enc) rest" "reads (y_sync_reader m) enc x"
    by metis
  with d show "reads (y_sync_reader m) bs x"
    by simp
next
  assume "reads (y_sync_reader m) bs x"
  then show "parse_sync_payload bs m = Inr x"
    by (simp add: parse_sync_payload_reader cursor_new_at readsD_end)
qed

lemma y_read_var_bytes_bound: "y_read_var_bytes m c = Inr (p, d) \<Longrightarrow> length p \<le> m"
  by (auto simp: y_read_var_bytes_def result_simps read_exact_def remaining_def split: if_splits)

lemma parse_sync_payload_bound: "parse_sync_payload bs m = Inr (st, p) \<Longrightarrow> length p \<le> m"
  by (auto simp: parse_sync_payload_def result_simps dest: y_read_var_bytes_bound)

section \<open>Properties\<close>

text \<open>C17: The sync envelope round trips: for every step and every update below 2^53 bytes,
  parsing the encoded envelope returns the step and the update, or reports
  \<open>BinaryTooLong\<close> when the update exceeds the caller's limit; nothing else can happen.\<close>

theorem sync_payload_round_trip:
  assumes "length payload < 2 ^ 53"
  shows "parse_sync_payload (encode_sync_payload st payload) max_binary =
    (if length payload > max_binary then Inl YBinaryTooLong else Inr (st, payload))"
  using assms by (rule parse_encode_sync_payload)

theorem sync_payload_round_trip_witness:
  "parse_sync_payload (encode_sync_payload Update [0, 0]) 16 = Inr (Update, [0, 0])"
  using sync_payload_round_trip [of "[0, 0]" Update 16] by simp

end
