(* ===== verification/Wire.thy ===== *)
theory Wire
  imports YSync
begin

text \<open>
  \<open>src/collab/wire.rs\<close>: the bounded Hocuspocus frame codec. The first section holds the
  data types, the decoder and the encoder; the second an independent description of the bytes
  of a frame and of the size limits, the refinement of the encoder to it, and the facts about
  the decoder. \<open>Uuid::try_parse\<close> and the \<open>Display\<close> of \<open>Uuid\<close> (crate \<open>uuid\<close>) are
  the parameters \<open>try_parse\<close> and \<open>uuid_string\<close>. The \<open>limits\<close> field of the
  source's cursor and encoder never changes and is passed as an argument.
\<close>

section \<open>Types\<close>

record limits =
  max_frame_bytes :: nat
  max_routing_key_bytes :: nat
  max_string_bytes :: nat
  max_binary_payload_bytes :: nat

definition DEFAULT :: limits where
  "DEFAULT = \<lparr>max_frame_bytes = 8 * 1048576, max_routing_key_bytes = 512,
     max_string_bytes = 65536, max_binary_payload_bytes = 8 * 1048576\<rparr>"

datatype message_type =
  MtSync | MtAwareness | MtAuth | MtQueryAwareness | MtStateless | MtClose | MtSyncStatus
| MtPing | MtPong

definition message_type_from_u64 :: "u64 \<Rightarrow> message_type option" where
  "message_type_from_u64 v =
     (if v = 0 then Some MtSync else if v = 1 then Some MtAwareness
      else if v = 2 then Some MtAuth else if v = 3 then Some MtQueryAwareness
      else if v = 5 then Some MtStateless else if v = 7 then Some MtClose
      else if v = 8 then Some MtSyncStatus else if v = 9 then Some MtPing
      else if v = 10 then Some MtPong else None)"

definition message_type_as_u64 :: "message_type \<Rightarrow> u64" where
  "message_type_as_u64 t = (case t of MtSync \<Rightarrow> 0 | MtAwareness \<Rightarrow> 1 | MtAuth \<Rightarrow> 2
     | MtQueryAwareness \<Rightarrow> 3 | MtStateless \<Rightarrow> 5 | MtClose \<Rightarrow> 7 | MtSyncStatus \<Rightarrow> 8
     | MtPing \<Rightarrow> 9 | MtPong \<Rightarrow> 10)"

datatype auth_message_type = AtToken | AtPermissionDenied | AtAuthenticated

definition auth_message_type_from_u64 :: "u64 \<Rightarrow> auth_message_type option" where
  "auth_message_type_from_u64 v =
     (if v = 0 then Some AtToken else if v = 1 then Some AtPermissionDenied
      else if v = 2 then Some AtAuthenticated else None)"

definition auth_message_type_as_u64 :: "auth_message_type \<Rightarrow> u64" where
  "auth_message_type_as_u64 t =
     (case t of AtToken \<Rightarrow> 0 | AtPermissionDenied \<Rightarrow> 1 | AtAuthenticated \<Rightarrow> 2)"

definition sync_step_from_u64 :: "u64 \<Rightarrow> sync_step option" where
  "sync_step_from_u64 v =
     (if v = 0 then Some Step1 else if v = 1 then Some Step2
      else if v = 2 then Some Update else None)"

datatype collab_kind = Document | Task

record collab_room_name =
  workspace_id :: uuid
  kind :: collab_kind
  resource_id :: uuid

definition parse_source_uuid :: "(string \<Rightarrow> uuid option) \<Rightarrow> string \<Rightarrow> uuid option" where
  "parse_source_uuid try_parse value = (if length value \<noteq> 36 then None else try_parse value)"

definition collab_room_name_parse :: "(string \<Rightarrow> uuid option) \<Rightarrow> string \<Rightarrow> collab_room_name option" where
  "collab_room_name_parse try_parse name =
     (case split_on CHR '':'' name of
        [ws, kd, rs] \<Rightarrow>
          if ws = [] \<or> kd = [] \<or> rs = [] then None
          else Option.bind
            (if kd = ''document'' then Some Document
             else if kd = ''task'' then Some Task else None) (\<lambda>k.
            Option.bind (parse_source_uuid try_parse ws) (\<lambda>w.
            Option.bind (parse_source_uuid try_parse rs) (\<lambda>r.
              Some \<lparr>workspace_id = w, kind = k, resource_id = r\<rparr>)))
      | _ \<Rightarrow> None)"

definition routing_key :: "(uuid \<Rightarrow> string) \<Rightarrow> collab_room_name \<Rightarrow> string" where
  "routing_key uuid_string room =
     uuid_string (workspace_id room) @ '':'' @
     (case kind room of Document \<Rightarrow> ''document'' | Task \<Rightarrow> ''task'') @ '':'' @
     uuid_string (resource_id room)"

datatype connection_message = Ping | Pong

record sync_message =
  step :: sync_step
  y_protocol :: "u8 list"

datatype auth_message =
  Token string "string option"
| TokenRequest
| PermissionDenied string
| Authenticated string

datatype document_message =
  Sync sync_message
| Awareness "u8 list"
| Auth auth_message
| QueryAwareness
| Stateless string
| Close "string option"
| SyncStatus bool

datatype wire_frame =
  ConnectionFrame connection_message
| DocumentFrame string "collab_room_name option" document_message

datatype wire_error =
  EmptyFrame
| FrameTooLarge nat nat
| Truncated
| Utf8
| RoutingKeyTooLong nat nat
| StringTooLong nat nat
| BinaryTooLong nat nat
| UnknownMessageType u64
| UnknownAuthMessageType u64
| UnknownSyncStep u64
| InvalidVarUint
| DocumentPingNotAllowed
| DocumentPongNotAllowed

section \<open>Reading\<close>

definition w_read_var_uint :: "cursor \<Rightarrow> wire_error + (u64 \<times> cursor)" where
  "w_read_var_uint c = read_var_uint Truncated InvalidVarUint c"

definition bounded_len :: "u64 \<Rightarrow> nat \<Rightarrow> nat + nat" where
  "bounded_len len mx =
     (case usize_try_from len of
        Some sz \<Rightarrow> if sz \<le> mx then Inr sz else Inl sz
      | None \<Rightarrow> Inl (2 ^ 64 - 1))"

definition read_var_string :: "limits \<Rightarrow> cursor \<Rightarrow> wire_error + (string \<times> cursor)" where
  "read_var_string L c =
     rbind (w_read_var_uint c) (\<lambda>(len, c).
     rbind (map_err (\<lambda>size. StringTooLong size (max_string_bytes L))
              (bounded_len len (max_string_bytes L))) (\<lambda>len.
     rbind (read_exact Truncated len c) (\<lambda>(bytes, c).
     rbind (ok_or (from_utf8 bytes) Utf8) (\<lambda>s. Inr (s, c)))))"

definition w_read_var_bytes :: "limits \<Rightarrow> cursor \<Rightarrow> wire_error + (u8 list \<times> cursor)" where
  "w_read_var_bytes L c =
     rbind (w_read_var_uint c) (\<lambda>(len, c).
     rbind (map_err (\<lambda>size. BinaryTooLong size (max_binary_payload_bytes L))
              (bounded_len len (max_binary_payload_bytes L))) (\<lambda>len.
     read_exact Truncated len c))"

definition routing_key_base :: "string \<Rightarrow> string" where
  "routing_key_base key = (case split_once (CHR 0x00) key of Some (document_name, _) \<Rightarrow> document_name | None \<Rightarrow> key)"

definition decode_sync_payload :: "limits \<Rightarrow> cursor \<Rightarrow> wire_error + (sync_message \<times> cursor)" where
  "decode_sync_payload L c =
     (let start = pos c in
      rbind (w_read_var_uint c) (\<lambda>(step_value, c).
      rbind (ok_or (sync_step_from_u64 step_value) (UnknownSyncStep step_value)) (\<lambda>st.
      rbind (w_read_var_bytes L c) (\<lambda>(payload, c).
      Inr (\<lparr>step = st, y_protocol = drop start (take (pos c) (input c))\<rparr>, c)))))"

definition decode_auth :: "limits \<Rightarrow> cursor \<Rightarrow> wire_error + (auth_message \<times> cursor)" where
  "decode_auth L c =
     rbind (w_read_var_uint c) (\<lambda>(auth_value, c).
     rbind (ok_or (auth_message_type_from_u64 auth_value) (UnknownAuthMessageType auth_value)) (\<lambda>auth_type.
     case auth_type of
       AtToken \<Rightarrow>
         if remaining c = 0 then Inr (TokenRequest, c)
         else
           rbind (read_var_string L c) (\<lambda>(token, c).
           rbind (if remaining c > 0
                  then rbind (read_var_string L c) (\<lambda>(v, c). Inr (Some v, c))
                  else Inr (None, c)) (\<lambda>(provider_version, c).
           if remaining c > 0 then Inl Truncated else Inr (Token token provider_version, c)))
     | AtPermissionDenied \<Rightarrow>
         rbind (read_var_string L c) (\<lambda>(reason, c).
         if remaining c > 0 then Inl Truncated else Inr (PermissionDenied reason, c))
     | AtAuthenticated \<Rightarrow>
         rbind (read_var_string L c) (\<lambda>(scope, c).
         if remaining c > 0 then Inl Truncated else Inr (Authenticated scope, c))))"

definition decode_message :: "limits \<Rightarrow> message_type \<Rightarrow> cursor \<Rightarrow> wire_error + (document_message \<times> cursor)" where
  "decode_message L mt c =
     (case mt of
        MtPing \<Rightarrow> Inl DocumentPingNotAllowed
      | MtPong \<Rightarrow> Inl DocumentPongNotAllowed
      | MtSync \<Rightarrow> rbind (decode_sync_payload L c) (\<lambda>(s, c). Inr (Sync s, c))
      | MtAwareness \<Rightarrow> rbind (w_read_var_bytes L c) (\<lambda>(b, c). Inr (Awareness b, c))
      | MtAuth \<Rightarrow> rbind (decode_auth L c) (\<lambda>(a, c). Inr (Auth a, c))
      | MtQueryAwareness \<Rightarrow> if remaining c \<noteq> 0 then Inl Truncated else Inr (QueryAwareness, c)
      | MtStateless \<Rightarrow> rbind (read_var_string L c) (\<lambda>(s, c). Inr (Stateless s, c))
      | MtClose \<Rightarrow>
          rbind (if remaining c > 0
                 then rbind (read_var_string L c) (\<lambda>(s, c). Inr (Some s, c))
                 else Inr (None, c)) (\<lambda>(reason, c).
          if remaining c > 0 then Inl Truncated else Inr (Close reason, c))
      | MtSyncStatus \<Rightarrow>
          rbind (w_read_var_uint c) (\<lambda>(v, c).
          if remaining c \<noteq> 0 then Inl Truncated else Inr (SyncStatus (v = 1), c)))"

definition decode_with_limits ::
    "(string \<Rightarrow> uuid option) \<Rightarrow> u8 list \<Rightarrow> limits \<Rightarrow> wire_error + wire_frame" where
  "decode_with_limits try_parse bs L =
     (if bs = [] then Inl EmptyFrame
      else if length bs > max_frame_bytes L then Inl (FrameTooLarge (length bs) (max_frame_bytes L))
      else if length bs = 1 \<and> bs ! 0 = ucast (message_type_as_u64 MtPing) then Inr (ConnectionFrame Ping)
      else if length bs = 1 \<and> bs ! 0 = ucast (message_type_as_u64 MtPong) then Inr (ConnectionFrame Pong)
      else
        rbind (read_var_string L (cursor_new bs)) (\<lambda>(key, c).
        if length key > max_routing_key_bytes L
        then Inl (RoutingKeyTooLong (length key) (max_routing_key_bytes L))
        else
          rbind (w_read_var_uint c) (\<lambda>(type_value, c).
          rbind (ok_or (message_type_from_u64 type_value) (UnknownMessageType type_value)) (\<lambda>mt.
          let room = collab_room_name_parse try_parse (routing_key_base key) in
          rbind (decode_message L mt c) (\<lambda>(message, c).
          if remaining c \<noteq> 0 then Inl Truncated
          else Inr (DocumentFrame key room message))))))"

definition decode :: "(string \<Rightarrow> uuid option) \<Rightarrow> u8 list \<Rightarrow> wire_error + wire_frame" where
  "decode try_parse bs = decode_with_limits try_parse bs DEFAULT"

section \<open>Writing\<close>

definition ensure_frame_capacity :: "limits \<Rightarrow> u8 list \<Rightarrow> nat \<Rightarrow> wire_error + unit" where
  "ensure_frame_capacity L out additional =
     (if length out + additional > max_frame_bytes L
      then Inl (FrameTooLarge (length out + additional) (max_frame_bytes L)) else Inr ())"

function enc_var_uint :: "limits \<Rightarrow> u8 list \<Rightarrow> u64 \<Rightarrow> wire_error + u8 list" where
  "enc_var_uint L out rest =
     (case ensure_frame_capacity L out 1 of
        Inl e \<Rightarrow> Inl e
      | Inr _ \<Rightarrow>
          if rest < 0x80 then Inr (out @ [ucast rest])
          else enc_var_uint L (out @ [(ucast rest AND 0x7f) OR 0x80]) (drop_bit 7 rest))"
  by pat_completeness auto
termination
  by (relation "measure (\<lambda>(L, out, rest). unat rest)") (simp_all add: drop_seven_less)

declare enc_var_uint.simps [simp del]

definition write_raw :: "limits \<Rightarrow> u8 list \<Rightarrow> u8 list \<Rightarrow> wire_error + u8 list" where
  "write_raw L out value =
     rbind (ensure_frame_capacity L out (length value)) (\<lambda>_. Inr (out @ value))"

definition enc_var_string :: "limits \<Rightarrow> u8 list \<Rightarrow> string \<Rightarrow> wire_error + u8 list" where
  "enc_var_string L out value =
     (let bytes = as_bytes value in
      if length bytes > max_string_bytes L then Inl (StringTooLong (length bytes) (max_string_bytes L))
      else
        rbind (enc_var_uint L out (of_nat (length bytes))) (\<lambda>out.
        rbind (ensure_frame_capacity L out (length bytes)) (\<lambda>_.
        Inr (out @ bytes))))"

definition enc_var_bytes :: "limits \<Rightarrow> u8 list \<Rightarrow> u8 list \<Rightarrow> wire_error + u8 list" where
  "enc_var_bytes L out value =
     (if length value > max_binary_payload_bytes L
      then Inl (BinaryTooLong (length value) (max_binary_payload_bytes L))
      else
        rbind (enc_var_uint L out (of_nat (length value))) (\<lambda>out.
        rbind (ensure_frame_capacity L out (length value)) (\<lambda>_.
        Inr (out @ value))))"

definition encode_auth :: "limits \<Rightarrow> auth_message \<Rightarrow> u8 list \<Rightarrow> wire_error + u8 list" where
  "encode_auth L message out =
     (case message of
        Token token provider_version \<Rightarrow>
          rbind (enc_var_uint L out (auth_message_type_as_u64 AtToken)) (\<lambda>out.
          rbind (enc_var_string L out token) (\<lambda>out.
          case provider_version of
            Some version \<Rightarrow> enc_var_string L out version
          | None \<Rightarrow> Inr out))
      | TokenRequest \<Rightarrow> enc_var_uint L out (auth_message_type_as_u64 AtToken)
      | PermissionDenied reason \<Rightarrow>
          rbind (enc_var_uint L out (auth_message_type_as_u64 AtPermissionDenied)) (\<lambda>out.
          enc_var_string L out reason)
      | Authenticated scope \<Rightarrow>
          rbind (enc_var_uint L out (auth_message_type_as_u64 AtAuthenticated)) (\<lambda>out.
          enc_var_string L out scope))"

definition encode_message :: "limits \<Rightarrow> document_message \<Rightarrow> u8 list \<Rightarrow> wire_error + u8 list" where
  "encode_message L message out =
     (case message of
        Sync sync \<Rightarrow>
          rbind (enc_var_uint L out (message_type_as_u64 MtSync)) (\<lambda>out.
          write_raw L out (y_protocol sync))
      | Awareness payload \<Rightarrow>
          rbind (enc_var_uint L out (message_type_as_u64 MtAwareness)) (\<lambda>out.
          enc_var_bytes L out payload)
      | Auth auth \<Rightarrow>
          rbind (enc_var_uint L out (message_type_as_u64 MtAuth)) (\<lambda>out.
          encode_auth L auth out)
      | QueryAwareness \<Rightarrow> enc_var_uint L out (message_type_as_u64 MtQueryAwareness)
      | Stateless payload \<Rightarrow>
          rbind (enc_var_uint L out (message_type_as_u64 MtStateless)) (\<lambda>out.
          enc_var_string L out payload)
      | Close reason \<Rightarrow>
          rbind (enc_var_uint L out (message_type_as_u64 MtClose)) (\<lambda>out.
          case reason of Some reason \<Rightarrow> enc_var_string L out reason | None \<Rightarrow> Inr out)
      | SyncStatus applied \<Rightarrow>
          rbind (enc_var_uint L out (message_type_as_u64 MtSyncStatus)) (\<lambda>out.
          enc_var_uint L out (if applied then 1 else 0)))"

definition encode_with_limits :: "wire_frame \<Rightarrow> limits \<Rightarrow> wire_error + u8 list" where
  "encode_with_limits frame L =
     (case frame of
        ConnectionFrame Ping \<Rightarrow>
          rbind (ensure_frame_capacity L [] 1) (\<lambda>_. Inr ([] @ [ucast (message_type_as_u64 MtPing)]))
      | ConnectionFrame Pong \<Rightarrow> enc_var_uint L [] (message_type_as_u64 MtPong)
      | DocumentFrame key room message \<Rightarrow>
          if length key > max_routing_key_bytes L
          then Inl (RoutingKeyTooLong (length key) (max_routing_key_bytes L))
          else rbind (enc_var_string L [] key) (\<lambda>out. encode_message L message out))"

definition encode :: "wire_frame \<Rightarrow> wire_error + u8 list" where
  "encode frame = encode_with_limits frame DEFAULT"

section \<open>What the encoder writes\<close>

text \<open>The bytes of a frame, without any limit, and the sizes the limits speak about.\<close>

definition var_string :: "string \<Rightarrow> u8 list" where
  "var_string s = var_bytes (as_bytes s)"

fun auth_bytes :: "auth_message \<Rightarrow> u8 list" where
  "auth_bytes (Token t None) = var_uint 0 @ var_string t"
| "auth_bytes (Token t (Some v)) = var_uint 0 @ var_string t @ var_string v"
| "auth_bytes TokenRequest = var_uint 0"
| "auth_bytes (PermissionDenied r) = var_uint 1 @ var_string r"
| "auth_bytes (Authenticated s) = var_uint 2 @ var_string s"

fun message_tag :: "document_message \<Rightarrow> message_type" where
  "message_tag (Sync s) = MtSync"
| "message_tag (Awareness b) = MtAwareness"
| "message_tag (Auth a) = MtAuth"
| "message_tag QueryAwareness = MtQueryAwareness"
| "message_tag (Stateless s) = MtStateless"
| "message_tag (Close r) = MtClose"
| "message_tag (SyncStatus b) = MtSyncStatus"

fun message_body :: "document_message \<Rightarrow> u8 list" where
  "message_body (Sync s) = y_protocol s"
| "message_body (Awareness b) = var_bytes b"
| "message_body (Auth a) = auth_bytes a"
| "message_body QueryAwareness = []"
| "message_body (Stateless s) = var_string s"
| "message_body (Close None) = []"
| "message_body (Close (Some r)) = var_string r"
| "message_body (SyncStatus b) = var_uint (if b then 1 else 0)"

definition message_bytes :: "document_message \<Rightarrow> u8 list" where
  "message_bytes m = var_uint (message_type_as_u64 (message_tag m)) @ message_body m"

fun frame_bytes :: "wire_frame \<Rightarrow> u8 list" where
  "frame_bytes (ConnectionFrame Ping) = [9]"
| "frame_bytes (ConnectionFrame Pong) = [10]"
| "frame_bytes (DocumentFrame key room m) = var_string key @ message_bytes m"

fun auth_strings :: "auth_message \<Rightarrow> string list" where
  "auth_strings (Token t v) = t # (case v of None \<Rightarrow> [] | Some v \<Rightarrow> [v])"
| "auth_strings TokenRequest = []"
| "auth_strings (PermissionDenied r) = [r]"
| "auth_strings (Authenticated s) = [s]"

fun message_strings :: "document_message \<Rightarrow> string list" where
  "message_strings (Auth a) = auth_strings a"
| "message_strings (Stateless s) = [s]"
| "message_strings (Close (Some r)) = [r]"
| "message_strings m = []"

fun message_binary :: "document_message \<Rightarrow> u8 list" where
  "message_binary (Awareness b) = b"
| "message_binary m = []"

fun within_limits :: "limits \<Rightarrow> wire_frame \<Rightarrow> bool" where
  "within_limits L (ConnectionFrame m) \<longleftrightarrow> True"
| "within_limits L (DocumentFrame key room m) \<longleftrightarrow>
     length key \<le> max_routing_key_bytes L \<and>
     list_all (\<lambda>s. length s \<le> max_string_bytes L) (key # message_strings m) \<and>
     length (message_binary m) \<le> max_binary_payload_bytes L"

lemma ensure_frame_capacity_Inr [result_simps]:
  "ensure_frame_capacity L out n = Inr u \<longleftrightarrow> length out + n \<le> max_frame_bytes L"
  by (auto simp: ensure_frame_capacity_def)

lemma enc_var_uint_Inr [result_simps]:
  "enc_var_uint L out v = Inr bs \<longleftrightarrow> bs = out @ var_uint v \<and> length bs \<le> max_frame_bytes L"
proof (induction L out v rule: enc_var_uint.induct)
  case (1 L out v)
  show ?case
  proof (cases "ensure_frame_capacity L out 1")
    case (Inl e)
    then have "length (out @ var_uint v) > max_frame_bytes L"
      using Suc_leI [OF length_var_uint_pos [of v]]
      by (auto simp: ensure_frame_capacity_def simp del: Suc_le_eq split: if_splits)
    with Inl show ?thesis
      by (subst enc_var_uint.simps) auto
  next
    case (Inr u)
    then have fits: "Suc (length out) \<le> max_frame_bytes L"
      by (simp add: result_simps)
    show ?thesis
    proof (cases "v < 0x80")
      case True
      with Inr fits show ?thesis
        by (subst enc_var_uint.simps) (auto simp: var_uint_small)
    next
      case False
      with 1 [OF Inr] Inr show ?thesis
        by (subst enc_var_uint.simps) (auto simp: var_uint_step [OF False])
    qed
  qed
qed

lemma enc_var_string_Inr [result_simps]:
  "enc_var_string L out s = Inr bs \<longleftrightarrow>
    length s \<le> max_string_bytes L \<and> bs = out @ var_string s \<and> length bs \<le> max_frame_bytes L"
  by (auto simp: enc_var_string_def result_simps var_string_def var_bytes_def Let_def)

lemma enc_var_bytes_Inr [result_simps]:
  "enc_var_bytes L out b = Inr bs \<longleftrightarrow>
    length b \<le> max_binary_payload_bytes L \<and> bs = out @ var_bytes b \<and> length bs \<le> max_frame_bytes L"
  by (auto simp: enc_var_bytes_def result_simps var_bytes_def)

lemma write_raw_Inr [result_simps]:
  "write_raw L out b = Inr bs \<longleftrightarrow> bs = out @ b \<and> length bs \<le> max_frame_bytes L"
  by (auto simp: write_raw_def result_simps)

lemmas tag_values = message_type_as_u64_def auth_message_type_as_u64_def

lemma encode_auth_Inr [result_simps]:
  "encode_auth L a out = Inr bs \<longleftrightarrow>
    list_all (\<lambda>s. length s \<le> max_string_bytes L) (auth_strings a) \<and>
    bs = out @ auth_bytes a \<and> length bs \<le> max_frame_bytes L"
  by (cases a rule: auth_bytes.cases)
    (auto simp: encode_auth_def result_simps tag_values)

lemma encode_message_Inr [result_simps]:
  "encode_message L m out = Inr bs \<longleftrightarrow>
    list_all (\<lambda>s. length s \<le> max_string_bytes L) (message_strings m) \<and>
    length (message_binary m) \<le> max_binary_payload_bytes L \<and>
    bs = out @ message_bytes m \<and> length bs \<le> max_frame_bytes L"
  by (cases m rule: message_body.cases)
    (auto simp: encode_message_def message_bytes_def result_simps)

lemma encode_with_limits_Inr:
  "encode_with_limits f L = Inr bs \<longleftrightarrow>
    within_limits L f \<and> bs = frame_bytes f \<and> length bs \<le> max_frame_bytes L"
  by (cases f rule: frame_bytes.cases)
    (auto simp: encode_with_limits_def result_simps tag_values var_uint_small)

section \<open>What the decoder accepts\<close>

lemma bounded_len_Inr [result_simps]: "bounded_len v m = Inr n \<longleftrightarrow> n = unat v \<and> n \<le> m"
  by (auto simp: bounded_len_def)

lemma bounded_len_length:
  "n < 2 ^ 53 \<Longrightarrow> n \<le> m \<Longrightarrow> bounded_len (of_nat n) m = Inr n"
  using safe_length [of n] by (simp add: bounded_len_def)

definition string_ok :: "limits \<Rightarrow> string \<Rightarrow> bool" where
  "string_ok L s \<longleftrightarrow> str_ok s \<and> length s \<le> max_string_bytes L \<and> length s < 2 ^ 53"

definition binary_ok :: "limits \<Rightarrow> u8 list \<Rightarrow> bool" where
  "binary_ok L b \<longleftrightarrow> length b \<le> max_binary_payload_bytes L \<and> length b < 2 ^ 53"

interpretation var_string_codec: cursor_codec var_string "read_var_string L" "string_ok L" for L
proof
  fix s pre rest
  assume s: "string_ok L s"
  then have "read_exact Truncated (length s) (cursor_at p (as_bytes s @ rest)) =
      Inr (as_bytes s, cursor_at (p @ as_bytes s) rest)" for p
    using read_exact_at [of Truncated "as_bytes s" p rest] by simp
  with s show "read_var_string L (cursor_at pre (var_string s @ rest)) =
      Inr (s, cursor_at (pre @ var_string s) rest)"
    by (simp add: read_var_string_def w_read_var_uint_def var_string_def var_bytes_def string_ok_def
        read_var_uint_length bounded_len_length)
qed

interpretation w_var_bytes_codec: cursor_codec var_bytes "w_read_var_bytes L" "binary_ok L" for L
  by unfold_locales
    (simp add: w_read_var_bytes_def w_read_var_uint_def var_bytes_def binary_ok_def
      read_var_uint_length bounded_len_length)

lemma w_read_small [simp]:
  "v \<le> 10 \<Longrightarrow> w_read_var_uint (cursor_at pre (var_uint v @ rest)) = Inr (v, cursor_at (pre @ var_uint v) rest)"
proof -
  assume "v \<le> 10"
  moreover have "(10 :: u64) \<le> LIB0_MAX_SAFE_UINT"
    by (simp add: word_le_nat_alt LIB0_unat)
  ultimately show ?thesis
    by (simp add: w_read_var_uint_def var_uint_codec.get_put)
qed

lemma w_read_small_end [simp]:
  "v \<le> 10 \<Longrightarrow> w_read_var_uint (cursor_at pre (var_uint v)) = Inr (v, cursor_at (pre @ var_uint v) [])"
  using w_read_small [of v pre "[]"] by simp

text \<open>The sync payload is the reader of \<open>y_sync.rs\<close> with this module's errors.\<close>

definition w_sync_reader :: "limits \<Rightarrow> cursor \<Rightarrow> wire_error + ((sync_step \<times> u8 list) \<times> cursor)" where
  "w_sync_reader L c =
     rbind (w_read_var_uint c) (\<lambda>(v, c).
     rbind (ok_or (sync_step_from_u64 v) (UnknownSyncStep v)) (\<lambda>st.
     rbind (w_read_var_bytes L c) (\<lambda>(p, c). Inr ((st, p), c))))"

lemma local_w_read_var_bytes: "local_reader (w_read_var_bytes L)"
  unfolding w_read_var_bytes_def [abs_def] w_read_var_uint_def
  by (intro local_readers)

lemma local_w_sync_reader: "local_reader (w_sync_reader L)"
  unfolding w_sync_reader_def [abs_def] w_read_var_uint_def
  by (intro local_readers local_w_read_var_bytes)

lemma w_var_uint_iff: "w_read_var_uint c = Inr x \<longleftrightarrow> y_read_var_uint c = Inr x"
  unfolding w_read_var_uint_def y_read_var_uint_def by (blast intro: read_var_uint_Inr_errs)

lemma w_var_bytes_iff:
  "w_read_var_bytes L c = Inr x \<longleftrightarrow> y_read_var_bytes (max_binary_payload_bytes L) c = Inr x"
  by (auto simp: w_read_var_bytes_def y_read_var_bytes_def w_var_uint_iff
      result_simps not_less split: if_splits dest: read_exact_Inr_errs)

lemma sync_step_from_u64_iff:
  "(if v = 0 then Inr Step1 else if v = 1 then Inr Step2
    else if v = 2 then Inr Update else Inl YInvalidVarUint) = Inr st \<longleftrightarrow> sync_step_from_u64 v = Some st"
  by (simp add: sync_step_from_u64_def)

lemma w_sync_reader_iff:
  "w_sync_reader L c = Inr x \<longleftrightarrow> y_sync_reader (max_binary_payload_bytes L) c = Inr x"
  unfolding w_sync_reader_def y_sync_reader_def rbind_eq_Inr split_paired_Ex prod.case
    w_var_uint_iff w_var_bytes_iff ok_or_eq_Inr sync_step_from_u64_iff sum.inject ..

lemma reads_sync_iff:
  "reads (w_sync_reader L) enc x \<longleftrightarrow> parse_sync_payload enc (max_binary_payload_bytes L) = Inr x"
  by (simp add: parse_sync_payload_Inr reads_def w_sync_reader_iff)

lemma decode_sync_payload_reader:
  "decode_sync_payload L c = rbind (w_sync_reader L c) (\<lambda>((st, p), d).
     Inr (\<lparr>step = st, y_protocol = drop (pos c) (take (pos d) (input d))\<rparr>, d))"
  by (simp add: decode_sync_payload_def w_sync_reader_def rbind_assoc case_prod_unfold Let_def)

lemma decode_sync_payload_Inr:
  assumes "decode_sync_payload L (cursor_at pre bs) = Inr (m, d)"
  obtains rest p where "bs = y_protocol m @ rest" and "d = cursor_at (pre @ y_protocol m) rest"
    and "parse_sync_payload (y_protocol m) (max_binary_payload_bytes L) = Inr (step m, p)"
proof -
  from assms obtain st p where r: "w_sync_reader L (cursor_at pre bs) = Inr ((st, p), d)"
    and m: "m = \<lparr>step = st, y_protocol = drop (length pre) (take (pos d) (input d))\<rparr>"
    by (auto simp: decode_sync_payload_reader result_simps)
  from local_readerE [OF local_w_sync_reader r] obtain enc rest where
    e: "bs = enc @ rest" "d = cursor_at (pre @ enc) rest" "reads (w_sync_reader L) enc (st, p)"
    by metis
  with m have "y_protocol m = enc" and "step m = st"
    by simp_all
  with e that show thesis
    by (simp add: reads_sync_iff)
qed

lemma decode_sync_payload_at:
  assumes "parse_sync_payload (y_protocol m) (max_binary_payload_bytes L) = Inr (step m, p)"
  shows "decode_sync_payload L (cursor_at pre (y_protocol m)) = Inr (m, cursor_at (pre @ y_protocol m) [])"
  using assms readsD_end [of "w_sync_reader L"]
  by (simp add: reads_sync_iff [symmetric] decode_sync_payload_reader)

text \<open>The frames the decoder can return: strings are UTF-8, the room is the one
  the routing key names, and a sync payload is one the sync parser accepts with that step.\<close>

fun message_ok :: "limits \<Rightarrow> document_message \<Rightarrow> bool" where
  "message_ok L (Sync s) \<longleftrightarrow>
     (case parse_sync_payload (y_protocol s) (max_binary_payload_bytes L) of
        Inr (st, p) \<Rightarrow> st = step s | Inl _ \<Rightarrow> False)"
| "message_ok L m \<longleftrightarrow> list_all str_ok (message_strings m)"

fun frame_ok :: "(string \<Rightarrow> uuid option) \<Rightarrow> limits \<Rightarrow> wire_frame \<Rightarrow> bool" where
  "frame_ok try_parse L (ConnectionFrame m) \<longleftrightarrow> True"
| "frame_ok try_parse L (DocumentFrame key room m) \<longleftrightarrow>
     str_ok key \<and> room = collab_room_name_parse try_parse (routing_key_base key) \<and> message_ok L m"

lemma message_ok_Sync: "message_ok L (Sync s) \<longleftrightarrow>
    (\<exists>p. parse_sync_payload (y_protocol s) (max_binary_payload_bytes L) = Inr (step s, p))"
  by (auto split: sum.splits)

lemma var_string_nonempty [simp]: "var_string s \<noteq> []"
  by (simp add: var_string_def var_bytes_def)

lemma length_var_string_pos: "0 < length (var_string s)"
  by simp

lemma length_var_string [simp]: "length s \<le> length (var_string s)"
  by (simp add: var_string_def var_bytes_def)

lemma decode_auth_at:
  assumes "list_all (string_ok L) (auth_strings a)"
  shows "decode_auth L (cursor_at pre (auth_bytes a)) = Inr (a, cursor_at (pre @ auth_bytes a) [])"
  using assms
  by (cases a rule: auth_bytes.cases)
    (simp_all add: decode_auth_def auth_message_type_from_u64_def var_string_codec.get_put
      var_string_codec.get_put_end)

lemma decode_message_at:
  assumes "list_all (string_ok L) (message_strings m)" and "binary_ok L (message_binary m)"
    and "message_ok L m"
  shows "decode_message L (message_tag m) (cursor_at pre (message_body m)) =
    Inr (m, cursor_at (pre @ message_body m) [])"
proof (cases m)
  case (Sync s)
  with assms(3) message_ok_Sync obtain p where
    "parse_sync_payload (y_protocol s) (max_binary_payload_bytes L) = Inr (step s, p)"
    by blast
  with Sync show ?thesis
    by (simp add: decode_message_def decode_sync_payload_at)
next
  case (Close r)
  with assms show ?thesis
    by (cases r) (simp_all add: decode_message_def var_string_codec.get_put_end)
qed (use assms in \<open>auto simp: decode_message_def decode_auth_at
      w_var_bytes_codec.get_put_end var_string_codec.get_put_end\<close>)

lemma message_type_as_u64_small: "message_type_as_u64 t \<le> 10"
  by (cases t) (simp_all add: message_type_as_u64_def)

lemma message_type_round: "message_type_from_u64 (message_type_as_u64 t) = Some t"
  by (cases t) (simp_all add: message_type_as_u64_def message_type_from_u64_def)

lemma list_all_string_ok:
  assumes "list_all str_ok ss" and "list_all (\<lambda>s. length s \<le> max_string_bytes L) ss"
    and "list_all (\<lambda>s. length s < 2 ^ 53) ss"
  shows "list_all (string_ok L) ss"
  using assms by (induction ss) (simp_all add: string_ok_def)

lemma length_auth_strings: "list_all (\<lambda>s. length s \<le> length (auth_bytes a)) (auth_strings a)"
  by (cases a rule: auth_bytes.cases) (simp_all add: trans_le_add2 add.assoc trans_le_add1)

lemma list_all_length_mono:
  "list_all (\<lambda>s. length s \<le> n) ss \<Longrightarrow> n \<le> k \<Longrightarrow> list_all (\<lambda>s. length s \<le> k) ss"
  by (auto simp: list_all_iff)

lemma length_message_strings: "list_all (\<lambda>s. length s \<le> length (message_bytes m)) (message_strings m)"
proof (cases m)
  case (Auth a)
  then show ?thesis
    using list_all_length_mono [OF length_auth_strings [of a]] by (simp add: message_bytes_def)
next
  case (Close r)
  then show ?thesis
    by (cases r) (simp_all add: message_bytes_def trans_le_add2)
qed (simp_all add: message_bytes_def trans_le_add2)

lemma length_message_binary: "length (message_binary m) \<le> length (message_bytes m)"
  by (cases m) (simp_all add: message_bytes_def var_bytes_def)

lemma message_ok_strings: "message_ok L m \<Longrightarrow> list_all str_ok (message_strings m)"
  by (cases m) simp_all

lemma decode_frame_bytes:
  assumes ok: "frame_ok tp L f" and within: "within_limits L f"
    and fits: "length (frame_bytes f) \<le> max_frame_bytes L" and small: "length (frame_bytes f) < 2 ^ 53"
  shows "decode_with_limits tp (frame_bytes f) L = Inr f"
proof (cases f)
  case (ConnectionFrame m)
  then show ?thesis
    using fits by (cases m) (simp_all add: decode_with_limits_def message_type_as_u64_def)
next
  case (DocumentFrame key room m)
  let ?tag = "message_type_as_u64 (message_tag m)"
  let ?p = "var_string key @ var_uint ?tag"
  have f: "frame_bytes f = var_string key @ var_uint ?tag @ message_body m"
    by (simp add: DocumentFrame message_bytes_def)
  have "1 < length (frame_bytes f)"
    using length_var_uint_pos [of ?tag] length_var_string_pos [of key]
    unfolding f length_append by linarith
  moreover have "read_var_string L (cursor_new (frame_bytes f)) =
      Inr (key, cursor_at (var_string key) (var_uint ?tag @ message_body m))"
  proof -
    have "string_ok L key"
      using ok within small length_var_string [of key]
      by (simp add: DocumentFrame string_ok_def del: length_var_string)
    then show ?thesis
      using var_string_codec.get_put [of L key "[]"] by (simp add: f cursor_new_at)
  qed
  moreover have "decode_message L (message_tag m) (cursor_at ?p (message_body m)) =
      Inr (m, cursor_at (?p @ message_body m) [])"
  proof (rule decode_message_at)
    have "list_all (\<lambda>s. length s < 2 ^ 53) (message_strings m)"
      using length_message_strings [of m] small
      by (auto simp: DocumentFrame list_all_iff)
    then show "list_all (string_ok L) (message_strings m)"
      using message_ok_strings [of L m] ok within by (intro list_all_string_ok) (simp_all add: DocumentFrame)
    show "binary_ok L (message_binary m)"
      using within small length_message_binary [of m] by (simp add: DocumentFrame binary_ok_def)
    show "message_ok L m"
      using ok by (simp add: DocumentFrame)
  qed
  ultimately show ?thesis
    using fits ok within
    by (simp add: decode_with_limits_def message_type_as_u64_small message_type_round DocumentFrame Let_def)
qed

text \<open>Conversely, whatever the decoder returns is such a frame, within the limits.\<close>

definition string_within :: "limits \<Rightarrow> string \<Rightarrow> bool" where
  "string_within L s \<longleftrightarrow> str_ok s \<and> length s \<le> max_string_bytes L"

lemma read_exact_length: "read_exact e n c = Inr (bs, d) \<Longrightarrow> length bs = n"
  by (auto simp: read_exact_def remaining_def split: if_splits)

lemma read_var_string_within: "read_var_string L c = Inr (s, d) \<Longrightarrow> string_within L s"
  by (auto simp: read_var_string_def string_within_def result_simps from_utf8_length
      dest!: read_exact_length dest: from_utf8_SomeD)

lemma w_read_var_bytes_within: "w_read_var_bytes L c = Inr (b, d) \<Longrightarrow> length b \<le> max_binary_payload_bytes L"
  by (auto simp: w_read_var_bytes_def result_simps dest: read_exact_length)

lemma decode_auth_within:
  assumes "decode_auth L c = Inr (a, d)"
  shows "list_all (string_within L) (auth_strings a)"
proof -
  from assms obtain v e t where "w_read_var_uint c = Inr (v, e)" and "auth_message_type_from_u64 v = Some t"
    by (auto simp: decode_auth_def result_simps)
  with assms show ?thesis
    by (cases t) (auto simp: decode_auth_def result_simps split: if_splits
        dest!: read_var_string_within)
qed

lemma decode_message_within:
  assumes "decode_message L mt (cursor_at pre bs) = Inr (m, d)"
  shows "message_ok L m \<and> list_all (string_within L) (message_strings m) \<and>
    length (message_binary m) \<le> max_binary_payload_bytes L"
proof (cases mt)
  case MtSync
  with assms obtain s where s: "decode_sync_payload L (cursor_at pre bs) = Inr (s, d)" and m: "m = Sync s"
    by (auto simp: decode_message_def result_simps)
  from s obtain p where "parse_sync_payload (y_protocol s) (max_binary_payload_bytes L) = Inr (step s, p)"
    by (rule decode_sync_payload_Inr)
  with m show ?thesis
    by simp
next
  case MtAuth
  with assms obtain a where "decode_auth L (cursor_at pre bs) = Inr (a, d)" and "m = Auth a"
    by (auto simp: decode_message_def result_simps)
  with decode_auth_within show ?thesis
    by (fastforce simp: string_within_def list_all_iff)
qed (use assms in \<open>auto simp: decode_message_def result_simps string_within_def split: if_splits
    dest!: read_var_string_within w_read_var_bytes_within\<close>)

lemma local_read_var_string: "local_reader (read_var_string L)"
  unfolding read_var_string_def [abs_def] w_read_var_uint_def
  by (intro local_readers)

lemma local_w_read_var_uint: "local_reader w_read_var_uint"
  unfolding w_read_var_uint_def [abs_def] by (rule local_read_var_uint)

lemma decode_within:
  assumes "decode_with_limits tp bs L = Inr f"
  shows "frame_ok tp L f \<and> within_limits L f \<and> length bs \<le> max_frame_bytes L"
proof (cases f)
  case (ConnectionFrame c)
  with assms show ?thesis
    by (auto simp: decode_with_limits_def split: if_splits)
next
  case (DocumentFrame key room m)
  with assms obtain c v d mt e where
    key: "read_var_string L (cursor_at [] bs) = Inr (key, c)" "length key \<le> max_routing_key_bytes L"
    and room: "room = collab_room_name_parse tp (routing_key_base key)"
    and v: "w_read_var_uint c = Inr (v, d)"
    and m: "decode_message L mt d = Inr (m, e)"
    and len: "length bs \<le> max_frame_bytes L"
    by (auto simp: decode_with_limits_def result_simps Let_def cursor_new_at not_less split: if_splits)
  from local_readerE [OF local_read_var_string key(1)] obtain p1 r1 where c: "c = cursor_at p1 r1"
    by metis
  from local_readerE [OF local_w_read_var_uint v [unfolded c]] obtain p2 r2 where d: "d = cursor_at p2 r2"
    by metis
  show ?thesis
    using read_var_string_within [OF key(1)] decode_message_within [OF m [unfolded d]] key(2) room len
    by (auto simp: DocumentFrame string_within_def list_all_iff)
qed

section \<open>Room names\<close>

lemma room_name_parse_routing_key:
  assumes "\<And>u. u \<in> {workspace_id room, resource_id room} \<Longrightarrow> try_parse (uuid_string u) = Some u \<and>
    length (uuid_string u) = 36 \<and> CHR '':'' \<notin> set (uuid_string u)"
  shows "collab_room_name_parse try_parse (routing_key uuid_string room) = Some room"
proof -
  have "uuid_string u \<noteq> []" if "u \<in> {workspace_id room, resource_id room}" for u
    using assms [OF that] by auto
  then show ?thesis
    using assms
    by (cases "kind room")
      (simp_all add: collab_room_name_parse_def routing_key_def parse_source_uuid_def split_on_append
        split_on_no_sep)
qed

section \<open>Properties\<close>

text \<open>The room does not travel: a reader derives it from the routing key. The server leaves it out of the frames it
  builds itself.\<close>

fun with_named_room :: "(string \<Rightarrow> uuid option) \<Rightarrow> wire_frame \<Rightarrow> wire_frame" where
  "with_named_room try_parse (ConnectionFrame m) = ConnectionFrame m"
| "with_named_room try_parse (DocumentFrame key room m) =
     DocumentFrame key (collab_room_name_parse try_parse (routing_key_base key)) m"

lemma with_named_room_ok: "frame_ok try_parse L f \<Longrightarrow> with_named_room try_parse f = f"
  by (cases f) simp_all

lemma encode_named_room: "encode_with_limits (with_named_room try_parse f) L = encode_with_limits f L"
  by (cases f) (simp_all add: encode_with_limits_def)

text \<open>C5: The frame codec round trips, up to the room. For any frame limit below 2^53 bytes: take a frame whose
  strings are UTF-8 and whose sync payload, if it is one, is one that the sync parser accepts with the frame's step. If
  the encoder accepts it, the decoder returns from its bytes the same routing key, message kind and payload, with the
  room that the routing key names; so a frame that carries that room already comes back unchanged, and one that
  carries none (as those the server builds) comes back with its room filled in.\<close>

theorem wire_round_trip:
  assumes "max_frame_bytes L < 2 ^ 53" and "frame_ok try_parse L (with_named_room try_parse f)"
    and "encode_with_limits f L = Inr bs"
  shows "decode_with_limits try_parse bs L = Inr (with_named_room try_parse f) \<and>
    (frame_ok try_parse L f \<longrightarrow> decode_with_limits try_parse bs L = Inr f)"
proof -
  have "encode_with_limits (with_named_room try_parse f) L = Inr bs"
    using assms(3) by (simp add: encode_named_room)
  then have "decode_with_limits try_parse bs L = Inr (with_named_room try_parse f)"
    using assms(1,2) decode_frame_bytes [of try_parse L "with_named_room try_parse f"] by (auto simp: encode_with_limits_Inr)
  with with_named_room_ok show ?thesis
    by auto
qed

text \<open>A frame of the server, without a room, under a routing key that names one.\<close>

definition sample_key :: string where
  "sample_key = replicate 36 CHR ''a'' @ '':task:'' @ replicate 36 CHR ''b''"

theorem wire_round_trip_witness:
  "\<exists>bs. encode_with_limits (DocumentFrame sample_key None (SyncStatus True)) DEFAULT = Inr bs \<and>
    decode_with_limits (\<lambda>s. Some (of_nat (length s))) bs DEFAULT =
      Inr (DocumentFrame sample_key (Some \<lparr>workspace_id = 36, kind = Task, resource_id = 36\<rparr>) (SyncStatus True))"
proof -
  let ?parse = "\<lambda>s. Some (of_nat (length s)) :: uuid option" and ?f = "DocumentFrame sample_key None (SyncStatus True)"
  have f: "with_named_room ?parse ?f =
      DocumentFrame sample_key (Some \<lparr>workspace_id = 36, kind = Task, resource_id = 36\<rparr>) (SyncStatus True)"
    by code_simp
  have "\<not> isl (encode_with_limits ?f DEFAULT)"
    by code_simp
  then obtain bs where bs: "encode_with_limits ?f DEFAULT = Inr bs"
    by (metis sum.disc(1) sum.exhaust)
  have "max_frame_bytes DEFAULT < 2 ^ 53"
    by (simp add: DEFAULT_def)
  moreover have "frame_ok ?parse DEFAULT (with_named_room ?parse ?f)"
    by code_simp
  ultimately show ?thesis
    using wire_round_trip [of DEFAULT ?parse ?f bs] bs f by simp
qed

text \<open>C6: The encoder writes exactly the specified bytes, within every limit. It succeeds if
  and only if the routing key, each string and the binary payload respect their limits and the
  whole frame respects the frame limit; the bytes are then those of the frame's description
  (routing key, type, body), although capacity is only checked piecewise while writing.\<close>

theorem wire_encode_exact:
  "encode_with_limits f L = Inr bs \<longleftrightarrow>
    within_limits L f \<and> bs = frame_bytes f \<and> length (frame_bytes f) \<le> max_frame_bytes L"
  using encode_with_limits_Inr by auto

text \<open>C16: The decoder enforces the limits and accepts only well-formed frames. A decoded frame
  came from at most \<open>max_frame_bytes\<close> bytes, its strings are UTF-8 and within their limits,
  its binary payload is within its limit, the room is the one its routing key names, and if it
  is encoded again, decoding the result gives the same frame.\<close>

theorem wire_decode_sound:
  assumes "decode_with_limits try_parse bs L = Inr f" and "max_frame_bytes L < 2 ^ 53"
  shows "length bs \<le> max_frame_bytes L \<and> frame_ok try_parse L f \<and> within_limits L f \<and>
    (case encode_with_limits f L of
       Inr bs' \<Rightarrow> decode_with_limits try_parse bs' L = Inr f
     | Inl e \<Rightarrow> length (frame_bytes f) > max_frame_bytes L)"
proof (cases "encode_with_limits f L")
  case (Inl e)
  then have "\<not> length (frame_bytes f) \<le> max_frame_bytes L"
    using decode_within [OF assms(1)] encode_with_limits_Inr [of f L "frame_bytes f"] by auto
  with Inl decode_within [OF assms(1)] show ?thesis
    by simp
next
  case (Inr bs')
  then have "bs' = frame_bytes f" and "length (frame_bytes f) \<le> max_frame_bytes L"
    by (auto simp: encode_with_limits_Inr)
  with Inr assms(2) decode_within [OF assms(1)] decode_frame_bytes [of try_parse L f] show ?thesis
    by simp
qed

theorem wire_decode_sound_witness:
  "within_limits DEFAULT (DocumentFrame ''ab'' None (Awareness [1, 2]))"
proof -
  have "decode_with_limits (\<lambda>_. None) [2, 97, 98, 1, 2, 1, 2] DEFAULT =
      Inr (DocumentFrame ''ab'' None (Awareness [1, 2]))"
    by code_simp
  moreover have "max_frame_bytes DEFAULT < 2 ^ 53"
    by (simp add: DEFAULT_def)
  ultimately show ?thesis
    using wire_decode_sound by blast
qed

text \<open>A room's routing key names that room. For identifiers whose textual form is 36
  characters without a colon and parses back (the hyphenated form of the \<open>uuid\<close> crate),
  parsing the routing key returns the room it was made from.\<close>

lemma room_name_round_trip:
  assumes "\<forall>u \<in> {workspace_id room, resource_id room}. try_parse (uuid_string u) = Some u \<and>
    length (uuid_string u) = 36 \<and> CHR '':'' \<notin> set (uuid_string u)"
  shows "collab_room_name_parse try_parse (routing_key uuid_string room) = Some room"
  using assms by (intro room_name_parse_routing_key) auto

lemma room_name_round_trip_witness:
  "collab_room_name_parse
     (\<lambda>s. if s = ''00000000-0000-0000-0000-000000000001'' then Some 1
          else if s = ''00000000-0000-0000-0000-000000000002'' then Some 2 else None)
     ''00000000-0000-0000-0000-000000000001:task:00000000-0000-0000-0000-000000000002'' =
   Some \<lparr>workspace_id = 1, kind = Task, resource_id = 2\<rparr>"
  using room_name_round_trip [of "\<lparr>workspace_id = 1, kind = Task, resource_id = 2\<rparr>"
      "\<lambda>s. if s = ''00000000-0000-0000-0000-000000000001'' then Some 1
          else if s = ''00000000-0000-0000-0000-000000000002'' then Some 2 else None"
      "\<lambda>u. if u = 1 then ''00000000-0000-0000-0000-000000000001''
          else ''00000000-0000-0000-0000-000000000002''"]
  by (simp add: routing_key_def)

end
