(* ===== verification/Json.thy ===== *)
theory Json
  imports Prelude
begin

text \<open>
  JSON values as the server handles them: \<open>serde_json::Value\<close>, whose object is a
  \<open>BTreeMap\<close> keyed by strings. Numbers stay abstract (the type parameter), as the code only
  asks whether a value is one. Parsing and printing belong to the \<open>serde_json\<close> crate and are
  parameters of the definitions that use them.
\<close>

datatype 'n json =
  JNull
| JBool bool
| JNumber 'n
| JString string
| JArray "'n json list"
| JObject "(string \<times> 'n json) list"

type_synonym 'n json_map = "(string \<times> 'n json) list"

fun as_object :: "'n json \<Rightarrow> 'n json_map option" where
  "as_object (JObject m) = Some m"
| "as_object _ = None"

fun as_str :: "'n json \<Rightarrow> string option" where
  "as_str (JString s) = Some s"
| "as_str _ = None"

fun as_bool :: "'n json \<Rightarrow> bool option" where
  "as_bool (JBool b) = Some b"
| "as_bool _ = None"

fun as_array :: "'n json \<Rightarrow> 'n json list option" where
  "as_array (JArray xs) = Some xs"
| "as_array _ = None"

fun is_number :: "'n json \<Rightarrow> bool" where
  "is_number (JNumber _) = True"
| "is_number _ = False"

fun is_null :: "'n json \<Rightarrow> bool" where
  "is_null JNull = True"
| "is_null _ = False"

text \<open>The invariant of the type: every object's keys are strictly sorted.\<close>

fun json_ok :: "'n json \<Rightarrow> bool" where
  "json_ok (JArray xs) = (\<forall>x \<in> set xs. json_ok x)"
| "json_ok (JObject m) = (bt_ok m \<and> (\<forall>e \<in> set m. json_ok (snd e)))"
| "json_ok _ = True"

lemma is_null_iff: "is_null v \<longleftrightarrow> v = JNull"
  by (cases v) simp_all

lemma as_object_Some [simp]: "as_object v = Some m \<longleftrightarrow> v = JObject m"
  by (cases v) auto

lemma as_str_Some [simp]: "as_str v = Some s \<longleftrightarrow> v = JString s"
  by (cases v) auto

lemma as_bool_Some [simp]: "as_bool v = Some b \<longleftrightarrow> v = JBool b"
  by (cases v) auto

lemma as_array_Some [simp]: "as_array v = Some xs \<longleftrightarrow> v = JArray xs"
  by (cases v) auto

lemma json_ok_insert: "json_ok v \<Longrightarrow> json_ok (JObject m) \<Longrightarrow> json_ok (JObject (bt_insert k v m))"
proof -
  assume v: "json_ok v" and m: "json_ok (JObject m)"
  have "set (bt_insert k v m) \<subseteq> insert (k, v) (set m)"
    by (induction k v m rule: bt_insert.induct) auto
  then show ?thesis
    using v m by (auto simp: bt.inv_insert)
qed

lemma json_ok_empty: "json_ok (JObject [])"
  by (simp add: bt_ok_def)

end
