(* ===== verification/Awareness.thy ===== *)
theory Awareness
  imports Lib0 Json
begin

text \<open>
  \<open>src/collab/awareness.rs\<close>: the awareness codec, the allowlist filter for presence
  states, and the registry of awareness clients of a room. JSON parsing and printing
  (\<open>serde_json\<close>) are the parameters \<open>from_str\<close>, \<open>from_slice\<close> and \<open>to_vec\<close>;
  \<open>as_simple\<close> is the 32-digit form of a \<open>Uuid\<close>.
\<close>

section \<open>The codec\<close>

definition MAX_AWARENESS_BYTES :: nat where
  "MAX_AWARENESS_BYTES = 65536"

definition MAX_AWARENESS_CLIENTS :: nat where
  "MAX_AWARENESS_CLIENTS = 128"

definition NULL_JSON :: "u8 list" where
  "NULL_JSON = as_bytes ''null''"

datatype awareness_error =
  ATooLarge | ATruncated | ATrailingBytes | AInvalidVarUint | AInvalidClientId | AInvalidUtf8 | AInvalidJson

record awareness_update =
  u_client_id :: u32
  u_clock :: u64
  u_state :: "u8 list option"

definition a_read_var_uint :: "cursor \<Rightarrow> awareness_error + (u64 \<times> cursor)" where
  "a_read_var_uint c = read_var_uint ATruncated AInvalidVarUint c"

definition a_read_var_string :: "cursor \<Rightarrow> awareness_error + (string \<times> cursor)" where
  "a_read_var_string c =
     rbind (a_read_var_uint c) (\<lambda>(len, c).
     rbind (ok_or (usize_try_from len) ATooLarge) (\<lambda>len.
     if len > MAX_AWARENESS_BYTES then Inl ATooLarge
     else rbind (read_exact ATruncated len c) (\<lambda>(bytes, c).
       rbind (ok_or (from_utf8 bytes) AInvalidUtf8) (\<lambda>s. Inr (s, c)))))"

definition read_update :: "(string \<Rightarrow> 'n json option) \<Rightarrow> cursor \<Rightarrow> awareness_error + (awareness_update \<times> cursor)" where
  "read_update from_str c =
     rbind (a_read_var_uint c) (\<lambda>(client_id, c).
     if client_id > ucast (- 1 :: u32) then Inl AInvalidClientId
     else
       rbind (a_read_var_uint c) (\<lambda>(clock, c).
       rbind (a_read_var_string c) (\<lambda>(json, c).
       rbind (ok_or (from_str json) AInvalidJson) (\<lambda>value.
       Inr (\<lparr>u_client_id = ucast client_id, u_clock = clock,
             u_state = (if is_null value then None else Some (as_bytes json))\<rparr>, c)))))"

definition decode_awareness :: "(string \<Rightarrow> 'n json option) \<Rightarrow> u8 list \<Rightarrow> awareness_error + awareness_update list" where
  "decode_awareness from_str bs =
     (if length bs > MAX_AWARENESS_BYTES then Inl ATooLarge
      else if bs = [] then Inl ATruncated
      else
        rbind (a_read_var_uint (cursor_new bs)) (\<lambda>(count, c).
        if count > of_nat MAX_AWARENESS_CLIENTS then Inl ATooLarge
        else
          rbind (read_n (unat count) (read_update from_str) [] c) (\<lambda>(updates, c).
          if remaining c \<noteq> 0 then Inl ATrailingBytes else Inr updates)))"

definition write_update :: "u8 list \<Rightarrow> awareness_update \<Rightarrow> u8 list" where
  "write_update out update =
     (let out = write_var_uint out (ucast (u_client_id update));
          out = write_var_uint out (u_clock update)
      in case u_state update of
           Some state \<Rightarrow> write_var_bytes out state
         | None \<Rightarrow> write_var_bytes out NULL_JSON)"

definition encode_awareness :: "awareness_update list \<Rightarrow> u8 list" where
  "encode_awareness updates =
     foldl write_update (write_var_uint [] (of_nat (length updates))) updates"

section \<open>Filtering a presence state\<close>

definition json_id_pair :: "'n json \<Rightarrow> 'n json option" where
  "json_id_pair value =
     Option.bind (as_object value) (\<lambda>obj.
     Option.bind (map_of obj ''client'') (\<lambda>client.
     Option.bind (map_of obj ''clock'') (\<lambda>clock.
     if \<not> is_number client \<or> \<not> is_number clock then None
     else Some (JObject (bt_insert ''clock'' clock (bt_insert ''client'' client []))))))"

text \<open>A field of a relative position is absent, null or checked; \<open>Some None\<close> is absent and
  \<open>None\<close> refuses the whole position.\<close>

definition position_field :: "('n json \<Rightarrow> 'n json option) \<Rightarrow> 'n json option \<Rightarrow> 'n json option option" where
  "position_field check v =
     (case v of
        None \<Rightarrow> Some None
      | Some JNull \<Rightarrow> Some (Some JNull)
      | Some w \<Rightarrow> Option.bind (check w) (\<lambda>x. Some (Some x)))"

definition opt_insert :: "string \<Rightarrow> 'n json option \<Rightarrow> 'n json_map \<Rightarrow> 'n json_map" where
  "opt_insert k v m = (case v of Some w \<Rightarrow> bt_insert k w m | None \<Rightarrow> m)"

definition is_target :: "'n json option \<Rightarrow> bool" where
  "is_target v = (case v of Some w \<Rightarrow> \<not> is_null w | None \<Rightarrow> False)"

definition sanitize_relative_position :: "'n json \<Rightarrow> 'n json option" where
  "sanitize_relative_position value =
     Option.bind (as_object value) (\<lambda>obj.
     Option.bind (position_field json_id_pair (map_of obj ''type'')) (\<lambda>type_v.
     Option.bind (position_field (\<lambda>v. case v of JString s \<Rightarrow> Some (JString s) | _ \<Rightarrow> None)
                    (map_of obj ''tname'')) (\<lambda>tname_v.
     Option.bind (position_field json_id_pair (map_of obj ''item'')) (\<lambda>item_v.
     Option.bind (position_field (\<lambda>v. if is_number v then Some v else None)
                    (map_of obj ''assoc'')) (\<lambda>assoc_v.
     if \<not> (is_target type_v \<or> is_target tname_v \<or> is_target item_v) then None
     else Some (JObject (opt_insert ''assoc'' assoc_v (opt_insert ''item'' item_v
            (opt_insert ''tname'' tname_v (opt_insert ''type'' type_v [])))))))))) "

definition sanitize_cursor :: "'n json \<Rightarrow> 'n json option" where
  "sanitize_cursor value =
     Option.bind (as_object value) (\<lambda>obj.
     Option.bind (Option.bind (map_of obj ''anchor'') sanitize_relative_position) (\<lambda>anchor.
     Option.bind (Option.bind (map_of obj ''head'') sanitize_relative_position) (\<lambda>head.
     Some (JObject (bt_insert ''head'' head (bt_insert ''anchor'' anchor []))))))"

definition sanitize_block :: "'n json \<Rightarrow> 'n json option" where
  "sanitize_block value =
     Option.bind (as_object value) (\<lambda>obj.
     Option.bind (Option.bind (map_of obj ''id'') as_str) (\<lambda>id.
     if id = [] then None
     else Some (JObject (bt_insert ''id'' (JString id) []))))"

text \<open>The body of the loop over the fields of the raw state.\<close>

definition sanitize_field :: "'n json_map \<Rightarrow> string \<times> 'n json \<Rightarrow> 'n json_map" where
  "sanitize_field out e =
     (let key = fst e; val = snd e in
      if key = ''user'' then out
      else if key = ''cursor'' \<and> is_null val then bt_insert ''cursor'' JNull out
      else if key = ''cursor'' then
        (case sanitize_cursor val of Some cursor \<Rightarrow> bt_insert ''cursor'' cursor out | None \<Rightarrow> out)
      else if key = ''block'' \<and> is_null val then bt_insert ''block'' JNull out
      else if key = ''block'' then
        (case sanitize_block val of Some block \<Rightarrow> bt_insert ''block'' block out | None \<Rightarrow> out)
      else if key = ''title'' \<and> is_null val then bt_insert ''title'' JNull out
      else if key = ''title'' \<and> as_bool val = Some True then bt_insert ''title'' (JBool True) out
      else out)"

definition sanitize_value :: "'n json \<Rightarrow> string \<Rightarrow> string \<Rightarrow> string \<Rightarrow> 'n json option" where
  "sanitize_value value user_id display_name color =
     Option.bind (as_object value) (\<lambda>obj.
     Option.bind (Option.bind (map_of obj ''user'') as_object) (\<lambda>user.
     Option.bind (Option.bind (map_of user ''id'') as_str) (\<lambda>claimed_id.
     if claimed_id \<noteq> user_id then None
     else
       let verified_user = bt_insert ''color'' (JString color)
             (bt_insert ''name'' (JString display_name) (bt_insert ''id'' (JString user_id) []))
       in Some (JObject (foldl sanitize_field
            (bt_insert ''user'' (JObject verified_user) []) obj)))))"

definition sanitize_user_state ::
    "(u8 list \<Rightarrow> 'n json option) \<Rightarrow> ('n json \<Rightarrow> u8 list option) \<Rightarrow>
     u8 list \<Rightarrow> string \<Rightarrow> string \<Rightarrow> string \<Rightarrow> u8 list option" where
  "sanitize_user_state from_slice to_vec raw user_id display_name color =
     Option.bind (from_slice raw) (\<lambda>value.
     Option.bind (sanitize_value value user_id display_name color) to_vec)"

section \<open>Colours and names\<close>

definition PRESENCE_COLORS :: "string list" where
  "PRESENCE_COLORS = [''#b91c1c'', ''#c2410c'', ''#b45309'', ''#15803d'', ''#0f766e'', ''#1d4ed8'',
     ''#6d28d9'', ''#be185d'']"

definition user_color :: "(uuid \<Rightarrow> string) \<Rightarrow> uuid \<Rightarrow> string" where
  "user_color as_simple user_id =
     (let simple = as_simple user_id;
          tail = drop (length simple - 6) simple;
          parsed = (case from_str_radix16 tail of Some v \<Rightarrow> v | None \<Rightarrow> 0);
          index = unat parsed mod length PRESENCE_COLORS
      in PRESENCE_COLORS ! index)"

definition display_name :: "string \<Rightarrow> string option \<Rightarrow> string \<Rightarrow> string" where
  "display_name given family locale =
     (let given = trim given;
          family = (case map_option trim family of Some f \<Rightarrow> if f = [] then None else Some f | None \<Rightarrow> None)
      in if locale = ''ko''
         then (case family of Some f \<Rightarrow> f @ given | None \<Rightarrow> given)
         else (case family of Some f \<Rightarrow> given @ '' '' @ f | None \<Rightarrow> given))"

section \<open>The registry\<close>

record client_record =
  clock :: u64
  generation :: u64
  state :: "u8 list option"
  seq :: u64

record awareness_registry =
  by_client :: "(u32 \<times> client_record) list"
  reg_generation :: u64
  reg_seq :: u64

definition registry_new :: awareness_registry where
  "registry_new = \<lparr>by_client = [], reg_generation = 0, reg_seq = 0\<rparr>"

definition connection_generation :: "awareness_registry \<Rightarrow> u64 \<times> awareness_registry" where
  "connection_generation r =
     (let g = sat_add (reg_generation r) 1 in (g, r\<lparr>reg_generation := g\<rparr>))"

definition next_seq :: "awareness_registry \<Rightarrow> u64 \<times> awareness_registry" where
  "next_seq r = (let s = sat_add (reg_seq r) 1 in (s, r\<lparr>reg_seq := s\<rparr>))"

definition evict_oldest_tombstone :: "awareness_registry \<Rightarrow> bool \<times> awareness_registry" where
  "evict_oldest_tombstone r =
     (let oldest = map_option fst
            (min_by_key (\<lambda>e. seq (snd e)) (filter (\<lambda>e. state (snd e) = None) (by_client r)))
      in case oldest of
           Some client_id \<Rightarrow> (True, r\<lparr>by_client := bt_remove client_id (by_client r)\<rparr>)
         | None \<Rightarrow> (False, r))"

lemma evict_decreases:
  assumes "evict_oldest_tombstone r = (True, r')"
  shows "length (by_client r') < length (by_client r)"
proof -
  from assms obtain e where e: "min_by_key (\<lambda>e. seq (snd e)) (filter (\<lambda>e. state (snd e) = None) (by_client r)) = Some e"
    and r': "r' = r\<lparr>by_client := bt_remove (fst e) (by_client r)\<rparr>"
    by (auto simp: evict_oldest_tombstone_def Let_def split: option.splits)
  from min_by_key_in [OF e] have "e \<in> set (by_client r)"
    by simp
  then show ?thesis
    by (auto simp: r' bt_remove_def intro: length_filter_less)
qed

function make_room :: "awareness_registry \<Rightarrow> bool \<times> awareness_registry" where
  "make_room r =
     (if length (by_client r) \<ge> MAX_AWARENESS_CLIENTS then
        (case evict_oldest_tombstone r of
           (True, r) \<Rightarrow> make_room r
         | (False, r) \<Rightarrow> (False, r))
      else (True, r))"
  by pat_completeness auto
termination
  by (relation "measure (\<lambda>r. length (by_client r))") (simp_all add: evict_decreases)

declare make_room.simps [simp del]

definition fits_new_client :: "u32 \<Rightarrow> awareness_registry \<Rightarrow> bool \<times> awareness_registry" where
  "fits_new_client client_id r =
     (if map_of (by_client r) client_id \<noteq> None then (True, r) else make_room r)"

definition put_client :: "u32 \<Rightarrow> client_record \<Rightarrow> awareness_registry \<Rightarrow> awareness_registry" where
  "put_client client_id record r = r\<lparr>by_client := bt_insert client_id record (by_client r)\<rparr>"

definition claim_connection_client :: "u32 \<Rightarrow> u64 \<Rightarrow> awareness_registry \<Rightarrow> awareness_registry" where
  "claim_connection_client client_id conn_generation r =
     (case map_of (by_client r) client_id of
        Some record \<Rightarrow>
          if generation record > conn_generation then r
          else put_client client_id (record\<lparr>generation := conn_generation\<rparr>) r
      | None \<Rightarrow>
          (case fits_new_client client_id r of
             (False, r) \<Rightarrow> r
           | (True, r) \<Rightarrow>
               (let (s, r) = next_seq r in
                put_client client_id
                  \<lparr>clock = 0, generation = conn_generation, state = None, seq = s\<rparr> r)))"

definition clock_applies :: "client_record option \<Rightarrow> u64 \<Rightarrow> bool \<Rightarrow> bool" where
  "clock_applies current clk incoming_null =
     (let curr_clock = (case current of Some record \<Rightarrow> clock record | None \<Rightarrow> 0);
          has_state = (case current of Some record \<Rightarrow> state record \<noteq> None | None \<Rightarrow> False)
      in curr_clock < clk \<or> (curr_clock = clk \<and> incoming_null \<and> has_state))"

text \<open>The body of the loop over the incoming updates; \<open>sanitize\<close> is
  \<open>sanitize_user_state\<close> with the connection's user, name and colour.\<close>

definition apply_one ::
    "(u8 list \<Rightarrow> u8 list option) \<Rightarrow> u32 \<Rightarrow> u64 \<Rightarrow> awareness_registry \<times> awareness_update list \<Rightarrow>
     awareness_update \<Rightarrow> awareness_registry \<times> awareness_update list" where
  "apply_one sanitize claimed_client_id conn_generation acc update =
     (let (r, changed) = acc;
          current = map_of (by_client r) (u_client_id update) in
      if u_client_id update \<noteq> claimed_client_id then (r, changed)
      else if (case current of Some record \<Rightarrow> generation record > conn_generation | None \<Rightarrow> False)
      then (r, changed)
      else if \<not> clock_applies current (u_clock update) (u_state update = None) then (r, changed)
      else
        let st = Option.bind (u_state update) sanitize in
        if u_state update \<noteq> None \<and> st = None then (r, changed)
        else case fits_new_client (u_client_id update) r of
          (False, r) \<Rightarrow> (r, changed)
        | (True, r) \<Rightarrow>
            let (s, r) = next_seq r;
                r = put_client (u_client_id update)
                  \<lparr>clock = u_clock update, generation = conn_generation, state = st, seq = s\<rparr> r
            in (r, changed @ [\<lparr>u_client_id = u_client_id update, u_clock = u_clock update, u_state = st\<rparr>]))"

definition apply_connection_updates ::
    "(u8 list \<Rightarrow> 'n json option) \<Rightarrow> ('n json \<Rightarrow> u8 list option) \<Rightarrow> u32 \<Rightarrow> awareness_update list \<Rightarrow>
     string \<Rightarrow> string \<Rightarrow> string \<Rightarrow> u64 \<Rightarrow> awareness_registry \<Rightarrow> u8 list option \<times> awareness_registry" where
  "apply_connection_updates from_slice to_vec claimed_client_id updates user_id name color conn_generation r =
     (let (r, changed) = foldl (apply_one (\<lambda>raw. sanitize_user_state from_slice to_vec raw user_id name color)
            claimed_client_id conn_generation) (r, []) updates
      in (if changed = [] then None else Some (encode_awareness changed), r))"

definition remove_client :: "u32 \<Rightarrow> u64 \<Rightarrow> awareness_registry \<Rightarrow> u8 list option \<times> awareness_registry" where
  "remove_client client_id conn_generation r =
     (case map_of (by_client r) client_id of
        None \<Rightarrow> (None, r)
      | Some current \<Rightarrow>
          if generation current > conn_generation \<or> state current = None then (None, r)
          else
            let clk = sat_add (clock current) 1;
                (s, r) = next_seq r;
                r = put_client client_id
                  \<lparr>clock = clk, generation = conn_generation, state = None, seq = s\<rparr> r
            in (Some (encode_awareness [\<lparr>u_client_id = client_id, u_clock = clk, u_state = None\<rparr>]), r))"

definition live_updates :: "awareness_registry \<Rightarrow> awareness_update list" where
  "live_updates r =
     List.map_filter (\<lambda>(client_id, record).
       map_option (\<lambda>st. \<lparr>u_client_id = client_id, u_clock = clock record, u_state = Some st\<rparr>) (state record))
       (by_client r)"

definition encode_all :: "awareness_registry \<Rightarrow> u8 list" where
  "encode_all r = (let updates = live_updates r in if updates = [] then [] else encode_awareness updates)"

section \<open>Codec lemmas\<close>

definition state_bytes :: "u8 list option \<Rightarrow> u8 list" where
  "state_bytes st = (case st of Some b \<Rightarrow> b | None \<Rightarrow> NULL_JSON)"

definition update_bytes :: "awareness_update \<Rightarrow> u8 list" where
  "update_bytes u = var_uint (ucast (u_client_id u)) @ var_uint (u_clock u) @ var_bytes (state_bytes (u_state u))"

lemma encode_awareness_eq:
  "encode_awareness us = var_uint (of_nat (length us)) @ concat (map update_bytes us)"
proof -
  have "write_update out u = out @ update_bytes u" for out u
    by (cases "u_state u")
      (simp_all add: write_update_def update_bytes_def state_bytes_def write_var_bytes_append write_var_uint_append)
  then have "foldl write_update out us = out @ concat (map update_bytes us)" for out
    by (induction us arbitrary: out) simp_all
  then show ?thesis
    by (simp add: encode_awareness_def write_var_uint_append)
qed

text \<open>An update the codec carries: a clock lib0 can read, and a state that is bounded UTF-8
  text of a JSON value which is null exactly when the update clears the state.\<close>

definition update_ok :: "(string \<Rightarrow> 'n json option) \<Rightarrow> awareness_update \<Rightarrow> bool" where
  "update_ok from_str u \<longleftrightarrow> u_clock u \<le> LIB0_MAX_SAFE_UINT \<and>
     length (state_bytes (u_state u)) \<le> MAX_AWARENESS_BYTES \<and>
     (case Option.bind (from_utf8 (state_bytes (u_state u))) from_str of
        Some v \<Rightarrow> is_null v = (u_state u = None)
      | None \<Rightarrow> False)"

lemma u32_safe: "ucast (i :: u32) \<le> LIB0_MAX_SAFE_UINT"
  using unat_less_pow [of i] by (simp add: word_le_nat_alt LIB0_unat unsigned_ucast_eq take_bit_nat_eq_self)

lemma u32_not_above: "\<not> ucast (- 1 :: u32) < (ucast (i :: u32) :: u64)"
  using unat_less_pow [of i]
  by (simp add: word_less_nat_alt unsigned_ucast_eq take_bit_nat_eq_self unat_max_word not_less)

lemma u32_back: "(ucast (ucast (i :: u32) :: u64) :: u32) = i"
  by (rule bit_word_eqI) (auto simp: bit_simps)

lemma a_read_var_string_at:
  assumes "from_utf8 bs = Some s" and "length bs \<le> MAX_AWARENESS_BYTES"
  shows "a_read_var_string (cursor_at pre (var_bytes bs @ rest)) = Inr (s, cursor_at (pre @ var_bytes bs) rest)"
proof -
  have "length bs < 2 ^ 53"
    using assms(2) by (simp add: MAX_AWARENESS_BYTES_def)
  with safe_length [OF this] assms show ?thesis
    by (simp add: a_read_var_string_def a_read_var_uint_def var_bytes_def read_var_uint_length)
qed

interpretation update_codec: cursor_codec update_bytes "read_update from_str" "update_ok from_str" for from_str
proof
  fix u pre rest
  assume "update_ok from_str u"
  then obtain s v where clk: "u_clock u \<le> LIB0_MAX_SAFE_UINT"
    and len: "length (state_bytes (u_state u)) \<le> MAX_AWARENESS_BYTES"
    and s: "from_utf8 (state_bytes (u_state u)) = Some s" and v: "from_str s = Some v"
    and null: "is_null v = (u_state u = None)"
    by (auto simp: update_ok_def bind_eq_Some_conv split: option.splits)
  have "(if is_null v then None else Some (as_bytes s)) = u_state u"
    using from_utf8_SomeD [OF s] null by (cases "u_state u") (simp_all add: state_bytes_def)
  with clk v show "read_update from_str (cursor_at pre (update_bytes u @ rest)) =
      Inr (u, cursor_at (pre @ update_bytes u) rest)"
    by (simp add: read_update_def a_read_var_uint_def update_bytes_def var_uint_codec.get_put u32_safe
        u32_not_above u32_back a_read_var_string_at [OF s len])
qed

lemma decode_encode_awareness:
  assumes "list_all (update_ok from_str) us" and "length us \<le> MAX_AWARENESS_CLIENTS"
    and "length (encode_awareness us) \<le> MAX_AWARENESS_BYTES"
  shows "decode_awareness from_str (encode_awareness us) = Inr us"
proof -
  let ?n = "of_nat (length us) :: u64"
  have n: "unat ?n = length us" "?n \<le> LIB0_MAX_SAFE_UINT" "\<not> ?n > of_nat MAX_AWARENESS_CLIENTS"
    using assms(2) safe_length [of "length us"]
    by (simp_all add: MAX_AWARENESS_CLIENTS_def word_less_nat_alt)
  have "encode_awareness us \<noteq> []"
    by (simp add: encode_awareness_eq)
  moreover have "a_read_var_uint (cursor_new (encode_awareness us)) =
      Inr (?n, cursor_at (var_uint ?n) (concat (map update_bytes us)))"
    using var_uint_codec.get_put [OF n(2), of _ _ "[]"]
    by (simp add: a_read_var_uint_def encode_awareness_eq cursor_new_at)
  moreover have "read_n (length us) (read_update from_str) [] (cursor_at (var_uint ?n) (concat (map update_bytes us))) =
      Inr (us, cursor_at (var_uint ?n @ concat (map update_bytes us)) [])"
    using update_codec.read_n_put [OF assms(1), of "[]" _ "[]"] by simp
  ultimately show ?thesis
    using assms(3) n by (simp add: decode_awareness_def)
qed

lemma read_n_length: "read_n n g acc c = Inr (xs, d) \<Longrightarrow> length xs = length acc + n"
  by (induction n arbitrary: acc c) (fastforce simp: result_simps)+

section \<open>Registry lemmas\<close>

abbreviation lookup :: "awareness_registry \<Rightarrow> u32 \<Rightarrow> client_record option" where
  "lookup r \<equiv> map_of (by_client r)"

text \<open>A client's record is kept, or it was a tombstone and is gone.\<close>

definition kept_or_tombstone :: "awareness_registry \<Rightarrow> awareness_registry \<Rightarrow> u32 \<Rightarrow> bool" where
  "kept_or_tombstone r r' k \<longleftrightarrow>
     lookup r' k = lookup r k \<or>
     lookup r' k = None \<and> (case lookup r k of Some rec \<Rightarrow> state rec = None | None \<Rightarrow> False)"

lemma kept_refl [simp]: "kept_or_tombstone r r k"
  by (simp add: kept_or_tombstone_def)

lemma kept_trans: "kept_or_tombstone a b k \<Longrightarrow> kept_or_tombstone b c k \<Longrightarrow> kept_or_tombstone a c k"
  by (auto simp: kept_or_tombstone_def split: option.splits)

lemma evict_True:
  assumes "evict_oldest_tombstone r = (True, r')" and "bt_ok (by_client r)"
  shows "bt_ok (by_client r') \<and> reg_generation r' = reg_generation r \<and> reg_seq r' = reg_seq r \<and>
    (\<forall>k. kept_or_tombstone r r' k) \<and> length (by_client r') = length (by_client r) - 1"
proof -
  from assms(1) obtain e where e: "min_by_key (\<lambda>e. seq (snd e)) (filter (\<lambda>e. state (snd e) = None) (by_client r)) = Some e"
    and r': "r' = r\<lparr>by_client := bt_remove (fst e) (by_client r)\<rparr>"
    by (auto simp: evict_oldest_tombstone_def Let_def split: option.splits)
  from min_by_key_in [OF e] have "(fst e, snd e) \<in> set (by_client r)" and tomb: "state (snd e) = None"
    by simp_all
  then have "lookup r (fst e) = Some (snd e)"
    using bt.entries_get [OF assms(2)] by blast
  with tomb assms(2) show ?thesis
    by (auto simp: r' bt_specs bt.length_remove kept_or_tombstone_def)
qed

lemma evict_False:
  assumes "evict_oldest_tombstone r = (False, r')"
  shows "r' = r \<and> (\<forall>(k, rec) \<in> set (by_client r). state rec \<noteq> None)"
  using assms by (auto simp: evict_oldest_tombstone_def Let_def filter_empty_conv split: option.splits)

lemma make_room_spec:
  assumes "make_room r = (b, r')" and "bt_ok (by_client r)"
  shows "bt_ok (by_client r') \<and> reg_generation r' = reg_generation r \<and> reg_seq r' = reg_seq r \<and>
    (\<forall>k. kept_or_tombstone r r' k) \<and> length (by_client r') \<le> length (by_client r) \<and>
    (b \<longrightarrow> length (by_client r') < MAX_AWARENESS_CLIENTS)"
  using assms
proof (induction r arbitrary: r' b rule: make_room.induct)
  case (1 r)
  show ?case
  proof (cases "length (by_client r) \<ge> MAX_AWARENESS_CLIENTS")
    case False
    with "1.prems" show ?thesis
      by (simp add: make_room.simps)
  next
    case True
    obtain t r1 where ev: "evict_oldest_tombstone r = (t, r1)"
      by (cases "evict_oldest_tombstone r") auto
    show ?thesis
    proof (cases t)
      case False
      with ev evict_False [of r r1] have "r1 = r"
        by simp
      with False ev True "1.prems" show ?thesis
        by (simp add: make_room.simps [of r])
    next
      case t: True
      have ev: "evict_oldest_tombstone r = (True, r1)"
        using ev t by simp
      with True "1.prems" have rest: "make_room r1 = (b, r')"
        by (simp add: make_room.simps [of r])
      have "bt_ok (by_client r1)"
        using evict_True [OF ev "1.prems"(2)] by blast
      from "1.IH" [OF True ev [symmetric] refl rest this] evict_True [OF ev "1.prems"(2)] show ?thesis
        by (auto intro: kept_trans)
    qed
  qed
qed

text \<open>The registry's invariant.\<close>

definition registry_ok :: "awareness_registry \<Rightarrow> bool" where
  "registry_ok r \<longleftrightarrow> bt_ok (by_client r) \<and> length (by_client r) \<le> MAX_AWARENESS_CLIENTS \<and>
     (\<forall>k rec. lookup r k = Some rec \<longrightarrow> generation rec \<le> reg_generation r \<and> seq rec \<le> reg_seq r)"

lemma registry_ok_new: "registry_ok registry_new"
  by (simp add: registry_ok_def registry_new_def bt_ok_def)

lemma registry_ok_kept:
  assumes "registry_ok r" and "bt_ok (by_client r')" and "\<forall>k. kept_or_tombstone r r' k"
    and "reg_generation r' = reg_generation r" and "reg_seq r' = reg_seq r"
    and "length (by_client r') \<le> length (by_client r)"
  shows "registry_ok r'"
  using assms unfolding registry_ok_def kept_or_tombstone_def
  by (metis le_trans option.distinct(1))

lemma fits_new_client_spec:
  assumes "fits_new_client k r = (b, r')" and "registry_ok r"
  shows "registry_ok r' \<and> reg_generation r' = reg_generation r \<and> reg_seq r' = reg_seq r \<and>
    (\<forall>j. kept_or_tombstone r r' j) \<and> lookup r' k = lookup r k \<and>
    (b \<longrightarrow> lookup r k \<noteq> None \<or> length (by_client r') < MAX_AWARENESS_CLIENTS)"
proof (cases "lookup r k")
  case (Some rec)
  with assms show ?thesis
    by (auto simp: fits_new_client_def)
next
  case None
  with assms(1) have m: "make_room r = (b, r')"
    by (simp add: fits_new_client_def)
  have ok: "bt_ok (by_client r)"
    using assms(2) by (simp add: registry_ok_def)
  note spec = make_room_spec [OF m ok]
  then have "registry_ok r'"
    using assms(2) registry_ok_kept by blast
  moreover have "lookup r' k = None"
    using spec None unfolding kept_or_tombstone_def by (metis option.case(1))
  ultimately show ?thesis
    using spec None by simp
qed

text \<open>Storing a record under a fresh sequence number.\<close>

lemma put_next_seq:
  assumes "registry_ok r" and "generation rec \<le> reg_generation r" and "next_seq r = (s, r1)"
    and "lookup r k \<noteq> None \<or> length (by_client r) < MAX_AWARENESS_CLIENTS" and "seq rec = s"
  shows "registry_ok (put_client k rec r1) \<and> reg_generation (put_client k rec r1) = reg_generation r \<and>
    lookup (put_client k rec r1) = (lookup r)(k \<mapsto> rec)"
proof -
  have r1: "r1 = r\<lparr>reg_seq := s\<rparr>" and s: "reg_seq r \<le> s"
    using assms(3) sat_add_ge_left by (auto simp: next_seq_def Let_def)
  have ok: "bt_ok (by_client r)"
    using assms(1) by (simp add: registry_ok_def)
  have "length (bt_insert k rec (by_client r)) \<le> MAX_AWARENESS_CLIENTS"
    using assms(1,4) bt.length_insert [OF ok, of k rec] by (auto simp: registry_ok_def)
  moreover have "seq rec' \<le> s" if "lookup r j = Some rec'" for j rec'
    using that assms(1) s unfolding registry_ok_def by (meson order_trans)
  ultimately show ?thesis
    using assms(1,2,5) ok by (auto simp: r1 put_client_def registry_ok_def bt_specs)
qed

lemma connection_generation_ok:
  assumes "registry_ok r" and "connection_generation r = (g, r')"
  shows "registry_ok r' \<and> g = reg_generation r' \<and> reg_generation r \<le> g \<and> by_client r' = by_client r"
proof -
  have r': "r' = r\<lparr>reg_generation := g\<rparr>" and "reg_generation r \<le> g"
    using assms(2) sat_add_ge_left by (auto simp: connection_generation_def Let_def)
  with assms(1) show ?thesis
    by (auto simp: registry_ok_def intro: order_trans)
qed

lemma claim_ok:
  assumes "registry_ok r" and "g \<le> reg_generation r"
  shows "registry_ok (claim_connection_client k g r) \<and>
    reg_generation (claim_connection_client k g r) = reg_generation r \<and>
    (\<forall>j. j \<noteq> k \<longrightarrow> kept_or_tombstone r (claim_connection_client k g r) j)"
proof (cases "lookup r k")
  case (Some rec)
  have ok: "bt_ok (by_client r)"
    using assms(1) by (simp add: registry_ok_def)
  from Some assms ok show ?thesis
    by (auto simp: claim_connection_client_def put_client_def registry_ok_def bt_specs bt.length_insert
        kept_or_tombstone_def)
next
  case None
  obtain b r1 where f: "fits_new_client k r = (b, r1)"
    by (cases "fits_new_client k r") auto
  obtain s r2 where n: "next_seq r1 = (s, r2)"
    by (cases "next_seq r1") auto
  note spec = fits_new_client_spec [OF f assms(1)]
  let ?rec = "\<lparr>clock = 0, generation = g, state = None, seq = s\<rparr>"
  show ?thesis
  proof (cases b)
    case False
    with None f spec show ?thesis
      by (simp add: claim_connection_client_def)
  next
    case True
    with spec None have ok: "registry_ok r1" and room: "lookup r1 k \<noteq> None \<or> length (by_client r1) < MAX_AWARENESS_CLIENTS"
      and g: "generation ?rec \<le> reg_generation r1"
      using assms(2) by auto
    have "claim_connection_client k g r = put_client k ?rec r2"
      using None f n True by (simp add: claim_connection_client_def)
    with put_next_seq [OF ok g n room] spec show ?thesis
      by (auto simp: kept_or_tombstone_def)
  qed
qed

text \<open>What one round of the update loop does: it either skips the update, possibly after
  dropping tombstones, or stores and reports it.\<close>

lemma apply_one_cases:
  assumes "apply_one san cid g (r, ch) u = (r', ch')" and ok: "registry_ok r" "g \<le> reg_generation r"
  obtains
    (skip) "ch' = ch" "registry_ok r'" "reg_generation r' = reg_generation r"
      "\<forall>j. kept_or_tombstone r r' j" "lookup r' cid = lookup r cid"
      "(\<exists>rec. lookup r cid = Some rec) \<Longrightarrow> r' = r"
  | (store) s st where "u_client_id u = cid" "registry_ok r'" "reg_generation r' = reg_generation r"
      "ch' = ch @ [\<lparr>u_client_id = cid, u_clock = u_clock u, u_state = st\<rparr>]"
      "st = Option.bind (u_state u) san" "u_state u = None \<longleftrightarrow> st = None"
      "\<forall>j. j \<noteq> cid \<longrightarrow> kept_or_tombstone r r' j"
      "lookup r' cid = Some \<lparr>clock = u_clock u, generation = g, state = st, seq = s\<rparr>"
      "\<forall>rec. lookup r cid = Some rec \<longrightarrow> generation rec \<le> g \<and> clock rec \<le> u_clock u"
proof -
  let ?st = "Option.bind (u_state u) san"
  let ?skip = "u_client_id u \<noteq> cid \<or>
    (case lookup r (u_client_id u) of Some rec \<Rightarrow> generation rec > g | None \<Rightarrow> False) \<or>
    \<not> clock_applies (lookup r (u_client_id u)) (u_clock u) (u_state u = None) \<or>
    (u_state u \<noteq> None \<and> ?st = None)"
  obtain b r1 where f: "fits_new_client cid r = (b, r1)"
    by (cases "fits_new_client cid r") auto
  obtain s r2 where n: "next_seq r1 = (s, r2)"
    by (cases "next_seq r1") auto
  note spec = fits_new_client_spec [OF f ok(1)]
  let ?rec = "\<lparr>clock = u_clock u, generation = g, state = ?st, seq = s\<rparr>"
  consider (a) ?skip | (b) "\<not> ?skip" "\<not> b" | (c) "\<not> ?skip" b
    by blast
  then show thesis
  proof cases
    case a
    then have "apply_one san cid g (r, ch) u = (r, ch)"
      by (auto simp: apply_one_def Let_def split: option.splits)
    with assms(1) show ?thesis
      using ok by (intro skip) auto
  next
    case b
    then have "apply_one san cid g (r, ch) u = (r1, ch)"
      using f by (auto simp: apply_one_def Let_def split: option.splits)
    moreover have "r1 = r" if "\<exists>rec. lookup r cid = Some rec"
      using that f by (auto simp: fits_new_client_def)
    ultimately show ?thesis
      using assms(1) spec by (intro skip) auto
  next
    case c
    then have "apply_one san cid g (r, ch) u = (put_client cid ?rec r2,
        ch @ [\<lparr>u_client_id = cid, u_clock = u_clock u, u_state = ?st\<rparr>])"
      using f n by (auto simp: apply_one_def Let_def split: option.splits)
    with assms(1) have step: "(r', ch') = (put_client cid ?rec r2,
        ch @ [\<lparr>u_client_id = cid, u_clock = u_clock u, u_state = ?st\<rparr>])"
      by simp
    from c spec have ok1: "registry_ok r1" "generation ?rec \<le> reg_generation r1"
      and room: "lookup r1 cid \<noteq> None \<or> length (by_client r1) < MAX_AWARENESS_CLIENTS"
      using ok(2) by auto
    note put = put_next_seq [OF ok1 n room]
    show ?thesis
    proof (rule store)
      show "\<forall>j. j \<noteq> cid \<longrightarrow> kept_or_tombstone r r' j"
        using put spec step by (auto simp: kept_or_tombstone_def)
      show "\<forall>rec. lookup r cid = Some rec \<longrightarrow> generation rec \<le> g \<and> clock rec \<le> u_clock u"
        using c(1) by (auto simp: clock_applies_def Let_def)
    qed (use c put spec step in auto)
  qed
qed

text \<open>The loop invariant, relative to the registry \<open>r0\<close> the loop started from.\<close>

definition applied ::
    "(u8 list \<Rightarrow> u8 list option) \<Rightarrow> u32 \<Rightarrow> u64 \<Rightarrow> awareness_registry \<Rightarrow> awareness_registry \<times> awareness_update list \<Rightarrow> bool" where
  "applied san cid g r0 = (\<lambda>(r, ch). registry_ok r \<and> reg_generation r = reg_generation r0 \<and>
     (\<forall>j. j \<noteq> cid \<longrightarrow> kept_or_tombstone r0 r j) \<and>
     (\<forall>rec. lookup r0 cid = Some rec \<longrightarrow> (\<exists>rec'. lookup r cid = Some rec' \<and> clock rec \<le> clock rec')) \<and>
     (\<forall>u \<in> set ch. u_client_id u = cid \<and> (\<forall>st. u_state u = Some st \<longrightarrow> (\<exists>raw. san raw = Some st))) \<and>
     (if ch = [] then lookup r cid = lookup r0 cid
      else \<exists>s. lookup r cid = Some \<lparr>clock = u_clock (last ch), generation = g, state = u_state (last ch), seq = s\<rparr>))"

lemma applied_step:
  assumes "applied san cid g r0 (r, ch)" and "apply_one san cid g (r, ch) u = (r', ch')"
    and "g \<le> reg_generation r0"
  shows "applied san cid g r0 (r', ch')"
proof -
  from assms have ok: "registry_ok r" "g \<le> reg_generation r"
    by (simp_all add: applied_def)
  from assms(2) ok show ?thesis
  proof (cases rule: apply_one_cases)
    case skip
    with assms(1) show ?thesis
      unfolding applied_def by (auto intro: kept_trans)
  next
    case (store s st)
    have "\<exists>rec'. lookup r' cid = Some rec' \<and> clock rec \<le> clock rec'" if "lookup r0 cid = Some rec" for rec
      using that assms(1) store(8,9) unfolding applied_def by (fastforce intro: order_trans)
    moreover have "\<forall>st'. st = Some st' \<longrightarrow> (\<exists>raw. san raw = Some st')"
      using store(5) by (auto simp: bind_eq_Some_conv)
    ultimately show ?thesis
      using assms(1) store unfolding applied_def by (auto intro: kept_trans)
  qed
qed

lemma applied_foldl:
  assumes "applied san cid g r0 acc" and "g \<le> reg_generation r0"
  shows "applied san cid g r0 (foldl (apply_one san cid g) acc us)"
  using assms(1)
proof (induction us arbitrary: acc)
  case (Cons u us)
  obtain r ch r' ch' where "acc = (r, ch)" "apply_one san cid g acc u = (r', ch')"
    by (metis surj_pair)
  with Cons applied_step assms(2) show ?case
    by auto
qed simp

lemma apply_connection_updates_applied:
  assumes "registry_ok r" and "g \<le> reg_generation r"
    and "apply_connection_updates fs tv cid us uid name color g r = (res, r')"
  obtains ch where "applied (\<lambda>raw. sanitize_user_state fs tv raw uid name color) cid g r (r', ch)"
    and "res = (if ch = [] then None else Some (encode_awareness ch))"
    and "ch = snd (foldl (apply_one (\<lambda>raw. sanitize_user_state fs tv raw uid name color) cid g) (r, []) us)"
proof -
  let ?san = "\<lambda>raw. sanitize_user_state fs tv raw uid name color"
  obtain r1 ch where f: "foldl (apply_one ?san cid g) (r, []) us = (r1, ch)"
    by fastforce
  have "applied ?san cid g r (r, [])"
    using assms(1) by (simp add: applied_def)
  from applied_foldl [OF this assms(2), of us] f have "applied ?san cid g r (r1, ch)"
    by simp
  with f assms(3) show thesis
    by (intro that [of ch]) (auto simp: apply_connection_updates_def)
qed

subsection \<open>Which updates are accepted\<close>

text \<open>What a client's updates should do, said of the client alone: \<open>clk\<close> is its clock and \<open>live\<close> whether it has a
  state. A state counts if its clock is newer and the filter passes it, and is replaced by what the filter returns;
  a removal counts if its clock is newer, or equal while there is a state to remove.\<close>

fun accepted_updates ::
    "(u8 list \<Rightarrow> u8 list option) \<Rightarrow> u32 \<Rightarrow> u64 \<Rightarrow> bool \<Rightarrow> awareness_update list \<Rightarrow> awareness_update list" where
  "accepted_updates san cid clk live [] = []"
| "accepted_updates san cid clk live (u # us) =
     (if u_client_id u \<noteq> cid then accepted_updates san cid clk live us
      else case u_state u of
        None \<Rightarrow>
          if clk < u_clock u \<or> clk = u_clock u \<and> live then u # accepted_updates san cid (u_clock u) False us
          else accepted_updates san cid clk live us
      | Some raw \<Rightarrow>
          (case san raw of
             Some st \<Rightarrow>
               if clk < u_clock u then u\<lparr>u_state := Some st\<rparr> # accepted_updates san cid (u_clock u) True us
               else accepted_updates san cid clk live us
           | None \<Rightarrow> accepted_updates san cid clk live us))"

definition clock_in :: "awareness_registry \<Rightarrow> u32 \<Rightarrow> u64" where
  "clock_in r cid = (case lookup r cid of Some rec \<Rightarrow> clock rec | None \<Rightarrow> 0)"

definition live_in :: "awareness_registry \<Rightarrow> u32 \<Rightarrow> bool" where
  "live_in r cid \<longleftrightarrow> (case lookup r cid of Some rec \<Rightarrow> state rec \<noteq> None | None \<Rightarrow> False)"

text \<open>A newer connection has taken the client over; the registry can hold the client.\<close>

definition taken_over :: "awareness_registry \<Rightarrow> u32 \<Rightarrow> u64 \<Rightarrow> bool" where
  "taken_over r cid g \<longleftrightarrow> (case lookup r cid of Some rec \<Rightarrow> generation rec > g | None \<Rightarrow> False)"

definition has_place :: "awareness_registry \<Rightarrow> u32 \<Rightarrow> bool" where
  "has_place r cid \<longleftrightarrow> lookup r cid \<noteq> None \<or> length (by_client r) < MAX_AWARENESS_CLIENTS \<or>
     list_ex (\<lambda>e. state (snd e) = None) (by_client r)"

lemma evict_oldest_iff: "fst (evict_oldest_tombstone r) \<longleftrightarrow> list_ex (\<lambda>e. state (snd e) = None) (by_client r)"
proof (cases "min_by_key (\<lambda>e. seq (snd e)) (filter (\<lambda>e. state (snd e) = None) (by_client r))")
  case None
  then show ?thesis
    using min_by_key_None [THEN iffD1, OF None] by (simp add: evict_oldest_tombstone_def filter_empty_conv list_ex_iff)
next
  case (Some e)
  with min_by_key_in [OF Some] show ?thesis
    by (force simp: evict_oldest_tombstone_def list_ex_iff)
qed

lemma fits_iff_place:
  assumes "registry_ok r"
  shows "fst (fits_new_client cid r) \<longleftrightarrow> has_place r cid" and "\<not> has_place r cid \<Longrightarrow> fits_new_client cid r = (False, r)"
proof -
  obtain b s where e: "evict_oldest_tombstone r = (b, s)"
    by fastforce
  have b: "b \<longleftrightarrow> list_ex (\<lambda>e. state (snd e) = None) (by_client r)"
    using evict_oldest_iff [of r] e by simp
  have "length (by_client s) < MAX_AWARENESS_CLIENTS" if b
    using evict_decreases [of r s] assms that e by (simp add: registry_ok_def)
  then have "make_room s = (True, s)" if b
    using that by (simp add: make_room.simps [of s])
  moreover have "s = r" if "\<not> b"
    using e that by (auto simp: evict_oldest_tombstone_def Let_def split: option.splits)
  ultimately show "fst (fits_new_client cid r) \<longleftrightarrow> has_place r cid"
    and "\<not> has_place r cid \<Longrightarrow> fits_new_client cid r = (False, r)"
    using e b by (auto simp: fits_new_client_def make_room.simps [of r] has_place_def split: bool.splits)
qed

lemma apply_one_accepted:
  assumes ok: "registry_ok r" "g \<le> reg_generation r" and own: "\<not> taken_over r cid g" and place: "has_place r cid"
    and step: "apply_one san cid g (r, ch) u = (r', ch')"
  shows "registry_ok r' \<and> reg_generation r' = reg_generation r \<and> \<not> taken_over r' cid g \<and> has_place r' cid \<and>
    ch' @ accepted_updates san cid (clock_in r' cid) (live_in r' cid) us =
      ch @ accepted_updates san cid (clock_in r cid) (live_in r cid) (u # us)"
proof -
  have fits: "fst (fits_new_client cid r)"
    using fits_iff_place(1) [OF ok(1)] place by blast
  then obtain r1 where f: "fits_new_client cid r = (True, r1)"
    by (metis prod.collapse)
  let ?st = "Option.bind (u_state u) san"
  let ?go = "u_client_id u = cid \<and> clock_applies (lookup r cid) (u_clock u) (u_state u = None) \<and> (u_state u \<noteq> None \<longrightarrow> ?st \<noteq> None)"
  let ?new = "\<lparr>u_client_id = cid, u_clock = u_clock u, u_state = ?st\<rparr>"
  have now: "clock_applies (lookup r cid) c n \<longleftrightarrow> clock_in r cid < c \<or> clock_in r cid = c \<and> n \<and> live_in r cid" for c n
    by (auto simp: clock_applies_def clock_in_def live_in_def Let_def split: option.splits)
  show ?thesis
  proof (cases ?go)
    case False
    then have "apply_one san cid g (r, ch) u = (r, ch)"
      using own by (auto simp: apply_one_def taken_over_def Let_def split: option.splits)
    moreover have "accepted_updates san cid (clock_in r cid) (live_in r cid) (u # us) =
        accepted_updates san cid (clock_in r cid) (live_in r cid) us"
      using False unfolding now by (auto split: option.splits)
    ultimately show ?thesis
      using step ok own place by simp
  next
    case True
    from step ok show ?thesis
    proof (cases rule: apply_one_cases)
      case skip
      obtain s r2 where "next_seq r1 = (s, r2)"
        by fastforce
      then have "snd (apply_one san cid g (r, ch) u) \<noteq> ch"
        using True f own by (auto simp: apply_one_def taken_over_def Let_def split: option.splits)
      with step skip(1) show ?thesis
        by simp
    next
      case (store s st)
      then have "clock_in r' cid = u_clock u" "live_in r' cid \<longleftrightarrow> u_state u \<noteq> None" "\<not> taken_over r' cid g" "has_place r' cid"
        by (auto simp: clock_in_def live_in_def taken_over_def has_place_def)
      moreover have "accepted_updates san cid (clock_in r cid) (live_in r cid) (u # us) =
          ?new # accepted_updates san cid (u_clock u) (u_state u \<noteq> None) us"
        using True unfolding now by (cases u) (auto split: option.splits)
      ultimately show ?thesis
        using store by simp
    qed
  qed
qed

lemma foldl_accepted:
  assumes "registry_ok r" "g \<le> reg_generation r" "\<not> taken_over r cid g" "has_place r cid"
  shows "snd (foldl (apply_one san cid g) (r, ch) us) = ch @ accepted_updates san cid (clock_in r cid) (live_in r cid) us"
  using assms
proof (induction us arbitrary: r ch)
  case (Cons u us)
  obtain r' ch' where step: "apply_one san cid g (r, ch) u = (r', ch')"
    by fastforce
  note next' = apply_one_accepted [OF Cons.prems step, of us]
  with Cons.IH [of r' ch'] Cons.prems(2) have "snd (foldl (apply_one san cid g) (r', ch') us) =
      ch' @ accepted_updates san cid (clock_in r' cid) (live_in r' cid) us"
    by simp
  with next' step show ?case
    by (simp del: accepted_updates.simps)
qed simp

lemma foldl_refused:
  assumes "registry_ok r" "taken_over r cid g \<or> \<not> has_place r cid"
  shows "foldl (apply_one san cid g) (r, ch) us = (r, ch)"
proof -
  have "apply_one san cid g (r, ch) u = (r, ch)" for u
    using assms(2) fits_iff_place(2) [OF assms(1), of cid]
    by (auto simp: apply_one_def taken_over_def Let_def split: option.splits)
  then show ?thesis
    by (induction us) simp_all
qed

text \<open>The updates a frame of a connection gets accepted.\<close>

definition accepted_from ::
    "(u8 list \<Rightarrow> u8 list option) \<Rightarrow> u32 \<Rightarrow> u64 \<Rightarrow> awareness_registry \<Rightarrow> awareness_update list \<Rightarrow> awareness_update list" where
  "accepted_from san cid g r updates =
     (if taken_over r cid g \<or> \<not> has_place r cid then []
      else accepted_updates san cid (clock_in r cid) (live_in r cid) updates)"

lemma foldl_accepted_from:
  "registry_ok r \<Longrightarrow> g \<le> reg_generation r \<Longrightarrow>
    snd (foldl (apply_one san cid g) (r, []) us) = accepted_from san cid g r us"
  by (auto simp: accepted_from_def foldl_accepted foldl_refused)

lemma stale_updates_ignored:
  assumes "lookup r cid = Some rec" and "generation rec > g"
  shows "apply_connection_updates fs tv cid us uid name color g r = (None, r)"
proof -
  have "apply_one san cid g (r, ch) u = (r, ch)" for san ch u
    using assms by (auto simp: apply_one_def Let_def)
  then have "foldl (apply_one san cid g) (r, []) us = (r, [])" for san
    by (induction us) simp_all
  then show ?thesis
    by (simp add: apply_connection_updates_def)
qed

lemma remove_client_ok:
  assumes "registry_ok r" and "g \<le> reg_generation r" and "remove_client k g r = (res, r')"
  shows "registry_ok r' \<and> reg_generation r' = reg_generation r \<and>
    (\<forall>j. j \<noteq> k \<longrightarrow> lookup r' j = lookup r j)"
proof -
  obtain s r1 where n: "next_seq r = (s, r1)"
    by fastforce
  show ?thesis
  proof (cases "\<exists>rec. lookup r k = Some rec \<and> \<not> generation rec > g \<and> state rec \<noteq> None")
    case False
    then have "remove_client k g r = (None, r)"
      by (auto simp: remove_client_def split: option.splits)
    with assms show ?thesis
      by simp
  next
    case True
    then obtain rec where rec: "lookup r k = Some rec" "\<not> generation rec > g" "state rec \<noteq> None"
      by blast
    let ?new = "\<lparr>clock = sat_add (clock rec) 1, generation = g, state = None, seq = s\<rparr>"
    have "snd (remove_client k g r) = put_client k ?new r1"
      using rec n by (auto simp: remove_client_def Let_def)
    with put_next_seq [OF assms(1) _ n, of ?new k] rec assms(2,3) show ?thesis
      by auto
  qed
qed

section \<open>The registry over the life of a room\<close>

text \<open>A room creates its registry empty; a join takes a new generation and claims the client
  id, a connection's awareness frame applies its updates under the generation it was given, and
  a departure removes its client.\<close>

inductive registry_reachable :: "(u8 list \<Rightarrow> 'n json option) \<Rightarrow> ('n json \<Rightarrow> u8 list option) \<Rightarrow> awareness_registry \<Rightarrow> bool"
  for from_slice to_vec where
  new: "registry_reachable from_slice to_vec registry_new"
| join: "registry_reachable from_slice to_vec r \<Longrightarrow> connection_generation r = (g, r1) \<Longrightarrow>
    registry_reachable from_slice to_vec (claim_connection_client cid g r1)"
| update: "registry_reachable from_slice to_vec r \<Longrightarrow> g \<le> reg_generation r \<Longrightarrow>
    apply_connection_updates from_slice to_vec cid us uid name color g r = (res, r1) \<Longrightarrow>
    registry_reachable from_slice to_vec r1"
| leave: "registry_reachable from_slice to_vec r \<Longrightarrow> g \<le> reg_generation r \<Longrightarrow>
    remove_client cid g r = (res, r1) \<Longrightarrow> registry_reachable from_slice to_vec r1"

lemma reachable_registry_ok: "registry_reachable fs tv r \<Longrightarrow> registry_ok r"
proof (induction rule: registry_reachable.induct)
  case new
  show ?case
    by (rule registry_ok_new)
next
  case (join r g r1 cid)
  from connection_generation_ok [OF join.IH join.hyps(2)] show ?case
    by (simp add: claim_ok)
next
  case (update r g cid us uid name color res r1)
  from apply_connection_updates_applied [OF update.IH update.hyps(2,3)] show ?case
    by (auto simp: applied_def)
next
  case (leave r g cid res r1)
  from remove_client_ok [OF leave.IH leave.hyps(2,3)] show ?case
    by simp
qed

lemma live_updates_length: "length (live_updates r) \<le> length (by_client r)"
proof -
  have "length (List.map_filter f xs) \<le> length xs" for f :: "u32 \<times> client_record \<Rightarrow> awareness_update option" and xs
    by (induction xs) (auto simp: map_filter_simps split: option.splits)
  then show ?thesis
    by (simp add: live_updates_def)
qed

lemma live_updates_member:
  assumes "bt_ok (by_client r)"
  shows "u \<in> set (live_updates r) \<longleftrightarrow>
    (\<exists>rec st. lookup r (u_client_id u) = Some rec \<and> state rec = Some st \<and> u_clock u = clock rec \<and> u_state u = Some st)"
  using bt.entries_get [OF assms]
  by (force simp: live_updates_def List.map_filter_def)

section \<open>The allowlist\<close>

text \<open>What a filtered presence state may contain.\<close>

definition id_pair_ok :: "'n json \<Rightarrow> bool" where
  "id_pair_ok v = (case v of
     JObject [(k1, JNumber _), (k2, JNumber _)] \<Rightarrow> k1 = ''client'' \<and> k2 = ''clock'' | _ \<Rightarrow> False)"

definition field_ok :: "('n json \<Rightarrow> bool) \<Rightarrow> 'n json option \<Rightarrow> bool" where
  "field_ok check v = (case v of None \<Rightarrow> True | Some w \<Rightarrow> is_null w \<or> check w)"

definition position_ok :: "'n json \<Rightarrow> bool" where
  "position_ok v = (case v of
     JObject m \<Rightarrow>
       list_all (\<lambda>e. fst e \<in> {''type'', ''tname'', ''item'', ''assoc''}) m \<and>
       field_ok id_pair_ok (map_of m ''type'') \<and>
       field_ok (\<lambda>w. as_str w \<noteq> None) (map_of m ''tname'') \<and>
       field_ok id_pair_ok (map_of m ''item'') \<and>
       field_ok is_number (map_of m ''assoc'') \<and>
       (is_target (map_of m ''type'') \<or> is_target (map_of m ''tname'') \<or> is_target (map_of m ''item''))
   | _ \<Rightarrow> False)"

definition cursor_ok :: "'n json \<Rightarrow> bool" where
  "cursor_ok v = (case v of
     JObject [(k1, a), (k2, h)] \<Rightarrow> k1 = ''anchor'' \<and> k2 = ''head'' \<and> position_ok a \<and> position_ok h
   | _ \<Rightarrow> False)"

definition block_ok :: "'n json \<Rightarrow> bool" where
  "block_ok v = (case v of JObject [(k, JString i)] \<Rightarrow> k = ''id'' \<and> i \<noteq> [] | _ \<Rightarrow> False)"

definition presence_ok :: "string \<Rightarrow> string \<Rightarrow> string \<Rightarrow> 'n json \<Rightarrow> bool" where
  "presence_ok user_id name color v = (case v of
     JObject m \<Rightarrow>
       list_all (\<lambda>e. fst e \<in> {''user'', ''cursor'', ''block'', ''title''}) m \<and>
       map_of m ''user'' = Some (JObject [(''color'', JString color), (''id'', JString user_id), (''name'', JString name)]) \<and>
       field_ok cursor_ok (map_of m ''cursor'') \<and>
       field_ok block_ok (map_of m ''block'') \<and>
       field_ok (\<lambda>w. as_bool w = Some True) (map_of m ''title'')
   | _ \<Rightarrow> False)"

lemma json_id_pair_ok: "json_id_pair v = Some p \<Longrightarrow> id_pair_ok p"
  by (auto simp: json_id_pair_def id_pair_ok_def bind_eq_Some_conv elim!: is_number.elims split: if_splits)

lemma position_field_ok:
  assumes "position_field check v = Some x" and "\<And>w y. check w = Some y \<Longrightarrow> ok y"
  shows "field_ok ok x"
  using assms
  by (auto simp: position_field_def field_ok_def bind_eq_Some_conv split: option.splits json.splits)

lemma map_of_opt_insert: "map_of (opt_insert k v m) j = (if j = k \<and> v \<noteq> None then v else map_of m j)"
  by (auto simp: opt_insert_def map_of_bt_insert split: option.splits)

lemma list_all_bt_insert: "P (k, v) \<Longrightarrow> list_all P m \<Longrightarrow> list_all P (bt_insert k v m)"
  by (induction k v m rule: bt_insert.induct) auto

lemma list_all_opt_insert: "(\<And>w. P (k, w)) \<Longrightarrow> list_all P m \<Longrightarrow> list_all P (opt_insert k v m)"
  by (cases v) (simp_all add: opt_insert_def list_all_bt_insert)

lemma sanitize_relative_position_ok:
  assumes "sanitize_relative_position v = Some p"
  shows "position_ok p"
proof -
  from assms obtain obj t n i a where
    f: "position_field json_id_pair (map_of obj ''type'') = Some t"
      "position_field (\<lambda>v. case v of JString s \<Rightarrow> Some (JString s) | _ \<Rightarrow> None) (map_of obj ''tname'') = Some n"
      "position_field json_id_pair (map_of obj ''item'') = Some i"
      "position_field (\<lambda>v. if is_number v then Some v else None) (map_of obj ''assoc'') = Some a"
    and target: "is_target t \<or> is_target n \<or> is_target i"
    and p: "p = JObject (opt_insert ''assoc'' a (opt_insert ''item'' i
            (opt_insert ''tname'' n (opt_insert ''type'' t []))))"
    by (auto simp: sanitize_relative_position_def bind_eq_Some_conv split: if_splits)
  have "field_ok id_pair_ok t" "field_ok id_pair_ok i"
    using position_field_ok [OF f(1)] position_field_ok [OF f(3)] json_id_pair_ok by blast+
  moreover have "field_ok (\<lambda>w. as_str w \<noteq> None) n"
    using f(2) by (rule position_field_ok) (auto split: json.splits)
  moreover have "field_ok is_number a"
    using f(4) by (rule position_field_ok) (auto split: if_splits)
  moreover have "list_all (\<lambda>e. fst e \<in> {''type'', ''tname'', ''item'', ''assoc''})
      (opt_insert ''assoc'' a (opt_insert ''item'' i (opt_insert ''tname'' n (opt_insert ''type'' t []))))"
    by (intro list_all_opt_insert) simp_all
  ultimately show ?thesis
    using target by (auto simp: p position_ok_def map_of_opt_insert)
qed

lemma sanitize_cursor_ok: "sanitize_cursor v = Some c \<Longrightarrow> cursor_ok c"
  by (auto simp: sanitize_cursor_def cursor_ok_def bind_eq_Some_conv dest: sanitize_relative_position_ok)

lemma sanitize_block_ok: "sanitize_block v = Some b \<Longrightarrow> block_ok b"
  by (auto simp: sanitize_block_def block_ok_def bind_eq_Some_conv split: if_splits)

lemma presence_ok_insert:
  assumes "presence_ok uid name color (JObject m)"
    and "k = ''cursor'' \<and> (is_null v \<or> cursor_ok v) \<or> k = ''block'' \<and> (is_null v \<or> block_ok v) \<or>
      k = ''title'' \<and> (is_null v \<or> as_bool v = Some True)"
  shows "presence_ok uid name color (JObject (bt_insert k v m))"
  using assms(1) assms(2)
  by (elim disjE conjE)
    (simp_all add: presence_ok_def list_all_bt_insert map_of_bt_insert field_ok_def)

lemma sanitize_field_ok:
  assumes "presence_ok uid name color (JObject m)"
  shows "presence_ok uid name color (JObject (sanitize_field m e))"
  unfolding sanitize_field_def Let_def
  using presence_ok_insert [OF assms] assms
  by (simp add: sanitize_cursor_ok sanitize_block_ok split: option.split)

lemma sanitize_value_ok:
  assumes "sanitize_value v uid name color = Some out"
  shows "presence_ok uid name color out"
proof -
  from assms obtain obj where out: "out = JObject (foldl sanitize_field [(''user'', JObject
      [(''color'', JString color), (''id'', JString uid), (''name'', JString name)])] obj)"
    by (auto simp: sanitize_value_def bind_eq_Some_conv Let_def split: if_splits)
  have "presence_ok uid name color (JObject (foldl sanitize_field m obj))"
    if "presence_ok uid name color (JObject m)" for m
    using that by (induction obj arbitrary: m) (simp_all add: sanitize_field_ok)
  then show ?thesis
    by (simp add: out presence_ok_def field_ok_def)
qed

section \<open>Removal\<close>

lemma decode_removal:
  assumes "from_str ''null'' = Some JNull"
  shows "decode_awareness from_str (encode_awareness [\<lparr>u_client_id = k, u_clock = clk, u_state = None\<rparr>]) =
    (if clk \<le> LIB0_MAX_SAFE_UINT then Inr [\<lparr>u_client_id = k, u_clock = clk, u_state = None\<rparr>]
     else Inl AInvalidVarUint)"
proof -
  let ?u = "\<lparr>u_client_id = k, u_clock = clk, u_state = None\<rparr>"
  have "from_utf8 NULL_JSON = Some ''null''" and null: "length NULL_JSON = 4"
    by (code_simp, simp add: NULL_JSON_def)
  then have ok: "update_ok from_str ?u \<longleftrightarrow> clk \<le> LIB0_MAX_SAFE_UINT"
    using assms by (simp add: update_ok_def state_bytes_def MAX_AWARENESS_BYTES_def)
  have len: "length (encode_awareness [?u]) \<le> MAX_AWARENESS_BYTES"
    using length_var_uint_10 [of "1"] length_var_uint_10 [of "ucast k"] length_var_uint_10 [of clk]
      length_var_uint_10 [of 4] null
    by (simp add: encode_awareness_eq update_bytes_def state_bytes_def var_bytes_def MAX_AWARENESS_BYTES_def)
  show ?thesis
  proof (cases "clk \<le> LIB0_MAX_SAFE_UINT")
    case True
    then show ?thesis
      using decode_encode_awareness [of from_str "[?u]"] ok len by (simp add: MAX_AWARENESS_CLIENTS_def)
  next
    case False
    have one: "(1 :: u64) \<le> LIB0_MAX_SAFE_UINT"
      by (simp add: word_le_nat_alt LIB0_unat)
    have "read_update from_str (cursor_at (var_uint 1) (update_bytes ?u)) = Inl AInvalidVarUint"
      using False by (simp add: read_update_def a_read_var_uint_def update_bytes_def var_uint_codec.get_put
          u32_safe u32_not_above read_var_uint_write not_le)
    then show ?thesis
      using False len var_uint_codec.get_put [OF one, of ATruncated AInvalidVarUint "[]"]
      by (simp add: decode_awareness_def encode_awareness_eq cursor_new_at a_read_var_uint_def
          MAX_AWARENESS_CLIENTS_def)
  qed
qed

section \<open>Properties\<close>

text \<open>C19: Over the life of a room the awareness registry stays bounded and consistent: at most
  128 clients are tracked, each once and in key order, no record carries a generation or a
  sequence number the registry has not issued, and the full state sent to a joining connection
  lists exactly the live clients.\<close>

theorem awareness_registry_bounded:
  assumes "registry_reachable from_slice to_vec r"
  shows "length (by_client r) \<le> 128 \<and> sorted_wrt (<) (map fst (by_client r)) \<and>
    (\<forall>(k, rec) \<in> set (by_client r). generation rec \<le> reg_generation r \<and> seq rec \<le> reg_seq r) \<and>
    length (live_updates r) \<le> 128 \<and>
    (\<forall>u. u \<in> set (live_updates r) \<longleftrightarrow> (\<exists>rec. (u_client_id u, rec) \<in> set (by_client r) \<and>
       state rec \<noteq> None \<and> u_clock u = clock rec \<and> u_state u = state rec))"
proof -
  have ok: "registry_ok r"
    using assms by (rule reachable_registry_ok)
  then have bt: "bt_ok (by_client r)"
    by (simp add: registry_ok_def)
  have "\<forall>(k, rec) \<in> set (by_client r). generation rec \<le> reg_generation r \<and> seq rec \<le> reg_seq r"
    using ok bt.entries_get [OF bt] by (auto simp: registry_ok_def)
  moreover have "\<forall>u. u \<in> set (live_updates r) \<longleftrightarrow> (\<exists>rec. (u_client_id u, rec) \<in> set (by_client r) \<and>
       state rec \<noteq> None \<and> u_clock u = clock rec \<and> u_state u = state rec)"
    using live_updates_member [OF bt] bt.entries_get [OF bt] by auto
  ultimately show ?thesis
    using ok live_updates_length [of r] by (auto simp: registry_ok_def MAX_AWARENESS_CLIENTS_def bt_ok_def)
qed

theorem awareness_registry_bounded_witness:
  "length (by_client (claim_connection_client 7 1 \<lparr>by_client = [], reg_generation = 1, reg_seq = 0\<rparr>)) \<le> 128"
proof -
  have "connection_generation registry_new = (1, \<lparr>by_client = [], reg_generation = 1, reg_seq = 0\<rparr>)"
    by code_simp
  from registry_reachable.join [OF registry_reachable.new [of "\<lambda>_. None" "\<lambda>v :: nat json. None"] this]
  show ?thesis
    using awareness_registry_bounded by blast
qed

text \<open>C18: A connection's awareness frame changes only its own client. Whatever updates it
  carries, every other client's record is left as it was, except that tombstones may be evicted
  to make room (a live state never is); the claimed client's clock never goes back; and once a
  newer connection owns the client id, a frame from the older one changes nothing and is not
  broadcast.\<close>

theorem awareness_updates_isolated:
  assumes "registry_ok r" and "conn_generation \<le> reg_generation r"
    and "apply_connection_updates from_slice to_vec cid updates user_id name color conn_generation r = (sent, r')"
  shows "registry_ok r' \<and>
    (\<forall>j. j \<noteq> cid \<longrightarrow> kept_or_tombstone r r' j) \<and>
    (\<forall>rec. lookup r cid = Some rec \<longrightarrow> (\<exists>rec'. lookup r' cid = Some rec' \<and> clock rec \<le> clock rec')) \<and>
    (\<forall>rec. lookup r cid = Some rec \<and> conn_generation < generation rec \<longrightarrow> sent = None \<and> r' = r)"
proof -
  from apply_connection_updates_applied [OF assms] obtain ch where
    "applied (\<lambda>raw. sanitize_user_state from_slice to_vec raw user_id name color) cid conn_generation r (r', ch)" .
  moreover have "sent = None \<and> r' = r" if "lookup r cid = Some rec" "conn_generation < generation rec" for rec
    using stale_updates_ignored [OF that, of from_slice to_vec updates user_id name color] assms(3) by simp
  ultimately show ?thesis
    by (auto simp: applied_def)
qed

theorem awareness_updates_isolated_witness:
  "kept_or_tombstone
     \<lparr>by_client = [(9, \<lparr>clock = 3, generation = 1, state = Some [1], seq = 1\<rparr>)], reg_generation = 2, reg_seq = 1\<rparr>
     (snd (apply_connection_updates (\<lambda>_. None) (\<lambda>v :: nat json. None) 7
        [\<lparr>u_client_id = 9, u_clock = 4, u_state = None\<rparr>, \<lparr>u_client_id = 7, u_clock = 1, u_state = None\<rparr>]
        ''u'' ''n'' ''c'' 2
        \<lparr>by_client = [(9, \<lparr>clock = 3, generation = 1, state = Some [1], seq = 1\<rparr>)], reg_generation = 2, reg_seq = 1\<rparr>)) 9"
proof -
  let ?r = "\<lparr>by_client = [(9, \<lparr>clock = 3, generation = 1, state = Some [1], seq = 1\<rparr>)], reg_generation = 2, reg_seq = 1\<rparr>"
  let ?a = "apply_connection_updates (\<lambda>_. None) (\<lambda>v :: nat json. None) 7
      [\<lparr>u_client_id = 9, u_clock = 4, u_state = None\<rparr>, \<lparr>u_client_id = 7, u_clock = 1, u_state = None\<rparr>]
      ''u'' ''n'' ''c'' 2 ?r"
  have ok: "registry_ok ?r"
    by (simp add: registry_ok_def bt_ok_def MAX_AWARENESS_CLIENTS_def)
  have "(2 :: u64) \<le> reg_generation ?r"
    by simp
  from awareness_updates_isolated [OF ok this surjective_pairing [of ?a]]
  have "\<forall>j. j \<noteq> 7 \<longrightarrow> kept_or_tombstone ?r (snd ?a) j"
    by (elim conjE)
  then show ?thesis
    by (elim allE [of _ 9]) simp
qed

text \<open>C20: What an awareness frame stores and broadcasts is what its updates say. The accepted updates are those the
  reference \<open>accepted_updates\<close> picks from the frame: the ones about the connection's client with a newer clock (or
  removing a live state at the same clock), each state as the presence filter returned it for the verified user; none
  if a newer connection has taken the client over, or if the registry is full of live clients and does not know it. If
  there are accepted updates, the bytes sent are their encoding and the client's record is the last of them under the
  connection's generation; if there are none, nothing is sent and the client's record is unchanged.\<close>

theorem awareness_broadcast_is_stored:
  assumes "registry_ok r" and "conn_generation \<le> reg_generation r"
    and "apply_connection_updates from_slice to_vec cid updates user_id name color conn_generation r = (sent, r')"
    and "changed = accepted_from (\<lambda>raw. sanitize_user_state from_slice to_vec raw user_id name color) cid conn_generation r updates"
  shows "if changed = [] then sent = None \<and> lookup r' cid = lookup r cid
    else sent = Some (encode_awareness changed) \<and>
      (\<exists>s. lookup r' cid = Some \<lparr>clock = u_clock (last changed), generation = conn_generation,
        state = u_state (last changed), seq = s\<rparr>)"
proof -
  from apply_connection_updates_applied [OF assms(1-3)] obtain ch where
    ch: "applied (\<lambda>raw. sanitize_user_state from_slice to_vec raw user_id name color) cid conn_generation r (r', ch)"
      "sent = (if ch = [] then None else Some (encode_awareness ch))"
      "ch = snd (foldl (apply_one (\<lambda>raw. sanitize_user_state from_slice to_vec raw user_id name color) cid conn_generation)
        (r, []) updates)" .
  then have "ch = changed"
    using foldl_accepted_from [OF assms(1,2)] assms(4) by simp
  with ch(1,2) show ?thesis
    by (auto simp: applied_def)
qed

theorem awareness_broadcast_is_stored_witness:
  "\<exists>sent r' s. apply_connection_updates
      (\<lambda>raw. Some (JObject [(''user'', JObject [(''id'', JString ''u1''), (''name'', JString ''forged'')])]))
      (\<lambda>v :: nat json. Some [123, 125]) 7
      [\<lparr>u_client_id = 9, u_clock = 5, u_state = None\<rparr>, \<lparr>u_client_id = 7, u_clock = 2, u_state = Some [1, 2, 3]\<rparr>,
       \<lparr>u_client_id = 7, u_clock = 2, u_state = Some [4]\<rparr>] ''u1'' ''n'' ''c'' 0 registry_new = (sent, r') \<and>
    sent = Some (encode_awareness [\<lparr>u_client_id = 7, u_clock = 2, u_state = Some [123, 125]\<rparr>]) \<and>
    lookup r' 7 = Some \<lparr>clock = 2, generation = 0, state = Some [123, 125], seq = s\<rparr>"
proof -
  let ?from = "\<lambda>raw :: u8 list. Some (JObject [(''user'', JObject [(''id'', JString ''u1''), (''name'', JString ''forged'')])])"
  let ?to = "\<lambda>v :: nat json. Some [123, 125 :: u8]"
  let ?us = "[\<lparr>u_client_id = 9, u_clock = 5, u_state = None\<rparr>, \<lparr>u_client_id = 7, u_clock = 2, u_state = Some [1, 2, 3]\<rparr>,
      \<lparr>u_client_id = 7, u_clock = 2, u_state = Some [4]\<rparr>]"
  have picked: "[\<lparr>u_client_id = 7, u_clock = 2, u_state = Some [123, 125]\<rparr>] =
      accepted_from (\<lambda>raw. sanitize_user_state ?from ?to raw ''u1'' ''n'' ''c'') 7 0 registry_new ?us"
    by code_simp
  from awareness_broadcast_is_stored [OF registry_ok_new _ surjective_pairing picked] obtain s
    where "fst (apply_connection_updates ?from ?to 7 ?us ''u1'' ''n'' ''c'' 0 registry_new) =
        Some (encode_awareness [\<lparr>u_client_id = 7, u_clock = 2, u_state = Some [123, 125]\<rparr>])"
      and "lookup (snd (apply_connection_updates ?from ?to 7 ?us ''u1'' ''n'' ''c'' 0 registry_new)) 7 =
        Some \<lparr>clock = 2, generation = 0, state = Some [123, 125], seq = s\<rparr>"
    by auto
  then show ?thesis
    by (metis surjective_pairing)
qed

text \<open>C21: A presence state that reaches other users passed the allowlist. The filter accepts a
  raw state only if it names the verified user's own id; what it prints has no field besides
  user, cursor, block and title, its user object is exactly the verified id, name and colour
  (whatever the client claimed), and cursor, block and title have the shapes editors rely on; a
  cursor position always has a target.\<close>

theorem presence_allowlist:
  assumes "sanitize_user_state from_slice to_vec raw user_id name color = Some out"
  shows "\<exists>v obj user. to_vec v = Some out \<and> presence_ok user_id name color v \<and>
    from_slice raw = Some (JObject obj) \<and> map_of obj ''user'' = Some (JObject user) \<and>
    map_of user ''id'' = Some (JString user_id)"
proof -
  from assms obtain val v where "from_slice raw = Some val"
    and v: "sanitize_value val user_id name color = Some v" and "to_vec v = Some out"
    by (auto simp: sanitize_user_state_def bind_eq_Some_conv)
  moreover from v obtain obj user where "val = JObject obj" "map_of obj ''user'' = Some (JObject user)"
    "map_of user ''id'' = Some (JString user_id)"
    by (auto simp: sanitize_value_def bind_eq_Some_conv split: if_splits)
  ultimately show ?thesis
    using sanitize_value_ok [OF v] by blast
qed

theorem presence_allowlist_witness:
  "\<exists>v. (if map_of (the (as_object v)) ''name'' = None then Some [1] else None) = Some [1 :: u8] \<and>
    presence_ok ''u1'' ''Kim'' ''red'' (v :: nat json)"
proof -
  have "sanitize_user_state
      (\<lambda>raw. Some (JObject [(''name'', JString ''forged''), (''user'', JObject [(''id'', JString ''u1'')])]))
      (\<lambda>v :: nat json. if map_of (the (as_object v)) ''name'' = None then Some [1] else None)
      [0] ''u1'' ''Kim'' ''red'' = Some [1]"
    by code_simp
  from presence_allowlist [OF this] show ?thesis
    by blast
qed

text \<open>C22: The awareness codec round trips: up to 128 updates whose clocks lib0 can represent
  and whose states are JSON text of at most 64 KiB decode to themselves, provided the frame as a
  whole is within 64 KiB.\<close>

theorem awareness_round_trip:
  assumes "list_all (update_ok from_str) updates" and "length updates \<le> MAX_AWARENESS_CLIENTS"
    and "length (encode_awareness updates) \<le> MAX_AWARENESS_BYTES"
  shows "decode_awareness from_str (encode_awareness updates) = Inr updates"
  using assms by (rule decode_encode_awareness)

theorem awareness_round_trip_witness:
  "decode_awareness (\<lambda>s. if s = ''null'' then Some JNull else Some (JString s :: nat json))
     (encode_awareness [\<lparr>u_client_id = 7, u_clock = 300, u_state = Some [49]\<rparr>,
        \<lparr>u_client_id = 9, u_clock = 1, u_state = None\<rparr>]) =
   Inr [\<lparr>u_client_id = 7, u_clock = 300, u_state = Some [49]\<rparr>, \<lparr>u_client_id = 9, u_clock = 1, u_state = None\<rparr>]"
proof (rule awareness_round_trip)
  let ?us = "[\<lparr>u_client_id = 7, u_clock = 300, u_state = Some [49]\<rparr>, \<lparr>u_client_id = 9, u_clock = 1, u_state = None\<rparr>]"
  show "list_all (update_ok (\<lambda>s. if s = ''null'' then Some JNull else Some (JString s :: nat json))) ?us"
    by code_simp
  show "length ?us \<le> MAX_AWARENESS_CLIENTS"
    by code_simp
  show "length (encode_awareness ?us) \<le> MAX_AWARENESS_BYTES"
    by code_simp
qed

text \<open>C23: Removing a client. For a live client owned by the leaving connection the registry
  keeps a tombstone with the next clock and the bytes sent announce exactly that, and they decode,
  if and only if the client's clock was below 2^53 - 1. A client that has driven its clock to
  2^53 - 1, the largest value the decoder accepts, leaves a removal notice that the decoder (like
  every lib0 reader) rejects. The hypothesis on \<open>from_str\<close> is that the JSON text null parses
  to null.\<close>

theorem awareness_removal:
  assumes "from_str ''null'' = Some JNull" and "registry_ok r" and "lookup r cid = Some rec"
    and "state rec \<noteq> None" and "generation rec \<le> conn_generation" and "conn_generation \<le> reg_generation r"
    and "clock rec \<le> LIB0_MAX_SAFE_UINT" and "remove_client cid conn_generation r = (sent, r')"
  shows "\<exists>bs s. sent = Some bs \<and>
    lookup r' = (lookup r)(cid \<mapsto> \<lparr>clock = clock rec + 1, generation = conn_generation, state = None, seq = s\<rparr>) \<and>
    decode_awareness from_str bs =
      (if clock rec < LIB0_MAX_SAFE_UINT then Inr [\<lparr>u_client_id = cid, u_clock = clock rec + 1, u_state = None\<rparr>]
       else Inl AInvalidVarUint)"
proof -
  obtain s r1 where n: "next_seq r = (s, r1)"
    by fastforce
  let ?new = "\<lparr>clock = sat_add (clock rec) 1, generation = conn_generation, state = None, seq = s\<rparr>"
  have c: "unat (clock rec) \<le> 2 ^ 53 - 1"
    using assms(7) by (simp add: word_le_nat_alt LIB0_unat)
  then have plus: "sat_add (clock rec) 1 = clock rec + 1" and up: "unat (clock rec + 1) = unat (clock rec) + 1"
    by (simp_all add: sat_add_def unat_word_ariths)
  then have le: "clock rec + 1 \<le> LIB0_MAX_SAFE_UINT \<longleftrightarrow> clock rec < LIB0_MAX_SAFE_UINT"
    by (simp add: word_le_nat_alt word_less_nat_alt LIB0_unat Suc_le_eq)
  have "remove_client cid conn_generation r = (Some (encode_awareness
      [\<lparr>u_client_id = cid, u_clock = clock rec + 1, u_state = None\<rparr>]), put_client cid ?new r1)"
    using assms(3-5) n plus by (auto simp: remove_client_def Let_def not_less)
  then show ?thesis
    using assms(8) put_next_seq [OF assms(2) _ n, of ?new cid] assms(3,6) decode_removal [of from_str] assms(1) le plus
    by auto
qed

theorem awareness_removal_witness:
  "\<exists>bs s. fst (remove_client 7 1 \<lparr>by_client = [(7, \<lparr>clock = LIB0_MAX_SAFE_UINT, generation = 1, state = Some [49], seq = 1\<rparr>)],
      reg_generation = 1, reg_seq = 1\<rparr>) = Some bs \<and>
    decode_awareness (\<lambda>s. if s = ''null'' then Some JNull else Some (JString s :: nat json)) bs = Inl AInvalidVarUint"
proof -
  let ?r = "\<lparr>by_client = [(7, \<lparr>clock = LIB0_MAX_SAFE_UINT, generation = 1, state = Some [49], seq = 1\<rparr>)],
      reg_generation = 1, reg_seq = 1\<rparr>"
  have "registry_ok ?r"
    by (simp add: registry_ok_def bt_ok_def MAX_AWARENESS_CLIENTS_def)
  from awareness_removal [OF _ this _ _ _ _ _ surjective_pairing, of "\<lambda>s. if s = ''null'' then Some JNull else Some (JString s :: nat json)" 7
      "\<lparr>clock = LIB0_MAX_SAFE_UINT, generation = 1, state = Some [49], seq = 1\<rparr>" 1]
  show ?thesis
    by auto
qed

end
