(* ===== verification/Engine.thy ===== *)
theory Engine
  imports Json
begin

text \<open>
  \<open>crates/collab-engine\<close>: the resource limits of the CRDT worker and their validation
  (\<open>limits.rs\<close>), the requests the parent sends and the size checks on both sides of the
  pipe (\<open>protocol.rs\<close>, \<open>b64.rs\<close>), the length-prefixed framing (\<open>frame.rs\<close>) and
  the failure values (\<open>outcome.rs\<close>). Human-readable detail texts are left out of the error
  values. Base64 itself (crate \<open>base64\<close>) is the parameter \<open>b64_encode\<close>.
\<close>

section \<open>Limits\<close>

definition MAX_INPUT_BYTES :: u64 where "MAX_INPUT_BYTES = 8 * 1024 * 1024"
definition MAX_OUTPUT_BYTES :: u64 where "MAX_OUTPUT_BYTES = MAX_INPUT_BYTES"
definition MAX_LOAD_BYTES :: u64 where "MAX_LOAD_BYTES = 32 * 1024 * 1024"
definition MAX_FRAME_BYTES :: u64 where "MAX_FRAME_BYTES = 48 * 1024 * 1024"
definition MAX_TAIL_UPDATES :: u64 where "MAX_TAIL_UPDATES = 64"
definition MAX_OPS :: u32 where "MAX_OPS = 256"
definition DEFAULT_TIMEOUT_MS :: u64 where "DEFAULT_TIMEOUT_MS = 8000"
definition MAX_CHILD_AS_BYTES :: u64 where "MAX_CHILD_AS_BYTES = 1024 * 1024 * 1024"
definition MAX_OBSERVED_RSS_BYTES :: u64 where "MAX_OBSERVED_RSS_BYTES = 512 * 1024 * 1024"
definition MAX_CHILD_STACK_BYTES :: u64 where "MAX_CHILD_STACK_BYTES = 8 * 1024 * 1024"
definition MAX_PROJECT_JSON_BYTES :: u64 where "MAX_PROJECT_JSON_BYTES = 1024 * 1024"
definition MAX_PROJECT_DEPTH :: u32 where "MAX_PROJECT_DEPTH = 128"
definition MAX_PROJECT_NODES :: u32 where "MAX_PROJECT_NODES = 100000"
definition MAX_PROJECT_STRING_BYTES :: u64 where "MAX_PROJECT_STRING_BYTES = MAX_PROJECT_JSON_BYTES"
definition MIN_ROOM_MEMORY_RESERVATION_BYTES :: u64 where "MIN_ROOM_MEMORY_RESERVATION_BYTES = 16 * 1024 * 1024"
definition PERSISTED_STATE_MEMORY_FACTOR :: u64 where "PERSISTED_STATE_MEMORY_FACTOR = 14"
definition MIN_TIMEOUT_MS :: u64 where "MIN_TIMEOUT_MS = 1"
definition MAX_TIMEOUT_MS :: u64 where "MAX_TIMEOUT_MS = 60000"
definition MIN_CHILD_AS_BYTES :: u64 where "MIN_CHILD_AS_BYTES = 16 * 1024 * 1024"
definition MIN_CHILD_STACK_BYTES :: u64 where "MIN_CHILD_STACK_BYTES = 128 * 1024"

definition div_ceil :: "u64 \<Rightarrow> u64 \<Rightarrow> u64" where
  "div_ceil a b = (if a mod b = 0 then a div b else a div b + 1)"

definition MAX_CHILD_CPU_SECS :: u64 where
  "MAX_CHILD_CPU_SECS = div_ceil MAX_TIMEOUT_MS 1000 * ucast MAX_OPS"

lemmas engine_consts = MAX_INPUT_BYTES_def MAX_OUTPUT_BYTES_def MAX_LOAD_BYTES_def MAX_FRAME_BYTES_def
  MAX_TAIL_UPDATES_def MAX_OPS_def DEFAULT_TIMEOUT_MS_def MAX_CHILD_AS_BYTES_def MAX_OBSERVED_RSS_BYTES_def
  MAX_CHILD_STACK_BYTES_def MAX_PROJECT_JSON_BYTES_def MAX_PROJECT_DEPTH_def MAX_PROJECT_NODES_def
  MAX_PROJECT_STRING_BYTES_def MIN_ROOM_MEMORY_RESERVATION_BYTES_def PERSISTED_STATE_MEMORY_FACTOR_def
  MIN_TIMEOUT_MS_def MAX_TIMEOUT_MS_def MIN_CHILD_AS_BYTES_def MIN_CHILD_STACK_BYTES_def

definition min_frame_bytes_for_input :: "u64 \<Rightarrow> u64" where
  "min_frame_bytes_for_input decoded_bytes =
     sat_add (sat_add (sat_mul decoded_bytes 4) 2 div 3) 4096"

record engine_limits =
  e_max_input_bytes :: u64
  e_max_output_bytes :: u64
  e_max_load_bytes :: u64
  e_max_frame_bytes :: u64
  e_max_tail_updates :: u64
  e_max_ops :: u32
  e_max_project_json_bytes :: u64
  e_max_project_depth :: u32
  e_max_project_nodes :: u32
  e_max_project_string_bytes :: u64
  e_timeout_ms :: u64
  e_max_child_as_bytes :: u64
  e_max_observed_rss_bytes :: u64
  e_max_child_stack_bytes :: u64

definition engine_limits_default :: engine_limits where
  "engine_limits_default = \<lparr>e_max_input_bytes = MAX_INPUT_BYTES, e_max_output_bytes = MAX_OUTPUT_BYTES,
     e_max_load_bytes = MAX_LOAD_BYTES, e_max_frame_bytes = MAX_FRAME_BYTES,
     e_max_tail_updates = MAX_TAIL_UPDATES, e_max_ops = MAX_OPS,
     e_max_project_json_bytes = MAX_PROJECT_JSON_BYTES, e_max_project_depth = MAX_PROJECT_DEPTH,
     e_max_project_nodes = MAX_PROJECT_NODES, e_max_project_string_bytes = MAX_PROJECT_STRING_BYTES,
     e_timeout_ms = DEFAULT_TIMEOUT_MS, e_max_child_as_bytes = MAX_CHILD_AS_BYTES,
     e_max_observed_rss_bytes = MAX_OBSERVED_RSS_BYTES, e_max_child_stack_bytes = MAX_CHILD_STACK_BYTES\<rparr>"

datatype limits_error =
  BadTimeout | BadInput | OutputNotInput | BadLoad | BadFrame | BadTail | BadOps | BadProjectJson
| BadProjectDepth | BadProjectNodes | BadProjectString | BadAs | BadRss | RssAboveAs | BadCpu | BadStack

definition cpu_budget_secs :: "engine_limits \<Rightarrow> u64" where
  "cpu_budget_secs l =
     (let per_op = max (div_ceil (e_timeout_ms l) 1000) 1 in sat_mul per_op (ucast (e_max_ops l)))"

definition validate :: "engine_limits \<Rightarrow> limits_error + unit" where
  "validate l =
     (if e_timeout_ms l < MIN_TIMEOUT_MS \<or> e_timeout_ms l > MAX_TIMEOUT_MS then Inl BadTimeout
      else if e_max_input_bytes l = 0 \<or> e_max_input_bytes l > MAX_INPUT_BYTES then Inl BadInput
      else if e_max_output_bytes l \<noteq> e_max_input_bytes l then Inl OutputNotInput
      else if e_max_load_bytes l < e_max_input_bytes l \<or> e_max_load_bytes l > MAX_LOAD_BYTES then Inl BadLoad
      else if e_max_frame_bytes l < min_frame_bytes_for_input (e_max_load_bytes l)
              \<or> e_max_frame_bytes l > MAX_FRAME_BYTES then Inl BadFrame
      else if e_max_tail_updates l = 0 \<or> e_max_tail_updates l > MAX_TAIL_UPDATES then Inl BadTail
      else if e_max_ops l = 0 \<or> e_max_ops l > MAX_OPS then Inl BadOps
      else if e_max_project_json_bytes l = 0 \<or> e_max_project_json_bytes l > MAX_PROJECT_JSON_BYTES
      then Inl BadProjectJson
      else if e_max_project_depth l = 0 \<or> e_max_project_depth l > MAX_PROJECT_DEPTH then Inl BadProjectDepth
      else if e_max_project_nodes l = 0 \<or> e_max_project_nodes l > MAX_PROJECT_NODES then Inl BadProjectNodes
      else if e_max_project_string_bytes l = 0 \<or> e_max_project_string_bytes l > MAX_PROJECT_STRING_BYTES
      then Inl BadProjectString
      else if e_max_child_as_bytes l < MIN_CHILD_AS_BYTES \<or> e_max_child_as_bytes l > MAX_CHILD_AS_BYTES
      then Inl BadAs
      else if e_max_observed_rss_bytes l < MIN_CHILD_AS_BYTES
              \<or> e_max_observed_rss_bytes l > MAX_OBSERVED_RSS_BYTES then Inl BadRss
      else if e_max_observed_rss_bytes l > e_max_child_as_bytes l then Inl RssAboveAs
      else let cpu = cpu_budget_secs l in
        if cpu = 0 \<or> cpu > MAX_CHILD_CPU_SECS then Inl BadCpu
        else if e_max_child_stack_bytes l < MIN_CHILD_STACK_BYTES
                \<or> e_max_child_stack_bytes l > MAX_CHILD_STACK_BYTES then Inl BadStack
        else Inr ())"

definition room_memory_reservation_bytes :: "u64 \<Rightarrow> u64" where
  "room_memory_reservation_bytes persisted_bytes =
     max (sat_mul persisted_bytes PERSISTED_STATE_MEMORY_FACTOR) MIN_ROOM_MEMORY_RESERVATION_BYTES"

section \<open>Failures\<close>

datatype limit_kind = LInput | LOutput | LFrame | LOps | LTime | LMemory | LStack

datatype worker_failure_reason =
  MissingExecutable | Spawn | Wait | ChildCrash | InvalidChildJson | LimitApply | UnsupportedPlatform
| InvalidLimits | SlotPoison | SessionDead | Protocol

datatype unsupported_reason = EncodingV2 | UnknownOp | SnapshotRestore

text \<open>The failing variants of \<open>EngineStatus\<close>.\<close>

datatype engine_failure =
  Malformed
| Unsupported unsupported_reason
| ResourceLimit limit_kind
| WorkerFailure worker_failure_reason

section \<open>Requests\<close>

datatype request =
  ReqPing
| ReqLoad "u8 list option" "u8 list list" u8
| ReqArchiveLoad "u8 list option" "u8 list list" u8 string
| ReqApply "u8 list" u8
| ReqSync "u8 list" u8
| ReqSnapshot
| ReqInspect
| ReqProject u8
| ReqRevisionSnapshot
| ReqRevisionSnapshotsEqual "u8 list" "u8 list"
| ReqRestoreFromSnapshot "u8 list" u8
| ReqArchiveRestoreFromSnapshot "u8 list" u8
| ReqReplaceFromUpdate "u8 list" u8
| ReqSeedFromTiptap string u8
| ReqSeedIndependentFromTiptap string u8

fun encoding :: "request \<Rightarrow> u8" where
  "encoding (ReqLoad _ _ e) = e"
| "encoding (ReqArchiveLoad _ _ e _) = e"
| "encoding (ReqApply _ e) = e"
| "encoding (ReqSync _ e) = e"
| "encoding (ReqProject e) = e"
| "encoding (ReqRestoreFromSnapshot _ e) = e"
| "encoding (ReqArchiveRestoreFromSnapshot _ e) = e"
| "encoding (ReqReplaceFromUpdate _ e) = e"
| "encoding (ReqSeedFromTiptap _ e) = e"
| "encoding (ReqSeedIndependentFromTiptap _ e) = e"
| "encoding _ = 1"

definition len :: "'a list \<Rightarrow> u64" where
  "len xs = of_nat (length xs)"

definition load_total_bytes :: "u8 list \<Rightarrow> u8 list list \<Rightarrow> u64" where
  "load_total_bytes snapshot tail = foldl (\<lambda>acc u. sat_add acc (len u)) (len snapshot) tail"

definition unwrap_blob :: "u8 list option \<Rightarrow> u8 list" where
  "unwrap_blob b = (case b of Some x \<Rightarrow> x | None \<Rightarrow> [])"

fun payload_bytes :: "request \<Rightarrow> u64" where
  "payload_bytes (ReqRevisionSnapshotsEqual l r) = len l + len r"
| "payload_bytes (ReqApply u _) = len u"
| "payload_bytes (ReqSync sv _) = len sv"
| "payload_bytes (ReqRestoreFromSnapshot s _) = len s"
| "payload_bytes (ReqArchiveRestoreFromSnapshot s _) = len s"
| "payload_bytes (ReqReplaceFromUpdate u _) = len u"
| "payload_bytes (ReqSeedFromTiptap c _) = len c"
| "payload_bytes (ReqSeedIndependentFromTiptap c _) = len c"
| "payload_bytes (ReqLoad s t _) = load_total_bytes (unwrap_blob s) t"
| "payload_bytes (ReqArchiveLoad s t _ _) = load_total_bytes (unwrap_blob s) t"
| "payload_bytes _ = 0"

fun tail_rows :: "request \<Rightarrow> nat" where
  "tail_rows (ReqLoad _ t _) = length t"
| "tail_rows (ReqArchiveLoad _ t _ _) = length t"
| "tail_rows _ = 0"

definition cap_blob :: "u64 \<Rightarrow> engine_limits \<Rightarrow> engine_failure + unit" where
  "cap_blob n l = (if n > e_max_input_bytes l then Inl (ResourceLimit LInput) else Inr ())"

fun cap_blobs :: "u64 list \<Rightarrow> engine_limits \<Rightarrow> engine_failure + unit" where
  "cap_blobs [] l = Inr ()"
| "cap_blobs (n # ns) l = rbind (cap_blob n l) (\<lambda>_. cap_blobs ns l)"

definition cap_load_parts ::
    "(u8 list \<times> u8 list list) option \<Rightarrow> u64 \<Rightarrow> nat \<Rightarrow> engine_limits \<Rightarrow> engine_failure + unit" where
  "cap_load_parts load payload rows l =
     (case load of
        Some (snapshot, tail) \<Rightarrow>
          if len tail > e_max_tail_updates l then Inl (ResourceLimit LOps)
          else
            rbind (cap_blob (len snapshot) l) (\<lambda>_.
            rbind (cap_blobs (map len tail) l) (\<lambda>_.
            if payload > e_max_load_bytes l then Inl (ResourceLimit LInput) else Inr ()))
      | None \<Rightarrow> cap_blob payload l)"

definition lower_hex :: "char \<Rightarrow> bool" where
  "lower_hex c = (let n = (of_char c :: nat) in 48 \<le> n \<and> n \<le> 57 \<or> 97 \<le> n \<and> n \<le> 102)"

definition binding_ok :: "string \<Rightarrow> bool" where
  "binding_ok s \<longleftrightarrow> length s = 64 \<and> list_all lower_hex s"

fun load_parts :: "request \<Rightarrow> (u8 list \<times> u8 list list) option" where
  "load_parts (ReqLoad s t _) = Some (unwrap_blob s, t)"
| "load_parts (ReqArchiveLoad s t _ _) = Some (unwrap_blob s, t)"
| "load_parts _ = None"

definition preflight :: "request \<Rightarrow> engine_limits \<Rightarrow> engine_failure + unit" where
  "preflight r l =
     (if (case r of ReqArchiveLoad _ _ _ b \<Rightarrow> \<not> binding_ok b | _ \<Rightarrow> False) then Inl Malformed
      else cap_load_parts (load_parts r) (payload_bytes r) (tail_rows r) l)"

section \<open>The check on the child's side\<close>

definition decoded_len_estimate :: "nat \<Rightarrow> u64" where
  "decoded_len_estimate b64_chars = sat_mul (of_nat b64_chars) 3 div 4"

definition cap_b64_field :: "string \<Rightarrow> 'n json_map \<Rightarrow> engine_limits \<Rightarrow> engine_failure + unit" where
  "cap_b64_field name obj l =
     (case Option.bind (map_of obj name) as_str of
        Some s \<Rightarrow> cap_blob (decoded_len_estimate (length s)) l
      | None \<Rightarrow> Inr ())"

fun wire_tail :: "'n json list \<Rightarrow> u64 \<Rightarrow> engine_limits \<Rightarrow> engine_failure + unit" where
  "wire_tail [] acc l = Inr ()"
| "wire_tail (item # items) acc l =
     (case as_str item of
        None \<Rightarrow> Inl Malformed
      | Some s \<Rightarrow>
          (let n = decoded_len_estimate (length s) in
           rbind (cap_blob n l) (\<lambda>_.
             let acc = sat_add acc n in
             if acc > e_max_load_bytes l then Inl (ResourceLimit LInput)
             else wire_tail items acc l)))"

definition preflight_wire_json :: "'n json \<Rightarrow> engine_limits \<Rightarrow> engine_failure + unit" where
  "preflight_wire_json v l =
     (case as_object v of
        None \<Rightarrow> Inr ()
      | Some obj \<Rightarrow>
          (let op = Option.bind (map_of obj ''op'') as_str in
           if op = Some ''archive_load'' \<and>
              (case Option.bind (map_of obj ''capture_binding'') as_str of
                 None \<Rightarrow> True | Some s \<Rightarrow> \<not> binding_ok s)
           then Inl Malformed
           else if op \<noteq> Some ''load'' \<and> op \<noteq> Some ''archive_load'' then
             rbind (cap_b64_field ''update_b64'' obj l) (\<lambda>_.
             rbind (cap_b64_field ''state_vector_b64'' obj l) (\<lambda>_.
             rbind (cap_b64_field ''snap_b64'' obj l) (\<lambda>_.
             rbind (cap_b64_field ''left_b64'' obj l) (\<lambda>_.
             cap_b64_field ''right_b64'' obj l))))
           else
             let snap = (case Option.bind (map_of obj ''snapshot_b64'') as_str of Some s \<Rightarrow> s | None \<Rightarrow> []);
                 tail = (case Option.bind (map_of obj ''tail_b64'') as_array of Some t \<Rightarrow> t | None \<Rightarrow> [])
             in if len tail > e_max_tail_updates l then Inl (ResourceLimit LOps)
                else let snap_n = decoded_len_estimate (length snap) in
                  rbind (cap_blob snap_n l) (\<lambda>_. wire_tail tail snap_n l)))"

text \<open>The JSON the parent sends for a load, as the serde attributes of \<open>Request\<close> fix it.\<close>

definition load_json :: "(u8 list \<Rightarrow> string) \<Rightarrow> u8 list option \<Rightarrow> u8 list list \<Rightarrow> u8 \<Rightarrow> u8 json" where
  "load_json b64_encode snapshot tail enc =
     JObject [(''encoding'', JNumber enc), (''op'', JString ''load''),
       (''snapshot_b64'', case snapshot of Some b \<Rightarrow> JString (b64_encode b) | None \<Rightarrow> JNull),
       (''tail_b64'', JArray (map (\<lambda>b. JString (b64_encode b)) tail))]"

section \<open>Framing\<close>

datatype io_error = InvalidInput

datatype frame_error = FTooLarge u64 u64 | FIo

text \<open>\<open>out\<close> is what has been written to the pipe; reading works on the bytes the pipe still
  delivers before end of file.\<close>

definition write_frame :: "u8 list \<Rightarrow> u8 list \<Rightarrow> u64 \<Rightarrow> io_error + u8 list" where
  "write_frame out payload mx =
     (if len payload > mx then Inl InvalidInput
      else if length payload \<ge> 2 ^ 32 then Inl InvalidInput
      else Inr (out @ to_le_bytes (of_nat (length payload)) @ payload))"

definition read_frame :: "u8 list \<Rightarrow> u64 \<Rightarrow> frame_error + (u8 list option \<times> u8 list)" where
  "read_frame pipe mx =
     (if length pipe < 4 then Inr (None, [])
      else
        let n = (ucast (from_le_bytes (take 4 pipe)) :: u64); rest = drop 4 pipe in
        if n > mx then Inl (FTooLarge n mx)
        else if length rest < unat n then Inl FIo
        else Inr (Some (take (unat n) rest), drop (unat n) rest))"

definition frame_error_into_status :: "frame_error \<Rightarrow> engine_failure" where
  "frame_error_into_status e = (case e of
     FTooLarge n mx \<Rightarrow> ResourceLimit LFrame
   | FIo \<Rightarrow> WorkerFailure Protocol)"

section \<open>Limits that validate\<close>

lemma unat_small_mult: "unat a * k < 2 ^ 64 \<Longrightarrow> unat (a * of_nat k :: u64) = unat a * k"
  by (simp add: unat_word_ariths unat_of_nat mod_mult_right_eq)

lemma unat_sat_mul_exact: "unat a * unat b < 2 ^ 64 \<Longrightarrow> unat (sat_mul a (b :: u64)) = unat a * unat b"
  by (simp add: unat_sat_mul)

lemma unat_sat_add_exact: "unat a + unat b < 2 ^ 64 \<Longrightarrow> unat (sat_add a (b :: u64)) = unat a + unat b"
  by (simp add: unat_sat_add)

lemma unat_min_frame:
  assumes "unat n < 2 ^ 60"
  shows "unat (min_frame_bytes_for_input n) = (4 * unat n + 2) div 3 + 4096"
proof -
  have "unat (sat_mul n 4) = 4 * unat n"
    using assms by (simp add: unat_sat_mul)
  then have "unat (sat_add (sat_mul n 4) 2) = 4 * unat n + 2"
    using assms by (simp add: unat_sat_add)
  then have "unat (sat_add (sat_mul n 4) 2 div 3) = (4 * unat n + 2) div 3"
    by (simp add: unat_div)
  moreover have "(4 * unat n + 2) div 3 < 2 ^ 63"
    using assms div_le_dividend [of "4 * unat n + 2" 3] by simp
  ultimately show ?thesis
    by (simp add: min_frame_bytes_for_input_def unat_sat_add)
qed

lemma validateD:
  assumes "validate l = Inr u"
  shows "e_max_input_bytes l \<noteq> 0" and "e_max_output_bytes l = e_max_input_bytes l"
    and "e_max_input_bytes l \<le> e_max_load_bytes l" and "e_max_load_bytes l \<le> MAX_LOAD_BYTES"
    and "min_frame_bytes_for_input (e_max_load_bytes l) \<le> e_max_frame_bytes l"
    and "e_max_frame_bytes l \<le> MAX_FRAME_BYTES" and "e_max_tail_updates l \<le> MAX_TAIL_UPDATES"
    and "e_max_observed_rss_bytes l \<le> e_max_child_as_bytes l"
    and "e_max_ops l \<noteq> 0" and "e_max_ops l \<le> MAX_OPS" and "e_timeout_ms l \<le> MAX_TIMEOUT_MS"
    and "MIN_TIMEOUT_MS \<le> e_timeout_ms l"
  using assms by (auto simp: validate_def Let_def not_less split: if_splits)

text \<open>Base64 output is four characters for every three bytes begun.\<close>

definition base64_len :: "nat \<Rightarrow> nat" where
  "base64_len n = 4 * ((n + 2) div 3)"

lemma base64_len_sum: "3 * sum_list (map base64_len ns) \<le> 4 * sum_list ns + 8 * length ns"
  by (induction ns) (simp_all add: base64_len_def)

lemma frame_fits_load:
  assumes v: "validate l = Inr u" and n: "sum_list ns \<le> unat (e_max_load_bytes l)"
    and k: "length ns \<le> Suc (unat (e_max_tail_updates l))"
  shows "sum_list (map (\<lambda>n. base64_len n + 3) ns) + 3600 \<le> unat (e_max_frame_bytes l)"
proof -
  have L: "unat (e_max_load_bytes l) \<le> 33554432"
    using validateD(4) [OF v] by (simp add: word_le_nat_alt engine_consts)
  have "(4 * unat (e_max_load_bytes l) + 2) div 3 + 4096 \<le> unat (e_max_frame_bytes l)"
    using validateD(5) [OF v] L by (simp add: word_le_nat_alt unat_min_frame)
  moreover have "length ns \<le> 65"
    using k validateD(7) [OF v] by (simp add: word_le_nat_alt engine_consts)
  moreover have "sum_list (map (\<lambda>n. base64_len n + 3) ns) = sum_list (map base64_len ns) + 3 * length ns"
    by (induction ns) simp_all
  ultimately show ?thesis
    using base64_len_sum [of ns] n by linarith
qed

lemma nat_ceil_div:
  assumes "0 < (y :: nat)"
  shows "(x + (y - 1)) div y = (if x mod y = 0 then x div y else x div y + 1)"
proof -
  let ?r = "x mod y"
  have "?r < y"
    using assms by simp
  have "x + (y - 1) = (?r + (y - 1)) + x div y * y"
    using div_mult_mod_eq [of x y] by linarith
  then have "(x + (y - 1)) div y = x div y + (?r + (y - 1)) div y"
    using assms by (simp only: div_mult_self1)
  moreover have "(?r + (y - 1)) div y = (if ?r = 0 then 0 else 1)"
  proof (cases "?r = 0")
    case True
    then show ?thesis
      using assms by simp
  next
    case False
    then have "?r + (y - 1) = (?r - 1) + y"
      using assms by linarith
    then have "(?r + (y - 1)) div y = (?r - 1) div y + 1"
      using assms by (simp only: div_add_self2)
    then show ?thesis
      using False \<open>?r < y\<close> by simp
  qed
  ultimately show ?thesis
    by simp
qed

lemma unat_div_ceil_1000: "unat a < 2 ^ 60 \<Longrightarrow> unat (div_ceil a 1000) = (unat a + 999) div 1000"
proof -
  assume a: "unat a < 2 ^ 60"
  then have "unat (a div 1000 + 1) = unat a div 1000 + 1"
    using div_le_dividend [of "unat a" 1000] by (simp add: unat_word_ariths unat_div)
  moreover have "a mod 1000 = 0 \<longleftrightarrow> unat a mod 1000 = 0"
    by (simp add: unat_mod word_unat_eq_iff)
  ultimately show ?thesis
    using nat_ceil_div [of 1000 "unat a"] by (simp add: div_ceil_def unat_div)
qed

lemma unat_cpu_budget:
  assumes "unat (e_timeout_ms l) \<le> 60000" and "unat (e_timeout_ms l) \<noteq> 0"
  shows "unat (cpu_budget_secs l) = (unat (e_timeout_ms l) + 999) div 1000 * unat (e_max_ops l)"
proof -
  let ?t = "div_ceil (e_timeout_ms l) 1000"
  have t: "unat ?t = (unat (e_timeout_ms l) + 999) div 1000"
    using assms(1) by (intro unat_div_ceil_1000) simp
  then have pos: "1 \<le> unat ?t" and le: "unat ?t \<le> 60"
    using assms by linarith+
  have "max ?t 1 = ?t"
    using pos by (intro max_absorb1) (simp add: word_le_nat_alt)
  moreover have o: "unat (ucast (e_max_ops l) :: u64) = unat (e_max_ops l)"
    using unat_less_pow [of "e_max_ops l"] by (simp add: unsigned_ucast_eq take_bit_nat_eq_self)
  moreover have "unat ?t * unat (e_max_ops l) < 2 ^ 64"
  proof -
    have "unat ?t * unat (e_max_ops l) \<le> 60 * 2 ^ 32"
      using le unat_less_pow [of "e_max_ops l"] by (intro mult_le_mono) simp_all
    then show ?thesis
      by simp
  qed
  ultimately show ?thesis
    using t by (simp add: cpu_budget_secs_def Let_def unat_sat_mul_exact)
qed

section \<open>Both size checks as conditions on lengths\<close>

lemma unat_len: "length xs < 2 ^ 64 \<Longrightarrow> unat (len xs) = length xs"
  by (simp add: len_def unat_of_nat)

lemma unat_len_small: "length xs < 2 ^ 60 \<Longrightarrow> unat (len xs) = length xs"
  by (rule unat_len) simp

lemma cap_blob_Inr [result_simps]: "cap_blob n l = Inr u \<longleftrightarrow> n \<le> e_max_input_bytes l"
  by (auto simp: cap_blob_def)

lemma cap_blobs_Inr [result_simps]: "cap_blobs ns l = Inr u \<longleftrightarrow> list_all (\<lambda>n. n \<le> e_max_input_bytes l) ns"
  by (induction ns) (auto simp: result_simps)

lemma unat_foldl_sat_add:
  "unat (foldl (\<lambda>acc u. sat_add acc (f u)) a us) = min (2 ^ 64 - 1) (unat a + sum_list (map (\<lambda>u. unat (f u :: u64)) us))"
proof (induction us arbitrary: a)
  case Nil
  show ?case
    using unat_less_pow [of a] by simp
next
  case (Cons u us)
  then show ?case
    by (simp add: unat_sat_add min_def)
qed

text \<open>The parent counts bytes; the child, who sees base64, counts them rounded up to a
  multiple of three.\<close>

definition round3 :: "nat \<Rightarrow> nat" where
  "round3 n = 3 * ((n + 2) div 3)"

definition load_within :: "(nat \<Rightarrow> nat) \<Rightarrow> engine_limits \<Rightarrow> u8 list option \<Rightarrow> u8 list list \<Rightarrow> bool" where
  "load_within size_of l snapshot tail \<longleftrightarrow>
     length tail \<le> unat (e_max_tail_updates l) \<and>
     (let sizes = map (\<lambda>b. size_of (length b)) (unwrap_blob snapshot # tail) in
      list_all (\<lambda>n. n \<le> unat (e_max_input_bytes l)) sizes \<and> sum_list sizes \<le> unat (e_max_load_bytes l))"

definition blobs_allocatable :: "u8 list option \<Rightarrow> u8 list list \<Rightarrow> bool" where
  "blobs_allocatable snapshot tail \<longleftrightarrow>
     length tail < 2 ^ 60 \<and> list_all (\<lambda>b. length b < 2 ^ 60) (unwrap_blob snapshot # tail)"

lemma unat_load_total:
  assumes "list_all (\<lambda>b. length b < 2 ^ 60) (s # t)"
  shows "unat (load_total_bytes s t) = min (2 ^ 64 - 1) (sum_list (map length (s # t)))"
proof -
  have "sum_list (map (\<lambda>u. unat (len u)) t) = sum_list (map length t)"
    using assms by (intro arg_cong [of _ _ sum_list] map_cong) (auto simp: list_all_iff unat_len_small)
  then show ?thesis
    using assms by (simp add: load_total_bytes_def unat_foldl_sat_add unat_len)
qed

lemma list_all_len:
  "list_all (\<lambda>b. length b < 2 ^ 60) bs \<Longrightarrow>
    list_all (\<lambda>n. n \<le> m) (map len bs) \<longleftrightarrow> list_all (\<lambda>n. n \<le> unat m) (map length bs)"
  by (induction bs) (simp_all add: word_le_nat_alt unat_len)

lemma preflight_load:
  assumes "blobs_allocatable s t" and "e_max_load_bytes l \<le> MAX_LOAD_BYTES"
  shows "preflight (ReqLoad s t e) l = Inr () \<longleftrightarrow> load_within (\<lambda>n. n) l s t"
proof -
  let ?s = "unwrap_blob s"
  have small: "list_all (\<lambda>b. length b < 2 ^ 60) (?s # t)" and rows: "unat (len t) = length t"
    using assms(1) by (simp_all add: blobs_allocatable_def unat_len)
  have L: "unat (e_max_load_bytes l) < 2 ^ 64 - 1"
    using assms(2) by (simp add: word_le_nat_alt engine_consts)
  have "load_total_bytes ?s t \<le> e_max_load_bytes l \<longleftrightarrow> sum_list (map length (?s # t)) \<le> unat (e_max_load_bytes l)"
    using L by (simp add: word_le_nat_alt unat_load_total [OF small] min_le_iff_disj)
  moreover have "len t \<le> e_max_tail_updates l \<longleftrightarrow> length t \<le> unat (e_max_tail_updates l)"
    by (simp add: word_le_nat_alt rows)
  ultimately show ?thesis
    using list_all_len [OF small, of "e_max_input_bytes l"]
    by (auto simp: preflight_def cap_load_parts_def load_within_def result_simps Let_def not_less
        split: if_splits)
qed

lemma unat_estimate:
  assumes "n < 2 ^ 60"
  shows "unat (decoded_len_estimate (base64_len n)) = round3 n"
proof -
  have "base64_len n < 2 ^ 62" "3 * base64_len n div 4 = round3 n"
    using assms by (simp_all add: base64_len_def round3_def)
  then show ?thesis
    by (simp add: decoded_len_estimate_def unat_div unat_sat_mul unat_of_nat mult.commute min_def)
qed

lemma wire_tail_Inr:
  assumes "\<And>b. length (b64_encode b) = base64_len (length b)" and "list_all (\<lambda>b. length b < 2 ^ 60) t"
    and "unat (e_max_load_bytes l) < 2 ^ 64 - 1" and "acc \<le> e_max_load_bytes l"
  shows "wire_tail (map (\<lambda>b. JString (b64_encode b)) t) acc l = Inr () \<longleftrightarrow>
    list_all (\<lambda>n. n \<le> unat (e_max_input_bytes l)) (map (\<lambda>b. round3 (length b)) t) \<and>
    unat acc + sum_list (map (\<lambda>b. round3 (length b)) t) \<le> unat (e_max_load_bytes l)"
  using assms(2,4)
proof (induction t arbitrary: acc)
  case Nil
  then show ?case
    by (simp add: word_le_nat_alt)
next
  case (Cons b t)
  let ?n = "decoded_len_estimate (base64_len (length b))"
  have n: "unat ?n = round3 (length b)"
    using Cons.prems(1) by (simp add: unat_estimate)
  have fits: "sat_add acc ?n \<le> e_max_load_bytes l \<longleftrightarrow> unat acc + round3 (length b) \<le> unat (e_max_load_bytes l)"
    using assms(3) by (simp add: word_le_nat_alt unat_sat_add n min_le_iff_disj)
  show ?case
  proof (cases "sat_add acc ?n \<le> e_max_load_bytes l")
    case True
    then have "unat (sat_add acc ?n) = unat acc + round3 (length b)" and "\<not> e_max_load_bytes l < sat_add acc ?n"
      using fits assms(3) by (simp_all add: unat_sat_add n)
    with True fits Cons show ?thesis
      by (auto simp: assms(1) Let_def result_simps word_le_nat_alt n)
  next
    case False
    with fits show ?thesis
      by (auto simp: assms(1) Let_def result_simps not_le)
  qed
qed

lemma preflight_wire_load:
  assumes "\<And>b. length (b64_encode b) = base64_len (length b)" and "blobs_allocatable s t"
    and "validate l = Inr ()"
  shows "preflight_wire_json (load_json b64_encode s t e) l = Inr () \<longleftrightarrow> load_within round3 l s t"
proof -
  let ?s = "unwrap_blob s"
  have small: "list_all (\<lambda>b. length b < 2 ^ 60) (?s # t)" and rows: "unat (len t) = length t"
    using assms(2) by (simp_all add: blobs_allocatable_def unat_len)
  have L: "unat (e_max_load_bytes l) < 2 ^ 64 - 1"
    using validateD(4) [OF assms(3)] by (simp add: word_le_nat_alt engine_consts)
  let ?n = "decoded_len_estimate (base64_len (length ?s))"
  have n: "unat ?n = round3 (length ?s)"
    using small by (simp add: unat_estimate)
  have "preflight_wire_json (load_json b64_encode s t e) l = Inr () \<longleftrightarrow>
      length t \<le> unat (e_max_tail_updates l) \<and> ?n \<le> e_max_input_bytes l \<and>
      wire_tail (map (\<lambda>b. JString (b64_encode b) :: u8 json) t) ?n l = Inr ()"
    using rows
    by (cases s) (simp_all add: preflight_wire_json_def load_json_def Let_def result_simps len_def
        word_less_nat_alt not_less unwrap_blob_def assms(1) base64_len_def)
  moreover have "?n \<le> e_max_load_bytes l" if "?n \<le> e_max_input_bytes l"
    using that validateD(3) [OF assms(3)] by (rule order_trans)
  ultimately show ?thesis
    using wire_tail_Inr [OF assms(1) _ L, of t ?n] small n
    by (auto simp: load_within_def Let_def word_le_nat_alt)
qed

lemma round3_ge: "n \<le> round3 n" and round3_le: "round3 n \<le> n + 2"
  by (simp_all add: round3_def)

lemma load_within_round3:
  assumes "load_within round3 l s t"
  shows "load_within (\<lambda>n. n) l s t"
proof -
  have "sum_list (map length bs) \<le> sum_list (map (\<lambda>b. round3 (length b)) bs)" for bs :: "u8 list list"
    by (rule sum_list_mono) (rule round3_ge)
  from this [of "unwrap_blob s # t"] assms show ?thesis
    unfolding load_within_def Let_def list_all_iff
    by (auto intro: order_trans [OF round3_ge] elim: order_trans)
qed

section \<open>Framing lemmas\<close>

lemma read_frame_written:
  assumes "length payload < 2 ^ 32" and "length payload \<le> unat mx"
  shows "read_frame (to_le_bytes (of_nat (length payload)) @ payload @ rest) mx = Inr (Some payload, rest)"
proof -
  have "unat (ucast (of_nat (length payload) :: u32) :: u64) = length payload"
    using assms(1) by (simp add: unsigned_ucast_eq unat_of_nat take_bit_nat_eq_self)
  then show ?thesis
    using assms by (simp add: read_frame_def from_to_le_bytes Let_def word_less_nat_alt)
qed

section \<open>Properties\<close>

text \<open>C32: Limits that pass validation agree with one another. The limit of an output snapshot is the
  limit of one input blob and within the limit of a whole load; every load request that passes the parent's
  preflight fits into one frame once its blobs are base64 strings, with 3,600 bytes to spare for
  the JSON envelope; the CPU budget is exactly the per-request seconds times the operations,
  without saturation and within its maximum; and the resident-set ceiling is not above the
  address-space ceiling.\<close>

theorem engine_limits_sound:
  assumes "validate l = Inr ()"
  shows "e_max_output_bytes l = e_max_input_bytes l \<and> e_max_input_bytes l \<le> e_max_load_bytes l \<and>
    e_max_observed_rss_bytes l \<le> e_max_child_as_bytes l \<and>
    unat (cpu_budget_secs l) = (unat (e_timeout_ms l) + 999) div 1000 * unat (e_max_ops l) \<and>
    unat (cpu_budget_secs l) \<le> 60 * 256 \<and>
    (\<forall>s t e. blobs_allocatable s t \<and> preflight (ReqLoad s t e) l = Inr () \<longrightarrow>
       sum_list (map (\<lambda>b. base64_len (length b) + 3) (unwrap_blob s # t)) + 3600 \<le> unat (e_max_frame_bytes l))"
proof (intro conjI allI impI)
  note v = validateD [OF assms]
  show "e_max_output_bytes l = e_max_input_bytes l" "e_max_input_bytes l \<le> e_max_load_bytes l"
    "e_max_observed_rss_bytes l \<le> e_max_child_as_bytes l"
    using v by simp_all
  have t: "unat (e_timeout_ms l) \<le> 60000" "unat (e_timeout_ms l) \<noteq> 0" and ops: "unat (e_max_ops l) \<le> 256"
    using v(10,11,12) by (simp_all add: word_le_nat_alt engine_consts)
  show cpu: "unat (cpu_budget_secs l) = (unat (e_timeout_ms l) + 999) div 1000 * unat (e_max_ops l)"
    by (rule unat_cpu_budget) (use t in simp_all)
  have "(unat (e_timeout_ms l) + 999) div 1000 \<le> 60"
    using t(1) by linarith
  then show "unat (cpu_budget_secs l) \<le> 60 * 256"
    unfolding cpu using ops by (rule mult_le_mono)
  fix s t e
  assume "blobs_allocatable s t \<and> preflight (ReqLoad s t e) l = Inr ()"
  then have "load_within (\<lambda>n. n) l s t"
    using preflight_load v(4) by blast
  then show "sum_list (map (\<lambda>b. base64_len (length b) + 3) (unwrap_blob s # t)) + 3600 \<le> unat (e_max_frame_bytes l)"
    using frame_fits_load [OF assms, of "map length (unwrap_blob s # t)"]
    by (simp add: load_within_def Let_def comp_def)
qed

lemma default_validates: "validate engine_limits_default = Inr ()"
  by code_simp

theorem engine_limits_sound_witness:
  "unat (cpu_budget_secs engine_limits_default) = 8 * 256"
  using engine_limits_sound [OF default_validates] by (simp add: engine_limits_default_def engine_consts)

text \<open>C33: The child's size check refines the parent's. On the JSON of a load request the child
  accepts exactly when the tail count is within its limit and, with every blob's size rounded up
  to a multiple of three, each blob and the total are within theirs; so whatever the child accepts
  the parent had accepted. The hypothesis on \<open>b64_encode\<close> is the length of padded standard
  base64.\<close>

theorem engine_child_check_refines:
  assumes "\<forall>b. length (b64_encode b) = base64_len (length b)" and "blobs_allocatable s t"
    and "validate l = Inr ()"
  shows "(preflight_wire_json (load_json b64_encode s t e) l = Inr () \<longleftrightarrow> load_within round3 l s t) \<and>
    (preflight (ReqLoad s t e) l = Inr () \<longleftrightarrow> load_within (\<lambda>n. n) l s t) \<and>
    (preflight_wire_json (load_json b64_encode s t e) l = Inr () \<longrightarrow> preflight (ReqLoad s t e) l = Inr ())"
  using preflight_wire_load [OF _ assms(2,3), of b64_encode e] assms(1)
    preflight_load [OF assms(2) validateD(4) [OF assms(3)], of e] load_within_round3 [of l s t]
  by simp

theorem engine_child_check_refines_witness:
  "preflight_wire_json (load_json (\<lambda>b. replicate (base64_len (length b)) CHR ''A'') (Some [1, 2]) [[3]] 1)
     engine_limits_default = Inr ()"
proof -
  have "blobs_allocatable (Some [1, 2]) [[3]]" and "load_within round3 engine_limits_default (Some [1, 2]) [[3]]"
    by (simp add: blobs_allocatable_def unwrap_blob_def)
      (simp add: load_within_def unwrap_blob_def round3_def engine_limits_default_def engine_consts)
  then show ?thesis
    using engine_child_check_refines [of "\<lambda>b. replicate (base64_len (length b)) CHR ''A''"
        "Some [1, 2]" "[[3]]" engine_limits_default 1] default_validates by simp
qed

text \<open>C34: A snapshot of exactly the maximal size cannot be loaded. With the default limits, a
  complete snapshot of exactly 8 MiB is a permitted output and passes the parent's preflight for
  reloading, yet the child refuses the load as too large, because it estimates sizes from padded
  base64.\<close>

theorem engine_full_snapshot_refused:
  assumes "\<forall>b. length (b64_encode b) = base64_len (length b)"
    and "length snapshot = 8 * 1024 * 1024"
  shows "len snapshot \<le> e_max_output_bytes engine_limits_default \<and>
    preflight (ReqLoad (Some snapshot) [] 1) engine_limits_default = Inr () \<and>
    preflight_wire_json (load_json b64_encode (Some snapshot) [] 1) engine_limits_default \<noteq> Inr ()"
proof -
  have s: "blobs_allocatable (Some snapshot) []" and n: "unat (len snapshot) = 8388608"
    using assms(2) by (simp_all add: blobs_allocatable_def unwrap_blob_def unat_len)
  have "load_within (\<lambda>n. n) engine_limits_default (Some snapshot) []"
    and "\<not> load_within round3 engine_limits_default (Some snapshot) []"
    using assms(2) by (simp_all add: load_within_def unwrap_blob_def round3_def engine_limits_default_def engine_consts)
  then show ?thesis
    using preflight_load [OF s, of engine_limits_default 1] preflight_wire_load [OF _ s default_validates] assms(1) n
    by (simp add: validateD(4) [OF default_validates] word_le_nat_alt engine_limits_default_def engine_consts)
qed

theorem engine_full_snapshot_refused_witness:
  "preflight_wire_json (load_json (\<lambda>b. replicate (base64_len (length b)) CHR ''A'')
     (Some (replicate (8 * 1024 * 1024) 0)) [] 1) engine_limits_default \<noteq> Inr ()"
  using engine_full_snapshot_refused [of "\<lambda>b. replicate (base64_len (length b)) CHR ''A''"
      "replicate (8 * 1024 * 1024) 0"] by simp

text \<open>Frames survive the pipe. A payload that \<open>write_frame\<close> accepts is read back by
  \<open>read_frame\<close> under the same bound whatever follows it in the pipe, and exactly the frame is
  consumed; if the pipe ends inside the payload the reader reports an I/O failure.\<close>

lemma engine_frame_round_trip:
  assumes "write_frame out payload mx = Inr out'" and "length payload < 2 ^ 64"
  shows "\<exists>frame. out' = out @ frame \<and> (\<forall>rest. read_frame (frame @ rest) mx = Inr (Some payload, rest)) \<and>
    (\<forall>n. 4 \<le> n \<and> n < length frame \<longrightarrow> read_frame (take n frame) mx = Inl FIo)"
proof -
  let ?f = "to_le_bytes (of_nat (length payload)) @ payload"
  have n: "length payload < 2 ^ 32" "length payload \<le> unat mx" and out: "out' = out @ ?f"
    using assms by (auto simp: write_frame_def word_less_nat_alt unat_len split: if_splits)
  have "read_frame (take n ?f) mx = Inl FIo" if "4 \<le> n" "n < length ?f" for n
  proof -
    have "take 4 (take n ?f) = to_le_bytes (of_nat (length payload))"
      using that(1) by (simp add: min_absorb2)
    moreover have "unat (ucast (of_nat (length payload) :: u32) :: u64) = length payload"
      using n(1) by (simp add: unsigned_ucast_eq unat_of_nat take_bit_nat_eq_self)
    ultimately show ?thesis
      using that n(2) by (auto simp: read_frame_def from_to_le_bytes Let_def word_less_nat_alt)
  qed
  with out read_frame_written [OF n] show ?thesis
    by (intro exI [of _ ?f]) simp
qed

lemma engine_frame_round_trip_witness:
  "\<exists>frame. [9, 2, 0, 0, 0, 5, 6] = [9] @ frame \<and>
    (\<forall>rest. read_frame (frame @ rest) 100 = Inr (Some [5, 6], rest))"
proof -
  have "write_frame [9] [5, 6] 100 = Inr [9, 2, 0, 0, 0, 5, 6]"
    by code_simp
  from engine_frame_round_trip [OF this] show ?thesis
    by auto
qed

end
