(* ===== verification/Admission.thy ===== *)
theory Admission
  imports Engine
begin

text \<open>
  Admission control: the memory ledger for room starts (\<open>src/collab/admission.rs\<close>), the
  process-wide cap on event streams (\<open>src/streams/hub.rs\<close>) and the capacities derived from
  the number of rooms (\<open>src/collab/config.rs\<close>). Both guards hand out grants that give their
  cost back when dropped; what that contract gives is proved once, for any such pool.
\<close>

section \<open>Pools that hand out grants\<close>

text \<open>The states a pool passes through, with the grants alive, over any order of requests and
  drops.\<close>

inductive pool_run ::
    "('r \<Rightarrow> 'p \<Rightarrow> ('g \<times> 'p) option) \<Rightarrow> ('g \<Rightarrow> 'p \<Rightarrow> 'p) \<Rightarrow> 'p \<Rightarrow> 'p \<Rightarrow> 'g list \<Rightarrow> bool"
  for acquire release p0 where
  start: "pool_run acquire release p0 p0 []"
| grant: "pool_run acquire release p0 p gs \<Longrightarrow> acquire r p = Some (g, p') \<Longrightarrow>
    pool_run acquire release p0 p' (g # gs)"
| refuse: "pool_run acquire release p0 p gs \<Longrightarrow> acquire r p = None \<Longrightarrow> pool_run acquire release p0 p gs"
| drop: "pool_run acquire release p0 p (gs @ g # hs) \<Longrightarrow> pool_run acquire release p0 (release g p) (gs @ hs)"

locale bounded_pool =
  fixes used :: "'p \<Rightarrow> nat"
    and cap :: "'p \<Rightarrow> nat"
    and acquire :: "'r \<Rightarrow> 'p \<Rightarrow> ('g \<times> 'p) option"
    and release :: "'g \<Rightarrow> 'p \<Rightarrow> 'p"
    and cost :: "'g \<Rightarrow> nat"
    and inv :: "'p \<Rightarrow> bool"
  assumes acquire_law: "inv p \<Longrightarrow> acquire r p = Some (g, p') \<Longrightarrow>
      inv p' \<and> used p' = used p + cost g \<and> used p' \<le> cap p \<and> cap p' = cap p"
    and release_law: "inv p \<Longrightarrow> cost g \<le> used p \<Longrightarrow>
      inv (release g p) \<and> used (release g p) = used p - cost g \<and> cap (release g p) = cap p"
begin

lemma run_accounts:
  assumes "pool_run acquire release p0 p gs" and "inv p0" and "used p0 = 0"
  shows "inv p \<and> used p = sum_list (map cost gs) \<and> used p \<le> cap p \<and> cap p = cap p0"
  using assms
proof (induction rule: pool_run.induct)
  case (grant p gs r g p')
  then show ?case
    using acquire_law [of p r g p'] by simp
next
  case (drop p gs g hs)
  then show ?case
    using release_law [of p g] by simp
qed simp_all

end

section \<open>The memory ledger\<close>

record memory_ledger =
  budget_bytes :: u64
  outstanding_bytes :: u64

definition ledger_new :: "u64 \<Rightarrow> memory_ledger" where
  "ledger_new budget = \<lparr>budget_bytes = budget, outstanding_bytes = 0\<rparr>"

text \<open>A reservation is the number of bytes it gives back. The live resident-set size is read
  under the ledger's lock and is an input of the step.\<close>

type_synonym memory_reservation = u64

definition try_reserve_against :: "u64 \<Rightarrow> u64 \<Rightarrow> memory_ledger \<Rightarrow> (memory_reservation \<times> memory_ledger) option" where
  "try_reserve_against persisted_bytes live_rss_bytes L =
     (let bytes = room_memory_reservation_bytes persisted_bytes;
          committed = sat_add live_rss_bytes (outstanding_bytes L)
      in if sat_add committed bytes > budget_bytes L then None
         else Some (bytes, L\<lparr>outstanding_bytes := sat_add (outstanding_bytes L) bytes\<rparr>))"

definition drop_reservation :: "memory_reservation \<Rightarrow> memory_ledger \<Rightarrow> memory_ledger" where
  "drop_reservation bytes L = L\<lparr>outstanding_bytes := sat_sub (outstanding_bytes L) bytes\<rparr>"

lemma try_reserve_exact:
  assumes "unat (budget_bytes L) < 2 ^ 64 - 1"
  shows "try_reserve_against p rss L = Some (g, L') \<longleftrightarrow>
    g = room_memory_reservation_bytes p \<and>
    unat rss + unat (outstanding_bytes L) + unat g \<le> unat (budget_bytes L) \<and>
    L' = L\<lparr>outstanding_bytes := outstanding_bytes L + g\<rparr>"
proof -
  let ?g = "room_memory_reservation_bytes p"
  have le: "sat_add (sat_add rss (outstanding_bytes L)) ?g \<le> budget_bytes L \<longleftrightarrow>
      unat rss + unat (outstanding_bytes L) + unat ?g \<le> unat (budget_bytes L)"
    using assms by (auto simp: word_le_nat_alt unat_sat_add min_def)
  have "sat_add (outstanding_bytes L) ?g = outstanding_bytes L + ?g"
    if "unat rss + unat (outstanding_bytes L) + unat ?g \<le> unat (budget_bytes L)"
    using that assms by (simp add: sat_add_def)
  then show ?thesis
    using le by (auto simp: try_reserve_against_def Let_def not_less [symmetric])
qed

interpretation ledger_pool: bounded_pool
  "\<lambda>L. unat (outstanding_bytes L)" "\<lambda>L. unat (budget_bytes L)"
  "\<lambda>(p, rss). try_reserve_against p rss" drop_reservation unat
  "\<lambda>L. unat (budget_bytes L) < 2 ^ 64 - 1"
proof
  fix L r g L'
  assume inv: "unat (budget_bytes L) < 2 ^ 64 - 1" and a: "(case r of (p, rss) \<Rightarrow> try_reserve_against p rss) L = Some (g, L')"
  obtain p rss where r: "r = (p, rss)"
    by fastforce
  from a inv have g: "unat rss + unat (outstanding_bytes L) + unat g \<le> unat (budget_bytes L)"
    and L': "L' = L\<lparr>outstanding_bytes := outstanding_bytes L + g\<rparr>"
    by (auto simp: r try_reserve_exact)
  have "unat (outstanding_bytes L + g) = unat (outstanding_bytes L) + unat g"
    using g inv by (simp add: unat_word_ariths)
  then show "unat (budget_bytes L') < 2 ^ 64 - 1 \<and>
      unat (outstanding_bytes L') = unat (outstanding_bytes L) + unat g \<and>
      unat (outstanding_bytes L') \<le> unat (budget_bytes L) \<and> unat (budget_bytes L') = unat (budget_bytes L)"
    using g inv by (simp add: L')
qed (simp add: drop_reservation_def unat_sat_sub)

section \<open>The cap on event streams\<close>

definition MAX_CONCURRENT_STREAMS :: nat where
  "MAX_CONCURRENT_STREAMS = 64"

record stream_hub =
  active :: u64
  shutting_down :: bool

definition stream_hub_new :: stream_hub where
  "stream_hub_new = \<lparr>active = 0, shutting_down = False\<rparr>"

definition accepting :: "stream_hub \<Rightarrow> bool" where
  "accepting h \<longleftrightarrow> \<not> shutting_down h"

definition begin_shutdown :: "stream_hub \<Rightarrow> stream_hub" where
  "begin_shutdown h = h\<lparr>shutting_down := True\<rparr>"

definition active_count :: "stream_hub \<Rightarrow> nat" where
  "active_count h = unat (active h)"

datatype stream_acquire_error = Capacity | Stopped

definition fetch_add :: "stream_hub \<Rightarrow> u64 \<times> stream_hub" where
  "fetch_add h = (active h, h\<lparr>active := active h + 1\<rparr>)"

definition fetch_sub :: "stream_hub \<Rightarrow> stream_hub" where
  "fetch_sub h = h\<lparr>active := active h - 1\<rparr>"

text \<open>The call as one thread runs it alone; the guard it returns carries no data.\<close>

definition try_acquire :: "stream_hub \<Rightarrow> (stream_acquire_error + unit) \<times> stream_hub" where
  "try_acquire h =
     (if \<not> accepting h then (Inl Stopped, h)
      else
        let (prev, h) = fetch_add h in
        if unat prev \<ge> MAX_CONCURRENT_STREAMS then (Inl Capacity, fetch_sub h)
        else (Inr (), h))"

definition drop_guard :: "stream_hub \<Rightarrow> stream_hub" where
  "drop_guard h = fetch_sub h"

text \<open>Threads interleave between the atomic operations of \<open>try_acquire\<close>: after the
  \<open>accepting\<close> test (\<open>ready\<close>), and after an addition that found the hub full
  (\<open>rejecting\<close>). \<open>guards\<close> are the streams admitted and not yet dropped. A process has
  fewer than 2^32 threads.\<close>

record hub_system =
  hub :: stream_hub
  ready :: nat
  rejecting :: nat
  guards :: nat

inductive hub_step :: "hub_system \<Rightarrow> hub_system \<Rightarrow> bool" where
  check: "accepting (hub s) \<Longrightarrow> hub_step s (s\<lparr>ready := ready s + 1\<rparr>)"
| admit: "ready s > 0 \<Longrightarrow> fetch_add (hub s) = (prev, h) \<Longrightarrow> unat prev < MAX_CONCURRENT_STREAMS \<Longrightarrow>
    hub_step s (s\<lparr>hub := h, ready := ready s - 1, guards := guards s + 1\<rparr>)"
| full: "ready s > 0 \<Longrightarrow> fetch_add (hub s) = (prev, h) \<Longrightarrow> unat prev \<ge> MAX_CONCURRENT_STREAMS \<Longrightarrow>
    rejecting s < 2 ^ 32 \<Longrightarrow>
    hub_step s (s\<lparr>hub := h, ready := ready s - 1, rejecting := rejecting s + 1\<rparr>)"
| undo: "rejecting s > 0 \<Longrightarrow> hub_step s (s\<lparr>hub := fetch_sub (hub s), rejecting := rejecting s - 1\<rparr>)"
| drop: "guards s > 0 \<Longrightarrow> hub_step s (s\<lparr>hub := drop_guard (hub s), guards := guards s - 1\<rparr>)"
| shutdown: "hub_step s (s\<lparr>hub := begin_shutdown (hub s)\<rparr>)"

definition hub_start :: hub_system where
  "hub_start = \<lparr>hub = stream_hub_new, ready = 0, rejecting = 0, guards = 0\<rparr>"

inductive_cases hub_stepE: "hub_step s t"

definition hub_ok :: "hub_system \<Rightarrow> bool" where
  "hub_ok s \<longleftrightarrow> unat (active (hub s)) = guards s + rejecting s \<and> guards s \<le> MAX_CONCURRENT_STREAMS \<and>
     rejecting s \<le> 2 ^ 32"

lemma unat_plus_one: "unat (a :: u64) + 1 < 2 ^ 64 \<Longrightarrow> unat (a + 1) = unat a + 1"
  by (simp add: unat_word_ariths)

lemma unat_minus_one: "0 < unat (a :: u64) \<Longrightarrow> unat (a - 1) = unat a - 1"
  by (metis One_nat_def Suc_leI unat_1 unat_sub word_le_nat_alt)

lemma hub_step_ok:
  assumes "hub_step s t" and ok: "hub_ok s"
  shows "hub_ok t"
proof -
  have small: "unat (active (hub s)) + 1 < 2 ^ 64"
    using ok by (simp add: hub_ok_def MAX_CONCURRENT_STREAMS_def)
  have up: "unat (active (hub s) + 1) = unat (active (hub s)) + 1"
    using small by (rule unat_plus_one)
  from assms(1) show ?thesis
  proof cases
    case (undo)
    then have "unat (active (hub s) - 1) = unat (active (hub s)) - 1"
      using ok by (intro unat_minus_one) (simp add: hub_ok_def)
    with undo ok show ?thesis
      by (auto simp: hub_ok_def fetch_sub_def)
  next
    case drop
    then have "unat (active (hub s) - 1) = unat (active (hub s)) - 1"
      using ok by (intro unat_minus_one) (simp add: hub_ok_def)
    with drop ok show ?thesis
      by (auto simp: hub_ok_def drop_guard_def fetch_sub_def)
  qed (use ok up in \<open>auto simp: hub_ok_def fetch_add_def begin_shutdown_def\<close>)
qed

lemma hub_reachable_ok: "hub_step\<^sup>*\<^sup>* hub_start s \<Longrightarrow> hub_ok s"
proof (induction rule: rtranclp_induct)
  case base
  show ?case
    by (simp add: hub_ok_def hub_start_def stream_hub_new_def)
next
  case (step s t)
  then show ?case
    using hub_step_ok by blast
qed

text \<open>Run by one thread, \<open>try_acquire\<close> is a sequence of such steps, and the hub is a bounded
  pool of slots.\<close>

interpretation stream_pool: bounded_pool
  "\<lambda>h. unat (active h)" "\<lambda>h. MAX_CONCURRENT_STREAMS"
  "\<lambda>_ :: unit. \<lambda>h. case try_acquire h of (Inr g, h') \<Rightarrow> Some (g, h') | (Inl e, h') \<Rightarrow> None"
  "\<lambda>_ :: unit. drop_guard" "\<lambda>_. 1" "\<lambda>h. True"
proof
  fix h :: stream_hub and r :: unit and g h'
  assume "(case try_acquire h of (Inr g, h') \<Rightarrow> Some (g, h') | (Inl e, h') \<Rightarrow> None) = Some (g :: unit, h')"
  then have "unat (active h) < MAX_CONCURRENT_STREAMS" and "h' = h\<lparr>active := active h + 1\<rparr>"
    by (auto simp: try_acquire_def fetch_add_def Let_def split: if_splits)
  moreover from this(1) have "unat (active h + 1) = unat (active h) + 1"
    by (intro unat_plus_one) (simp add: MAX_CONCURRENT_STREAMS_def)
  ultimately show "True \<and> unat (active h') = unat (active h) + 1 \<and> unat (active h') \<le> MAX_CONCURRENT_STREAMS \<and>
      MAX_CONCURRENT_STREAMS = MAX_CONCURRENT_STREAMS"
    by simp
next
  fix h :: stream_hub and g :: unit
  assume "(1 :: nat) \<le> unat (active h)"
  then have "unat (active h - 1) = unat (active h) - 1"
    by (intro unat_minus_one) simp
  then show "True \<and> unat (active (drop_guard h)) = unat (active h) - 1 \<and>
      MAX_CONCURRENT_STREAMS = MAX_CONCURRENT_STREAMS"
    by (simp add: drop_guard_def fetch_sub_def)
qed

section \<open>Derived capacities\<close>

definition MAX_MAX_ROOMS :: nat where
  "MAX_MAX_ROOMS = 512"

definition PG_CONNECTION_RESERVE :: u32 where
  "PG_CONNECTION_RESERVE = 10"

definition OFFLINE_REVISION_PRIMARY_HEADROOM :: u64 where
  "OFFLINE_REVISION_PRIMARY_HEADROOM = 4"

definition SEED_CHILD_CONCURRENCY :: u64 where
  "SEED_CHILD_CONCURRENCY = 2"

definition derive_app_pool_max_connections :: "u64 \<Rightarrow> u32" where
  "derive_app_pool_max_connections max_rooms = of_nat (min (max (unat max_rooms) 16) MAX_MAX_ROOMS)"

definition derive_primary_child_concurrency :: "u64 \<Rightarrow> u64" where
  "derive_primary_child_concurrency max_rooms = sat_add max_rooms OFFLINE_REVISION_PRIMARY_HEADROOM"

definition derive_validator_child_concurrency :: "u64 \<Rightarrow> u64" where
  "derive_validator_child_concurrency max_rooms = max (max_rooms div 2) 4"

definition derive_max_child_concurrency :: "u64 \<Rightarrow> u64" where
  "derive_max_child_concurrency max_rooms =
     derive_primary_child_concurrency max_rooms + derive_validator_child_concurrency max_rooms +
     SEED_CHILD_CONCURRENCY"

definition collab_pg_connections_required :: "u64 \<Rightarrow> u64" where
  "collab_pg_connections_required max_rooms =
     max_rooms + ucast (derive_app_pool_max_connections max_rooms) + ucast PG_CONNECTION_RESERVE"

definition collab_fits_postgres_max_connections :: "u64 \<Rightarrow> 64 word \<Rightarrow> bool" where
  "collab_fits_postgres_max_connections max_rooms pg_max_connections \<longleftrightarrow>
     collab_pg_connections_required max_rooms \<le> pg_max_connections"

section \<open>Properties\<close>

text \<open>C30: Room starts never overcommit the memory budget. Whatever the order of admissions,
  refusals and drops, and whatever the helpers' resident size at each admission, the ledger's
  outstanding bytes are exactly the sum of the reservations alive, never above the budget; and an
  admission happens only if the live resident size plus all reservations alive plus the new one,
  which covers 14 bytes per persisted byte and at least 16 MiB, stay within the budget. The budget
  is any value below the largest 64-bit number.\<close>

theorem ledger_never_overcommits:
  assumes "pool_run (\<lambda>(p, rss). try_reserve_against p rss) drop_reservation (ledger_new budget) L alive"
    and "unat budget < 2 ^ 64 - 1"
  shows "unat (outstanding_bytes L) = sum_list (map unat alive) \<and> sum_list (map unat alive) \<le> unat budget \<and>
    (\<forall>p rss g L'. try_reserve_against p rss L = Some (g, L') \<longrightarrow>
       unat rss + sum_list (map unat alive) + unat g \<le> unat budget \<and>
       14 * unat p \<le> unat g \<and> 16777216 \<le> unat g)"
proof -
  note acc = ledger_pool.run_accounts [OF assms(1)]
  have L: "unat (outstanding_bytes L) = sum_list (map unat alive)" "unat (outstanding_bytes L) \<le> unat (budget_bytes L)"
    "unat (budget_bytes L) = unat budget"
    using acc assms(2) by (simp_all add: ledger_new_def)
  have "14 * unat p \<le> unat (room_memory_reservation_bytes p) \<and> 16777216 \<le> unat (room_memory_reservation_bytes p)"
    if "unat (room_memory_reservation_bytes p) < 2 ^ 64 - 1" for p
    using that by (auto simp: room_memory_reservation_bytes_def max_def word_le_nat_alt unat_sat_mul engine_consts
        min_def split: if_splits)
  then show ?thesis
    using L assms(2) by (auto simp: try_reserve_exact)
qed

theorem ledger_never_overcommits_witness:
  "sum_list (map unat [room_memory_reservation_bytes 100]) \<le> unat (2 ^ 31 :: u64)"
proof -
  have "try_reserve_against 100 0 (ledger_new (2 ^ 31)) =
      Some (room_memory_reservation_bytes 100, \<lparr>budget_bytes = 2 ^ 31, outstanding_bytes = room_memory_reservation_bytes 100\<rparr>)"
    by code_simp
  then have run: "pool_run (\<lambda>(p, rss). try_reserve_against p rss) drop_reservation (ledger_new (2 ^ 31))
      \<lparr>budget_bytes = 2 ^ 31, outstanding_bytes = room_memory_reservation_bytes 100\<rparr> [room_memory_reservation_bytes 100]"
    by (intro pool_run.grant [OF pool_run.start, of _ "(100, 0)"]) simp
  have "unat (2 ^ 31 :: u64) < 2 ^ 64 - 1"
    by simp
  from ledger_never_overcommits [OF run this] show ?thesis
    by blast
qed

text \<open>C31: At most 64 event streams are ever open. Under every interleaving of the atomic steps of
  concurrent admissions, drops and shutdown, the streams admitted and not yet dropped are at most
  64, the counter is exactly those plus the additions about to be undone, and after shutdown a
  request that has not yet passed the check is refused.\<close>

theorem streams_capped:
  assumes "hub_step\<^sup>*\<^sup>* hub_start s"
  shows "guards s \<le> 64 \<and> active_count (hub s) = guards s + rejecting s \<and>
    (shutting_down (hub s) \<longrightarrow> fst (try_acquire (hub s)) = Inl Stopped) \<and>
    (\<forall>t. hub_step s t \<and> shutting_down (hub s) \<longrightarrow> ready t \<le> ready s \<and> shutting_down (hub t))"
proof -
  have "ready t \<le> ready s \<and> shutting_down (hub t)" if "hub_step s t" "shutting_down (hub s)" for t
    using that by (cases rule: hub_step.cases)
      (auto simp: accepting_def fetch_add_def fetch_sub_def drop_guard_def begin_shutdown_def)
  with hub_reachable_ok [OF assms] show ?thesis
    by (simp add: hub_ok_def MAX_CONCURRENT_STREAMS_def active_count_def try_acquire_def accepting_def)
qed

theorem streams_capped_witness:
  "guards \<lparr>hub = \<lparr>active = 1, shutting_down = False\<rparr>, ready = 0, rejecting = 0, guards = 1\<rparr> \<le> 64"
proof -
  have "hub_step hub_start (hub_start\<lparr>ready := 1\<rparr>)"
    using hub_step.check [of hub_start] by (simp add: hub_start_def stream_hub_new_def accepting_def)
  moreover have "hub_step (hub_start\<lparr>ready := 1\<rparr>)
      \<lparr>hub = \<lparr>active = 1, shutting_down = False\<rparr>, ready = 0, rejecting = 0, guards = 1\<rparr>"
    using hub_step.admit [of "hub_start\<lparr>ready := 1\<rparr>" 0 "\<lparr>active = 1, shutting_down = False\<rparr>"]
    by (simp add: hub_start_def stream_hub_new_def fetch_add_def MAX_CONCURRENT_STREAMS_def)
  ultimately have "hub_step\<^sup>*\<^sup>* hub_start
      \<lparr>hub = \<lparr>active = 1, shutting_down = False\<rparr>, ready = 0, rejecting = 0, guards = 1\<rparr>"
    by (meson converse_rtranclp_into_rtranclp r_into_rtranclp)
  from streams_capped [OF this] show ?thesis
    by blast
qed

end
