(* ===== verification/RateLimit.thy ===== *)
theory RateLimit
  imports Prelude "HOL-Library.Multiset"
begin

text \<open>
  \<open>src/http/rate_limit.rs\<close>: the in-process sliding-window counters. An \<open>Instant\<close> and a
  \<open>Duration\<close> are natural numbers of nanoseconds. The two hash maps are association lists
  whose order stands for the iteration order of the moment; since that order is unspecified, the
  step relation below allows any permutation between two calls, and every result holds for all
  of them.
\<close>

definition MAX_KEYS :: nat where
  "MAX_KEYS = 10000"

definition SECOND :: nat where
  "SECOND = 1000000000"

definition WINDOW :: nat where
  "WINDOW = 5 * 60 * SECOND"

record counter =
  window :: nat
  hits :: "nat list"

record counters =
  table :: "(string \<times> counter) list"
  namespaces :: "(string \<times> nat) list"

definition counters_default :: counters where
  "counters_default = \<lparr>table = [], namespaces = []\<rparr>"

definition namespace :: "string \<Rightarrow> string" where
  "namespace key = (case split_once CHR '':'' key of Some (ns, _) \<Rightarrow> ns | None \<Rightarrow> key)"

definition forget_key :: "(string \<times> nat) list \<Rightarrow> string \<Rightarrow> (string \<times> nat) list" where
  "forget_key ns key =
     (case map_of ns (namespace key) of
        Some n \<Rightarrow> if n - 1 = 0 then hm_remove (namespace key) ns else hm_insert (namespace key) (n - 1) ns
      | None \<Rightarrow> ns)"

definition remember_key :: "(string \<times> nat) list \<Rightarrow> string \<Rightarrow> (string \<times> nat) list" where
  "remember_key ns key =
     (case map_of ns (namespace key) of
        Some n \<Rightarrow> hm_insert (namespace key) (n + 1) ns
      | None \<Rightarrow> hm_insert (namespace key) 1 ns)"

definition prune :: "nat \<Rightarrow> counter \<Rightarrow> counter" where
  "prune now c = c\<lparr>hits := filter (\<lambda>t. now - t < window c) (hits c)\<rparr>"

definition evict_stale :: "nat \<Rightarrow> counters \<Rightarrow> counters" where
  "evict_stale now cs =
     (let pruned = map (\<lambda>(key, c). (key, prune now c)) (table cs);
          dead = filter (\<lambda>(key, c). hits c = []) pruned
      in \<lparr>table = filter (\<lambda>(key, c). hits c \<noteq> []) pruned,
          namespaces = foldl (\<lambda>ns e. forget_key ns (fst e)) (namespaces cs) dead\<rparr>)"

text \<open>The search for a victim: the loop over the table with its early exit.\<close>

fun find_victim :: "string \<Rightarrow> (string \<times> counter) list \<Rightarrow> (string \<times> nat) option \<Rightarrow> (string \<times> nat) option" where
  "find_victim largest [] victim = victim"
| "find_victim largest ((key, c) # rest) victim =
     (if namespace key \<noteq> largest then find_victim largest rest victim
      else
        let n = length (hits c) in
        if (case victim of None \<Rightarrow> True | Some (_, fewest) \<Rightarrow> n < fewest) then
          (if n \<le> 1 then Some (key, n) else find_victim largest rest (Some (key, n)))
        else find_victim largest rest victim)"

definition evict_from_largest_namespace :: "counters \<Rightarrow> counters" where
  "evict_from_largest_namespace cs =
     (case max_by_key snd (namespaces cs) of
        None \<Rightarrow> cs
      | Some (largest, _) \<Rightarrow>
          (case find_victim largest (table cs) None of
             None \<Rightarrow> cs
           | Some (key, _) \<Rightarrow>
               \<lparr>table = hm_remove key (table cs), namespaces = forget_key (namespaces cs) key\<rparr>))"

definition make_space :: "string \<Rightarrow> nat \<Rightarrow> counters \<Rightarrow> counters" where
  "make_space key now cs =
     (if map_of (table cs) key = None \<and> length (table cs) \<ge> MAX_KEYS then
        let cs = evict_stale now cs in
        if length (table cs) \<ge> MAX_KEYS then evict_from_largest_namespace cs else cs
      else cs)"

definition enter_key :: "string \<Rightarrow> nat \<Rightarrow> counters \<Rightarrow> counter \<times> counters" where
  "enter_key key win cs =
     (case map_of (table cs) key of
        Some c \<Rightarrow> (c, cs)
      | None \<Rightarrow> (\<lparr>window = win, hits = []\<rparr>, cs\<lparr>namespaces := remember_key (namespaces cs) key\<rparr>))"

definition set_counter :: "string \<Rightarrow> counter \<Rightarrow> counters \<Rightarrow> counters" where
  "set_counter key c cs = cs\<lparr>table := hm_insert key c (table cs)\<rparr>"

text \<open>\<open>partition_point\<close> on a list: the length of the longest prefix whose elements satisfy
  the predicate (the hits are in time order).\<close>

definition allow_at :: "string \<Rightarrow> u32 \<Rightarrow> nat \<Rightarrow> nat \<Rightarrow> counters \<Rightarrow> (u32 + unit) \<times> counters" where
  "allow_at key limit win now cs =
     (let cs = make_space key now cs;
          (c, cs) = enter_key key win cs;
          kept = max (window c) win;
          c = \<lparr>window = kept, hits = filter (\<lambda>t. now - t < kept) (hits c)\<rparr>;
          first = length (takeWhile (\<lambda>t. now - t \<ge> win) (hits c));
          counted = drop first (hits c)
      in if length counted \<ge> unat limit then
           (Inl (case counted of
                   oldest # _ \<Rightarrow> of_nat (max ((win - (now - oldest)) div SECOND) 1)
                 | [] \<Rightarrow> 1),
            set_counter key c cs)
         else (Inr (), set_counter key (c\<lparr>hits := hits c @ [now]\<rparr>) cs))"

section \<open>The namespace counts\<close>

text \<open>\<open>ns_counts ns ks\<close>: the table \<open>ns\<close> holds for each namespace the number of keys in
  \<open>ks\<close>, and no entry for a namespace without keys.\<close>

definition ns_count :: "string \<Rightarrow> string list \<Rightarrow> nat" where
  "ns_count n ks = length (filter (\<lambda>k. namespace k = n) ks)"

definition ns_counts :: "(string \<times> nat) list \<Rightarrow> string list \<Rightarrow> bool" where
  "ns_counts ns ks \<longleftrightarrow> hm_ok ns \<and>
     (\<forall>n. map_of ns n = (if ns_count n ks = 0 then None else Some (ns_count n ks)))"

lemma ns_count_Cons: "ns_count n (k # ks) = (if namespace k = n then Suc (ns_count n ks) else ns_count n ks)"
  by (simp add: ns_count_def)

lemma ns_count_mset: "mset ks = mset ks' \<Longrightarrow> ns_count n ks = ns_count n ks'"
  unfolding ns_count_def by (metis mset_filter size_mset)

lemma ns_counts_mset:
  assumes "mset ks = mset ks'"
  shows "ns_counts ns ks \<longleftrightarrow> ns_counts ns ks'"
  unfolding ns_counts_def ns_count_mset [OF assms] ..

lemma ns_counts_remember: "ns_counts ns ks \<Longrightarrow> ns_counts (remember_key ns k) (k # ks)"
  unfolding ns_counts_def remember_key_def
  by (auto simp: ns_count_Cons hm_specs simp del: hm_insert.simps split: option.splits)

lemma ns_counts_forget: "ns_counts ns (k # ks) \<Longrightarrow> ns_counts (forget_key ns k) ks"
  unfolding ns_counts_def forget_key_def
  by (auto simp: ns_count_Cons hm_specs simp del: hm_insert.simps split: option.splits)

lemma ns_counts_forget_all:
  "ns_counts ns (map fst dead @ ks) \<Longrightarrow> ns_counts (foldl (\<lambda>ns e. forget_key ns (fst e)) ns dead) ks"
  by (induction dead arbitrary: ns) (auto dest: ns_counts_forget)

lemma mset_hm_remove:
  assumes "hm_ok m" and "map_of m k = Some v"
  shows "mset (map fst m) = mset (k # map fst (hm_remove k m))"
proof -
  have "k \<in> set (map fst m)"
    using assms(2) by (metis domI dom_map_of_conv_image_fst set_map)
  moreover have "mset (map fst (hm_remove k m)) = mset (map fst m) - {#k#}"
  proof -
    have "map fst (hm_remove k m) = filter (\<lambda>j. j \<noteq> k) (map fst m)"
      unfolding hm_remove_def by (induction m) auto
    also have "\<dots> = remove1 k (map fst m)"
      using assms(1) distinct_remove1_removeAll [of "map fst m" k]
      by (simp add: hm_ok_def removeAll_filter_not_eq neq_commute)
    finally show ?thesis
      by (simp add: mset_remove1)
  qed
  ultimately show ?thesis
    by (simp add: insert_DiffM)
qed

lemma mset_hm_insert_keys:
  "mset (map fst (hm_insert k v m)) = (if map_of m k = None then mset (k # map fst m) else mset (map fst m))"
proof (cases "map_of m k")
  case (Some w)
  then have "map fst (hm_insert k v m) = map fst m"
    by (simp add: keys_replace del: map_map)
  with Some show ?thesis
    by (simp only: option.distinct if_False)
qed simp

section \<open>The victim\<close>

lemma find_victim_None:
  "find_victim l tbl v = None \<longleftrightarrow> v = None \<and> (\<forall>e \<in> set tbl. namespace (fst e) \<noteq> l)"
  by (induction l tbl v rule: find_victim.induct) (auto simp: Let_def)

lemma find_victim_Some:
  assumes "find_victim l tbl v = Some (k, n)" and "\<forall>e \<in> set tbl. hits (snd e) \<noteq> []"
  shows "(v = Some (k, n) \<or> (\<exists>c. (k, c) \<in> set tbl \<and> namespace k = l \<and> n = length (hits c))) \<and>
    (\<forall>e \<in> set tbl. namespace (fst e) = l \<longrightarrow> n \<le> length (hits (snd e))) \<and>
    (case v of None \<Rightarrow> True | Some (_, m) \<Rightarrow> n \<le> m)"
  using assms
proof (induction l tbl v rule: find_victim.induct)
  case (2 l key c rest v)
  let ?n = "length (hits c)"
  have pos: "1 \<le> ?n" and rest: "\<forall>e \<in> set rest. hits (snd e) \<noteq> []"
    using "2.prems"(2) by (auto simp: Suc_le_eq)
  have ones: "1 \<le> length (hits (snd e))" if "e \<in> set rest" for e
    using rest that by (auto simp: Suc_le_eq)
  consider (other) "namespace key \<noteq> l"
    | (stop) "namespace key = l" "case v of None \<Rightarrow> True | Some (_, m) \<Rightarrow> ?n < m" "?n \<le> 1"
    | (take) "namespace key = l" "case v of None \<Rightarrow> True | Some (_, m) \<Rightarrow> ?n < m" "\<not> ?n \<le> 1"
    | (keep) "namespace key = l" "\<not> (case v of None \<Rightarrow> True | Some (_, m) \<Rightarrow> ?n < m)"
    by blast
  then show ?case
  proof cases
    case other
    with 2 rest show ?thesis
      by auto
  next
    case stop
    with "2.prems"(1) have "k = key" "n = ?n"
      by (auto simp: Let_def)
    with stop show ?thesis
      using ones by (fastforce split: option.splits)
  next
    case take
    with "2.prems"(1) have "find_victim l rest (Some (key, ?n)) = Some (k, n)"
      by (auto simp: Let_def)
    from "2.IH"(2) [OF _ refl take(2,3) this rest] take show ?thesis
      by (auto split: option.splits)
  next
    case keep
    with "2.prems"(1) have "find_victim l rest v = Some (k, n)"
      by (auto simp: Let_def)
    from "2.IH"(3) [OF _ refl keep(2) this rest] keep show ?thesis
      by (auto split: option.splits)
  qed
qed simp

section \<open>The invariant\<close>

definition counters_ok :: "nat \<Rightarrow> counters \<Rightarrow> bool" where
  "counters_ok t cs \<longleftrightarrow> hm_ok (table cs) \<and> ns_counts (namespaces cs) (map fst (table cs)) \<and>
     length (table cs) \<le> MAX_KEYS \<and>
     (\<forall>e \<in> set (table cs). sorted (hits (snd e)) \<and> (\<forall>h \<in> set (hits (snd e)). h \<le> t))"

lemma counters_ok_later: "counters_ok t cs \<Longrightarrow> t \<le> t' \<Longrightarrow> counters_ok t' cs"
  unfolding counters_ok_def by (meson le_trans)

lemma counters_ok_default: "counters_ok t counters_default"
  by (simp add: counters_ok_def counters_default_def hm_ok_def ns_counts_def ns_count_def MAX_KEYS_def)

lemma counters_ok_reorder:
  assumes "counters_ok t cs" and "mset (table cs') = mset (table cs)" and "mset (namespaces cs') = mset (namespaces cs)"
  shows "counters_ok t cs'"
proof -
  have keys: "mset (map fst (table cs')) = mset (map fst (table cs))"
    and ns: "mset (map fst (namespaces cs')) = mset (map fst (namespaces cs))"
    using assms(2,3) by simp_all
  have ok: "hm_ok (table cs')" "hm_ok (namespaces cs')"
    using assms(1) mset_eq_imp_distinct_iff [OF keys] mset_eq_imp_distinct_iff [OF ns]
    by (simp_all add: counters_ok_def hm_ok_def ns_counts_def)
  have "map_of (namespaces cs') = map_of (namespaces cs)"
    using ok(2) assms(1,3) mset_eq_setD [OF assms(3)]
    by (intro map_of_inject_set [THEN iffD2]) (auto simp: hm_ok_def counters_ok_def ns_counts_def)
  then have "ns_counts (namespaces cs') (map fst (table cs'))"
    using assms(1) ok by (simp add: counters_ok_def ns_counts_def ns_count_mset [OF keys])
  then show ?thesis
    using assms(1) ok mset_eq_setD [OF assms(2)] mset_eq_length [OF assms(2)] by (simp add: counters_ok_def)
qed

lemma map_of_map_prune: "map_of (map (\<lambda>(k, c). (k, prune now c)) tbl) k = map_option (prune now) (map_of tbl k)"
  by (induction tbl) auto

lemma evict_stale_ok:
  assumes "counters_ok t cs"
  shows "counters_ok t (evict_stale now cs) \<and> (\<forall>e \<in> set (table (evict_stale now cs)). hits (snd e) \<noteq> []) \<and>
    set (map fst (table (evict_stale now cs))) \<subseteq> set (map fst (table cs))"
proof -
  let ?p = "map (\<lambda>(k, c). (k, prune now c)) (table cs)"
  let ?live = "filter (\<lambda>(k, c). hits c \<noteq> []) ?p" and ?dead = "filter (\<lambda>(k, c). hits c = []) ?p"
  have keys: "map fst ?p = map fst (table cs)"
    by (auto simp: case_prod_unfold)
  have "mset (map fst (filter P xs) @ map fst (filter (\<lambda>x. \<not> P x) xs)) = mset (map fst xs)"
    for P and xs :: "(string \<times> counter) list"
    by (induction xs) simp_all
  from this [of "\<lambda>(k, c). hits c = []" ?p]
  have part: "mset (map fst (table cs)) = mset (map fst ?dead @ map fst ?live)"
    unfolding keys by (simp only: case_prod_unfold)
  have "ns_counts (namespaces cs) (map fst ?dead @ map fst ?live)"
    using assms ns_counts_mset [OF part] by (simp add: counters_ok_def)
  then have ns: "ns_counts (namespaces (evict_stale now cs)) (map fst ?live)"
    unfolding evict_stale_def Let_def counters.simps by (rule ns_counts_forget_all)
  have tbl: "table (evict_stale now cs) = ?live"
    by (simp add: evict_stale_def Let_def)
  have "hm_ok ?live"
    using assms keys unfolding counters_ok_def hm_ok_def by (metis distinct_map_filter)
  moreover have "length ?live \<le> MAX_KEYS"
    using assms order_trans [OF length_filter_le [of "\<lambda>(k, c). hits c \<noteq> []" ?p], of MAX_KEYS]
    by (simp add: counters_ok_def del: filter_map)
  moreover have "sorted (hits (snd e)) \<and> (\<forall>h \<in> set (hits (snd e)). h \<le> t) \<and> fst e \<in> set (map fst (table cs))"
    if "e \<in> set ?live" for e
  proof -
    from that obtain k c where "(k, c) \<in> set (table cs)" "e = (k, prune now c)"
      by auto
    then show ?thesis
      using assms by (auto simp: counters_ok_def prune_def image_iff intro!: sorted_wrt_filter bexI [of _ "(k, c)"])
  qed
  moreover have "\<forall>e \<in> set ?live. hits (snd e) \<noteq> []"
    by auto
  moreover have "set (map fst ?live) \<subseteq> set (map fst ?p)"
    by (simp only: set_map set_filter) blast
  then have "set (map fst ?live) \<subseteq> set (map fst (table cs))"
    unfolding keys .
  ultimately show ?thesis
    using ns unfolding counters_ok_def tbl by blast
qed

text \<open>When the table is full of live counters: the one that goes belongs to a largest namespace
  and has the fewest hits there.\<close>

lemma evict_largest:
  assumes ok: "counters_ok t cs" and live: "\<forall>e \<in> set (table cs). hits (snd e) \<noteq> []" and ne: "table cs \<noteq> []"
  obtains k c where "map_of (table cs) k = Some c"
    and "table (evict_from_largest_namespace cs) = hm_remove k (table cs)"
    and "counters_ok t (evict_from_largest_namespace cs)"
    and "\<forall>n. ns_count n (map fst (table cs)) \<le> ns_count (namespace k) (map fst (table cs))"
    and "\<forall>e \<in> set (table cs). namespace (fst e) = namespace k \<longrightarrow> length (hits c) \<le> length (hits (snd e))"
proof -
  let ?ks = "map fst (table cs)"
  have hm: "hm_ok (table cs)" and ns: "ns_counts (namespaces cs) ?ks"
    using ok by (simp_all add: counters_ok_def)
  have hmn: "hm_ok (namespaces cs)"
    using ns by (simp add: ns_counts_def)
  have count_pos: "ns_count (namespace (fst e)) ?ks \<noteq> 0" if "e \<in> set (table cs)" for e
    using that by (auto simp: ns_count_def filter_empty_conv)
  obtain e0 where "e0 \<in> set (table cs)"
    using ne by (meson hd_in_set)
  then have "map_of (namespaces cs) (namespace (fst e0)) \<noteq> None"
    using count_pos [of e0] ns by (simp add: ns_counts_def)
  then have "namespaces cs \<noteq> []"
    by auto
  then obtain l m where lm: "max_by_key snd (namespaces cs) = Some (l, m)"
    by (cases "max_by_key snd (namespaces cs)") auto
  then have "map_of (namespaces cs) l = Some m"
    using max_by_key_in [OF lm] hm.entries_get [OF hmn] by blast
  then have m: "m = ns_count l ?ks" "m \<noteq> 0"
    using ns by (auto simp: ns_counts_def split: if_splits)
  have largest: "ns_count n ?ks \<le> ns_count l ?ks" for n
  proof (cases "ns_count n ?ks = 0")
    case False
    then have "(n, ns_count n ?ks) \<in> set (namespaces cs)"
      using ns hm.entries_get [OF hmn] by (simp add: ns_counts_def)
    from max_by_key_ge [OF lm this] m show ?thesis
      by simp
  qed simp
  from m have "\<exists>e \<in> set (table cs). namespace (fst e) = l"
    by (auto simp: ns_count_def filter_empty_conv)
  then obtain k n where kn: "find_victim l (table cs) None = Some (k, n)"
    using find_victim_None [of l "table cs" None] by (cases "find_victim l (table cs) None") auto
  from find_victim_Some [OF kn live] obtain c where c: "(k, c) \<in> set (table cs)" "namespace k = l" "n = length (hits c)"
    and fewest: "\<forall>e \<in> set (table cs). namespace (fst e) = l \<longrightarrow> n \<le> length (hits (snd e))"
    by auto
  have k: "map_of (table cs) k = Some c"
    using c(1) hm.entries_get [OF hm] by blast
  have eq: "evict_from_largest_namespace cs = \<lparr>table = hm_remove k (table cs), namespaces = forget_key (namespaces cs) k\<rparr>"
    using lm kn by (simp add: evict_from_largest_namespace_def)
  have "ns_counts (forget_key (namespaces cs) k) (map fst (hm_remove k (table cs)))"
    using ns ns_counts_mset [OF mset_hm_remove [OF hm k]] ns_counts_forget by blast
  then have "counters_ok t (evict_from_largest_namespace cs)"
    using ok hm.length_remove [OF hm, of k] hm.inv_remove [OF hm, of k]
    by (auto simp: eq counters_ok_def hm_remove_def)
  with that [OF k] show thesis
    using eq largest fewest c by simp
qed

lemma map_of_None_keys: "map_of m k = None \<longleftrightarrow> k \<notin> set (map fst m)"
  by (simp add: map_of_eq_None_iff)

lemma make_space_spec:
  assumes ok: "counters_ok t cs"
  shows "counters_ok t (make_space key now cs) \<and>
    (map_of (table cs) key = None \<longrightarrow> map_of (table (make_space key now cs)) key = None \<and>
       length (table (make_space key now cs)) < MAX_KEYS) \<and>
    (map_of (table cs) key \<noteq> None \<or> length (table cs) < MAX_KEYS \<longrightarrow> make_space key now cs = cs)"
proof (cases "map_of (table cs) key = None \<and> length (table cs) \<ge> MAX_KEYS")
  case False
  then show ?thesis
    using ok by (auto simp: make_space_def)
next
  case True
  let ?cs = "evict_stale now cs"
  note st = evict_stale_ok [OF ok, of now]
  have new: "map_of (table ?cs) key = None"
    using True st unfolding map_of_None_keys by blast
  show ?thesis
  proof (cases "length (table ?cs) \<ge> MAX_KEYS")
    case False
    with True st new show ?thesis
      by (simp add: make_space_def Let_def)
  next
    case full: True
    have ne: "table ?cs \<noteq> []"
      using full by (auto simp: MAX_KEYS_def)
    have st': "counters_ok t ?cs" "\<forall>e \<in> set (table ?cs). hits (snd e) \<noteq> []"
      using st by blast+
    obtain k c where k: "map_of (table ?cs) k = Some c"
      "table (evict_from_largest_namespace ?cs) = hm_remove k (table ?cs)"
      "counters_ok t (evict_from_largest_namespace ?cs)"
      by (rule evict_largest [OF st' ne])
    have hm: "hm_ok (table ?cs)" and "length (table ?cs) \<le> MAX_KEYS"
      using st'(1) by (simp_all add: counters_ok_def)
    then have "length (hm_remove k (table ?cs)) < MAX_KEYS"
      using hm.length_remove [OF hm, of k] k(1) by (simp add: MAX_KEYS_def)
    moreover have "map_of (hm_remove k (table ?cs)) key = None"
      using new hm.get_remove [OF hm, of k] by simp
    ultimately show ?thesis
      using True full k by (simp add: make_space_def Let_def)
  qed
qed

text \<open>On hits in time order, skipping those older than the window leaves those inside it.\<close>

lemma counted_eq:
  assumes "sorted (hs :: nat list)"
  shows "drop (length (takeWhile (\<lambda>t. now - t \<ge> win) hs)) hs = filter (\<lambda>t. now - t < win) hs"
  using assms
proof (induction hs)
  case (Cons h hs)
  have "filter (\<lambda>t. now - t < win) hs = hs" if "now - h < win"
  proof (rule filter_True)
    show "\<forall>t \<in> set hs. now - t < win"
      using that Cons.prems by (auto intro: le_less_trans diff_le_mono2)
  qed
  with Cons show ?case
    by auto
qed simp

text \<open>The counter a call works on.\<close>

definition current_counter :: "string \<Rightarrow> nat \<Rightarrow> counters \<Rightarrow> counter" where
  "current_counter key win cs = (case map_of (table cs) key of Some c \<Rightarrow> c | None \<Rightarrow> \<lparr>window = win, hits = []\<rparr>)"

lemma allow_at_eq:
  fixes key :: string and now win t :: nat and cs :: counters
  assumes ok: "counters_ok t cs"
  defines "cs1 \<equiv> make_space key now cs"
  defines "c \<equiv> current_counter key win cs1"
  defines "hs \<equiv> filter (\<lambda>x. now - x < max (window c) win) (hits c)"
  defines "counted \<equiv> filter (\<lambda>x. now - x < win) hs"
  defines "cs2 \<equiv> (if map_of (table cs1) key = None then cs1\<lparr>namespaces := remember_key (namespaces cs1) key\<rparr> else cs1)"
  shows "allow_at key limit win now cs =
    (if length counted \<ge> unat limit
     then (Inl (case counted of oldest # _ \<Rightarrow> of_nat (max ((win - (now - oldest)) div SECOND) 1) | [] \<Rightarrow> 1),
           set_counter key \<lparr>window = max (window c) win, hits = hs\<rparr> cs2)
     else (Inr (), set_counter key \<lparr>window = max (window c) win, hits = hs @ [now]\<rparr> cs2))"
proof -
  have "counters_ok t cs1"
    using make_space_spec [OF ok] cs1_def by simp
  then have "sorted (hits c)"
    by (cases "map_of (table cs1) key")
      (auto simp: c_def current_counter_def counters_ok_def dest!: map_of_SomeD)
  then have counted: "drop (length (takeWhile (\<lambda>t. now - t \<ge> win) hs)) hs = counted"
    unfolding hs_def counted_def by (intro counted_eq) (auto intro: sorted_wrt_filter)
  have enter: "enter_key key win cs1 = (c, cs2)"
    by (auto simp: enter_key_def c_def current_counter_def cs2_def split: option.splits)
  have "allow_at key limit win now cs =
    (if length (drop (length (takeWhile (\<lambda>t. now - t \<ge> win) hs)) hs) \<ge> unat limit
     then (Inl (case drop (length (takeWhile (\<lambda>t. now - t \<ge> win) hs)) hs of
             oldest # _ \<Rightarrow> of_nat (max ((win - (now - oldest)) div SECOND) 1) | [] \<Rightarrow> 1),
           set_counter key \<lparr>window = max (window c) win, hits = hs\<rparr> cs2)
     else (Inr (), set_counter key \<lparr>window = max (window c) win, hits = hs @ [now]\<rparr> cs2))"
    unfolding allow_at_def Let_def cs1_def [symmetric] enter prod.case
    by (simp only: hs_def counter.simps)
  then show ?thesis
    unfolding counted .
qed

lemma set_counter_ok:
  assumes ok: "counters_ok now cs" and room: "map_of (table cs) key = None \<Longrightarrow> length (table cs) < MAX_KEYS"
    and h: "sorted hs" "\<forall>h \<in> set hs. h \<le> now"
  defines "cs2 \<equiv> (if map_of (table cs) key = None then cs\<lparr>namespaces := remember_key (namespaces cs) key\<rparr> else cs)"
  shows "counters_ok now (set_counter key \<lparr>window = w, hits = hs\<rparr> cs2)"
proof -
  let ?c = "\<lparr>window = w, hits = hs\<rparr>"
  have hm: "hm_ok (table cs)" and ns: "ns_counts (namespaces cs) (map fst (table cs))"
    using ok by (simp_all add: counters_ok_def)
  have tbl: "table (set_counter key ?c cs2) = hm_insert key ?c (table cs)"
    and nss: "namespaces (set_counter key ?c cs2) = namespaces cs2"
    by (simp_all add: set_counter_def cs2_def del: hm_insert.simps)
  have "set (hm_insert key ?c (table cs)) \<subseteq> insert (key, ?c) (set (table cs))"
    by auto
  moreover have "ns_counts (namespaces cs2) (map fst (hm_insert key ?c (table cs)))"
    using ns_counts_mset [OF mset_hm_insert_keys [of key ?c "table cs", simplified if_distrib [of mset, symmetric]]]
      ns ns_counts_remember [OF ns, of key] unfolding cs2_def by (simp del: hm_insert.simps)
  moreover have "length (hm_insert key ?c (table cs)) \<le> MAX_KEYS"
    using hm.length_insert [OF hm, of key ?c] ok room by (auto simp: counters_ok_def simp del: hm_insert.simps)
  ultimately show ?thesis
    using ok h hm.inv_insert [OF hm, of key ?c] unfolding counters_ok_def tbl nss by auto
qed

lemma current_counter_hits:
  assumes "counters_ok t cs"
  shows "sorted (hits (current_counter key win cs)) \<and> (\<forall>h \<in> set (hits (current_counter key win cs)). h \<le> t)"
proof (cases "map_of (table cs) key")
  case (Some c)
  then have "(key, c) \<in> set (table cs)"
    by (rule map_of_SomeD)
  with assms Some show ?thesis
    by (auto simp: current_counter_def counters_ok_def)
qed (simp add: current_counter_def)

lemma allow_at_ok:
  assumes ok: "counters_ok t cs" and now: "t \<le> now"
  shows "counters_ok now (snd (allow_at key limit win now cs))"
proof -
  let ?cs1 = "make_space key now cs"
  let ?c = "current_counter key win ?cs1"
  let ?hs = "filter (\<lambda>x. now - x < max (window ?c) win) (hits ?c)"
  note sp = make_space_spec [OF ok, of key now]
  then have ok1: "counters_ok now ?cs1" and room: "map_of (table ?cs1) key = None \<Longrightarrow> length (table ?cs1) < MAX_KEYS"
    using counters_ok_later [OF _ now] by auto
  have h: "sorted ?hs" "\<forall>h \<in> set ?hs. h \<le> now"
    using current_counter_hits [OF ok1, of key win] by (auto intro: sorted_wrt_filter)
  then have "sorted (?hs @ [now])" "\<forall>h \<in> set (?hs @ [now]). h \<le> now"
    by (simp_all add: sorted_append)
  with h show ?thesis
    unfolding allow_at_eq [OF ok]
    using set_counter_ok [of now ?cs1 key ?hs "max (window ?c) win"]
      set_counter_ok [of now ?cs1 key "?hs @ [now]" "max (window ?c) win"] ok1 room
    by (simp split: if_split)
qed

section \<open>Histories\<close>

text \<open>A limiter's life: calls with a clock that never goes back (it is read under the lock), and
  reorderings of the hash tables between them. The history records every call and whether it was
  allowed.\<close>

record call =
  c_key :: string
  c_limit :: u32
  c_window :: nat
  c_now :: nat
  c_ok :: bool

inductive limiter_run :: "nat \<Rightarrow> counters \<Rightarrow> call list \<Rightarrow> bool" where
  start: "limiter_run 0 counters_default []"
| call: "limiter_run t cs h \<Longrightarrow> t \<le> now \<Longrightarrow> allow_at key limit win now cs = (res, cs') \<Longrightarrow>
    limiter_run now cs' (h @ [\<lparr>c_key = key, c_limit = limit, c_window = win, c_now = now, c_ok = (res = Inr ())\<rparr>])"
| reorder: "limiter_run t cs h \<Longrightarrow> mset (table cs') = mset (table cs) \<Longrightarrow>
    mset (namespaces cs') = mset (namespaces cs) \<Longrightarrow> limiter_run t cs' h"

lemma limiter_run_ok: "limiter_run t cs h \<Longrightarrow> counters_ok t cs"
proof (induction rule: limiter_run.induct)
  case start
  show ?case
    by (rule counters_ok_default)
next
  case (call t cs h now key limit win res cs')
  then show ?case
    using allow_at_ok [of t cs now key limit win] by simp
next
  case (reorder t cs h cs')
  then show ?case
    using counters_ok_reorder by blast
qed

definition accepted :: "string \<Rightarrow> call list \<Rightarrow> nat list" where
  "accepted k h = map c_now (filter (\<lambda>c. c_key c = k \<and> c_ok c) h)"

text \<open>No window of length \<open>w\<close>, wherever it ends, holds more than \<open>lim\<close> of the times.\<close>

definition windowed :: "nat \<Rightarrow> nat \<Rightarrow> nat list \<Rightarrow> bool" where
  "windowed lim w ts \<longleftrightarrow> (\<forall>T. length (filter (\<lambda>t. t \<le> T \<and> T - t < w) ts) \<le> lim)"

lemma length_filter_mono: "(\<And>x. x \<in> set xs \<Longrightarrow> P x \<Longrightarrow> Q x) \<Longrightarrow> length (filter P xs) \<le> length (filter Q xs)"
  by (induction xs) (auto intro: le_SucI)

lemma windowed_snoc:
  assumes "windowed lim w ts" and "\<forall>t \<in> set ts. t \<le> now" and "length (filter (\<lambda>t. now - t < w) ts) < lim"
  shows "windowed lim w (ts @ [now])"
  unfolding windowed_def
proof
  fix T
  show "length (filter (\<lambda>t. t \<le> T \<and> T - t < w) (ts @ [now])) \<le> lim"
  proof (cases "now \<le> T")
    case True
    have "length (filter (\<lambda>t. t \<le> T \<and> T - t < w) ts) \<le> length (filter (\<lambda>t. now - t < w) ts)"
      using True by (intro length_filter_mono) auto
    with assms(3) show ?thesis
      by auto
  next
    case False
    with assms(1) show ?thesis
      by (simp add: windowed_def)
  qed
qed

text \<open>The state of one key that is always called with the same limit and window and never
  evicted: its counter holds exactly the accepted hits of the recent window.\<close>

definition key_tracks :: "string \<Rightarrow> nat \<Rightarrow> nat \<Rightarrow> counters \<Rightarrow> nat list \<Rightarrow> bool" where
  "key_tracks k w t cs ts \<longleftrightarrow> (\<forall>x \<in> set ts. x \<le> t) \<and>
     (case map_of (table cs) k of
        None \<Rightarrow> ts = []
      | Some c \<Rightarrow> window c = w \<and> (\<exists>m \<le> t. hits c = filter (\<lambda>x. m - x < w) ts))"

lemma key_tracks_counter:
  assumes "key_tracks k w t cs ts" and "t \<le> now" and "c = current_counter k w cs"
  shows "window c = w \<and> filter (\<lambda>x. now - x < w) (hits c) = filter (\<lambda>x. now - x < w) ts"
proof (cases "map_of (table cs) k")
  case None
  with assms show ?thesis
    by (simp add: key_tracks_def current_counter_def)
next
  case (Some c')
  with assms obtain m where "m \<le> t" "hits c = filter (\<lambda>x. m - x < w) ts" "window c = w"
    by (auto simp: key_tracks_def current_counter_def)
  moreover from this(1) have "now - x < w \<Longrightarrow> m - x < w" for x
    using assms(2) by linarith
  ultimately show ?thesis
    by (auto intro!: filter_cong)
qed

lemma map_of_set_counter: "map_of (table (set_counter k c cs)) = (map_of (table cs))(k \<mapsto> c)"
  unfolding set_counter_def by (simp add: map_of_hm_insert del: hm_insert.simps)

lemma allow_at_same_key:
  assumes ok: "counters_ok t cs" and now: "t \<le> now" and space: "make_space k now cs = cs"
    and tr: "key_tracks k w t cs ts" and win: "windowed (unat lim) w ts"
    and a: "allow_at k lim w now cs = (res, cs')" and w: "0 < w"
  defines "ts' \<equiv> (if res = Inr () then ts @ [now] else ts)"
  shows "key_tracks k w now cs' ts' \<and> windowed (unat lim) w ts'"
proof -
  let ?recent = "filter (\<lambda>x. now - x < w) ts"
  define c where "c = current_counter k w cs"
  have c: "window c = w" "filter (\<lambda>x. now - x < w) (hits c) = ?recent"
    using key_tracks_counter [OF tr now c_def] by auto
  have past: "\<forall>x \<in> set ts. x \<le> now"
    using tr now by (auto simp: key_tracks_def)
  have step: "res = Inr () \<longleftrightarrow> length ?recent < unat lim"
    "map_of (table cs') k = Some \<lparr>window = w, hits = (if res = Inr () then ?recent @ [now] else ?recent)\<rparr>"
    using a allow_at_eq [OF ok, of k lim w now] unfolding space c_def [symmetric]
    by (auto simp: c map_of_set_counter not_le split: if_splits)
  have "key_tracks k w now cs' ts'"
  proof (cases "res = Inr ()")
    case True
    with step(2) past w show ?thesis
      by (auto simp: key_tracks_def ts'_def intro!: exI [of _ now])
  next
    case False
    with step(2) past show ?thesis
      by (auto simp: key_tracks_def ts'_def intro!: exI [of _ now])
  qed
  moreover have "windowed (unat lim) w ts'"
    using win step(1) windowed_snoc [OF win past] by (simp add: ts'_def)
  ultimately show ?thesis ..
qed

lemma table_keys_allow_at:
  assumes ok: "counters_ok t cs" and space: "make_space key now cs = cs"
    and a: "allow_at key lim win now cs = (res, cs')"
  shows "set (map fst (table cs')) = insert key (set (map fst (table cs))) \<and>
    (\<forall>k. k \<noteq> key \<longrightarrow> map_of (table cs') k = map_of (table cs) k)"
proof -
  obtain c cs2 where cs': "cs' = set_counter key c cs2" and "table cs2 = table cs"
    using a allow_at_eq [OF ok, of key lim win now] unfolding space
    by (auto split: if_splits)
  then have m: "map_of (table cs') = (map_of (table cs))(key \<mapsto> c)"
    by (simp add: map_of_set_counter)
  have "set (map fst m) = dom (map_of m)" for m :: "(string \<times> counter) list"
    by (simp add: dom_map_of_conv_image_fst)
  with m show ?thesis
    by simp
qed

lemma no_eviction:
  assumes ok: "counters_ok t cs" and sub: "set (map fst (table cs)) \<subseteq> K" and K: "finite K" "card (insert key K) \<le> MAX_KEYS"
  shows "make_space key now cs = cs"
proof (cases "map_of (table cs) key")
  case None
  then have "key \<notin> set (map fst (table cs))"
    by (simp add: map_of_None_keys)
  moreover have "card (set (map fst (table cs))) = length (table cs)"
    using ok distinct_card [of "map fst (table cs)"] by (simp add: counters_ok_def hm_ok_def)
  moreover have "card (insert key (set (map fst (table cs)))) \<le> card (insert key K)"
    using sub K(1) by (intro card_mono) auto
  ultimately have "length (table cs) < MAX_KEYS"
    using K(2) by simp
  then show ?thesis
    using make_space_spec [OF ok] by blast
qed (use make_space_spec [OF ok] in auto)

lemma map_of_reorder:
  assumes "mset m = mset m'" and "distinct (map fst m)"
  shows "map_of m = map_of m'"
proof -
  have "distinct (map fst m')"
    using assms mset_eq_imp_distinct_iff [of "map fst m" "map fst m'"] by simp
  with assms show ?thesis
    using map_of_inject_set mset_eq_setD by metis
qed

lemma limiter_run_tracks:
  assumes "limiter_run t cs h" and "card (c_key ` set h) \<le> MAX_KEYS"
    and "\<forall>c \<in> set h. c_key c = k \<longrightarrow> c_limit c = lim \<and> c_window c = w" and "0 < w"
  shows "set (map fst (table cs)) \<subseteq> c_key ` set h \<and> key_tracks k w t cs (accepted k h) \<and>
    windowed (unat lim) w (accepted k h)"
  using assms
proof (induction rule: limiter_run.induct)
  case start
  show ?case
    by (simp add: counters_default_def key_tracks_def accepted_def windowed_def)
next
  case (call t cs h now key limit win res cs')
  have ok: "counters_ok t cs"
    using call.hyps(1) by (rule limiter_run_ok)
  have card: "card (insert key (c_key ` set h)) \<le> MAX_KEYS"
    using call.prems(1) by simp
  then have "card (c_key ` set h) \<le> MAX_KEYS"
    by (meson card_insert_le finite_imageI finite_set le_trans)
  with call have IH: "set (map fst (table cs)) \<subseteq> c_key ` set h" "key_tracks k w t cs (accepted k h)"
    "windowed (unat lim) w (accepted k h)"
    by auto
  have space: "make_space key now cs = cs"
    using no_eviction [OF ok IH(1) _ card] by simp
  note tk = table_keys_allow_at [OF ok space call.hyps(3)]
  show ?case
  proof (cases "key = k")
    case True
    then have "limit = lim" "win = w"
      using call.prems(2) by auto
    with True have "key_tracks k w now cs' (if res = Inr () then accepted k h @ [now] else accepted k h) \<and>
        windowed (unat lim) w (if res = Inr () then accepted k h @ [now] else accepted k h)"
      using allow_at_same_key [OF ok call.hyps(2) _ IH(2,3) _ assms(4)] space call.hyps(3) by blast
    with True tk IH(1) show ?thesis
      by (auto simp: accepted_def)
  next
    case False
    with tk have "map_of (table cs') k = map_of (table cs) k"
      by simp
    with IH(2) call.hyps(2) have "key_tracks k w now cs' (accepted k h)"
      unfolding key_tracks_def by (auto split: option.splits intro: order_trans)
    with False tk IH show ?thesis
      by (auto simp: accepted_def)
  qed
next
  case (reorder t cs h cs')
  have "hm_ok (table cs)"
    using limiter_run_ok [OF reorder.hyps(1)] by (simp add: counters_ok_def)
  then have "map_of (table cs') = map_of (table cs)"
    using map_of_reorder [of "table cs" "table cs'"] reorder.hyps(2) by (simp add: hm_ok_def)
  with reorder mset_eq_setD [OF reorder.hyps(2)] show ?case
    by (simp add: key_tracks_def)
qed

section \<open>Properties\<close>

text \<open>C28: The rate limit holds over the whole life of the process. Take any history of calls on
  any keys, with clocks that never go back and the hash tables iterating in any order. For a key
  that is always called with the same limit and window, as long as no more than 10,000 distinct
  keys have been used, every time interval of the window's length contains at most limit allowed
  calls, wherever it starts or ends.\<close>

theorem rate_limit_enforced:
  assumes "limiter_run t cs h" and "card (c_key ` set h) \<le> 10000"
    and "\<forall>c \<in> set h. c_key c = k \<longrightarrow> c_limit c = limit \<and> c_window c = win" and "0 < win"
  shows "length (filter (\<lambda>x. x \<le> T \<and> T - x < win) (accepted k h)) \<le> unat limit"
  using limiter_run_tracks [OF assms(1) _ assms(3,4)] assms(2) by (simp add: MAX_KEYS_def windowed_def)

theorem rate_limit_enforced_witness:
  "length (filter (\<lambda>x. x \<le> 8 \<and> 8 - x < 10)
     (accepted ''login:a'' [\<lparr>c_key = ''login:a'', c_limit = 1, c_window = 10, c_now = 5, c_ok = True\<rparr>,
        \<lparr>c_key = ''login:a'', c_limit = 1, c_window = 10, c_now = 7, c_ok = False\<rparr>])) \<le> unat (1 :: u32)"
proof -
  let ?c1 = "\<lparr>table = [(''login:a'', \<lparr>window = 10, hits = [5]\<rparr>)], namespaces = [(''login'', 1)]\<rparr>"
  have "allow_at ''login:a'' 1 10 5 counters_default = (Inr (), ?c1)"
    by code_simp
  from limiter_run.call [OF limiter_run.start _ this]
  have 1: "limiter_run 5 ?c1 [\<lparr>c_key = ''login:a'', c_limit = 1, c_window = 10, c_now = 5, c_ok = True\<rparr>]"
    by simp
  have "allow_at ''login:a'' 1 10 7 ?c1 = (Inl 1, ?c1)"
    by code_simp
  from limiter_run.call [OF 1 _ this]
  have "limiter_run 7 ?c1 [\<lparr>c_key = ''login:a'', c_limit = 1, c_window = 10, c_now = 5, c_ok = True\<rparr>,
        \<lparr>c_key = ''login:a'', c_limit = 1, c_window = 10, c_now = 7, c_ok = False\<rparr>]"
    by simp
  from rate_limit_enforced [OF this, of "''login:a''" 1 10 8] show ?thesis
    by simp
qed

text \<open>C29: The limiter's tables stay bounded and in step. In every reachable state at most 10,000
  keys are stored, each once; the namespace table holds for each namespace exactly the number of
  its stored keys and nothing for a namespace without keys (so its size never underflows when a
  key is forgotten); and every counter's hits are in time order and not in the future.\<close>

theorem rate_limiter_consistent:
  assumes "limiter_run t cs h"
  shows "length (table cs) \<le> 10000 \<and> distinct (map fst (table cs)) \<and>
    (\<forall>n. map_of (namespaces cs) n =
       (let c = length (filter (\<lambda>k. namespace k = n) (map fst (table cs))) in if c = 0 then None else Some c)) \<and>
    (\<forall>(k, c) \<in> set (table cs). sorted (hits c) \<and> (\<forall>x \<in> set (hits c). x \<le> t))"
proof -
  note ok = limiter_run_ok [OF assms]
  then have "\<forall>(k, c) \<in> set (table cs). sorted (hits c) \<and> (\<forall>x \<in> set (hits c). x \<le> t)"
    by (auto simp: counters_ok_def)
  with ok show ?thesis
    by (simp add: counters_ok_def hm_ok_def ns_counts_def ns_count_def Let_def MAX_KEYS_def)
qed

theorem rate_limiter_consistent_witness:
  "length (table \<lparr>table = [(''login:a'', \<lparr>window = 10, hits = [5]\<rparr>)], namespaces = [(''login'', 1)]\<rparr>) \<le> 10000"
proof -
  have "allow_at ''login:a'' 1 10 5 counters_default =
      (Inr (), \<lparr>table = [(''login:a'', \<lparr>window = 10, hits = [5]\<rparr>)], namespaces = [(''login'', 1)]\<rparr>)"
    by code_simp
  from rate_limiter_consistent [OF limiter_run.call [OF limiter_run.start _ this]] show ?thesis
    by simp
qed

text \<open>A full table gives up the right counter. When all stored counters are live, the
  eviction removes exactly one key; it belongs to a namespace that holds the most keys, no key of
  that namespace has fewer hits, and the tables stay in step.\<close>

lemma rate_limit_eviction_fair:
  assumes "counters_ok t cs" and "\<forall>e \<in> set (table cs). hits (snd e) \<noteq> []" and "table cs \<noteq> []"
  shows "\<exists>k c. map_of (table cs) k = Some c \<and>
    table (evict_from_largest_namespace cs) = filter (\<lambda>e. fst e \<noteq> k) (table cs) \<and>
    counters_ok t (evict_from_largest_namespace cs) \<and>
    (\<forall>n. ns_count n (map fst (table cs)) \<le> ns_count (namespace k) (map fst (table cs))) \<and>
    (\<forall>e \<in> set (table cs). namespace (fst e) = namespace k \<longrightarrow> length (hits c) \<le> length (hits (snd e)))"
  by (rule evict_largest [OF assms]) (auto simp: hm_remove_def)

lemma rate_limit_eviction_fair_witness:
  "\<exists>k c. map_of [(''x:1'', \<lparr>window = 9, hits = [1, 2]\<rparr>), (''x:2'', \<lparr>window = 9, hits = [3]\<rparr>)] k = Some c \<and>
    (\<forall>e \<in> {(''x:1'', \<lparr>window = 9, hits = [1, 2]\<rparr>), (''x:2'', \<lparr>window = 9, hits = [3]\<rparr>)}.
       namespace (fst e) = namespace k \<longrightarrow> length (hits c) \<le> length (hits (snd e)))"
proof -
  let ?cs = "\<lparr>table = [(''x:1'', \<lparr>window = 9, hits = [1, 2]\<rparr>), (''x:2'', \<lparr>window = 9, hits = [3]\<rparr>)],
    namespaces = [(''x'', 2)]\<rparr>"
  have "counters_ok 5 ?cs"
    by (auto simp: counters_ok_def hm_ok_def ns_counts_def ns_count_def namespace_def MAX_KEYS_def)
  from rate_limit_eviction_fair [OF this] show ?thesis
    by auto
qed

end
