(* ===== verification/Zip.thy ===== *)
theory Zip
  imports Prelude
begin

text \<open>
  The export writer (\<open>src/export_zip.rs\<close>) and the import reader
  (\<open>src/documents/import_zip.rs\<close>) of ZIP archives. The CRC of crate \<open>flate2\<close> is a
  record of its three operations, its inflater the parameter \<open>inflate\<close>: the result of
  reading at most a given number of bytes from the decoder. Byte offsets are natural numbers:
  archives have fewer than 2^64 bytes.
\<close>

section \<open>Entry names\<close>

fun join :: "char \<Rightarrow> string list \<Rightarrow> string" where
  "join d [] = []"
| "join d [p] = p"
| "join d (p # ps) = p @ d # join d ps"

definition normalize_name :: "string \<Rightarrow> string" where
  "normalize_name raw = filter (\<lambda>c. c \<noteq> CHR 0x00) (map (\<lambda>c. if c = CHR 0x5C then CHR ''/'' else c) raw)"

definition zip_entry_name :: "string \<Rightarrow> string" where
  "zip_entry_name raw =
     (let joined = join CHR ''/''
            (filter (\<lambda>part. part \<noteq> [] \<and> part \<noteq> ''.'' \<and> part \<noteq> ''..'') (split_on CHR ''/'' (normalize_name raw)))
      in if joined = [] then ''file'' else joined)"

definition zip_safe_name :: "string \<Rightarrow> string" where
  "zip_safe_name raw =
     (let cleaned = trim (filter (\<lambda>c. c \<noteq> CHR 0x00) (last (split_on CHR ''/'' (zip_entry_name raw))))
      in if cleaned = [] \<or> cleaned = ''.'' \<or> cleaned = ''..'' then ''file'' else cleaned)"

section \<open>The writer\<close>

definition LOCAL_SIG :: u32 where "LOCAL_SIG = 0x04034b50"
definition DESCRIPTOR_SIG :: u32 where "DESCRIPTOR_SIG = 0x08074b50"
definition CENTRAL_SIG :: u32 where "CENTRAL_SIG = 0x02014b50"
definition EOCD_SIG :: u32 where "EOCD_SIG = 0x06054b50"
definition VERSION :: u16 where "VERSION = 20"
definition FLAG_UTF8 :: u16 where "FLAG_UTF8 = 0x0800"
definition FLAGS :: u16 where "FLAGS = FLAG_UTF8 OR 0x0008"
definition ZIP32_MAX :: nat where "ZIP32_MAX = 0xffffffff"
definition MAX_ENTRIES :: nat where "MAX_ENTRIES = 0xffff"

record 'c crc =
  crc_new :: 'c
  crc_update :: "'c \<Rightarrow> u8 list \<Rightarrow> 'c"
  crc_sum :: "'c \<Rightarrow> u32"

definition crc32 :: "'c crc \<Rightarrow> u8 list \<Rightarrow> u32" where
  "crc32 C data = crc_sum C (crc_update C (crc_new C) data)"

datatype zip_error = Overflow | EntryOpen | NoEntry

record central_entry =
  ce_flags :: u16
  ce_name :: "u8 list"
  ce_crc :: u32
  ce_size :: u32
  ce_offset :: u32

record 'c open_entry =
  oe_name :: "u8 list"
  oe_offset :: nat
  oe_crc :: 'c
  oe_size :: nat

record 'c zip_stream =
  zs_offset :: nat
  zs_entries :: "central_entry list"
  zs_open :: "'c open_entry option"

definition zip_stream_new :: "'c zip_stream" where
  "zip_stream_new = \<lparr>zs_offset = 0, zs_entries = [], zs_open = None\<rparr>"

abbreviation put_u16 :: "u16 \<Rightarrow> u8 list" where "put_u16 \<equiv> to_le_bytes16"
abbreviation put_u32 :: "u32 \<Rightarrow> u8 list" where "put_u32 \<equiv> to_le_bytes"

definition to_u32 :: "nat \<Rightarrow> zip_error + u32" where
  "to_u32 v = (if v > ZIP32_MAX then Inl Overflow else Inr (of_nat v))"

definition u16_try_from :: "nat \<Rightarrow> u16 option" where
  "u16_try_from v = (if v < 2 ^ 16 then Some (of_nat v) else None)"

definition local_header :: "u16 \<Rightarrow> u32 \<Rightarrow> u32 \<Rightarrow> u16 \<Rightarrow> u8 list" where
  "local_header flags crc sz name_len =
     put_u32 LOCAL_SIG @ put_u16 VERSION @ put_u16 flags @ put_u16 0 @ put_u16 0 @ put_u16 0 @
     put_u32 crc @ put_u32 sz @ put_u32 sz @ put_u16 name_len @ put_u16 0"

definition begin_entry :: "'c crc \<Rightarrow> string \<Rightarrow> 'c zip_stream \<Rightarrow> zip_error + (u8 list \<times> 'c zip_stream)" where
  "begin_entry C raw_name z =
     (if zs_open z \<noteq> None then Inl EntryOpen
      else if length (zs_entries z) \<ge> MAX_ENTRIES then Inl Overflow
      else
        let name = as_bytes (zip_entry_name raw_name) in
        rbind (ok_or (u16_try_from (length name)) Overflow) (\<lambda>name_len.
        rbind (to_u32 (zs_offset z)) (\<lambda>_.
        let out = local_header FLAGS 0 0 name_len @ name in
        Inr (out, z\<lparr>zs_open := Some \<lparr>oe_name = name, oe_offset = zs_offset z, oe_crc = crc_new C, oe_size = 0\<rparr>,
                    zs_offset := zs_offset z + length out\<rparr>))))"

definition whole_entry :: "'c crc \<Rightarrow> string \<Rightarrow> u8 list \<Rightarrow> 'c zip_stream \<Rightarrow> zip_error + (u8 list \<times> 'c zip_stream)" where
  "whole_entry C raw_name data z =
     (if zs_open z \<noteq> None then Inl EntryOpen
      else if length (zs_entries z) \<ge> MAX_ENTRIES then Inl Overflow
      else
        let name = as_bytes (zip_entry_name raw_name) in
        rbind (ok_or (u16_try_from (length name)) Overflow) (\<lambda>name_len.
        rbind (to_u32 (zs_offset z)) (\<lambda>offset.
        rbind (to_u32 (length data)) (\<lambda>sz.
        let crc = crc32 C data;
            out = local_header FLAG_UTF8 crc sz name_len @ name @ data in
        rbind (to_u32 (zs_offset z + length out)) (\<lambda>_.
        Inr (out, z\<lparr>zs_offset := zs_offset z + length out,
                    zs_entries := zs_entries z @
                      [\<lparr>ce_flags = FLAG_UTF8, ce_name = name, ce_crc = crc, ce_size = sz, ce_offset = offset\<rparr>]\<rparr>))))))"

text \<open>These two change the stream before they can fail: bytes that overflow the size stay counted in the open entry,
  and an entry that cannot be closed is gone.\<close>

definition entry_data :: "'c crc \<Rightarrow> u8 list \<Rightarrow> 'c zip_stream \<Rightarrow> (zip_error + unit) \<times> 'c zip_stream" where
  "entry_data C data z =
     (case zs_open z of
        None \<Rightarrow> (Inl NoEntry, z)
      | Some op \<Rightarrow>
          let op = op\<lparr>oe_crc := crc_update C (oe_crc op) data, oe_size := oe_size op + length data\<rparr>;
              z = z\<lparr>zs_open := Some op\<rparr>
          in case to_u32 (oe_size op) of
               Inl e \<Rightarrow> (Inl e, z)
             | Inr _ \<Rightarrow> (Inr (), z\<lparr>zs_offset := zs_offset z + length data\<rparr>))"

definition end_entry :: "'c crc \<Rightarrow> 'c zip_stream \<Rightarrow> (zip_error + u8 list) \<times> 'c zip_stream" where
  "end_entry C z =
     (case zs_open z of
        None \<Rightarrow> (Inl NoEntry, z)
      | Some op \<Rightarrow>
          let z = z\<lparr>zs_open := None\<rparr>; crc = crc_sum C (oe_crc op)
          in case to_u32 (oe_size op) of
               Inl e \<Rightarrow> (Inl e, z)
             | Inr sz \<Rightarrow>
                 (case to_u32 (oe_offset op) of
                    Inl e \<Rightarrow> (Inl e, z)
                  | Inr offset \<Rightarrow>
                      let out = put_u32 DESCRIPTOR_SIG @ put_u32 crc @ put_u32 sz @ put_u32 sz in
                      (Inr out, z\<lparr>zs_entries := zs_entries z @
                           [\<lparr>ce_flags = FLAGS, ce_name = oe_name op, ce_crc = crc, ce_size = sz, ce_offset = offset\<rparr>],
                         zs_offset := zs_offset z + length out\<rparr>)))"

definition central_bytes :: "central_entry \<Rightarrow> u8 list" where
  "central_bytes e =
     put_u32 CENTRAL_SIG @ put_u16 VERSION @ put_u16 VERSION @ put_u16 (ce_flags e) @
     put_u16 0 @ put_u16 0 @ put_u16 0 @ put_u32 (ce_crc e) @ put_u32 (ce_size e) @ put_u32 (ce_size e) @
     put_u16 (of_nat (length (ce_name e))) @ put_u16 0 @ put_u16 0 @ put_u16 0 @ put_u16 0 @
     put_u32 0 @ put_u32 (ce_offset e) @ ce_name e"

definition eocd_bytes :: "u16 \<Rightarrow> u32 \<Rightarrow> u32 \<Rightarrow> u8 list" where
  "eocd_bytes count central_len central_start =
     put_u32 EOCD_SIG @ put_u16 0 @ put_u16 0 @ put_u16 count @ put_u16 count @
     put_u32 central_len @ put_u32 central_start @ put_u16 0"

definition finish :: "'c zip_stream \<Rightarrow> zip_error + u8 list" where
  "finish z =
     (if zs_open z \<noteq> None then Inl EntryOpen
      else
        rbind (to_u32 (zs_offset z)) (\<lambda>central_start.
        let out = concat (map central_bytes (zs_entries z)) in
        rbind (to_u32 (length out)) (\<lambda>central_len.
        rbind (to_u32 (zs_offset z + unat central_len)) (\<lambda>_.
        Inr (out @ eocd_bytes (of_nat (length (zs_entries z))) central_len central_start)))))"

section \<open>The reader\<close>

definition ZIP_MAX_ENTRIES :: nat where "ZIP_MAX_ENTRIES = 10000"
definition ZIP_MAX_UNCOMPRESSED_BYTES :: nat where "ZIP_MAX_UNCOMPRESSED_BYTES = 200 * 1024 * 1024"
definition LOCAL_SIZE :: nat where "LOCAL_SIZE = 30"
definition CENTRAL_SIZE :: nat where "CENTRAL_SIZE = 46"
definition EOCD_SIZE :: nat where "EOCD_SIZE = 22"
definition ZIP64_MARK :: u32 where "ZIP64_MARK = 0xffffffff"
definition ZIP64_EXTRA_ID :: u16 where "ZIP64_EXTRA_ID = 0x0001"
definition FLAG_DATA_DESCRIPTOR :: u16 where "FLAG_DATA_DESCRIPTOR = 0x0008"
definition MAX_EOCD_COMMENT :: nat where "MAX_EOCD_COMMENT = 65535"

record zip_entry =
  z_name :: string
  z_data :: "u8 list"

datatype zip_import_error =
  ZEmpty | ZInvalid | ZTooManyEntries | ZTooLarge | ZTraversal | ZZip64 | ZMethod | ZDataDescriptor | ZMismatch

definition u16_at :: "u8 list \<Rightarrow> nat \<Rightarrow> zip_import_error + u16" where
  "u16_at buf at = (if at + 2 \<le> length buf then Inr (from_le_bytes16 [buf ! at, buf ! (at + 1)]) else Inl ZInvalid)"

definition u32_at :: "u8 list \<Rightarrow> nat \<Rightarrow> zip_import_error + u32" where
  "u32_at buf at = (if at + 4 \<le> length buf
     then Inr (from_le_bytes [buf ! at, buf ! (at + 1), buf ! (at + 2), buf ! (at + 3)]) else Inl ZInvalid)"

definition slice :: "u8 list \<Rightarrow> nat \<Rightarrow> nat \<Rightarrow> zip_import_error + u8 list" where
  "slice buf from to =
     (if from > to then Inl ZInvalid
      else if to \<le> length buf then Inr (take (to - from) (drop from buf)) else Inl ZInvalid)"

text \<open>The search from \<open>last\<close> down to \<open>first\<close>.\<close>

fun find_eocd_from :: "u8 list \<Rightarrow> nat \<Rightarrow> nat \<Rightarrow> zip_import_error + nat" where
  "find_eocd_from buf first 0 =
     (if first = 0 \<and> u32_at buf 0 = Inr EOCD_SIG then Inr 0 else Inl ZInvalid)"
| "find_eocd_from buf first (Suc n) =
     (if Suc n < first then Inl ZInvalid
      else if u32_at buf (Suc n) = Inr EOCD_SIG then Inr (Suc n)
      else find_eocd_from buf first n)"

definition find_eocd :: "u8 list \<Rightarrow> zip_import_error + nat" where
  "find_eocd buf =
     (let final = length buf - EOCD_SIZE; first = final - MAX_EOCD_COMMENT
      in find_eocd_from buf first final)"

definition assert_supported :: "u16 \<Rightarrow> u32 \<Rightarrow> u32 \<Rightarrow> zip_import_error + unit" where
  "assert_supported method compressed sz =
     (if method \<noteq> 0 \<and> method \<noteq> 8 then Inl ZMethod
      else if compressed = ZIP64_MARK \<or> sz = ZIP64_MARK then Inl ZZip64 else Inr ())"

function zip64_scan :: "u8 list \<Rightarrow> nat \<Rightarrow> zip_import_error + unit" where
  "zip64_scan extra at =
     (if at + 4 \<le> length extra then
        if from_le_bytes16 [extra ! at, extra ! (at + 1)] = ZIP64_EXTRA_ID then Inl ZZip64
        else zip64_scan extra (at + 4 + unat (from_le_bytes16 [extra ! (at + 2), extra ! (at + 3)]))
      else Inr ())"
  by pat_completeness auto
termination
  by (relation "measure (\<lambda>(extra, at). length extra - at)") auto

declare zip64_scan.simps [simp del]

definition assert_no_zip64_extra :: "u8 list \<Rightarrow> zip_import_error + unit" where
  "assert_no_zip64_extra extra = zip64_scan extra 0"

definition is_ascii_alphabetic :: "char \<Rightarrow> bool" where
  "is_ascii_alphabetic c = (let n = (of_char c :: nat) in 65 \<le> n \<and> n \<le> 90 \<or> 97 \<le> n \<and> n \<le> 122)"

definition assert_no_traversal :: "string \<Rightarrow> zip_import_error + unit" where
  "assert_no_traversal raw =
     (let norm = normalize_name raw in
      if take 1 norm = ''/'' \<or> (length norm \<ge> 2 \<and> is_ascii_alphabetic (norm ! 0) \<and> norm ! 1 = CHR '':'')
      then Inl ZTraversal
      else if ''..'' \<in> set (split_on CHR ''/'' norm) then Inl ZTraversal
      else Inr ())"

text \<open>\<open>rfind\<close>: the parts around the last occurrence of a character.\<close>

definition rsplit_once :: "char \<Rightarrow> string \<Rightarrow> (string \<times> string) option" where
  "rsplit_once d s = map_option (\<lambda>(a, b). (rev b, rev a)) (split_once d (rev s))"

definition title_from_file_name :: "string \<Rightarrow> string" where
  "title_from_file_name name =
     (let base = zip_safe_name name;
          stem = (case rsplit_once CHR ''.'' base of
                    Some (before, ext) \<Rightarrow> if 1 \<le> char_count ext \<and> char_count ext \<le> 12 then before else base
                  | None \<Rightarrow> base);
          stem = trim stem
      in if stem = [] then ''untitled'' else stem)"

definition local_payload :: "u8 list \<Rightarrow> nat \<Rightarrow> u8 list \<Rightarrow> u16 \<Rightarrow> u32 \<Rightarrow> u32 \<Rightarrow> zip_import_error + u8 list" where
  "local_payload buf at e_name e_method e_compressed e_size =
     (if at + LOCAL_SIZE > length buf then Inl ZInvalid
      else
        rbind (u32_at buf at) (\<lambda>sig.
        if sig \<noteq> LOCAL_SIG then Inl ZInvalid
        else
          rbind (u16_at buf (at + 6)) (\<lambda>flags.
          rbind (u16_at buf (at + 8)) (\<lambda>method.
          rbind (u32_at buf (at + 18)) (\<lambda>compressed.
          rbind (u32_at buf (at + 22)) (\<lambda>sz.
          rbind (assert_supported method compressed sz) (\<lambda>_.
          if flags AND FLAG_DATA_DESCRIPTOR \<noteq> 0 \<and> compressed = 0 then Inl ZDataDescriptor
          else
            let name_at = at + LOCAL_SIZE in
            rbind (u16_at buf (at + 26)) (\<lambda>name_len.
            let extra_at = name_at + unat name_len in
            rbind (u16_at buf (at + 28)) (\<lambda>extra_len.
            let data_at = extra_at + unat extra_len in
            rbind (slice buf extra_at data_at) (\<lambda>extra.
            rbind (assert_no_zip64_extra extra) (\<lambda>_.
            if method \<noteq> e_method \<or> compressed \<noteq> e_compressed \<or> sz \<noteq> e_size then Inl ZMismatch
            else
              rbind (slice buf name_at extra_at) (\<lambda>name.
              if name \<noteq> e_name then Inl ZMismatch
              else
                let stored = unat (if method = 0 then sz else compressed) in
                slice buf data_at (data_at + stored)))))))))))))"

definition inflate_bounded :: "(u8 list \<Rightarrow> nat \<Rightarrow> u8 list option) \<Rightarrow> u8 list \<Rightarrow> nat \<Rightarrow> zip_import_error + u8 list" where
  "inflate_bounded inflate payload limit =
     (case inflate payload (limit + 1) of
        None \<Rightarrow> Inl ZInvalid
      | Some out \<Rightarrow> if length out > limit then Inl ZTooLarge else Inr out)"

text \<open>One round of the loop over the central directory: the entry it yields, if any, the new
  total and the position of the next record.\<close>

definition read_central ::
    "(u8 list \<Rightarrow> nat \<Rightarrow> u8 list option) \<Rightarrow> (string \<Rightarrow> bool) \<Rightarrow> u8 list \<Rightarrow> nat \<Rightarrow> nat \<Rightarrow> nat \<Rightarrow>
     zip_import_error + (zip_entry list \<times> nat \<times> nat)" where
  "read_central inflate select buf max_total total_so_far at =
     (if at + CENTRAL_SIZE > length buf then Inl ZInvalid
      else
        rbind (u32_at buf at) (\<lambda>sig.
        if sig \<noteq> CENTRAL_SIG then Inl ZInvalid
        else
          rbind (u16_at buf (at + 10)) (\<lambda>method.
          rbind (u32_at buf (at + 20)) (\<lambda>compressed.
          rbind (u32_at buf (at + 24)) (\<lambda>sz.
          rbind (assert_supported method compressed sz) (\<lambda>_.
          let name_at = at + CENTRAL_SIZE in
          rbind (u16_at buf (at + 28)) (\<lambda>name_len.
          let extra_at = name_at + unat name_len in
          rbind (u16_at buf (at + 30)) (\<lambda>extra_len.
          let comment_at = extra_at + unat extra_len in
          rbind (slice buf name_at extra_at) (\<lambda>raw_name.
          let name = from_utf8_lossy raw_name in
          rbind (assert_no_traversal name) (\<lambda>_.
          rbind (slice buf extra_at comment_at) (\<lambda>extra.
          rbind (assert_no_zip64_extra extra) (\<lambda>_.
          rbind (u32_at buf (at + 42)) (\<lambda>local_at.
          rbind (local_payload buf (unat local_at) raw_name method compressed sz) (\<lambda>payload.
          rbind
            (if \<not> (name \<noteq> [] \<and> last name = CHR ''/'') \<and> select (zip_entry_name name) then
               let left = max_total - total_so_far in
               rbind (if method = 0 then
                        (if length payload > left then Inl ZTooLarge else Inr payload)
                      else inflate_bounded inflate payload left) (\<lambda>data.
               Inr ([\<lparr>z_name = zip_entry_name name, z_data = data\<rparr>], total_so_far + length data))
             else Inr ([], total_so_far)) (\<lambda>(files, total_so_far).
          rbind (u16_at buf (at + 32)) (\<lambda>comment_len.
          Inr (files, total_so_far, comment_at + unat comment_len)))))))))))))))))"

fun read_directory ::
    "(u8 list \<Rightarrow> nat \<Rightarrow> u8 list option) \<Rightarrow> (string \<Rightarrow> bool) \<Rightarrow> u8 list \<Rightarrow> nat \<Rightarrow> nat \<Rightarrow> nat \<Rightarrow> nat \<Rightarrow> zip_entry list \<Rightarrow>
     zip_import_error + zip_entry list" where
  "read_directory inflate select buf max_total 0 total_so_far at files = Inr files"
| "read_directory inflate select buf max_total (Suc n) total_so_far at files =
     rbind (read_central inflate select buf max_total total_so_far at) (\<lambda>(new, total_so_far, at).
     read_directory inflate select buf max_total n total_so_far at (files @ new))"

definition unzip_bounded_select ::
    "(u8 list \<Rightarrow> nat \<Rightarrow> u8 list option) \<Rightarrow> u8 list \<Rightarrow> nat \<Rightarrow> (string \<Rightarrow> bool) \<Rightarrow> zip_import_error + zip_entry list" where
  "unzip_bounded_select inflate buf max_total select =
     (if buf = [] then Inl ZEmpty
      else if length buf < EOCD_SIZE then Inl ZInvalid
      else
        rbind (find_eocd buf) (\<lambda>eocd.
        rbind (u16_at buf (eocd + 10)) (\<lambda>entries.
        if unat entries > ZIP_MAX_ENTRIES then Inl ZTooManyEntries
        else
          rbind (u32_at buf (eocd + 16)) (\<lambda>at.
          if entries = 0xffff \<or> at = ZIP64_MARK then Inl ZZip64
          else read_directory inflate select buf max_total (unat entries) 0 (unat at) []))))"

definition unzip_bounded_with_limit ::
    "(u8 list \<Rightarrow> nat \<Rightarrow> u8 list option) \<Rightarrow> u8 list \<Rightarrow> nat \<Rightarrow> zip_import_error + zip_entry list" where
  "unzip_bounded_with_limit inflate buf max_total = unzip_bounded_select inflate buf max_total (\<lambda>_. True)"

definition unzip_bounded :: "(u8 list \<Rightarrow> nat \<Rightarrow> u8 list option) \<Rightarrow> u8 list \<Rightarrow> zip_import_error + zip_entry list" where
  "unzip_bounded inflate buf = unzip_bounded_with_limit inflate buf ZIP_MAX_UNCOMPRESSED_BYTES"

section \<open>Names: lemmas\<close>

text \<open>A safe relative path: no NUL or backslash, and no empty, dot or dot-dot segment.\<close>

definition safe_path :: "string \<Rightarrow> bool" where
  "safe_path s \<longleftrightarrow> CHR 0x00 \<notin> set s \<and> CHR 0x5C \<notin> set s \<and>
     list_all (\<lambda>p. p \<noteq> [] \<and> p \<noteq> ''.'' \<and> p \<noteq> ''..'') (split_on CHR ''/'' s)"

lemma split_on_nonempty [simp]: "split_on d s \<noteq> []"
  by (cases s) (auto split: list.splits)

lemma split_on_no_sep_parts: "p \<in> set (split_on d s) \<Longrightarrow> d \<notin> set p \<and> set p \<subseteq> set s"
proof (induction s arbitrary: p)
  case (Cons c s)
  obtain q qs where "split_on d s = q # qs"
    by (cases "split_on d s") auto
  with Cons show ?case
    by (cases "c = d") fastforce+
qed simp

lemma join_Cons: "ps \<noteq> [] \<Longrightarrow> join d (p # ps) = p @ d # join d ps"
  by (cases ps) auto

lemma split_on_join: "ps \<noteq> [] \<Longrightarrow> \<forall>p \<in> set ps. d \<notin> set p \<Longrightarrow> split_on d (join d ps) = ps"
proof (induction ps)
  case (Cons p ps)
  then show ?case
    by (cases "ps = []") (auto simp: join_Cons split_on_no_sep split_on_append)
qed simp

lemma join_split_on: "join d (split_on d s) = s"
proof (induction s)
  case (Cons c s)
  obtain q qs where q: "split_on d s = q # qs"
    by (cases "split_on d s") auto
  show ?case
  proof (cases "qs = []")
    case True
    with Cons q show ?thesis
      by (cases "c = d") auto
  next
    case False
    with Cons q show ?thesis
      by (cases "c = d") (auto simp: join_Cons)
  qed
qed simp

lemma set_join: "set (join d ps) \<subseteq> insert d (\<Union> (set ` set ps))"
  by (induction d ps rule: join.induct) auto

lemma normalize_name_clean: "CHR 0x00 \<notin> set (normalize_name s)" "CHR 0x5C \<notin> set (normalize_name s)"
  by (auto simp: normalize_name_def)

lemma zip_entry_name_safe: "safe_path (zip_entry_name raw)"
proof -
  let ?n = "normalize_name raw"
  let ?ps = "filter (\<lambda>p. p \<noteq> [] \<and> p \<noteq> ''.'' \<and> p \<noteq> ''..'') (split_on CHR ''/'' ?n)"
  show ?thesis
  proof (cases "?ps = []")
    case True
    then show ?thesis
      by (simp add: zip_entry_name_def safe_path_def Let_def)
  next
    case False
    have parts: "CHR ''/'' \<notin> set p \<and> set p \<subseteq> set ?n" if "p \<in> set ?ps" for p
      using that split_on_no_sep_parts [of p "CHR ''/''" ?n] by auto
    have "split_on CHR ''/'' (join CHR ''/'' ?ps) = ?ps"
      using False parts by (intro split_on_join) auto
    moreover have "join CHR ''/'' ?ps \<noteq> []"
    proof
      assume "join CHR ''/'' ?ps = []"
      with calculation have "?ps = [[]]"
        by simp
      then have "[] \<in> set ?ps"
        by simp
      then show False
        by simp
    qed
    moreover have "set (join CHR ''/'' ?ps) \<subseteq> insert CHR ''/'' (set ?n)"
      using set_join [of "CHR ''/''" ?ps] parts by blast
    ultimately show ?thesis
      using normalize_name_clean [of raw]
      by (auto simp: zip_entry_name_def safe_path_def Let_def list_all_iff)
  qed
qed

lemma normalize_safe: "safe_path s \<Longrightarrow> normalize_name s = s"
proof -
  assume s: "safe_path s"
  then have "map (\<lambda>c. if c = CHR 0x5C then CHR ''/'' else c) s = s"
    by (intro map_idI) (auto simp: safe_path_def)
  with s show ?thesis
    by (auto simp: normalize_name_def safe_path_def filter_id_conv)
qed

lemma zip_entry_name_id: "safe_path s \<Longrightarrow> zip_entry_name s = s"
proof -
  assume s: "safe_path s"
  then have "filter (\<lambda>p. p \<noteq> [] \<and> p \<noteq> ''.'' \<and> p \<noteq> ''..'') (split_on CHR ''/'' s) = split_on CHR ''/'' s"
    by (simp add: safe_path_def list_all_iff)
  moreover have "s \<noteq> []"
    using s by (auto simp: safe_path_def)
  ultimately show ?thesis
    by (simp add: zip_entry_name_def normalize_safe [OF s] join_split_on)
qed

text \<open>The names the importer takes for drive letters.\<close>

definition drive_letter :: "string \<Rightarrow> bool" where
  "drive_letter s \<longleftrightarrow> length s \<ge> 2 \<and> is_ascii_alphabetic (s ! 0) \<and> s ! 1 = CHR '':''"

lemma split_on_hd: "split_on d (d # s) = [] # split_on d s"
  by simp

lemma no_traversal_safe: "safe_path s \<Longrightarrow> assert_no_traversal s = (if drive_letter s then Inl ZTraversal else Inr ())"
proof -
  assume s: "safe_path s"
  have "take 1 s \<noteq> ''/''"
  proof
    assume "take 1 s = ''/''"
    then obtain r where "s = CHR ''/'' # r"
      by (cases s) auto
    with s show False
      by (simp add: safe_path_def)
  qed
  moreover have "''..'' \<notin> set (split_on CHR ''/'' s)"
    using s by (auto simp: safe_path_def list_all_iff)
  ultimately show ?thesis
    by (auto simp: assert_no_traversal_def normalize_safe [OF s] drive_letter_def Let_def)
qed

lemma safe_path_last: "safe_path s \<Longrightarrow> \<not> (s \<noteq> [] \<and> last s = CHR ''/'')"
proof
  assume s: "safe_path s" and l: "s \<noteq> [] \<and> last s = CHR ''/''"
  then obtain r where "s = r @ [CHR ''/'']"
    by (metis append_butlast_last_id)
  moreover have "split_on d (r @ [d]) = split_on d r @ [[]]" for d and r :: string
    by (induction r) (auto split: list.splits)
  ultimately show False
    using s by (auto simp: safe_path_def list_all_iff)
qed

section \<open>Reading back what was written\<close>

text \<open>\<open>holds_at buf off xs\<close>: the bytes \<open>xs\<close> stand at offset \<open>off\<close> of the buffer.\<close>

definition holds_at :: "u8 list \<Rightarrow> nat \<Rightarrow> u8 list \<Rightarrow> bool" where
  "holds_at buf off xs \<longleftrightarrow> off + length xs \<le> length buf \<and> take (length xs) (drop off buf) = xs"

lemma holds_at_mid: "holds_at (pre @ xs @ post) (length pre) xs"
  by (simp add: holds_at_def)

lemma holds_at_append:
  "holds_at buf off (xs @ ys) \<longleftrightarrow> holds_at buf off xs \<and> holds_at buf (off + length xs) ys"
  by (auto simp: holds_at_def take_add add.assoc add.commute)

lemma holds_at_nth: "holds_at buf off xs \<Longrightarrow> k < length xs \<Longrightarrow> buf ! (off + k) = xs ! k"
  unfolding holds_at_def by (metis add_leD1 nth_drop nth_take)

lemma u16_at_holds: "holds_at buf off xs \<Longrightarrow> k + 2 \<le> length xs \<Longrightarrow> u16_at buf (off + k) = u16_at xs k"
  using holds_at_nth [of buf off xs k] holds_at_nth [of buf off xs "k + 1"]
  by (simp add: u16_at_def holds_at_def add.assoc)

lemma u32_at_holds: "holds_at buf off xs \<Longrightarrow> k + 4 \<le> length xs \<Longrightarrow> u32_at buf (off + k) = u32_at xs k"
  using holds_at_nth [of buf off xs k] holds_at_nth [of buf off xs "k + 1"]
    holds_at_nth [of buf off xs "k + 2"] holds_at_nth [of buf off xs "k + 3"]
  by (simp add: u32_at_def holds_at_def add.assoc)

lemma slice_holds: "holds_at buf a xs \<Longrightarrow> b = a + length xs \<Longrightarrow> slice buf a b = Inr xs"
  by (simp add: slice_def holds_at_def)

lemma le_fields:
  "from_le_bytes [ucast n, ucast (drop_bit 8 n), ucast (drop_bit 16 n), ucast (drop_bit 24 n)] = n"
  "from_le_bytes16 [ucast k, ucast (drop_bit 8 k)] = k"
  using from_to_le_bytes [of n] from_to_le_bytes16 [of k] by (simp_all add: to_le_bytes_def to_le_bytes16_def)

lemma le_zero: "from_le_bytes16 [0, 0] = 0"
  by (simp add: from_le_bytes16_def)

lemmas header_simps = le_zero u16_at_def u32_at_def to_le_bytes_def to_le_bytes16_def le_fields

lemma local_header_fields:
  "u32_at (local_header f c n k @ r) 0 = Inr LOCAL_SIG" "u16_at (local_header f c n k @ r) 6 = Inr f"
  "u16_at (local_header f c n k @ r) 8 = Inr 0" "u32_at (local_header f c n k @ r) 18 = Inr n"
  "u32_at (local_header f c n k @ r) 22 = Inr n" "u16_at (local_header f c n k @ r) 26 = Inr k"
  "u16_at (local_header f c n k @ r) 28 = Inr 0"
  by (simp_all add: local_header_def header_simps)

lemma length_local_header [simp]: "length (local_header f c n k) = 30"
  by (simp add: local_header_def)

definition central_header :: "central_entry \<Rightarrow> u8 list" where
  "central_header e = take 46 (central_bytes e)"

lemma central_fields:
  "u32_at (central_bytes e) 0 = Inr CENTRAL_SIG" "u16_at (central_bytes e) 10 = Inr 0"
  "u32_at (central_bytes e) 20 = Inr (ce_size e)" "u32_at (central_bytes e) 24 = Inr (ce_size e)"
  "u16_at (central_bytes e) 28 = Inr (of_nat (length (ce_name e)))" "u16_at (central_bytes e) 30 = Inr 0"
  "u16_at (central_bytes e) 32 = Inr 0" "u32_at (central_bytes e) 42 = Inr (ce_offset e)"
  by (simp_all add: central_bytes_def header_simps)

lemma central_bytes_split: "central_bytes e = central_header e @ ce_name e" "length (central_header e) = 46"
  by (simp_all add: central_header_def central_bytes_def)

lemma eocd_fields:
  "u32_at (eocd_bytes c n st) 0 = Inr EOCD_SIG" "u16_at (eocd_bytes c n st) 10 = Inr c"
  "u32_at (eocd_bytes c n st) 16 = Inr st" "length (eocd_bytes c n st) = 22"
  by (simp_all add: eocd_bytes_def header_simps)

text \<open>The bytes and the central record of an entry written in one piece.\<close>

definition entry_bytes :: "'c crc \<Rightarrow> string \<times> u8 list \<Rightarrow> u8 list" where
  "entry_bytes C e = (let name = as_bytes (zip_entry_name (fst e)) in
     local_header FLAG_UTF8 (crc32 C (snd e)) (of_nat (length (snd e))) (of_nat (length name)) @ name @ snd e)"

definition record_of :: "'c crc \<Rightarrow> nat \<Rightarrow> string \<times> u8 list \<Rightarrow> central_entry" where
  "record_of C off e = \<lparr>ce_flags = FLAG_UTF8, ce_name = as_bytes (zip_entry_name (fst e)),
     ce_crc = crc32 C (snd e), ce_size = of_nat (length (snd e)), ce_offset = of_nat off\<rparr>"

fun records :: "'c crc \<Rightarrow> nat \<Rightarrow> (string \<times> u8 list) list \<Rightarrow> central_entry list" where
  "records C off [] = []"
| "records C off (e # es) = record_of C off e # records C (off + length (entry_bytes C e)) es"

lemma whole_entry_Inr:
  assumes "whole_entry C n d z = Inr (out, z')"
  shows "zs_open z = None \<and> length (zip_entry_name n) < 2 ^ 16 \<and> out = entry_bytes C (n, d) \<and>
    zs_offset z + length out \<le> ZIP32_MAX \<and> length (zs_entries z) < MAX_ENTRIES \<and>
    z' = z\<lparr>zs_offset := zs_offset z + length out, zs_entries := zs_entries z @ [record_of C (zs_offset z) (n, d)]\<rparr>"
  using assms
  by (auto simp: whole_entry_def result_simps to_u32_def u16_try_from_def entry_bytes_def record_of_def Let_def
      split: if_splits)

text \<open>Writing entries one after the other and finishing the archive.\<close>

fun write_all :: "'c crc \<Rightarrow> (string \<times> u8 list) list \<Rightarrow> 'c zip_stream \<Rightarrow> zip_error + (u8 list \<times> 'c zip_stream)" where
  "write_all C [] z = Inr ([], z)"
| "write_all C (e # es) z =
     rbind (whole_entry C (fst e) (snd e) z) (\<lambda>(out, z).
     rbind (write_all C es z) (\<lambda>(rest, z). Inr (out @ rest, z)))"

definition export_archive :: "'c crc \<Rightarrow> (string \<times> u8 list) list \<Rightarrow> zip_error + u8 list" where
  "export_archive C es =
     rbind (write_all C es zip_stream_new) (\<lambda>(body, z). rbind (finish z) (\<lambda>dir. Inr (body @ dir)))"

lemma write_all_Inr:
  assumes "write_all C es z = Inr (body, z')" and "zs_open z = None" and "zs_offset z \<le> ZIP32_MAX"
  shows "body = concat (map (entry_bytes C) es) \<and> zs_open z' = None \<and> zs_offset z' = zs_offset z + length body \<and>
    zs_offset z' \<le> ZIP32_MAX \<and> zs_entries z' = zs_entries z @ records C (zs_offset z) es \<and>
    list_all (\<lambda>e. length (zip_entry_name (fst e)) < 2 ^ 16) es"
  using assms
proof (induction es arbitrary: z body)
  case (Cons e es)
  then obtain out z1 rest where w: "whole_entry C (fst e) (snd e) z = Inr (out, z1)"
    and r: "write_all C es z1 = Inr (rest, z')" and b: "body = out @ rest"
    by (auto simp: result_simps)
  from whole_entry_Inr [OF w] have z1: "zs_open z1 = None" "zs_offset z1 \<le> ZIP32_MAX"
    and out: "out = entry_bytes C e" "zs_offset z1 = zs_offset z + length out"
      "zs_entries z1 = zs_entries z @ [record_of C (zs_offset z) e]" "length (zip_entry_name (fst e)) < 2 ^ 16"
    by auto
  from Cons.IH [OF r z1] out b show ?case
    by auto
qed auto

lemma local_payload_written:
  assumes h: "holds_at buf off (entry_bytes C e)" and n: "length (zip_entry_name (fst e)) < 2 ^ 16"
    and d: "length (snd e) < ZIP32_MAX"
  shows "local_payload buf off (as_bytes (zip_entry_name (fst e))) 0 (of_nat (length (snd e))) (of_nat (length (snd e))) =
    Inr (snd e)"
proof -
  let ?n = "as_bytes (zip_entry_name (fst e))" and ?d = "snd e"
  let ?h = "local_header FLAG_UTF8 (crc32 C ?d) (of_nat (length ?d)) (of_nat (length ?n))"
  have split: "holds_at buf off (?h @ ?n @ ?d)"
    using h by (simp add: entry_bytes_def Let_def)
  then have nm: "holds_at buf (off + 30) ?n" and dt: "holds_at buf (off + 30 + length ?n) ?d"
    and len: "off + 30 \<le> length buf"
    by (simp_all add: holds_at_append) (simp add: holds_at_def)
  have lens: "unat (of_nat (length ?n) :: u16) = length ?n" "unat (of_nat (length ?d) :: u32) = length ?d"
    using n d by (simp_all add: unat_of_nat ZIP32_MAX_def)
  have mark: "of_nat (length ?d) \<noteq> ZIP64_MARK"
    using d lens(2) by (auto simp: ZIP64_MARK_def ZIP32_MAX_def)
  have flag: "FLAG_UTF8 AND FLAG_DATA_DESCRIPTOR = 0"
    by (simp add: FLAG_UTF8_def FLAG_DATA_DESCRIPTOR_def)
  note f16 = u16_at_holds [OF split] and f32 = u32_at_holds [OF split]
  have scan: "assert_no_zip64_extra [] = Inr ()"
    by (simp add: assert_no_zip64_extra_def zip64_scan.simps)
  have fields: "u32_at buf off = Inr LOCAL_SIG" "u16_at buf (off + 6) = Inr FLAG_UTF8" "u16_at buf (off + 8) = Inr 0"
    "u32_at buf (off + 18) = Inr (of_nat (length ?d))" "u32_at buf (off + 22) = Inr (of_nat (length ?d))"
    "u16_at buf (off + 26) = Inr (of_nat (length ?n))" "u16_at buf (off + 28) = Inr 0"
    using f32 [of 0] f16 [of 6] f16 [of 8] f32 [of 18] f32 [of 22] f16 [of 26] f16 [of 28]
    by (simp_all add: local_header_fields)
  have sl: "slice buf (off + 30 + length ?n) (off + 30 + length ?n) = Inr []"
    "slice buf (off + 30) (off + 30 + length ?n) = Inr ?n"
    "slice buf (off + 30 + length ?n) (off + 30 + length ?n + length ?d) = Inr ?d"
    using slice_holds [OF nm] slice_holds [OF dt] dt
    by (simp_all add: slice_def holds_at_def)
  show ?thesis
    using len mark flag fields sl lens scan
    by (simp add: local_payload_def LOCAL_SIZE_def assert_supported_def Let_def)
qed

definition imported :: "string \<times> u8 list \<Rightarrow> zip_entry" where
  "imported e = \<lparr>z_name = zip_entry_name (fst e), z_data = snd e\<rparr>"

text \<open>The entries the importer can take back: their names are strings and are not taken for
  drive letters.\<close>

definition importable :: "string \<times> u8 list \<Rightarrow> bool" where
  "importable e \<longleftrightarrow> str_ok (zip_entry_name (fst e)) \<and> \<not> drive_letter (zip_entry_name (fst e))"

lemma read_central_written:
  assumes c: "holds_at buf at (central_bytes (record_of C off e))" and l: "holds_at buf off (entry_bytes C e)"
    and n: "length (zip_entry_name (fst e)) < 2 ^ 16" and d: "length (snd e) < ZIP32_MAX" and off: "off \<le> ZIP32_MAX"
    and e: "importable e" and room: "total_so_far + length (snd e) \<le> max_total"
  shows "read_central inflate (\<lambda>_. True) buf max_total total_so_far at =
    Inr ([imported e], total_so_far + length (snd e), at + length (central_bytes (record_of C off e)))"
proof -
  let ?r = "record_of C off e"
  let ?name = "zip_entry_name (fst e)"
  let ?n = "as_bytes ?name" and ?d = "snd e"
  have r: "ce_name ?r = ?n" "ce_size ?r = of_nat (length ?d)" "ce_offset ?r = of_nat off"
    by (simp_all add: record_of_def)
  have lens: "unat (of_nat (length ?n) :: u16) = length ?n" "unat (of_nat (length ?d) :: u32) = length ?d"
    "unat (of_nat off :: u32) = off"
    using n d off by (simp_all add: unat_of_nat ZIP32_MAX_def)
  have mark: "of_nat (length ?d) \<noteq> ZIP64_MARK"
    using d lens(2) by (auto simp: ZIP64_MARK_def ZIP32_MAX_def)
  have len: "at + 46 \<le> length buf" and nm: "holds_at buf (at + 46) ?n"
    using c unfolding central_bytes_split(1) holds_at_append r central_bytes_split(2)
    by (auto simp: holds_at_def central_bytes_split(2))
  note f16 = u16_at_holds [OF c] and f32 = u32_at_holds [OF c]
  have size: "length (central_bytes ?r) = 46 + length ?n"
    by (simp add: central_bytes_split r)
  have fields: "u32_at buf at = Inr CENTRAL_SIG" "u16_at buf (at + 10) = Inr 0"
    "u32_at buf (at + 20) = Inr (of_nat (length ?d))" "u32_at buf (at + 24) = Inr (of_nat (length ?d))"
    "u16_at buf (at + 28) = Inr (of_nat (length ?n))" "u16_at buf (at + 30) = Inr 0"
    "u16_at buf (at + 32) = Inr 0" "u32_at buf (at + 42) = Inr (of_nat off)"
    using f32 [of 0] f16 [of 10] f32 [of 20] f32 [of 24] f16 [of 28] f16 [of 30] f16 [of 32] f32 [of 42] size
    by (simp_all add: central_fields r)
  have sl: "slice buf (at + 46) (at + 46 + length ?n) = Inr ?n"
    "slice buf (at + 46 + length ?n) (at + 46 + length ?n) = Inr []"
    using slice_holds [OF nm] nm by (simp_all add: slice_def holds_at_def)
  have scan: "assert_no_zip64_extra [] = Inr ()"
    by (simp add: assert_no_zip64_extra_def zip64_scan.simps)
  have safe: "safe_path ?name"
    by (rule zip_entry_name_safe)
  have name: "from_utf8_lossy ?n = ?name" "assert_no_traversal ?name = Inr ()" "zip_entry_name ?name = ?name"
    "\<not> (?name \<noteq> [] \<and> last ?name = CHR ''/'')"
    using e safe no_traversal_safe [OF safe] zip_entry_name_id [OF safe] safe_path_last [OF safe]
    by (simp_all add: importable_def)
  have room': "\<not> length ?d > max_total - total_so_far"
    using room by linarith
  show ?thesis
    using len mark fields sl lens scan name room' local_payload_written [OF l n d] size
    by (simp add: read_central_def CENTRAL_SIZE_def assert_supported_def Let_def imported_def)
qed

lemma read_directory_written:
  assumes "holds_at buf off (concat (map (entry_bytes C) es))"
    and "holds_at buf at (concat (map central_bytes (records C off es)))"
    and "off + length (concat (map (entry_bytes C) es)) \<le> ZIP32_MAX"
    and "list_all (\<lambda>e. length (zip_entry_name (fst e)) < 2 ^ 16 \<and> importable e) es"
    and "t + sum_list (map (\<lambda>e. length (snd e)) es) \<le> max_total"
  shows "read_directory inflate (\<lambda>_. True) buf max_total (length es) t at files = Inr (files @ map imported es)"
  using assms
proof (induction es arbitrary: off at t files)
  case (Cons e es)
  have d: "length (snd e) < ZIP32_MAX"
    using Cons.prems(3) by (simp add: entry_bytes_def Let_def)
  have "read_central inflate (\<lambda>_. True) buf max_total t at =
      Inr ([imported e], t + length (snd e), at + length (central_bytes (record_of C off e)))"
    using Cons.prems d by (intro read_central_written) (simp_all add: holds_at_append)
  moreover have "read_directory inflate (\<lambda>_. True) buf max_total (length es) (t + length (snd e))
      (at + length (central_bytes (record_of C off e))) (files @ [imported e]) = Inr ((files @ [imported e]) @ map imported es)"
    using Cons.prems by (intro Cons.IH [of "off + length (entry_bytes C e)"]) (simp_all add: holds_at_append add.assoc)
  ultimately show ?case
    by simp
qed simp

lemma find_eocd_last:
  assumes "u32_at buf (length buf - 22) = Inr EOCD_SIG"
  shows "find_eocd buf = Inr (length buf - 22)"
proof -
  have "find_eocd_from buf first n = Inr n" if "u32_at buf n = Inr EOCD_SIG" "first \<le> n" for first n
    using that by (cases n) auto
  with assms show ?thesis
    by (simp add: find_eocd_def EOCD_SIZE_def Let_def)
qed

lemma length_records [simp]: "length (records C off es) = length es"
  by (induction es arbitrary: off) auto

lemma unzip_exported:
  assumes x: "export_archive C es = Inr buf" and es: "list_all importable es" "length es \<le> ZIP_MAX_ENTRIES"
    and room: "sum_list (map (\<lambda>e. length (snd e)) es) \<le> max_total"
  shows "unzip_bounded_with_limit inflate buf max_total = Inr (map imported es)"
proof -
  from x obtain body z dir where w: "write_all C es zip_stream_new = Inr (body, z)" and f: "finish z = Inr dir"
    and buf: "buf = body @ dir"
    by (auto simp: export_archive_def result_simps)
  from write_all_Inr [OF w] have body: "body = concat (map (entry_bytes C) es)" "zs_entries z = records C 0 es"
    "zs_offset z = length body" "length body \<le> ZIP32_MAX"
    "list_all (\<lambda>e. length (zip_entry_name (fst e)) < 2 ^ 16) es"
    by (auto simp: zip_stream_new_def ZIP32_MAX_def)
  let ?cd = "concat (map central_bytes (records C 0 es))"
  let ?eocd = "eocd_bytes (of_nat (length es)) (of_nat (length ?cd)) (of_nat (length body))"
  from f body have dir: "dir = ?cd @ ?eocd" and small: "length body + length ?cd \<le> ZIP32_MAX"
    by (auto simp: finish_def result_simps to_u32_def Let_def ZIP32_MAX_def unat_of_nat split: if_splits)
  have len: "length buf - 22 = length (body @ ?cd)"
    by (simp add: buf dir eocd_fields)
  have "holds_at buf (length (body @ ?cd)) ?eocd"
    using holds_at_mid [of "body @ ?cd" ?eocd "[]"] by (simp add: buf dir)
  note f16 = u16_at_holds [OF this] and f32 = u32_at_holds [OF this]
  have fields: "u32_at buf (length (body @ ?cd)) = Inr EOCD_SIG"
    "u16_at buf (length (body @ ?cd) + 10) = Inr (of_nat (length es))"
    "u32_at buf (length (body @ ?cd) + 16) = Inr (of_nat (length body))"
    using f32 [of 0] f16 [of 10] f32 [of 16] by (simp_all add: eocd_fields)
  have lens: "unat (of_nat (length es) :: u16) = length es" "unat (of_nat (length body) :: u32) = length body"
    using es(2) body(4) by (simp_all add: unat_of_nat ZIP_MAX_ENTRIES_def ZIP32_MAX_def)
  have short: "length body < ZIP32_MAX"
  proof (cases es)
    case Nil
    then show ?thesis
      by (simp add: body(1) ZIP32_MAX_def)
  next
    case (Cons e es')
    then have "length ?cd \<ge> 46"
      by (simp add: central_bytes_split)
    with small show ?thesis
      by linarith
  qed
  have marks: "(of_nat (length es) :: u16) \<noteq> 0xffff" "of_nat (length body) \<noteq> ZIP64_MARK"
    using lens es(2) short by (auto simp: ZIP64_MARK_def ZIP32_MAX_def ZIP_MAX_ENTRIES_def)
  have "read_directory inflate (\<lambda>_. True) buf max_total (length es) 0 (length body) [] = Inr ([] @ map imported es)"
  proof (rule read_directory_written [where off = 0 and C = C])
    show "holds_at buf 0 (concat (map (entry_bytes C) es))"
      using holds_at_mid [of "[]" body dir] by (simp add: buf body(1))
    show "holds_at buf (length body) ?cd"
      using holds_at_mid [of body ?cd ?eocd] by (simp add: buf dir)
  qed (use body es room in \<open>auto simp: list_all_iff\<close>)
  moreover have "\<not> length buf < EOCD_SIZE"
    by (simp add: buf dir eocd_fields EOCD_SIZE_def)
  moreover have "buf \<noteq> []"
    using calculation by (auto simp: EOCD_SIZE_def)
  ultimately show ?thesis
    using fields lens marks es(2) find_eocd_last [of buf] len
    by (simp add: unzip_bounded_with_limit_def unzip_bounded_select_def)
qed

section \<open>What the reader accepts\<close>

lemma inflate_bounded_Inr: "inflate_bounded inflate payload limit = Inr out \<Longrightarrow> length out \<le> limit"
  by (auto simp: inflate_bounded_def split: option.splits if_splits)

lemma read_central_Inr:
  assumes "read_central inflate select buf max_total t at = Inr (new, t', at')" and "t \<le> max_total"
  shows "t' = t + sum_list (map (\<lambda>e. length (z_data e)) new) \<and> t' \<le> max_total \<and> length new \<le> 1 \<and>
    list_all (\<lambda>e. safe_path (z_name e) \<and> select (z_name e)) new"
  using assms inflate_bounded_Inr [of inflate]
  by (fastforce simp: read_central_def result_simps Let_def zip_entry_name_safe split: if_splits)

lemma read_directory_Inr:
  assumes "read_directory inflate select buf max_total n t at files = Inr out" and "t \<le> max_total"
  shows "\<exists>new. out = files @ new \<and> length new \<le> n \<and> t + sum_list (map (\<lambda>e. length (z_data e)) new) \<le> max_total \<and>
    list_all (\<lambda>e. safe_path (z_name e) \<and> select (z_name e)) new"
  using assms
proof (induction n arbitrary: t at files)
  case (Suc n)
  then obtain new t' at' where c: "read_central inflate select buf max_total t at = Inr (new, t', at')"
    and r: "read_directory inflate select buf max_total n t' at' (files @ new) = Inr out"
    by (auto simp: result_simps)
  note rc = read_central_Inr [OF c Suc.prems(2)]
  with Suc.IH [OF r] obtain rest where "out = (files @ new) @ rest" "length rest \<le> n"
    "t' + sum_list (map (\<lambda>e. length (z_data e)) rest) \<le> max_total"
    "list_all (\<lambda>e. safe_path (z_name e) \<and> select (z_name e)) rest"
    by blast
  with rc show ?case
    by (intro exI [of _ "new @ rest"]) auto
qed auto

section \<open>The writer as a state machine\<close>

text \<open>The bytes the caller has forwarded and the writer's state, after any sequence of
  successful operations: an export gives the stream up at the first error.\<close>

inductive zip_reach :: "'c crc \<Rightarrow> u8 list \<Rightarrow> 'c zip_stream \<Rightarrow> bool" for C where
  start: "zip_reach C [] zip_stream_new"
| begun: "zip_reach C out z \<Longrightarrow> begin_entry C name z = Inr (chunk, z') \<Longrightarrow> zip_reach C (out @ chunk) z'"
| data: "zip_reach C out z \<Longrightarrow> entry_data C data z = (Inr (), z') \<Longrightarrow> zip_reach C (out @ data) z'"
| ended: "zip_reach C out z \<Longrightarrow> end_entry C z = (Inr chunk, z') \<Longrightarrow> zip_reach C (out @ chunk) z'"
| whole: "zip_reach C out z \<Longrightarrow> whole_entry C name data z = Inr (chunk, z') \<Longrightarrow> zip_reach C (out @ chunk) z'"

text \<open>The documented behaviour of a streaming checksum: feeding two pieces is feeding their
  concatenation.\<close>

definition crc_streams :: "'c crc \<Rightarrow> bool" where
  "crc_streams C \<longleftrightarrow> (\<forall>c. crc_update C c [] = c) \<and>
     (\<forall>c a b. crc_update C (crc_update C c a) b = crc_update C c (a @ b))"

definition streamed_header :: "u8 list \<Rightarrow> u8 list" where
  "streamed_header name = local_header FLAGS 0 0 (of_nat (length name)) @ name"

definition descriptor :: "u32 \<Rightarrow> u32 \<Rightarrow> u8 list" where
  "descriptor crc sz = put_u32 DESCRIPTOR_SIG @ put_u32 crc @ put_u32 sz @ put_u32 sz"

text \<open>What stands in the archive for a central record whose entry has the given data.\<close>

definition entry_image :: "central_entry \<Rightarrow> u8 list \<Rightarrow> u8 list" where
  "entry_image e data =
     (if ce_flags e = FLAG_UTF8
      then local_header FLAG_UTF8 (ce_crc e) (ce_size e) (of_nat (length (ce_name e))) @ ce_name e @ data
      else streamed_header (ce_name e) @ data @ descriptor (ce_crc e) (ce_size e))"

definition recorded :: "'c crc \<Rightarrow> u8 list \<Rightarrow> central_entry \<Rightarrow> bool" where
  "recorded C out e \<longleftrightarrow> (\<exists>data. holds_at out (unat (ce_offset e)) (entry_image e data) \<and>
     ce_crc e = crc32 C data \<and> unat (ce_size e) = length data \<and> length (ce_name e) < 2 ^ 16)"

definition open_ok :: "'c crc \<Rightarrow> u8 list \<Rightarrow> 'c open_entry \<Rightarrow> bool" where
  "open_ok C out op \<longleftrightarrow> (\<exists>pre data. out = pre @ streamed_header (oe_name op) @ data \<and> length pre = oe_offset op \<and>
     oe_crc op = crc_update C (crc_new C) data \<and> oe_size op = length data \<and> length (oe_name op) < 2 ^ 16)"

definition writer_inv :: "'c crc \<Rightarrow> u8 list \<Rightarrow> 'c zip_stream \<Rightarrow> bool" where
  "writer_inv C out z \<longleftrightarrow> zs_offset z = length out \<and>
     length (zs_entries z) + (case zs_open z of None \<Rightarrow> 0 | Some _ \<Rightarrow> 1) \<le> MAX_ENTRIES \<and>
     list_all (recorded C out) (zs_entries z) \<and> pred_option (open_ok C out) (zs_open z)"

lemma holds_at_mono: "holds_at out off xs \<Longrightarrow> holds_at (out @ ys) off xs"
  by (auto simp: holds_at_def)

lemma recorded_mono: "list_all (recorded C out) es \<Longrightarrow> list_all (recorded C (out @ ys)) es"
  by (auto simp: recorded_def list_all_iff intro: holds_at_mono)

lemma unat_to_u32: "to_u32 n = Inr w \<Longrightarrow> unat w = n \<and> w = of_nat n"
  by (auto simp: to_u32_def ZIP32_MAX_def unat_of_nat split: if_splits)

lemma begin_entry_inv:
  "writer_inv C out z \<Longrightarrow> crc_streams C \<Longrightarrow> begin_entry C name z = Inr (chunk, z') \<Longrightarrow> writer_inv C (out @ chunk) z'"
  by (auto simp: begin_entry_def writer_inv_def result_simps Let_def u16_try_from_def open_ok_def streamed_header_def
      crc_streams_def split: if_splits intro!: recorded_mono)

lemma entry_data_inv:
  assumes "writer_inv C out z" and "crc_streams C" and "entry_data C data z = (Inr (), z')"
  shows "writer_inv C (out @ data) z'"
proof -
  from assms(3) obtain op where op: "zs_open z = Some op"
    and z': "z' = z\<lparr>zs_open := Some (op\<lparr>oe_crc := crc_update C (oe_crc op) data, oe_size := oe_size op + length data\<rparr>),
      zs_offset := zs_offset z + length data\<rparr>"
    by (auto simp: entry_data_def Let_def split: option.splits sum.splits)
  from assms(1) op obtain pre d where "out = pre @ streamed_header (oe_name op) @ d" "length pre = oe_offset op"
    "oe_crc op = crc_update C (crc_new C) d" "oe_size op = length d" "length (oe_name op) < 2 ^ 16"
    by (auto simp: writer_inv_def open_ok_def)
  then have "open_ok C (out @ data) (op\<lparr>oe_crc := crc_update C (oe_crc op) data, oe_size := oe_size op + length data\<rparr>)"
    unfolding open_ok_def using assms(2) by (intro exI [of _ pre] exI [of _ "d @ data"]) (simp add: crc_streams_def)
  with assms(1) op show ?thesis
    by (simp add: z' writer_inv_def recorded_mono)
qed

lemma end_entry_inv:
  assumes "writer_inv C out z" and "end_entry C z = (Inr chunk, z')"
  shows "writer_inv C (out @ chunk) z'"
proof -
  from assms(2) obtain op sz off where op: "zs_open z = Some op" and sz: "to_u32 (oe_size op) = Inr sz"
    and off: "to_u32 (oe_offset op) = Inr off" and chunk: "chunk = descriptor (crc_sum C (oe_crc op)) sz"
    and z': "z' = z\<lparr>zs_open := None, zs_entries := zs_entries z @ [\<lparr>ce_flags = FLAGS, ce_name = oe_name op,
        ce_crc = crc_sum C (oe_crc op), ce_size = sz, ce_offset = off\<rparr>], zs_offset := zs_offset z + length chunk\<rparr>"
    by (auto simp: end_entry_def Let_def descriptor_def split: option.splits sum.splits)
  from assms(1) op obtain pre d where o: "out = pre @ streamed_header (oe_name op) @ d" "length pre = oe_offset op"
    "oe_crc op = crc_update C (crc_new C) d" "oe_size op = length d" "length (oe_name op) < 2 ^ 16"
    by (auto simp: writer_inv_def open_ok_def)
  have "FLAGS \<noteq> FLAG_UTF8"
    by (simp add: FLAGS_def FLAG_UTF8_def)
  then have "recorded C (out @ chunk) \<lparr>ce_flags = FLAGS, ce_name = oe_name op,
        ce_crc = crc_sum C (oe_crc op), ce_size = sz, ce_offset = off\<rparr>"
    unfolding recorded_def entry_image_def using o chunk conjunct1 [OF unat_to_u32 [OF sz]] conjunct1 [OF unat_to_u32 [OF off]]
      holds_at_mid [of pre "streamed_header (oe_name op) @ d @ chunk" "[]"]
    by (intro exI [of _ d]) (simp add: crc32_def)
  with assms(1) op show ?thesis
    by (simp add: z' writer_inv_def recorded_mono)
qed

lemma whole_entry_inv:
  assumes "writer_inv C out z" and "whole_entry C name data z = Inr (chunk, z')"
  shows "writer_inv C (out @ chunk) z'"
proof -
  note w = whole_entry_Inr [OF assms(2)]
  have "length data \<le> ZIP32_MAX"
    using w by (auto simp: entry_bytes_def Let_def)
  then have "recorded C (out @ chunk) (record_of C (zs_offset z) (name, data))"
    using w assms(1) holds_at_mid [of out chunk "[]"]
    by (auto simp: recorded_def entry_image_def record_of_def entry_bytes_def Let_def writer_inv_def unat_of_nat
        ZIP32_MAX_def intro!: exI [of _ data])
  with w assms(1) show ?thesis
    by (auto simp: writer_inv_def recorded_mono)
qed

lemma zip_reach_inv: "zip_reach C out z \<Longrightarrow> crc_streams C \<Longrightarrow> writer_inv C out z"
proof (induction rule: zip_reach.induct)
  case start
  show ?case
    by (simp add: writer_inv_def zip_stream_new_def)
qed (auto intro: begin_entry_inv entry_data_inv end_entry_inv whole_entry_inv)

lemma set_split_once: "split_once d s = Some (a, b) \<Longrightarrow> set a \<subseteq> set s \<and> set b \<subseteq> set s"
  by (induction s arbitrary: a) (auto split: if_splits)

lemma set_rsplit_once: "rsplit_once d s = Some (a, b) \<Longrightarrow> set a \<subseteq> set s"
  using set_split_once [of d "rev s"] by (fastforce simp: rsplit_once_def)

text \<open>A file name in the narrow sense: one path segment that names something.\<close>

definition plain_name :: "string \<Rightarrow> bool" where
  "plain_name s \<longleftrightarrow> s \<noteq> [] \<and> CHR ''/'' \<notin> set s \<and> CHR 0x5C \<notin> set s \<and> CHR 0x00 \<notin> set s"

lemma plain_name_subset: "plain_name s \<Longrightarrow> set t \<subseteq> set s \<Longrightarrow> t \<noteq> [] \<Longrightarrow> plain_name t"
  by (auto simp: plain_name_def)

lemma zip_safe_name_plain: "plain_name (zip_safe_name raw)" "zip_safe_name raw \<noteq> ''.''" "zip_safe_name raw \<noteq> ''..''"
proof -
  let ?e = "zip_entry_name raw"
  let ?l = "last (split_on CHR ''/'' ?e)"
  have "?l \<in> set (split_on CHR ''/'' ?e)"
    by simp
  from split_on_no_sep_parts [OF this] have "CHR ''/'' \<notin> set ?l" "set ?l \<subseteq> set ?e"
    by auto
  moreover have "CHR 0x00 \<notin> set ?e" "CHR 0x5C \<notin> set ?e"
    using zip_entry_name_safe [of raw] by (auto simp: safe_path_def)
  ultimately have l: "CHR ''/'' \<notin> set ?l \<and> CHR 0x00 \<notin> set ?l \<and> CHR 0x5C \<notin> set ?l"
    by blast
  have "set (trim (filter (\<lambda>c. c \<noteq> CHR 0x00) ?l)) \<subseteq> set ?l"
    using set_trim [of "filter (\<lambda>c. c \<noteq> CHR 0x00) ?l"] by auto
  with l show "plain_name (zip_safe_name raw)" "zip_safe_name raw \<noteq> ''.''" "zip_safe_name raw \<noteq> ''..''"
    by (auto simp: zip_safe_name_def plain_name_def Let_def)
qed

lemma title_plain: "plain_name (title_from_file_name name)"
proof -
  define stem where "stem = (case rsplit_once CHR ''.'' (zip_safe_name name) of
      Some (before, ext) \<Rightarrow> if 1 \<le> char_count ext \<and> char_count ext \<le> 12 then before else zip_safe_name name
    | None \<Rightarrow> zip_safe_name name)"
  have "set stem \<subseteq> set (zip_safe_name name)"
    using set_rsplit_once [of "CHR ''.''" "zip_safe_name name"] by (auto simp: stem_def split: option.splits)
  with set_trim [of stem] plain_name_subset [OF zip_safe_name_plain(1) [of name]]
  have "trim stem \<noteq> [] \<Longrightarrow> plain_name (trim stem)"
    by blast
  moreover have "plain_name ''untitled''"
    by (simp add: plain_name_def)
  ultimately show ?thesis
    by (simp add: title_from_file_name_def stem_def Let_def)
qed

section \<open>Properties\<close>

text \<open>C24: Export and import agree: an archive written with \<open>whole_entry\<close> for each file and
  closed with \<open>finish\<close> is read back by \<open>unzip_bounded_with_limit\<close> to exactly the written
  files, in order, under their normalized names and with their bytes, whatever the inflater and the
  checksum, as long as there are at most 10,000 files, their bytes are within the importer's budget, and every
  normalized name is UTF-8 and does not look like a drive letter.\<close>

theorem zip_round_trip:
  assumes "export_archive C es = Inr buf" and "list_all importable es" and "length es \<le> ZIP_MAX_ENTRIES"
    and "sum_list (map (\<lambda>e. length (snd e)) es) \<le> max_total"
  shows "unzip_bounded_with_limit inflate buf max_total = Inr (map imported es)"
  by (rule unzip_exported [OF assms])

text \<open>A checksum to instantiate the parameter with: the sum of the bytes.\<close>

definition sum_crc :: "u32 crc" where
  "sum_crc = \<lparr>crc_new = 0, crc_update = (\<lambda>c bs. c + sum_list (map ucast bs)), crc_sum = id\<rparr>"

theorem zip_round_trip_witness:
  "\<exists>buf. export_archive sum_crc [(''a/b.md'', [1, 2, 3]), (''x'', [])] = Inr buf \<and>
     unzip_bounded_with_limit (\<lambda>_ _. None) buf 10 = Inr [\<lparr>z_name = ''a/b.md'', z_data = [1, 2, 3]\<rparr>, \<lparr>z_name = ''x'', z_data = []\<rparr>]"
proof -
  have "\<not> isl (export_archive sum_crc [(''a/b.md'', [1, 2, 3]), (''x'', [])])"
    by code_simp
  then obtain buf where "export_archive sum_crc [(''a/b.md'', [1, 2, 3]), (''x'', [])] = Inr buf"
    by (metis sum.disc(1) sum.exhaust)
  moreover have "list_all importable [(''a/b.md'', [1, 2, 3]), (''x'', [])]"
    "map imported [(''a/b.md'', [1, 2, 3]), (''x'', [])] =
      [\<lparr>z_name = ''a/b.md'', z_data = [1, 2, 3]\<rparr>, \<lparr>z_name = ''x'', z_data = []\<rparr>]"
    by code_simp+
  ultimately show ?thesis
    using zip_round_trip [of sum_crc "[(''a/b.md'', [1, 2, 3]), (''x'', [])]" buf 10 "\<lambda>_ _. None"]
    by (auto simp: ZIP_MAX_ENTRIES_def)
qed

text \<open>C25: Whatever bytes are uploaded and whatever the inflater returns, an accepted archive
  yields at most 10,000 entries, at most \<open>max_total\<close> bytes in all, and only selected names that
  are safe relative paths: no NUL, backslash, empty, dot or dot-dot segment.\<close>

theorem unzip_select_bounded:
  assumes "unzip_bounded_select inflate buf max_total select = Inr files"
  shows "length files \<le> ZIP_MAX_ENTRIES \<and> sum_list (map (\<lambda>e. length (z_data e)) files) \<le> max_total \<and>
    list_all (\<lambda>e. safe_path (z_name e) \<and> select (z_name e)) files"
  using assms by (fastforce simp: unzip_bounded_select_def result_simps dest!: read_directory_Inr split: if_splits)

theorem unzip_select_bounded_witness:
  "\<exists>buf files. unzip_bounded_select (\<lambda>_ _. None) buf 5 (\<lambda>_. True) = Inr files \<and>
     files = [\<lparr>z_name = ''a'', z_data = [1, 2]\<rparr>, \<lparr>z_name = ''b'', z_data = [7, 7, 7]\<rparr>] \<and>
     sum_list (map (\<lambda>e. length (z_data e)) files) \<le> 5"
proof -
  let ?es = "[(''a'', [1, 2]), (''b'', [7, 7, 7])]"
  have "\<not> isl (export_archive sum_crc ?es)"
    by code_simp
  then obtain buf where "export_archive sum_crc ?es = Inr buf"
    by (metis sum.disc(1) sum.exhaust)
  moreover have "list_all importable ?es"
    "map imported ?es = [\<lparr>z_name = ''a'', z_data = [1, 2]\<rparr>, \<lparr>z_name = ''b'', z_data = [7, 7, 7]\<rparr>]"
    by code_simp+
  ultimately have "unzip_bounded_select (\<lambda>_ _. None) buf 5 (\<lambda>_. True) =
      Inr [\<lparr>z_name = ''a'', z_data = [1, 2]\<rparr>, \<lparr>z_name = ''b'', z_data = [7, 7, 7]\<rparr>]"
    using unzip_exported [of sum_crc ?es buf 5 "\<lambda>_ _. None"]
    by (auto simp: ZIP_MAX_ENTRIES_def unzip_bounded_with_limit_def)
  with unzip_select_bounded [OF this] show ?thesis
    by blast
qed

text \<open>C27: Names are made safe once and for all: a normalized entry name is a safe relative
  path, normalizing it again changes nothing, safe relative paths are left as they are, and a file name
  or a title derived from an upload is one non-empty path segment.\<close>

theorem zip_names_safe:
  "safe_path (zip_entry_name raw) \<and> zip_entry_name (zip_entry_name raw) = zip_entry_name raw \<and>
   (zip_entry_name raw = raw \<longleftrightarrow> safe_path raw) \<and>
   plain_name (zip_safe_name raw) \<and> zip_safe_name raw \<notin> {''.'', ''..''} \<and> plain_name (title_from_file_name raw)"
  using zip_entry_name_safe [of raw] zip_entry_name_id [of raw] zip_entry_name_id [of "zip_entry_name raw"]
    zip_safe_name_plain [of raw] title_plain [of raw]
  by auto

text \<open>C26: After any sequence of successful writer calls, streamed entries included, the writer's
  offset is the number of bytes handed out, at most 65,535 entries are recorded, and every central record
  points at the bytes of its entry: a local header with its name, its data, and (in the header or in
  the descriptor) the checksum and the length of that data.\<close>

theorem zip_writer_consistent:
  assumes "zip_reach C out z" and "crc_streams C"
  shows "zs_offset z = length out \<and> length (zs_entries z) \<le> MAX_ENTRIES \<and>
    list_all (recorded C out) (zs_entries z)"
  using zip_reach_inv [OF assms] by (auto simp: writer_inv_def split: option.splits)

theorem zip_writer_consistent_witness:
  "\<exists>out z. zip_reach sum_crc out z \<and> length (zs_entries z) = 1 \<and> zs_offset z = length out \<and>
     list_all (recorded sum_crc out) (zs_entries z)"
proof -
  obtain c1 z1 where b: "begin_entry sum_crc ''a'' zip_stream_new = Inr (c1, z1)" and z1: "z1 =
      \<lparr>zs_offset = 31, zs_entries = [], zs_open = Some \<lparr>oe_name = as_bytes ''a'', oe_offset = 0, oe_crc = 0, oe_size = 0\<rparr>\<rparr>"
    by (simp add: begin_entry_def zip_stream_new_def MAX_ENTRIES_def u16_try_from_def to_u32_def zip_entry_name_def
        normalize_name_def sum_crc_def Let_def)
  obtain z2 where d: "entry_data sum_crc [5] z1 = (Inr (), z2)" and z2: "zs_open z2 \<noteq> None" "zs_entries z2 = []"
      "pred_option (\<lambda>op. oe_offset op = 0 \<and> oe_size op = 1) (zs_open z2)"
    by (auto simp: entry_data_def z1 to_u32_def ZIP32_MAX_def Let_def)
  obtain c3 z3 where e: "end_entry sum_crc z2 = (Inr c3, z3)" and z3: "length (zs_entries z3) = 1"
    using z2 by (auto simp: end_entry_def to_u32_def ZIP32_MAX_def Let_def)
  have r: "zip_reach sum_crc ((([] @ c1) @ [5]) @ c3) z3"
    by (rule zip_reach.ended [OF zip_reach.data [OF zip_reach.begun [OF zip_reach.start b] d] e])
  have "crc_streams sum_crc"
    by (simp add: crc_streams_def sum_crc_def add.assoc)
  from zip_writer_consistent [OF r this] r z3 show ?thesis
    by blast
qed

end
