(* ===== verification/ViewQuery.thy ===== *)
theory ViewQuery
  imports Json
begin

text \<open>
  Task list queries and saved views (\<open>src/tasks/list_query.rs\<close>, with the date parsers of
  \<open>src/tasks.rs\<close>): the strict JSON contract of a view query, its canonical JSON, the cursor of
  a page and the fingerprint that binds a cursor to its query. What the code takes from the crates
  \<open>serde_json\<close>, \<open>uuid\<close>, \<open>chrono\<close>, \<open>base64\<close>, \<open>regex\<close>,
  \<open>sha2\<close> and \<open>hex\<close> is one record of functions; the laws their documentation gives
  are the predicate \<open>crates_ok\<close>.
\<close>

section \<open>What comes from the crates\<close>

record ('n, 'f, 'd, 't) crates =
  num_as_i64 :: "'n \<Rightarrow> int option"
  num_as_f64 :: "'n \<Rightarrow> 'f option"
  num_from_f64 :: "'f \<Rightarrow> 'n option"
  f64_is_finite :: "'f \<Rightarrow> bool"
  uuid_parse_str :: "string \<Rightarrow> uuid option"
  uuid_to_string :: "uuid \<Rightarrow> string"
  date_parse_from_str :: "string \<Rightarrow> 'd option"
  date_to_string :: "'d \<Rightarrow> string"
  date_of :: "'t \<Rightarrow> 'd"
  parse_from_rfc3339 :: "string \<Rightarrow> 't option"
  to_rfc3339 :: "'t \<Rightarrow> string"
  iso_datetime_re :: "string \<Rightarrow> bool"
  json_from_slice :: "u8 list \<Rightarrow> 'n json option"
  json_to_string :: "'n json \<Rightarrow> string"
  b64_url_encode :: "u8 list \<Rightarrow> string"
  b64_url_decode :: "string \<Rightarrow> u8 list option"
  sha256 :: "u8 list \<Rightarrow> u8 list"
  hex_encode :: "u8 list \<Rightarrow> string"

section \<open>Dates\<close>

definition date_shape :: "string \<Rightarrow> bool" where
  "date_shape s \<longleftrightarrow> length s = 10 \<and> s ! 4 = CHR ''-'' \<and> s ! 7 = CHR ''-'' \<and>
     list_all (\<lambda>(i, b). i = 4 \<or> i = 7 \<or> is_ascii_digit b) (enumerate 0 s)"

definition parse_iso_date :: "('n, 'f, 'd, 't) crates \<Rightarrow> string \<Rightarrow> 'd option" where
  "parse_iso_date E s =
     (if \<not> date_shape s then None
      else if take 4 s = ''0000'' then None
      else date_parse_from_str E s)"

definition parse_iso_datetime :: "('n, 'f, 'd, 't) crates \<Rightarrow> string \<Rightarrow> 't option" where
  "parse_iso_datetime E s =
     (if \<not> iso_datetime_re E s \<or> take 4 s = ''0000'' then None
      else parse_from_rfc3339 E (if length s = 17 then take 16 s @ '':00Z'' else s))"

text \<open>The laws: what the crates document of the functions used here. A date of the checked shape
  is displayed as it was written; numbers made from finite floats give them back; hyphenated UUIDs,
  RFC 3339 instants, printed objects of strings and unpadded base64 read back.\<close>

definition string_object :: "'n json_map \<Rightarrow> bool" where
  "string_object m \<longleftrightarrow> bt_ok m \<and> list_all (\<lambda>e. str_ok (fst e) \<and> (case snd e of JString s \<Rightarrow> str_ok s | _ \<Rightarrow> False)) m"

definition crates_ok :: "('n, 'f, 'd, 't) crates \<Rightarrow> bool" where
  "crates_ok E \<longleftrightarrow>
     (\<forall>u. uuid_parse_str E (uuid_to_string E u) = Some u \<and> length (uuid_to_string E u) = 36 \<and>
       str_ok (uuid_to_string E u)) \<and>
     (\<forall>s d. date_shape s \<longrightarrow> date_parse_from_str E s = Some d \<longrightarrow> date_to_string E d = s) \<and>
     (\<forall>x. f64_is_finite E x \<longrightarrow> (\<exists>n. num_from_f64 E x = Some n \<and> num_as_f64 E n = Some x)) \<and>
     (\<forall>t. parse_from_rfc3339 E (to_rfc3339 E t) = Some t \<and> str_ok (to_rfc3339 E t)) \<and>
     (\<forall>m. string_object m \<longrightarrow> json_from_slice E (as_bytes (json_to_string E (JObject m))) = Some (JObject m)) \<and>
     (\<forall>b. b64_url_decode E (b64_url_encode E b) = Some b)"

section \<open>The data\<close>

definition QUERY_JSON_MAX :: nat where "QUERY_JSON_MAX = 16000"
definition TITLE_MAX :: nat where "TITLE_MAX = 1000"
definition CURSOR_MAX :: nat where "CURSOR_MAX = 1024"
definition TASK_TYPES :: "string list" where "TASK_TYPES = [''task'', ''bug'', ''story'', ''epic'', ''subtask'']"
definition PRIORITIES :: "string list" where "PRIORITIES = [''none'', ''low'', ''medium'', ''high'', ''urgent'']"
definition CUSTOM_FILTERS_MAX :: nat where "CUSTOM_FILTERS_MAX = 25"
definition SORT_MAX :: nat where "SORT_MAX = 3"

datatype 'f custom_value = CText string | CNumber 'f | CBool bool
datatype 'f custom_operator = CEmpty | CEquals "'f custom_value"

record 'f custom_filter =
  cf_field_id :: uuid
  cf_operator :: "'f custom_operator"

datatype assignee_filter = Me | AUser uuid

datatype sort_field = SPriority | SDue | SUpdated | SCreated | SRank | STitle | SStatus | SNumber | SField uuid
datatype sort_direction = Asc | Desc

record view_sort =
  vs_field :: sort_field
  vs_direction :: sort_direction

record ('f, 'd) view_filters =
  f_task_type :: "string option"
  f_status_id :: "uuid option"
  f_priority :: "string option"
  f_open_only :: bool
  f_title :: "string option"
  f_assignee_id :: "assignee_filter option"
  f_label_id :: "uuid option"
  f_milestone_id :: "uuid option"
  f_due_before :: "'d option"
  f_custom :: "'f custom_filter list"

definition view_filters_default :: "('f, 'd) view_filters" where
  "view_filters_default = \<lparr>f_task_type = None, f_status_id = None, f_priority = None, f_open_only = False,
     f_title = None, f_assignee_id = None, f_label_id = None, f_milestone_id = None, f_due_before = None, f_custom = []\<rparr>"

record ('f, 'd) view_query =
  q_filters :: "('f, 'd) view_filters"
  q_sort :: "view_sort list"

definition view_query_default :: "('f, 'd) view_query" where
  "view_query_default = \<lparr>q_filters = view_filters_default, q_sort = []\<rparr>"

record 't task_list_cursor =
  c_id :: uuid
  c_key_hash :: string
  c_f :: string
  c_as_of :: 't

datatype task_list_query_error = InvalidInput | InvalidCursor

section \<open>Parsing\<close>

definition reject_unknown_keys :: "'n json_map \<Rightarrow> string list \<Rightarrow> task_list_query_error + unit" where
  "reject_unknown_keys m allowed = (if list_all (\<lambda>e. fst e \<in> set allowed) m then Inr () else Inl InvalidInput)"

text \<open>An optional field of an object: \<open>match object.get(key) { None => None, Some(v) => Some(p(v)?) }\<close>.\<close>

definition opt_field :: "'n json_map \<Rightarrow> string \<Rightarrow> ('n json \<Rightarrow> 'e + 'a) \<Rightarrow> 'e + 'a option" where
  "opt_field m k p = (case map_of m k of None \<Rightarrow> Inr None | Some v \<Rightarrow> rbind (p v) (\<lambda>a. Inr (Some a)))"

text \<open>Parsing every element of an array, stopping at the first error.\<close>

fun parse_each :: "('a \<Rightarrow> 'e + 'b) \<Rightarrow> 'a list \<Rightarrow> 'e + 'b list" where
  "parse_each p [] = Inr []"
| "parse_each p (x # xs) = rbind (p x) (\<lambda>y. rbind (parse_each p xs) (\<lambda>ys. Inr (y # ys)))"

definition parse_task_type :: "'n json \<Rightarrow> task_list_query_error + string" where
  "parse_task_type v = rbind (ok_or (as_str v) InvalidInput) (\<lambda>raw.
     if raw \<in> set TASK_TYPES then Inr raw else Inl InvalidInput)"

definition parse_priority :: "'n json \<Rightarrow> task_list_query_error + string" where
  "parse_priority v = rbind (ok_or (as_str v) InvalidInput) (\<lambda>raw.
     if raw \<in> set PRIORITIES then Inr raw else Inl InvalidInput)"

definition parse_title :: "'n json \<Rightarrow> task_list_query_error + string" where
  "parse_title v = rbind (ok_or (as_str v) InvalidInput) (\<lambda>raw.
     if CHR 0x00 \<in> set raw \<or> char_count raw > TITLE_MAX \<or> trim raw = [] then Inl InvalidInput else Inr raw)"

definition parse_uuid :: "('n, 'f, 'd, 't) crates \<Rightarrow> 'n json \<Rightarrow> task_list_query_error + uuid" where
  "parse_uuid E v = rbind (ok_or (as_str v) InvalidInput) (\<lambda>raw.
     if length raw \<noteq> 36 then Inl InvalidInput else ok_or (uuid_parse_str E raw) InvalidInput)"

definition parse_assignee_id :: "('n, 'f, 'd, 't) crates \<Rightarrow> 'n json \<Rightarrow> task_list_query_error + assignee_filter" where
  "parse_assignee_id E v = rbind (ok_or (as_str v) InvalidInput) (\<lambda>raw.
     if raw = ''me'' then Inr Me
     else rbind (ok_or (uuid_parse_str E raw) InvalidInput) (\<lambda>u. Inr (AUser u)))"

definition sort_field_of_name :: "string \<Rightarrow> sort_field option" where
  "sort_field_of_name raw = map_of
     [(''priority'', SPriority), (''due'', SDue), (''updated'', SUpdated), (''created'', SCreated), (''rank'', SRank),
      (''title'', STitle), (''status'', SStatus), (''number'', SNumber)] raw"

definition parse_sort_field :: "('n, 'f, 'd, 't) crates \<Rightarrow> 'n json \<Rightarrow> task_list_query_error + sort_field" where
  "parse_sort_field E v = rbind (ok_or (as_str v) InvalidInput) (\<lambda>raw.
     case (if length raw = 36 then uuid_parse_str E raw else None) of
       Some i \<Rightarrow> Inr (SField i)
     | None \<Rightarrow> ok_or (sort_field_of_name raw) InvalidInput)"

definition parse_sort_direction :: "'n json \<Rightarrow> task_list_query_error + sort_direction" where
  "parse_sort_direction v =
     (if as_str v = Some ''asc'' then Inr Asc
      else if as_str v = Some ''desc'' then Inr Desc else Inl InvalidInput)"

definition parse_custom_value :: "('n, 'f, 'd, 't) crates \<Rightarrow> 'n json option \<Rightarrow> task_list_query_error + 'f custom_value" where
  "parse_custom_value E v = (case v of
     Some (JString text) \<Rightarrow>
       if CHR 0x00 \<in> set text \<or> char_count text > TITLE_MAX then Inl InvalidInput else Inr (CText text)
   | Some (JBool flag) \<Rightarrow> Inr (CBool flag)
   | Some (JNumber number) \<Rightarrow> rbind (ok_or (num_as_f64 E number) InvalidInput) (\<lambda>x.
       if \<not> f64_is_finite E x then Inl InvalidInput else Inr (CNumber x))
   | _ \<Rightarrow> Inl InvalidInput)"

definition parse_custom_filter :: "('n, 'f, 'd, 't) crates \<Rightarrow> 'n json \<Rightarrow> task_list_query_error + 'f custom_filter" where
  "parse_custom_filter E entry =
     rbind (ok_or (as_object entry) InvalidInput) (\<lambda>m.
     rbind (ok_or (map_of m ''fieldId'') InvalidInput) (\<lambda>fv.
     rbind (parse_uuid E fv) (\<lambda>field_id.
     rbind
       (let op = Option.bind (map_of m ''operator'') as_str in
        if op = Some ''empty'' then
          rbind (reject_unknown_keys m [''fieldId'', ''operator'']) (\<lambda>_. Inr CEmpty)
        else if op = Some ''equals'' then
          rbind (reject_unknown_keys m [''fieldId'', ''operator'', ''value'']) (\<lambda>_.
          rbind (parse_custom_value E (map_of m ''value'')) (\<lambda>v. Inr (CEquals v)))
        else Inl InvalidInput) (\<lambda>operator.
     Inr \<lparr>cf_field_id = field_id, cf_operator = operator\<rparr>))))"

definition parse_custom_filters :: "('n, 'f, 'd, 't) crates \<Rightarrow> 'n json \<Rightarrow> task_list_query_error + 'f custom_filter list" where
  "parse_custom_filters E v =
     rbind (ok_or (as_array v) InvalidInput) (\<lambda>arr.
     if length arr > CUSTOM_FILTERS_MAX then Inl InvalidInput else parse_each (parse_custom_filter E) arr)"

definition parse_sort_entry :: "('n, 'f, 'd, 't) crates \<Rightarrow> 'n json \<Rightarrow> task_list_query_error + view_sort" where
  "parse_sort_entry E entry =
     rbind (ok_or (as_object entry) InvalidInput) (\<lambda>m.
     rbind (reject_unknown_keys m [''field'', ''direction'']) (\<lambda>_.
     rbind (ok_or (map_of m ''field'') InvalidInput) (\<lambda>fv.
     rbind (ok_or (map_of m ''direction'') InvalidInput) (\<lambda>dv.
     rbind (parse_sort_field E fv) (\<lambda>field.
     rbind (parse_sort_direction dv) (\<lambda>direction.
     Inr \<lparr>vs_field = field, vs_direction = direction\<rparr>))))))"

definition parse_view_sort :: "('n, 'f, 'd, 't) crates \<Rightarrow> 'n json \<Rightarrow> task_list_query_error + view_sort list" where
  "parse_view_sort E v =
     rbind (ok_or (as_array v) InvalidInput) (\<lambda>arr.
     if length arr > SORT_MAX then Inl InvalidInput else parse_each (parse_sort_entry E) arr)"

definition FILTER_KEYS :: "string list" where
  "FILTER_KEYS = [''type'', ''statusId'', ''priority'', ''openOnly'', ''title'', ''assigneeId'', ''labelId'',
     ''milestoneId'', ''dueBefore'', ''custom'']"

definition parse_view_filters :: "('n, 'f, 'd, 't) crates \<Rightarrow> 'n json \<Rightarrow> task_list_query_error + ('f, 'd) view_filters" where
  "parse_view_filters E v =
     rbind (ok_or (as_object v) InvalidInput) (\<lambda>m.
     rbind (reject_unknown_keys m FILTER_KEYS) (\<lambda>_.
     rbind (opt_field m ''type'' parse_task_type) (\<lambda>task_type.
     rbind (opt_field m ''statusId'' (parse_uuid E)) (\<lambda>status_id.
     rbind (opt_field m ''priority'' parse_priority) (\<lambda>priority.
     rbind (case map_of m ''openOnly'' of None \<Rightarrow> Inr False | Some v \<Rightarrow> ok_or (as_bool v) InvalidInput) (\<lambda>open_only.
     rbind (opt_field m ''title'' parse_title) (\<lambda>title.
     rbind (opt_field m ''assigneeId'' (parse_assignee_id E)) (\<lambda>assignee_id.
     rbind (opt_field m ''labelId'' (parse_uuid E)) (\<lambda>label_id.
     rbind (opt_field m ''milestoneId'' (parse_uuid E)) (\<lambda>milestone_id.
     rbind (opt_field m ''dueBefore'' (\<lambda>v. ok_or (Option.bind (as_str v) (parse_iso_date E)) InvalidInput)) (\<lambda>due_before.
     rbind (case map_of m ''custom'' of None \<Rightarrow> Inr [] | Some v \<Rightarrow> parse_custom_filters E v) (\<lambda>custom.
     Inr \<lparr>f_task_type = task_type, f_status_id = status_id, f_priority = priority, f_open_only = open_only,
       f_title = title, f_assignee_id = assignee_id, f_label_id = label_id, f_milestone_id = milestone_id,
       f_due_before = due_before, f_custom = custom\<rparr>))))))))))))"

definition parse_view_query_value :: "('n, 'f, 'd, 't) crates \<Rightarrow> 'n json \<Rightarrow> task_list_query_error + ('f, 'd) view_query" where
  "parse_view_query_value E v =
     rbind (ok_or (as_object v) InvalidInput) (\<lambda>m.
     rbind (reject_unknown_keys m [''filters'', ''sort'']) (\<lambda>_.
     rbind (case map_of m ''filters'' of None \<Rightarrow> Inr view_filters_default | Some fv \<Rightarrow> parse_view_filters E fv) (\<lambda>filters.
     rbind (case map_of m ''sort'' of None \<Rightarrow> Inr [] | Some sv \<Rightarrow> parse_view_sort E sv) (\<lambda>sort.
     Inr \<lparr>q_filters = filters, q_sort = sort\<rparr>))))"

definition parse_view_query :: "('n, 'f, 'd, 't) crates \<Rightarrow> string \<Rightarrow> task_list_query_error + ('f, 'd) view_query" where
  "parse_view_query E raw = rbind (ok_or (json_from_slice E (as_bytes raw)) InvalidInput) (parse_view_query_value E)"

section \<open>Canonical JSON\<close>

definition sort_field_name :: "sort_field \<Rightarrow> string" where
  "sort_field_name f = (case f of
     SField _ \<Rightarrow> ''field'' | SPriority \<Rightarrow> ''priority'' | SDue \<Rightarrow> ''due'' | SUpdated \<Rightarrow> ''updated''
   | SCreated \<Rightarrow> ''created'' | SRank \<Rightarrow> ''rank'' | STitle \<Rightarrow> ''title'' | SStatus \<Rightarrow> ''status'' | SNumber \<Rightarrow> ''number'')"

definition sort_field_key :: "('n, 'f, 'd, 't) crates \<Rightarrow> sort_field \<Rightarrow> string" where
  "sort_field_key E f = (case f of SField i \<Rightarrow> uuid_to_string E i | _ \<Rightarrow> sort_field_name f)"

text \<open>\<open>json!({...})\<close>: the pairs inserted one after the other.\<close>

definition jobj :: "(string \<times> 'n json) list \<Rightarrow> 'n json" where
  "jobj kvs = JObject (fold (\<lambda>(k, v) m. bt_insert k v m) kvs [])"

definition put_opt :: "string \<Rightarrow> 'n json option \<Rightarrow> 'n json_map \<Rightarrow> 'n json_map" where
  "put_opt k v m = (case v of None \<Rightarrow> m | Some v \<Rightarrow> bt_insert k v m)"

definition assignee_string :: "('n, 'f, 'd, 't) crates \<Rightarrow> assignee_filter \<Rightarrow> string" where
  "assignee_string E a = (case a of Me \<Rightarrow> ''me'' | AUser i \<Rightarrow> uuid_to_string E i)"

definition custom_value_json :: "('n, 'f, 'd, 't) crates \<Rightarrow> 'f custom_value \<Rightarrow> 'n json" where
  "custom_value_json E v = (case v of
     CText text \<Rightarrow> JString text
   | CBool flag \<Rightarrow> JBool flag
   | CNumber number \<Rightarrow> (case num_from_f64 E number of Some n \<Rightarrow> JNumber n | None \<Rightarrow> JNull))"

definition custom_filter_json :: "('n, 'f, 'd, 't) crates \<Rightarrow> 'f custom_filter \<Rightarrow> 'n json" where
  "custom_filter_json E item = (case cf_operator item of
     CEmpty \<Rightarrow> jobj [(''fieldId'', JString (uuid_to_string E (cf_field_id item))), (''operator'', JString ''empty'')]
   | CEquals v \<Rightarrow> jobj [(''fieldId'', JString (uuid_to_string E (cf_field_id item))), (''operator'', JString ''equals''),
                       (''value'', custom_value_json E v)])"

definition view_filters_json :: "('n, 'f, 'd, 't) crates \<Rightarrow> ('f, 'd) view_filters \<Rightarrow> 'n json_map" where
  "view_filters_json E f =
     put_opt ''custom'' (if f_custom f \<noteq> [] then Some (JArray (map (custom_filter_json E) (f_custom f))) else None)
     (put_opt ''title'' (map_option JString (f_title f))
     (put_opt ''dueBefore'' (map_option (JString \<circ> date_to_string E) (f_due_before f))
     (put_opt ''openOnly'' (if f_open_only f then Some (JBool True) else None)
     (put_opt ''milestoneId'' (map_option (JString \<circ> uuid_to_string E) (f_milestone_id f))
     (put_opt ''labelId'' (map_option (JString \<circ> uuid_to_string E) (f_label_id f))
     (put_opt ''priority'' (map_option JString (f_priority f))
     (put_opt ''assigneeId'' (map_option (JString \<circ> assignee_string E) (f_assignee_id f))
     (put_opt ''statusId'' (map_option (JString \<circ> uuid_to_string E) (f_status_id f))
     (put_opt ''type'' (map_option JString (f_task_type f)) [])))))))))"

definition view_sort_json :: "('n, 'f, 'd, 't) crates \<Rightarrow> view_sort \<Rightarrow> 'n json" where
  "view_sort_json E e = jobj [(''field'', JString (sort_field_key E (vs_field e))),
     (''direction'', JString (if vs_direction e = Asc then ''asc'' else ''desc''))]"

definition view_query_to_json :: "('n, 'f, 'd, 't) crates \<Rightarrow> ('f, 'd) view_query \<Rightarrow> 'n json" where
  "view_query_to_json E q = jobj [(''filters'', JObject (view_filters_json E (q_filters q))),
     (''sort'', JArray (map (view_sort_json E) (q_sort q)))]"

section \<open>Cursors and whole requests\<close>

definition is_lower_hex_64 :: "string \<Rightarrow> bool" where
  "is_lower_hex_64 s \<longleftrightarrow> length s = 64 \<and>
     list_all (\<lambda>c. let n = (of_char c :: nat) in 48 \<le> n \<and> n \<le> 57 \<or> 97 \<le> n \<and> n \<le> 102) s"

definition encode_cursor :: "('n, 'f, 'd, 't) crates \<Rightarrow> 't task_list_cursor \<Rightarrow> string" where
  "encode_cursor E c = b64_url_encode E (as_bytes (json_to_string E (jobj
     [(''id'', JString (uuid_to_string E (c_id c))), (''key'', JString (c_key_hash c)), (''f'', JString (c_f c)),
      (''asOf'', JString (to_rfc3339 E (c_as_of c)))])))"

definition str_field :: "'n json_map \<Rightarrow> string \<Rightarrow> task_list_query_error + string" where
  "str_field m k = ok_or (Option.bind (map_of m k) as_str) InvalidCursor"

definition decode_cursor :: "('n, 'f, 'd, 't) crates \<Rightarrow> string \<Rightarrow> task_list_query_error + 't task_list_cursor" where
  "decode_cursor E raw =
     rbind (ok_or (b64_url_decode E raw) InvalidCursor) (\<lambda>bytes.
     rbind (ok_or (json_from_slice E bytes) InvalidCursor) (\<lambda>v.
     rbind (ok_or (as_object v) InvalidCursor) (\<lambda>m.
     rbind (reject_unknown_keys m [''id'', ''key'', ''f'', ''asOf'']) (\<lambda>_.
     rbind (ok_or (map_of m ''id'') InvalidCursor) (\<lambda>iv.
     rbind (parse_uuid E iv) (\<lambda>i.
     rbind (str_field m ''key'') (\<lambda>key.
     rbind (str_field m ''f'') (\<lambda>f.
     rbind (str_field m ''asOf'') (\<lambda>as_of.
     if \<not> is_lower_hex_64 key \<or> \<not> is_lower_hex_64 f then Inl InvalidCursor
     else rbind (ok_or (parse_from_rfc3339 E as_of) InvalidCursor) (\<lambda>as_of.
     Inr \<lparr>c_id = i, c_key_hash = key, c_f = f, c_as_of = as_of\<rparr>))))))))))"

record ('f, 'd, 't) parsed_task_list_query =
  p_view :: "('f, 'd) view_query"
  p_archived :: bool
  p_limit :: int
  p_from :: "'d option"
  p_to :: "'d option"
  p_cursor :: "'t task_list_cursor option"
  p_as_of :: 't

definition parse_optional_date :: "('n, 'f, 'd, 't) crates \<Rightarrow> string option \<Rightarrow> task_list_query_error + 'd option" where
  "parse_optional_date E raw = (case raw of
     None \<Rightarrow> Inr None
   | Some s \<Rightarrow> ok_or (map_option Some (parse_iso_date E s)) InvalidInput)"

definition parse_task_list_query ::
    "('n, 'f, 'd::linorder, 't) crates \<Rightarrow> 't \<Rightarrow> string option \<Rightarrow> string option \<Rightarrow> string option \<Rightarrow> int option \<Rightarrow>
     string option \<Rightarrow> string option \<Rightarrow> task_list_query_error + ('f, 'd, 't) parsed_task_list_query" where
  "parse_task_list_query E now query_json archived cursor limit from to =
     rbind (if archived = Some ''true'' then Inr True
            else if archived = Some ''false'' \<or> archived = None then Inr False else Inl InvalidInput) (\<lambda>archived.
     rbind (parse_optional_date E from) (\<lambda>from.
     rbind (parse_optional_date E to) (\<lambda>to.
     if (from \<noteq> None) \<noteq> (to \<noteq> None) then Inl InvalidInput
     else if (case (from, to) of (Some a, Some b) \<Rightarrow> a > b | _ \<Rightarrow> False) then Inl InvalidInput
     else if from \<noteq> None \<and> cursor \<noteq> None then Inl InvalidInput
     else
       let limit = (case limit of Some n \<Rightarrow> n | None \<Rightarrow> 50) in
       if \<not> (1 \<le> limit \<and> limit \<le> 500) then Inl InvalidInput
       else if from = None \<and> limit > 100 then Inl InvalidInput
       else
         let raw_query = (case query_json of Some r \<Rightarrow> r | None \<Rightarrow> ''{}'') in
         if length raw_query > QUERY_JSON_MAX then Inl InvalidInput
         else
           rbind (parse_view_query E raw_query) (\<lambda>view.
           rbind (case cursor of
                    Some raw \<Rightarrow>
                      if length raw > CURSOR_MAX then Inl InvalidCursor
                      else rbind (decode_cursor E raw) (\<lambda>c. Inr (Some c, c_as_of c))
                  | None \<Rightarrow> Inr (None, now)) (\<lambda>(cursor, as_of).
           Inr \<lparr>p_view = view, p_archived = archived, p_limit = limit, p_from = from, p_to = to,
                 p_cursor = cursor, p_as_of = as_of\<rparr>)))))"

section \<open>Fingerprint\<close>

definition opt_string_json :: "string option \<Rightarrow> 'n json" where
  "opt_string_json s = (case s of None \<Rightarrow> JNull | Some s \<Rightarrow> JString s)"

text \<open>Indexing a JSON value by a key: null when it is missing.\<close>

definition json_index :: "'n json \<Rightarrow> string \<Rightarrow> 'n json" where
  "json_index v k = (case Option.bind (as_object v) (\<lambda>m. map_of m k) of None \<Rightarrow> JNull | Some v \<Rightarrow> v)"

definition fingerprint_payload ::
    "('n, 'f, 'd, 't) crates \<Rightarrow> uuid \<Rightarrow> uuid option \<Rightarrow> string \<Rightarrow> ('f, 'd, 't) parsed_task_list_query \<Rightarrow> 'n json" where
  "fingerprint_payload E workspace_id project_id time_zone q =
     (let f = q_filters (p_view q); vj = view_query_to_json E (p_view q) in
      jobj
        [(''workspaceId'', JString (uuid_to_string E workspace_id)),
         (''projectId'', opt_string_json (map_option (uuid_to_string E) project_id)),
         (''timeZone'', JString time_zone),
         (''query'', jobj
           [(''filters'', jobj
              [(''type'', opt_string_json (f_task_type f)),
               (''statusId'', opt_string_json (map_option (uuid_to_string E) (f_status_id f))),
               (''priority'', opt_string_json (f_priority f)),
               (''openOnly'', JBool (f_open_only f)),
               (''title'', opt_string_json (f_title f)),
               (''assigneeId'', opt_string_json (map_option (assignee_string E) (f_assignee_id f))),
               (''labelId'', opt_string_json (map_option (uuid_to_string E) (f_label_id f))),
               (''milestoneId'', opt_string_json (map_option (uuid_to_string E) (f_milestone_id f))),
               (''dueBefore'', opt_string_json (map_option (date_to_string E) (f_due_before f))),
               (''custom'', json_index (json_index vj ''filters'') ''custom'')]),
            (''sort'', json_index vj ''sort'')]),
         (''archived'', JBool (p_archived q)),
         (''from'', opt_string_json (map_option (date_to_string E) (p_from q))),
         (''to'', opt_string_json (map_option (date_to_string E) (p_to q)))])"

definition sha256_hex :: "('n, 'f, 'd, 't) crates \<Rightarrow> string \<Rightarrow> string" where
  "sha256_hex E s = hex_encode E (sha256 E (as_bytes s))"

definition filter_fingerprint ::
    "('n, 'f, 'd, 't) crates \<Rightarrow> uuid \<Rightarrow> uuid option \<Rightarrow> string \<Rightarrow> ('f, 'd, 't) parsed_task_list_query \<Rightarrow> string" where
  "filter_fingerprint E workspace_id project_id time_zone q =
     sha256_hex E (json_to_string E (fingerprint_payload E workspace_id project_id time_zone q))"

section \<open>What a parsed query satisfies\<close>

definition title_ok :: "string \<Rightarrow> bool" where
  "title_ok s \<longleftrightarrow> CHR 0x00 \<notin> set s \<and> char_count s \<le> TITLE_MAX \<and> trim s \<noteq> []"

definition custom_ok :: "('n, 'f, 'd, 't) crates \<Rightarrow> 'f custom_filter \<Rightarrow> bool" where
  "custom_ok E c \<longleftrightarrow> (case cf_operator c of
     CEquals (CText s) \<Rightarrow> CHR 0x00 \<notin> set s \<and> char_count s \<le> TITLE_MAX
   | CEquals (CNumber x) \<Rightarrow> f64_is_finite E x
   | _ \<Rightarrow> True)"

definition due_ok :: "('n, 'f, 'd, 't) crates \<Rightarrow> 'd \<Rightarrow> bool" where
  "due_ok E d \<longleftrightarrow> parse_iso_date E (date_to_string E d) = Some d"

definition view_filters_ok :: "('n, 'f, 'd, 't) crates \<Rightarrow> ('f, 'd) view_filters \<Rightarrow> bool" where
  "view_filters_ok E f \<longleftrightarrow> pred_option (\<lambda>t. t \<in> set TASK_TYPES) (f_task_type f) \<and>
     pred_option (\<lambda>p. p \<in> set PRIORITIES) (f_priority f) \<and> pred_option title_ok (f_title f) \<and>
     pred_option (due_ok E) (f_due_before f) \<and> length (f_custom f) \<le> CUSTOM_FILTERS_MAX \<and> list_all (custom_ok E) (f_custom f)"

definition view_query_ok :: "('n, 'f, 'd, 't) crates \<Rightarrow> ('f, 'd) view_query \<Rightarrow> bool" where
  "view_query_ok E q \<longleftrightarrow> view_filters_ok E (q_filters q) \<and> length (q_sort q) \<le> SORT_MAX"

section \<open>Lemmas: objects\<close>

named_theorems json_simps \<open>lookups in objects built key by key\<close>

lemma map_of_put_opt [json_simps]: "map_of (put_opt k v m) k' = (if k = k' \<and> v \<noteq> None then v else map_of m k')"
  by (auto simp: put_opt_def map_of_bt_insert split: option.splits)

lemma keys_put_opt [json_simps]: "fst ` set (put_opt k v m) = (if v = None then fst ` set m else insert k (fst ` set m))"
  by (auto simp: put_opt_def set_keys_bt_insert split: option.splits)

lemma map_of_inserts: "map_of (fold (\<lambda>(k, v) m. bt_insert k v m) kvs m) k =
    (case map_of (rev kvs) k of None \<Rightarrow> map_of m k | Some v \<Rightarrow> Some v)"
  by (induction kvs arbitrary: m) (auto simp: map_of_bt_insert map_add_def split: option.splits)

lemma keys_inserts: "fst ` set (fold (\<lambda>(k, v) m. bt_insert k v m) kvs m) = fst ` set kvs \<union> fst ` set m"
  by (induction kvs arbitrary: m) (simp_all add: set_keys_bt_insert case_prod_beta)

lemma bt_ok_inserts: "bt_ok m \<Longrightarrow> bt_ok (fold (\<lambda>(k, v) m. bt_insert k v m) kvs m)"
  by (induction kvs arbitrary: m) (auto simp: bt_ok_insert)

lemma jobj_object: "as_object (jobj kvs) = Some (fold (\<lambda>(k, v) m. bt_insert k v m) kvs [])"
  by (simp add: jobj_def)

lemma reject_iff [json_simps]: "reject_unknown_keys m allowed = (if fst ` set m \<subseteq> set allowed then Inr () else Inl InvalidInput)"
  by (auto simp: reject_unknown_keys_def list_all_iff)

lemma opt_field_Inr: "opt_field m k p = Inr a \<longleftrightarrow> (case map_of m k of None \<Rightarrow> a = None | Some v \<Rightarrow> \<exists>b. p v = Inr b \<and> a = Some b)"
  by (auto simp: opt_field_def result_simps split: option.splits)

lemma parse_each_Inr: "parse_each p xs = Inr ys \<Longrightarrow> length ys = length xs \<and> list_all2 (\<lambda>x y. p x = Inr y) xs ys"
  by (induction xs arbitrary: ys) (auto simp: result_simps)

lemma parse_each_map: "(\<And>y. y \<in> set ys \<Longrightarrow> p (g y) = Inr y) \<Longrightarrow> parse_each p (map g ys) = Inr ys"
  by (induction ys) auto

lemmas jobj_simps = jobj_object map_of_inserts keys_inserts

section \<open>Lemmas: the round trip\<close>

lemma crates_uuid:
  "crates_ok E \<Longrightarrow> uuid_parse_str E (uuid_to_string E u) = Some u" "crates_ok E \<Longrightarrow> length (uuid_to_string E u) = 36"
  "crates_ok E \<Longrightarrow> str_ok (uuid_to_string E u)"
  by (simp_all add: crates_ok_def)

lemma parse_uuid_show: "crates_ok E \<Longrightarrow> parse_uuid E (JString (uuid_to_string E u)) = Inr u"
  by (simp add: parse_uuid_def crates_uuid)

lemma uuid_not_me: "crates_ok E \<Longrightarrow> uuid_to_string E u \<noteq> ''me''"
proof
  assume "crates_ok E" and "uuid_to_string E u = ''me''"
  then show False
    using crates_uuid(2) [of E u] by simp
qed

lemma parse_assignee_show: "crates_ok E \<Longrightarrow> parse_assignee_id E (JString (assignee_string E a)) = Inr a"
  by (cases a) (simp_all add: parse_assignee_id_def assignee_string_def uuid_not_me crates_uuid)

lemma custom_filter_round_trip:
  assumes "crates_ok E" and "custom_ok E c"
  shows "parse_custom_filter E (custom_filter_json E c) = Inr c"
proof (cases "cf_operator c")
  case CEmpty
  then show ?thesis
    using assms by (cases c) (simp add: parse_custom_filter_def custom_filter_json_def jobj_simps parse_uuid_show json_simps)
next
  case (CEquals v)
  have "parse_custom_value E (Some (custom_value_json E v)) = Inr v"
  proof (cases v)
    case (CNumber x)
    with CEquals assms obtain n where "num_from_f64 E x = Some n" "num_as_f64 E n = Some x"
      by (auto simp: crates_ok_def custom_ok_def)
    with CNumber CEquals assms show ?thesis
      by (simp add: parse_custom_value_def custom_value_json_def custom_ok_def)
  qed (use CEquals assms in \<open>auto simp: parse_custom_value_def custom_value_json_def custom_ok_def\<close>)
  with CEquals assms show ?thesis
    by (cases c) (simp add: parse_custom_filter_def custom_filter_json_def jobj_simps parse_uuid_show json_simps)
qed

lemma sort_name_parses: "\<nexists>u. f = SField u \<Longrightarrow> length (sort_field_name f) \<noteq> 36 \<and> sort_field_of_name (sort_field_name f) = Some f"
  by (cases f) (simp_all add: sort_field_name_def sort_field_of_name_def)

lemma parse_sort_field_show: "crates_ok E \<Longrightarrow> parse_sort_field E (JString (sort_field_key E f)) = Inr f"
  using sort_name_parses [of f] crates_uuid [of E]
  by (cases f) (simp_all add: parse_sort_field_def sort_field_key_def)

lemma sort_round_trip: "crates_ok E \<Longrightarrow> parse_sort_entry E (view_sort_json E e) = Inr e"
proof -
  assume E: "crates_ok E"
  have "vs_direction e = Asc \<or> vs_direction e = Desc"
    by (cases "vs_direction e") auto
  then show ?thesis
    by (cases e)
      (auto simp: parse_sort_entry_def view_sort_json_def jobj_simps json_simps parse_sort_field_show [OF E] parse_sort_direction_def)
qed

lemma custom_field_round_trip:
  assumes "crates_ok E" and "length cs \<le> CUSTOM_FILTERS_MAX" and "list_all (custom_ok E) cs"
  shows "parse_custom_filters E (JArray (map (custom_filter_json E) cs)) = Inr cs"
  using assms by (simp add: parse_custom_filters_def parse_each_map custom_filter_round_trip list_all_iff)

lemma filter_keys: "fst ` set (view_filters_json E f) \<subseteq> set FILTER_KEYS"
  by (auto simp: view_filters_json_def json_simps FILTER_KEYS_def)

lemma filters_lookup:
  "map_of (view_filters_json E f) ''type'' = map_option JString (f_task_type f)"
  "map_of (view_filters_json E f) ''statusId'' = map_option (JString \<circ> uuid_to_string E) (f_status_id f)"
  "map_of (view_filters_json E f) ''priority'' = map_option JString (f_priority f)"
  "map_of (view_filters_json E f) ''openOnly'' = (if f_open_only f then Some (JBool True) else None)"
  "map_of (view_filters_json E f) ''title'' = map_option JString (f_title f)"
  "map_of (view_filters_json E f) ''assigneeId'' = map_option (JString \<circ> assignee_string E) (f_assignee_id f)"
  "map_of (view_filters_json E f) ''labelId'' = map_option (JString \<circ> uuid_to_string E) (f_label_id f)"
  "map_of (view_filters_json E f) ''milestoneId'' = map_option (JString \<circ> uuid_to_string E) (f_milestone_id f)"
  "map_of (view_filters_json E f) ''dueBefore'' = map_option (JString \<circ> date_to_string E) (f_due_before f)"
  "map_of (view_filters_json E f) ''custom'' =
     (if f_custom f \<noteq> [] then Some (JArray (map (custom_filter_json E) (f_custom f))) else None)"
  by (simp_all add: view_filters_json_def json_simps)

lemma opt_field_show:
  "map_of m k = map_option g v \<Longrightarrow> (\<And>a. v = Some a \<Longrightarrow> p (g a) = Inr a) \<Longrightarrow> opt_field m k p = Inr v"
  by (cases v) (simp_all add: opt_field_def)

lemma filters_round_trip:
  assumes E: "crates_ok E" and f: "view_filters_ok E f"
  shows "parse_view_filters E (JObject (view_filters_json E f)) = Inr f"
proof -
  let ?m = "view_filters_json E f"
  have "opt_field ?m ''type'' parse_task_type = Inr (f_task_type f)"
    "opt_field ?m ''priority'' parse_priority = Inr (f_priority f)"
    "opt_field ?m ''title'' parse_title = Inr (f_title f)"
    using f by (auto intro!: opt_field_show [OF filters_lookup(1)] opt_field_show [OF filters_lookup(3)]
        opt_field_show [OF filters_lookup(5)]
        simp: view_filters_ok_def parse_task_type_def parse_priority_def parse_title_def title_ok_def)
  moreover have "opt_field ?m ''statusId'' (parse_uuid E) = Inr (f_status_id f)"
    "opt_field ?m ''labelId'' (parse_uuid E) = Inr (f_label_id f)"
    "opt_field ?m ''milestoneId'' (parse_uuid E) = Inr (f_milestone_id f)"
    "opt_field ?m ''assigneeId'' (parse_assignee_id E) = Inr (f_assignee_id f)"
    using E by (auto intro!: opt_field_show [OF filters_lookup(2)] opt_field_show [OF filters_lookup(6)]
        opt_field_show [OF filters_lookup(7)] opt_field_show [OF filters_lookup(8)]
        simp: parse_uuid_show parse_assignee_show)
  moreover have "opt_field ?m ''dueBefore'' (\<lambda>v. ok_or (Option.bind (as_str v) (parse_iso_date E)) InvalidInput) = Inr (f_due_before f)"
    using f by (intro opt_field_show [OF filters_lookup(9)]) (simp add: view_filters_ok_def due_ok_def)
  moreover have "(case map_of ?m ''custom'' of None \<Rightarrow> Inr [] | Some v \<Rightarrow> parse_custom_filters E v) = Inr (f_custom f)"
    using E f by (simp add: filters_lookup custom_field_round_trip view_filters_ok_def)
  moreover have "(case map_of ?m ''openOnly'' of None \<Rightarrow> Inr False | Some v \<Rightarrow> ok_or (as_bool v) InvalidInput) = Inr (f_open_only f)"
    by (simp add: filters_lookup)
  ultimately show ?thesis
    using filter_keys [of E f] by (cases f) (simp add: parse_view_filters_def reject_iff)
qed

lemma query_round_trip:
  assumes E: "crates_ok E" and q: "view_query_ok E q"
  shows "parse_view_query_value E (view_query_to_json E q) = Inr q"
proof -
  have "parse_view_sort E (JArray (map (view_sort_json E) (q_sort q))) = Inr (q_sort q)"
    using q by (simp add: parse_view_sort_def parse_each_map sort_round_trip [OF E] view_query_ok_def)
  with filters_round_trip [OF E] q show ?thesis
    by (cases q) (simp add: parse_view_query_value_def view_query_to_json_def jobj_simps json_simps view_query_ok_def)
qed

section \<open>Lemmas: what the parser accepts\<close>

lemma opt_field_pred: "opt_field m k p = Inr a \<Longrightarrow> (\<And>v b. p v = Inr b \<Longrightarrow> P b) \<Longrightarrow> pred_option P a"
  by (cases a) (auto simp: opt_field_Inr split: option.splits)

lemma due_parsed: "crates_ok E \<Longrightarrow> parse_iso_date E s = Some d \<Longrightarrow> due_ok E d"
  by (auto simp: due_ok_def parse_iso_date_def crates_ok_def split: if_splits)

lemma parse_title_ok: "parse_title v = Inr t \<Longrightarrow> title_ok t"
  by (auto simp: parse_title_def title_ok_def result_simps)

lemma parse_custom_filter_ok: "parse_custom_filter E v = Inr c \<Longrightarrow> custom_ok E c"
  by (auto simp: parse_custom_filter_def parse_custom_value_def custom_ok_def result_simps Let_def
      split: if_splits option.splits json.splits)

lemma parse_each_all: "parse_each p xs = Inr ys \<Longrightarrow> (\<And>x y. p x = Inr y \<Longrightarrow> P y) \<Longrightarrow> list_all P ys"
  by (induction xs arbitrary: ys) (auto simp: result_simps)

lemma parse_custom_filters_ok:
  "parse_custom_filters E v = Inr cs \<Longrightarrow> length cs \<le> CUSTOM_FILTERS_MAX \<and> list_all (custom_ok E) cs"
  using parse_each_Inr parse_each_all [OF _ parse_custom_filter_ok]
  by (fastforce simp: parse_custom_filters_def result_simps)

lemma parse_view_filters_ok:
  assumes E: "crates_ok E" and p: "parse_view_filters E v = Inr f"
  shows "view_filters_ok E f"
proof -
  from p obtain m tt si pr oo ti ai li mi db cu where
    fs: "opt_field m ''type'' parse_task_type = Inr tt" "opt_field m ''priority'' parse_priority = Inr pr"
      "opt_field m ''title'' parse_title = Inr ti"
      "opt_field m ''dueBefore'' (\<lambda>v. ok_or (Option.bind (as_str v) (parse_iso_date E)) InvalidInput) = Inr db"
      "(case map_of m ''custom'' of None \<Rightarrow> Inr [] | Some v \<Rightarrow> parse_custom_filters E v) = Inr cu"
    and f: "f = \<lparr>f_task_type = tt, f_status_id = si, f_priority = pr, f_open_only = oo, f_title = ti,
      f_assignee_id = ai, f_label_id = li, f_milestone_id = mi, f_due_before = db, f_custom = cu\<rparr>"
    by (auto simp: parse_view_filters_def rbind_eq_Inr)
  have "pred_option (\<lambda>t. t \<in> set TASK_TYPES) tt" "pred_option (\<lambda>p. p \<in> set PRIORITIES) pr" "pred_option title_ok ti"
    "pred_option (due_ok E) db"
    using fs(1,2,3,4) by (auto elim!: opt_field_pred simp: parse_task_type_def parse_priority_def parse_title_ok
        due_parsed [OF E] result_simps bind_eq_Some_conv
        split: if_splits)
  moreover have "length cu \<le> CUSTOM_FILTERS_MAX \<and> list_all (custom_ok E) cu"
    using fs(5) parse_custom_filters_ok by (fastforce split: option.splits)
  ultimately show ?thesis
    by (simp add: view_filters_ok_def f)
qed

lemma parse_view_query_ok:
  assumes E: "crates_ok E" and p: "parse_view_query_value E v = Inr q"
  shows "view_query_ok E q"
proof -
  have "view_filters_ok E view_filters_default"
    by (simp add: view_filters_ok_def view_filters_default_def)
  moreover have "length s \<le> SORT_MAX" if "parse_view_sort E sv = Inr s" for sv s
    using that parse_each_Inr by (fastforce simp: parse_view_sort_def result_simps)
  ultimately show ?thesis
    using p parse_view_filters_ok [OF E]
    by (auto simp: parse_view_query_value_def view_query_ok_def result_simps split: option.splits)
qed

definition list_query_ok :: "('n, 'f, 'd::linorder, 't) crates \<Rightarrow> ('f, 'd, 't) parsed_task_list_query \<Rightarrow> bool" where
  "list_query_ok E q \<longleftrightarrow> view_query_ok E (p_view q) \<and> 1 \<le> p_limit q \<and> p_limit q \<le> 500 \<and>
     (case (p_from q, p_to q) of
        (Some a, Some b) \<Rightarrow> a \<le> b \<and> due_ok E a \<and> due_ok E b \<and> p_cursor q = None
      | (None, None) \<Rightarrow> p_limit q \<le> 100
      | _ \<Rightarrow> False) \<and>
     (case p_cursor q of None \<Rightarrow> True | Some c \<Rightarrow> is_lower_hex_64 (c_key_hash c) \<and> is_lower_hex_64 (c_f c) \<and> p_as_of q = c_as_of c)"

lemma decode_cursor_hex: "decode_cursor E raw = Inr c \<Longrightarrow> is_lower_hex_64 (c_key_hash c) \<and> is_lower_hex_64 (c_f c)"
  by (auto simp: decode_cursor_def result_simps)

lemma parse_optional_date_ok: "crates_ok E \<Longrightarrow> parse_optional_date E raw = Inr d \<Longrightarrow> pred_option (due_ok E) d"
  by (auto simp: parse_optional_date_def result_simps due_parsed split: option.splits)

lemma parse_list_query_ok:
  assumes E: "crates_ok E" and p: "parse_task_list_query E now qj ar cu li fr t = Inr q"
  shows "list_query_ok E q"
proof -
  from p obtain a f t' c s where
    d: "parse_optional_date E fr = Inr f" "parse_optional_date E t = Inr t'"
    and w: "(f \<noteq> None) = (t' \<noteq> None)" "\<not> (case (f, t') of (Some a, Some b) \<Rightarrow> a > b | _ \<Rightarrow> False)" "f = None \<or> cu = None"
    and l: "1 \<le> p_limit q \<and> p_limit q \<le> 500" "f \<noteq> None \<or> p_limit q \<le> 100"
    and v: "parse_view_query E (case qj of Some r \<Rightarrow> r | None \<Rightarrow> ''{}'') = Inr (p_view q)"
    and cur: "(case cu of Some raw \<Rightarrow> if length raw > CURSOR_MAX then Inl InvalidCursor
        else rbind (decode_cursor E raw) (\<lambda>c. Inr (Some c, c_as_of c)) | None \<Rightarrow> Inr (None, now)) = Inr (c, s)"
    and q: "p_from q = f" "p_to q = t'" "p_cursor q = c" "p_as_of q = s"
    by (auto simp: parse_task_list_query_def rbind_eq_Inr Let_def if_Inl_eq_Inr)
  have "view_query_ok E (p_view q)"
    using v parse_view_query_ok [OF E] by (auto simp: parse_view_query_def result_simps)
  moreover have "case c of None \<Rightarrow> True | Some c \<Rightarrow> is_lower_hex_64 (c_key_hash c) \<and> is_lower_hex_64 (c_f c) \<and> s = c_as_of c"
    "cu = None \<Longrightarrow> c = None"
    using cur by (auto simp: result_simps dest: decode_cursor_hex split: option.splits if_splits)
  ultimately show ?thesis
    using w l parse_optional_date_ok [OF E d(1)] parse_optional_date_ok [OF E d(2)]
    by (cases f; cases t') (auto simp: list_query_ok_def q split: option.splits)
qed

section \<open>Lemmas: cursors and fingerprints\<close>

lemma ascii_str_ok: "list_all (\<lambda>c. (of_char c :: nat) < 128) s \<Longrightarrow> str_ok s"
proof (induction s)
  case (Cons c s)
  then have "unat (byte_of_char c) < unat (0x80 :: u8)"
    by (simp add: byte_of_char_def unat_of_nat)
  then have "byte_of_char c < 0x80"
    by (simp add: word_less_nat_alt)
  with Cons show ?case
    by (simp add: str_ok_def as_bytes_def)
qed (simp add: str_ok_def as_bytes_def)

lemma hex_str_ok: "is_lower_hex_64 s \<Longrightarrow> str_ok s"
  by (rule ascii_str_ok) (auto simp: is_lower_hex_64_def list_all_iff Let_def)

lemma cursor_round_trip_lemma:
  fixes E :: "('n, 'f, 'd, 't) crates"
  assumes E: "crates_ok E" and c: "is_lower_hex_64 (c_key_hash c)" "is_lower_hex_64 (c_f c)"
  shows "decode_cursor E (encode_cursor E c) = Inr c"
proof -
  let ?kvs = "[(''id'', JString (uuid_to_string E (c_id c))), (''key'', JString (c_key_hash c)), (''f'', JString (c_f c)),
      (''asOf'', JString (to_rfc3339 E (c_as_of c)))] :: (string \<times> 'n json) list"
  let ?m = "fold (\<lambda>(k, v) m. bt_insert k v m) ?kvs []"
  have "string_object ?m"
  proof -
    have entries: "set ?m = set ?kvs"
      by auto
    have "bt_ok ?m"
      by (rule bt_ok_inserts) (simp add: bt_ok_def)
    moreover have "str_ok ''id''" "str_ok ''key''" "str_ok ''f''" "str_ok ''asOf''"
      by (simp_all add: ascii_str_ok)
    moreover have "str_ok (to_rfc3339 E (c_as_of c))"
      using E by (simp add: crates_ok_def)
    ultimately show ?thesis
      using hex_str_ok [OF c(1)] hex_str_ok [OF c(2)] crates_uuid(3) [OF E]
      unfolding string_object_def list_all_iff entries by simp
  qed
  then have "json_from_slice E (as_bytes (json_to_string E (jobj ?kvs))) = Some (jobj ?kvs)"
    using E by (simp add: crates_ok_def jobj_def)
  then show ?thesis
    using E c crates_uuid [OF E]
    by (simp add: decode_cursor_def encode_cursor_def jobj_simps json_simps str_field_def parse_uuid_show crates_ok_def)
qed

lemma json_index_jobj: "json_index (jobj kvs) k = (case map_of (rev kvs) k of None \<Rightarrow> JNull | Some v \<Rightarrow> v)"
  by (simp add: json_index_def jobj_simps split: option.splits)

lemma opt_string_json_eq: "opt_string_json a = opt_string_json b \<longleftrightarrow> a = b"
  by (auto simp: opt_string_json_def split: option.splits)

lemma map_option_eq_inj:
  "map_option g a = map_option g b \<Longrightarrow> (\<And>x y. a = Some x \<Longrightarrow> b = Some y \<Longrightarrow> g x = g y \<Longrightarrow> x = y) \<Longrightarrow> a = b"
  by (cases a; cases b) auto

lemma show_inj:
  assumes "crates_ok E"
  shows "uuid_to_string E u = uuid_to_string E w \<Longrightarrow> u = w"
    and "assignee_string E a = assignee_string E b \<Longrightarrow> a = b"
    and "due_ok E d \<Longrightarrow> due_ok E e \<Longrightarrow> date_to_string E d = date_to_string E e \<Longrightarrow> d = e"
    and "view_sort_json E s = view_sort_json E t \<Longrightarrow> s = t"
    and "custom_ok E c \<Longrightarrow> custom_ok E k \<Longrightarrow> custom_filter_json E c = custom_filter_json E k \<Longrightarrow> c = k"
proof -
  show "uuid_to_string E u = uuid_to_string E w \<Longrightarrow> u = w"
    by (metis crates_uuid(1) [OF assms] option.inject)
  show "assignee_string E a = assignee_string E b \<Longrightarrow> a = b"
    by (metis parse_assignee_show [OF assms] sum.inject(2))
  show "due_ok E d \<Longrightarrow> due_ok E e \<Longrightarrow> date_to_string E d = date_to_string E e \<Longrightarrow> d = e"
    by (simp add: due_ok_def)
  show "view_sort_json E s = view_sort_json E t \<Longrightarrow> s = t"
    by (metis sort_round_trip [OF assms] sum.inject(2))
  show "custom_ok E c \<Longrightarrow> custom_ok E k \<Longrightarrow> custom_filter_json E c = custom_filter_json E k \<Longrightarrow> c = k"
    by (metis custom_filter_round_trip [OF assms] sum.inject(2))
qed

lemma map_json_inj:
  "map g xs = map g ys \<Longrightarrow> list_all P xs \<Longrightarrow> list_all P ys \<Longrightarrow> (\<And>x y. P x \<Longrightarrow> P y \<Longrightarrow> g x = g y \<Longrightarrow> x = y) \<Longrightarrow> xs = ys"
proof (induction xs arbitrary: ys)
  case (Cons x xs)
  then show ?case
    by (cases ys) auto
qed simp

lemma custom_index: "json_index (json_index (view_query_to_json E v) ''filters'') ''custom'' =
    (if f_custom (q_filters v) \<noteq> [] then JArray (map (custom_filter_json E) (f_custom (q_filters v))) else JNull)"
  by (simp add: view_query_to_json_def json_index_jobj) (simp add: json_index_def filters_lookup)

lemma sort_index: "json_index (view_query_to_json E v) ''sort'' = JArray (map (view_sort_json E) (q_sort v))"
  by (simp add: view_query_to_json_def json_index_jobj)

lemma fingerprint_injective:
  assumes E: "crates_ok E" and ok: "list_query_ok E q" "list_query_ok E q'"
    and eq: "fingerprint_payload E w p tz q = fingerprint_payload E w' p' tz' q'"
  shows "w = w' \<and> p = p' \<and> tz = tz' \<and> p_view q = p_view q' \<and> p_archived q = p_archived q' \<and>
    p_from q = p_from q' \<and> p_to q = p_to q'"
proof -
  let ?P = "fingerprint_payload E w p tz q" and ?P' = "fingerprint_payload E w' p' tz' q'"
  let ?f = "q_filters (p_view q)" and ?f' = "q_filters (p_view q')"
  note inj = show_inj [OF E]
  have vok: "view_filters_ok E ?f" "view_filters_ok E ?f'"
    using ok by (simp_all add: list_query_ok_def view_query_ok_def)
  have top: "json_index ?P k = json_index ?P' k" for k
    by (simp add: eq)
  have flt: "json_index (json_index (json_index ?P ''query'') ''filters'') k =
      json_index (json_index (json_index ?P' ''query'') ''filters'') k" for k
    by (simp add: eq)
  have srt: "json_index (json_index ?P ''query'') ''sort'' = json_index (json_index ?P' ''query'') ''sort''"
    by (simp add: eq)
  note fields = fingerprint_payload_def Let_def json_index_jobj opt_string_json_eq
  have "w = w'" "tz = tz'" "p_archived q = p_archived q'"
    using top [of "''workspaceId''"] top [of "''timeZone''"] top [of "''archived''"] by (auto simp: fields dest: inj(1))
  moreover have "p = p'"
    using top [of "''projectId''"] by (auto simp: fields dest!: inj(1) intro: map_option_eq_inj)
  moreover have "p_from q = p_from q'" "p_to q = p_to q'"
    using top [of "''from''"] top [of "''to''"] ok inj(3)
    by (auto simp: fields list_query_ok_def elim!: map_option_eq_inj split: option.splits)
  moreover have "f_task_type ?f = f_task_type ?f'" "f_priority ?f = f_priority ?f'" "f_title ?f = f_title ?f'"
    "f_open_only ?f = f_open_only ?f'"
    using flt [of "''type''"] flt [of "''priority''"] flt [of "''title''"] flt [of "''openOnly''"] by (auto simp: fields)
  moreover have "f_status_id ?f = f_status_id ?f'" "f_label_id ?f = f_label_id ?f'" "f_milestone_id ?f = f_milestone_id ?f'"
    "f_assignee_id ?f = f_assignee_id ?f'"
    using flt [of "''statusId''"] flt [of "''labelId''"] flt [of "''milestoneId''"] flt [of "''assigneeId''"]
    by (auto simp: fields elim!: map_option_eq_inj dest: inj(1,2))
  moreover have "f_due_before ?f = f_due_before ?f'"
    using flt [of "''dueBefore''"] vok inj(3) by (auto simp: fields view_filters_ok_def elim!: map_option_eq_inj)
  moreover have "f_custom ?f = f_custom ?f'"
  proof -
    have "map (custom_filter_json E) (f_custom ?f) = map (custom_filter_json E) (f_custom ?f')"
      using flt [of "''custom''"] by (auto simp: fields custom_index split: if_splits)
    then show ?thesis
      using vok by (auto simp: view_filters_ok_def elim!: map_json_inj dest: inj(5))
  qed
  moreover have "q_sort (p_view q) = q_sort (p_view q')"
  proof -
    have "map (view_sort_json E) (q_sort (p_view q)) = map (view_sort_json E) (q_sort (p_view q'))"
      using srt by (simp add: fields sort_index)
    then show ?thesis
      by (rule map_json_inj [where P = "\<lambda>_. True"]) (auto simp: list_all_iff dest: inj(4))
  qed
  ultimately show ?thesis
    by (auto intro!: view_query.equality view_filters.equality)
qed

section \<open>Functions that satisfy the laws\<close>

text \<open>A small stand-in for the crates, for the witnesses: 32 hexadecimal digits and padding for a
  UUID, dates and numbers as they are, and a tagged form of string objects.\<close>

fun hex_digits :: "nat \<Rightarrow> nat \<Rightarrow> string" where
  "hex_digits 0 v = []"
| "hex_digits (Suc n) v = (char_of (48 + v mod 16) :: char) # hex_digits n (v div 16)"

fun hex_number :: "string \<Rightarrow> nat" where
  "hex_number [] = 0"
| "hex_number (c # s) = (of_char c - 48) + 16 * hex_number s"

lemma length_hex_digits [simp]: "length (hex_digits n v) = n"
  by (induction n arbitrary: v) simp_all

lemma hex_number_digits: "v < 16 ^ n \<Longrightarrow> hex_number (hex_digits n v) = v"
proof (induction n arbitrary: v)
  case (Suc n)
  have "v div 16 < 16 ^ n"
    using Suc.prems by (simp add: less_mult_imp_div_less mult.commute)
  moreover have "(of_char (char_of (48 + v mod 16) :: char) :: nat) = 48 + v mod 16"
    by simp
  ultimately show ?case
    using Suc.IH by simp
qed simp

lemma ascii_hex_digits: "list_all (\<lambda>c. (of_char c :: nat) < 128) (hex_digits n v)"
proof (induction n arbitrary: v)
  case (Suc n)
  have "(of_char (char_of (48 + v mod 16) :: char) :: nat) = 48 + v mod 16"
    by simp
  with Suc show ?case
    by simp
qed simp

fun tag_string :: "string \<Rightarrow> string" where
  "tag_string [] = ''.''"
| "tag_string (c # s) = CHR ''x'' # c # tag_string s"

fun untag_string :: "string \<Rightarrow> (string \<times> string) option" where
  "untag_string (t # r) =
     (if t = CHR ''.'' then Some ([], r)
      else case r of [] \<Rightarrow> None | c # r \<Rightarrow> map_option (\<lambda>(s, r). (c # s, r)) (untag_string r))"
| "untag_string [] = None"

lemma untag_tag: "untag_string (tag_string s @ r) = Some (s, r)"
  by (induction s) simp_all

fun untag_pairs :: "nat \<Rightarrow> string \<Rightarrow> (string \<times> string) list" where
  "untag_pairs 0 s = []"
| "untag_pairs (Suc n) s =
     (case untag_string s of None \<Rightarrow> []
      | Some (k, r) \<Rightarrow> (case untag_string r of None \<Rightarrow> [] | Some (v, r) \<Rightarrow> (k, v) # untag_pairs n r))"

fun string_of_json :: "'n json \<Rightarrow> string" where
  "string_of_json (JString s) = s"
| "string_of_json _ = []"

definition tag_object :: "'n json_map \<Rightarrow> string" where
  "tag_object m = concat (map (\<lambda>(k, v). tag_string k @ tag_string (string_of_json v)) m)"

lemma tag_string_nonempty: "tag_string s \<noteq> []"
  by (cases s) auto

lemma length_tag_object: "length m \<le> length (tag_object m)"
proof (induction m)
  case (Cons e m)
  have "1 \<le> length (tag_string (fst e))"
    using tag_string_nonempty [of "fst e"] by (cases "tag_string (fst e)") auto
  with Cons show ?case
    by (simp add: tag_object_def case_prod_beta)
qed simp

lemma untag_tag_object:
  "list_all (\<lambda>e. \<exists>s. snd e = JString s) m \<Longrightarrow> length m \<le> n \<Longrightarrow>
   map (\<lambda>(k, v). (k, JString v)) (untag_pairs n (tag_object m)) = m"
proof (induction m arbitrary: n)
  case Nil
  then show ?case
    by (cases n) (simp_all add: tag_object_def)
next
  case (Cons e m)
  then obtain n' k s where "n = Suc n'" "e = (k, JString s)"
    by (cases n; cases e) auto
  with Cons show ?case
    by (simp add: tag_object_def untag_tag)
qed

definition sample_crates :: "(int, int, string, bool) crates" where
  "sample_crates = \<lparr>
     num_as_i64 = Some, num_as_f64 = Some, num_from_f64 = Some, f64_is_finite = (\<lambda>_. True),
     uuid_parse_str = (\<lambda>s. if length s = 36 then Some (of_nat (hex_number (take 32 s))) else None),
     uuid_to_string = (\<lambda>u. hex_digits 32 (unat u) @ ''----''),
     date_parse_from_str = Some, date_to_string = id, date_of = (\<lambda>_. ''2026-01-01''),
     parse_from_rfc3339 = (\<lambda>s. Some (s = ''1'')), to_rfc3339 = (\<lambda>b. if b then ''1'' else ''0''),
     iso_datetime_re = (\<lambda>_. True),
     json_from_slice = (\<lambda>bs. let s = map char_of_byte bs in
       Some (JObject (map (\<lambda>(k, v). (k, JString v)) (untag_pairs (length s) s)))),
     json_to_string = (\<lambda>v. case v of JObject m \<Rightarrow> tag_object m | _ \<Rightarrow> []),
     b64_url_encode = map char_of_byte, b64_url_decode = (\<lambda>s. Some (as_bytes s)),
     sha256 = id, hex_encode = map char_of_byte\<rparr>"

lemma sample_crates_ok: "crates_ok sample_crates"
proof -
  have "hex_number (hex_digits 32 (unat u)) = unat u" for u :: uuid
    using unat_less_pow [of u] by (intro hex_number_digits) simp
  moreover have "str_ok (hex_digits 32 v @ ''----'')" "str_ok ''1''" "str_ok ''0''" for v
    by (rule ascii_str_ok, simp add: ascii_hex_digits)+
  moreover have "map (\<lambda>(k, v). (k, JString v)) (untag_pairs (length (tag_object m)) (tag_object m)) = m"
    if "string_object m" for m :: "int json_map"
  proof (rule untag_tag_object)
    have "\<exists>s. v = JString s" if "case v of JString s \<Rightarrow> str_ok s | _ \<Rightarrow> False" for v :: "int json"
      using that by (cases v) auto
    with that show "list_all (\<lambda>e. \<exists>s. snd e = JString s) m"
      by (auto simp: string_object_def list_all_iff)
  qed (rule length_tag_object)
  moreover have "map char_of_byte (as_bytes s) = s" "as_bytes (map char_of_byte bs) = bs" for s bs
    by (simp_all add: as_bytes_def comp_def)
  ultimately show ?thesis
    by (simp add: crates_ok_def sample_crates_def Let_def)
qed

section \<open>Properties\<close>

text \<open>C35: The saved form of a view query is canonical: the queries the strict parser can return are
  exactly the well-formed ones (known types and priorities, a non-blank title of at most 1000
  characters without NUL, at most 25 custom filters and 3 sort keys, finite numbers, dates of the
  \<open>YYYY-MM-DD\<close> shape), and the JSON stored for such a query parses back to it.\<close>

theorem view_query_canonical:
  assumes "crates_ok E"
  shows "((\<exists>v. parse_view_query_value E v = Inr q) \<longleftrightarrow> view_query_ok E q) \<and>
    (view_query_ok E q \<longrightarrow> parse_view_query_value E (view_query_to_json E q) = Inr q)"
  using parse_view_query_ok [OF assms] query_round_trip [OF assms] by blast

theorem view_query_canonical_witness:
  "parse_view_query_value sample_crates (view_query_to_json sample_crates
     \<lparr>q_filters = view_filters_default\<lparr>f_task_type := Some ''bug'', f_assignee_id := Some (AUser 7),
        f_custom := [\<lparr>cf_field_id = 3, cf_operator = CEquals (CNumber 5)\<rparr>]\<rparr>,
      q_sort = [\<lparr>vs_field = SField 9, vs_direction = Desc\<rparr>]\<rparr>) =
   Inr \<lparr>q_filters = view_filters_default\<lparr>f_task_type := Some ''bug'', f_assignee_id := Some (AUser 7),
        f_custom := [\<lparr>cf_field_id = 3, cf_operator = CEquals (CNumber 5)\<rparr>]\<rparr>,
      q_sort = [\<lparr>vs_field = SField 9, vs_direction = Desc\<rparr>]\<rparr>"
proof -
  have "view_query_ok sample_crates \<lparr>q_filters = view_filters_default\<lparr>f_task_type := Some ''bug'',
        f_assignee_id := Some (AUser 7), f_custom := [\<lparr>cf_field_id = 3, cf_operator = CEquals (CNumber 5)\<rparr>]\<rparr>,
      q_sort = [\<lparr>vs_field = SField 9, vs_direction = Desc\<rparr>]\<rparr>"
    by (simp add: view_query_ok_def view_filters_ok_def view_filters_default_def custom_ok_def TASK_TYPES_def
        CUSTOM_FILTERS_MAX_def SORT_MAX_def sample_crates_def)
  with view_query_canonical [OF sample_crates_ok] show ?thesis
    by blast
qed

text \<open>C36: A parsed list request is within its bounds whatever the raw parameters: a page of 1 to 100
  rows, or up to 500 inside a date window, whose ends are both given, ordered and valid dates; a window
  excludes a cursor; a cursor carries two 64-digit hashes and fixes the reading time.\<close>

theorem task_list_query_bounded:
  assumes "crates_ok E" and "parse_task_list_query E now query_json archived cursor limit from to = Inr q"
  shows "list_query_ok E q"
  by (rule parse_list_query_ok [OF assms])

theorem task_list_query_bounded_witness:
  "\<exists>q. parse_task_list_query sample_crates False None (Some ''true'') None (Some 400) (Some ''2026-01-01'') (Some ''2026-02-01'') = Inr q \<and>
     list_query_ok sample_crates q \<and> p_limit q = 400"
proof -
  have "parse_iso_date sample_crates ''2026-01-01'' = Some ''2026-01-01''" "parse_iso_date sample_crates ''2026-02-01'' = Some ''2026-02-01''"
    by (simp_all add: parse_iso_date_def date_shape_def is_ascii_digit_def sample_crates_def Let_def)
  moreover have "parse_view_query sample_crates ''{}'' = Inr view_query_default"
    by (simp add: parse_view_query_def parse_view_query_value_def sample_crates_def as_bytes_def comp_def reject_iff
        view_query_default_def Let_def)
  moreover have "\<not> ''2026-02-01'' < ''2026-01-01''"
    by simp
  ultimately obtain q where
    "parse_task_list_query sample_crates False None (Some ''true'') None (Some 400) (Some ''2026-01-01'') (Some ''2026-02-01'') = Inr q"
    and "p_limit q = 400"
    by (simp add: parse_task_list_query_def parse_optional_date_def QUERY_JSON_MAX_def Let_def)
  with task_list_query_bounded [OF sample_crates_ok] show ?thesis
    by blast
qed

text \<open>C37: The cursor's fingerprint covers the whole request: if two accepted requests hash the same
  payload, they ask for the same workspace, project, time zone, filters, sort keys, archive flag and
  date window, so a cursor cannot be replayed under another reading of the list.\<close>

theorem fingerprint_covers_query:
  assumes "crates_ok E" and "list_query_ok E q" and "list_query_ok E q'"
    and "fingerprint_payload E w p tz q = fingerprint_payload E w' p' tz' q'"
  shows "w = w' \<and> p = p' \<and> tz = tz' \<and> p_view q = p_view q' \<and> p_archived q = p_archived q' \<and>
    p_from q = p_from q' \<and> p_to q = p_to q'"
  by (rule fingerprint_injective [OF assms])

theorem fingerprint_covers_query_witness:
  "fingerprint_payload sample_crates 1 None ''UTC''
     \<lparr>p_view = view_query_default, p_archived = False, p_limit = 50, p_from = None, p_to = None, p_cursor = None, p_as_of = True\<rparr> \<noteq>
   fingerprint_payload sample_crates 1 (Some 2) ''UTC''
     \<lparr>p_view = view_query_default, p_archived = False, p_limit = 10, p_from = None, p_to = None, p_cursor = None, p_as_of = True\<rparr>"
  (is "fingerprint_payload _ _ _ _ ?q \<noteq> fingerprint_payload _ _ _ _ ?q'")
proof -
  have "list_query_ok sample_crates ?q" "list_query_ok sample_crates ?q'"
    by (simp_all add: list_query_ok_def view_query_ok_def view_filters_ok_def view_query_default_def view_filters_default_def)
  from fingerprint_covers_query [OF sample_crates_ok this, of 1 None "''UTC''" 1 "Some 2" "''UTC''"] show ?thesis
    by blast
qed

text \<open>A page cursor handed to a client decodes to itself, provided its two hashes are the 64
  lower-case hexadecimal digits the server computes.\<close>

lemma cursor_round_trip:
  assumes "crates_ok E" and "is_lower_hex_64 (c_key_hash c)" and "is_lower_hex_64 (c_f c)"
  shows "decode_cursor E (encode_cursor E c) = Inr c"
  by (rule cursor_round_trip_lemma [OF assms])

lemma cursor_round_trip_witness:
  "decode_cursor sample_crates (encode_cursor sample_crates
     \<lparr>c_id = 5, c_key_hash = replicate 64 CHR ''a'', c_f = replicate 64 CHR ''0'', c_as_of = True\<rparr>) =
   Inr \<lparr>c_id = 5, c_key_hash = replicate 64 CHR ''a'', c_f = replicate 64 CHR ''0'', c_as_of = True\<rparr>"
  by (rule cursor_round_trip [OF sample_crates_ok]) (simp_all add: is_lower_hex_64_def list_all_iff)

end
