(* ===== verification/Collections.thy ===== *)
theory Collections
  imports ViewQuery
begin

text \<open>
  Input contracts of collections, their fields and values, and saved views
  (\<open>src/collections.rs\<close>): bodies are strict JSON objects, and anything unknown, of the wrong
  type or out of range is refused. Versions are \<open>i32\<close> and limits \<open>i64\<close>, kept as
  integers with the range checks of the code.
\<close>

section \<open>Constants and the data\<close>

definition NAME_MAX :: nat where "NAME_MAX = 100"
definition FIELD_KEY_MAX :: nat where "FIELD_KEY_MAX = 50"
definition FIELD_DESCRIPTION_MAX :: nat where "FIELD_DESCRIPTION_MAX = 2000"
definition CREATE_OPTIONS_MAX :: nat where "CREATE_OPTIONS_MAX = 50"
definition PATCH_OPTIONS_MAX :: nat where "PATCH_OPTIONS_MAX = 200"
definition VALUE_TEXT_MAX :: nat where "VALUE_TEXT_MAX = 10000"
definition VALUE_OPTIONS_MAX :: nat where "VALUE_OPTIONS_MAX = 200"
definition VALUE_USERS_MAX :: nat where "VALUE_USERS_MAX = 100"
definition QUERY_LIMIT_MAX :: int where "QUERY_LIMIT_MAX = 100"
definition QUERY_LIMIT_DEFAULT :: int where "QUERY_LIMIT_DEFAULT = 50"
definition GROUP_MAX :: nat where "GROUP_MAX = 200"
definition COLLECTION_CURSOR_MAX :: nat where "COLLECTION_CURSOR_MAX = 1024"
definition TIME_ZONE_MAX :: nat where "TIME_ZONE_MAX = 100"

datatype invalid_input = Invalid_Input

datatype field_type =
  FText | FParagraph | FNumber | FDate | FDatetime | FCheckbox | FSelect | FMultiSelect | FCheckboxes | FUser | FUserMulti | FLabels

definition field_type_parse :: "string \<Rightarrow> field_type option" where
  "field_type_parse s = map_of
     [(''text'', FText), (''paragraph'', FParagraph), (''number'', FNumber), (''date'', FDate), (''datetime'', FDatetime),
      (''checkbox'', FCheckbox), (''select'', FSelect), (''multi_select'', FMultiSelect), (''checkboxes'', FCheckboxes),
      (''user'', FUser), (''user_multi'', FUserMulti), (''labels'', FLabels)] s"

fun field_type_as_str :: "field_type \<Rightarrow> string" where
  "field_type_as_str FText = ''text''"
| "field_type_as_str FParagraph = ''paragraph''"
| "field_type_as_str FNumber = ''number''"
| "field_type_as_str FDate = ''date''"
| "field_type_as_str FDatetime = ''datetime''"
| "field_type_as_str FCheckbox = ''checkbox''"
| "field_type_as_str FSelect = ''select''"
| "field_type_as_str FMultiSelect = ''multi_select''"
| "field_type_as_str FCheckboxes = ''checkboxes''"
| "field_type_as_str FUser = ''user''"
| "field_type_as_str FUserMulti = ''user_multi''"
| "field_type_as_str FLabels = ''labels''"

definition has_options :: "field_type \<Rightarrow> bool" where
  "has_options t \<longleftrightarrow> t \<in> {FSelect, FMultiSelect, FCheckboxes, FLabels}"

definition is_people :: "field_type \<Rightarrow> bool" where
  "is_people t \<longleftrightarrow> t \<in> {FUser, FUserMulti}"

datatype ('f, 'd, 't) collection_value =
  VNull | VText string | VNumber 'f | VDate 'd | VDatetime 't | VCheckbox bool | VOptions "uuid list" | VUsers "uuid list"

fun fits :: "('f, 'd, 't) collection_value \<Rightarrow> field_type \<Rightarrow> bool" where
  "fits VNull t = True"
| "fits (VText _) t = (t \<in> {FText, FParagraph})"
| "fits (VNumber _) t = (t = FNumber)"
| "fits (VDate _) t = (t = FDate)"
| "fits (VDatetime _) t = (t = FDatetime)"
| "fits (VCheckbox _) t = (t = FCheckbox)"
| "fits (VUsers _) t = is_people t"
| "fits (VOptions _) t = has_options t"

section \<open>Pieces of bodies\<close>

definition object :: "'n json \<Rightarrow> invalid_input + 'n json_map" where
  "object v = ok_or (as_object v) Invalid_Input"

definition only_keys :: "'n json_map \<Rightarrow> string list \<Rightarrow> invalid_input + unit" where
  "only_keys m allowed = (if list_all (\<lambda>e. fst e \<in> set allowed) m then Inr () else Inl Invalid_Input)"

text \<open>\<open>o.get(key).ok_or(InvalidInput)?\<close>.\<close>

definition required :: "'n json_map \<Rightarrow> string \<Rightarrow> invalid_input + 'n json" where
  "required m k = ok_or (map_of m k) Invalid_Input"

definition uuid_str :: "('n, 'f, 'd, 't) crates \<Rightarrow> 'n json \<Rightarrow> invalid_input + uuid" where
  "uuid_str E v = rbind (ok_or (as_str v) Invalid_Input) (\<lambda>raw.
     if length raw \<noteq> 36 then Inl Invalid_Input else ok_or (uuid_parse_str E raw) Invalid_Input)"

definition parse_name :: "'n json \<Rightarrow> invalid_input + string" where
  "parse_name v = rbind (ok_or (as_str v) Invalid_Input) (\<lambda>raw.
     let trimmed = trim raw; len = utf16_count trimmed in
     if len = 0 \<or> len > NAME_MAX \<or> CHR 0x00 \<in> set trimmed then Inl Invalid_Input else Inr trimmed)"

definition positive_int :: "('n, 'f, 'd, 't) crates \<Rightarrow> 'n json \<Rightarrow> invalid_input + int" where
  "positive_int E v = rbind (ok_or (case v of JNumber n \<Rightarrow> num_as_i64 E n | _ \<Rightarrow> None) Invalid_Input) (\<lambda>number.
     if number < 1 \<or> number > 2 ^ 31 - 1 then Inl Invalid_Input else Inr number)"

definition limited_string :: "nat \<Rightarrow> 'n json \<Rightarrow> invalid_input + string" where
  "limited_string max_units v = rbind (ok_or (as_str v) Invalid_Input) (\<lambda>raw.
     if utf16_count raw > max_units \<or> CHR 0x00 \<in> set raw then Inl Invalid_Input else Inr raw)"

text \<open>\<open>o.get(key).and_then(Value::as_str).and_then(parse).ok_or(InvalidInput)?\<close>.\<close>

definition enum_field :: "'n json_map \<Rightarrow> string \<Rightarrow> (string \<Rightarrow> 'a option) \<Rightarrow> invalid_input + 'a" where
  "enum_field m k p = ok_or (Option.bind (Option.bind (map_of m k) as_str) p) Invalid_Input"

text \<open>A field that may be absent, null or present: \<open>Option<Option<T>>\<close>.\<close>

definition nullable_field :: "'n json_map \<Rightarrow> string \<Rightarrow> ('n json \<Rightarrow> 'e + 'a) \<Rightarrow> 'e + 'a option option" where
  "nullable_field m k p = (case map_of m k of
     None \<Rightarrow> Inr None
   | Some JNull \<Rightarrow> Inr (Some None)
   | Some v \<Rightarrow> rbind (p v) (\<lambda>a. Inr (Some (Some a))))"

definition bool_value :: "'n json \<Rightarrow> invalid_input + bool" where
  "bool_value v = ok_or (as_bool v) Invalid_Input"

section \<open>Collections and fields\<close>

datatype collection_kind = KDocument | KTask

definition collection_kind_parse :: "string \<Rightarrow> collection_kind option" where
  "collection_kind_parse s = map_of [(''document'', KDocument), (''task'', KTask)] s"

fun collection_kind_as_str :: "collection_kind \<Rightarrow> string" where
  "collection_kind_as_str KDocument = ''document''"
| "collection_kind_as_str KTask = ''task''"

record collection_create_input =
  cc_name :: string
  cc_kind :: collection_kind
  cc_project_id :: "uuid option"

definition parse_collection_create :: "('n, 'f, 'd, 't) crates \<Rightarrow> 'n json \<Rightarrow> invalid_input + collection_create_input" where
  "parse_collection_create E body =
     rbind (object body) (\<lambda>m.
     rbind (only_keys m [''name'', ''kind'', ''projectId'']) (\<lambda>_.
     rbind (required m ''name'') (\<lambda>nv.
     rbind (parse_name nv) (\<lambda>name.
     rbind (enum_field m ''kind'' collection_kind_parse) (\<lambda>kind.
     rbind (required m ''projectId'') (\<lambda>pv.
     rbind (case pv of JNull \<Rightarrow> Inr None | _ \<Rightarrow> rbind (uuid_str E pv) (\<lambda>u. Inr (Some u))) (\<lambda>project_id.
     if kind = KTask \<and> project_id = None then Inl Invalid_Input
     else Inr \<lparr>cc_name = name, cc_kind = kind, cc_project_id = project_id\<rparr>)))))))"

record field_create_input =
  fc_name :: string
  fc_key :: "string option"
  fc_field_type :: field_type
  fc_description :: "string option"
  fc_options :: "string list"

definition ascii_lower :: "char \<Rightarrow> bool" where
  "ascii_lower c = (let n = (of_char c :: nat) in 97 \<le> n \<and> n \<le> 122)"

definition field_key_is_valid :: "string \<Rightarrow> bool" where
  "field_key_is_valid key = (case key of
     [] \<Rightarrow> False
   | c # cs \<Rightarrow> ascii_lower c \<and> list_all (\<lambda>ch. ascii_lower ch \<or> is_ascii_digit ch \<or> ch = CHR ''_'') cs \<and>
       length key \<le> FIELD_KEY_MAX)"

definition parse_field_key :: "'n json \<Rightarrow> invalid_input + string" where
  "parse_field_key v = rbind (ok_or (as_str v) Invalid_Input) (\<lambda>raw.
     if \<not> field_key_is_valid raw then Inl Invalid_Input else Inr raw)"

definition parse_option_names :: "'n json \<Rightarrow> invalid_input + string list" where
  "parse_option_names v = rbind (ok_or (as_array v) Invalid_Input) (\<lambda>arr.
     if length arr > CREATE_OPTIONS_MAX then Inl Invalid_Input else parse_each parse_name arr)"

definition parse_field_create :: "'n json \<Rightarrow> invalid_input + field_create_input" where
  "parse_field_create body =
     rbind (object body) (\<lambda>m.
     rbind (only_keys m [''name'', ''key'', ''type'', ''description'', ''options'']) (\<lambda>_.
     rbind (required m ''name'') (\<lambda>nv.
     rbind (parse_name nv) (\<lambda>name.
     rbind (opt_field m ''key'' parse_field_key) (\<lambda>key.
     rbind (enum_field m ''type'' field_type_parse) (\<lambda>field_type.
     rbind (rbind (nullable_field m ''description'' (limited_string FIELD_DESCRIPTION_MAX))
              (\<lambda>d. Inr (Option.bind d id))) (\<lambda>description.
     rbind (case map_of m ''options'' of None \<Rightarrow> Inr [] | Some v \<Rightarrow> parse_option_names v) (\<lambda>options.
     if options \<noteq> [] \<and> \<not> has_options field_type then Inl Invalid_Input
     else Inr \<lparr>fc_name = name, fc_key = key, fc_field_type = field_type, fc_description = description,
       fc_options = options\<rparr>))))))))"

record option_patch =
  op_id :: "uuid option"
  op_label :: string
  op_deleted :: bool

record field_patch_input =
  fp_expected_version :: int
  fp_name :: "string option"
  fp_description :: "string option option"
  fp_deleted :: "bool option"
  fp_options :: "option_patch list option"

definition parse_option_patch :: "('n, 'f, 'd, 't) crates \<Rightarrow> 'n json \<Rightarrow> invalid_input + option_patch" where
  "parse_option_patch E entry =
     rbind (object entry) (\<lambda>e.
     rbind (only_keys e [''id'', ''label'', ''deleted'']) (\<lambda>_.
     rbind (opt_field e ''id'' (uuid_str E)) (\<lambda>i.
     rbind (required e ''label'') (\<lambda>lv.
     rbind (parse_name lv) (\<lambda>label.
     rbind (case map_of e ''deleted'' of None \<Rightarrow> Inr False | Some flag \<Rightarrow> bool_value flag) (\<lambda>deleted.
     Inr \<lparr>op_id = i, op_label = label, op_deleted = deleted\<rparr>))))))"

definition parse_option_patches :: "('n, 'f, 'd, 't) crates \<Rightarrow> 'n json \<Rightarrow> invalid_input + option_patch list" where
  "parse_option_patches E v = rbind (ok_or (as_array v) Invalid_Input) (\<lambda>arr.
     if length arr > PATCH_OPTIONS_MAX then Inl Invalid_Input else parse_each (parse_option_patch E) arr)"

definition parse_field_patch :: "('n, 'f, 'd, 't) crates \<Rightarrow> 'n json \<Rightarrow> invalid_input + field_patch_input" where
  "parse_field_patch E body =
     rbind (object body) (\<lambda>m.
     rbind (only_keys m [''expectedVersion'', ''name'', ''description'', ''deleted'', ''options'']) (\<lambda>_.
     rbind (required m ''expectedVersion'') (\<lambda>vv.
     rbind (positive_int E vv) (\<lambda>expected_version.
     rbind (opt_field m ''name'' parse_name) (\<lambda>name.
     rbind (nullable_field m ''description'' (limited_string FIELD_DESCRIPTION_MAX)) (\<lambda>description.
     rbind (opt_field m ''deleted'' bool_value) (\<lambda>deleted.
     rbind (opt_field m ''options'' (parse_option_patches E)) (\<lambda>options.
     if name = None \<and> description = None \<and> deleted = None \<and> options = None then Inl Invalid_Input
     else Inr \<lparr>fp_expected_version = expected_version, fp_name = name, fp_description = description,
       fp_deleted = deleted, fp_options = options\<rparr>))))))))"

section \<open>Items and values\<close>

datatype attach_target = AttachDocument uuid | AttachTask uuid

definition parse_attach :: "('n, 'f, 'd, 't) crates \<Rightarrow> 'n json \<Rightarrow> invalid_input + attach_target" where
  "parse_attach E body =
     rbind (object body) (\<lambda>m.
     if length m \<noteq> 1 then Inl Invalid_Input
     else case map_of m ''documentId'' of
       Some v \<Rightarrow> rbind (uuid_str E v) (\<lambda>u. Inr (AttachDocument u))
     | None \<Rightarrow> (case map_of m ''taskId'' of
         Some v \<Rightarrow> rbind (uuid_str E v) (\<lambda>u. Inr (AttachTask u))
       | None \<Rightarrow> Inl Invalid_Input))"

definition uuid_list :: "('n, 'f, 'd, 't) crates \<Rightarrow> nat \<Rightarrow> 'n json \<Rightarrow> invalid_input + uuid list" where
  "uuid_list E max_len v = rbind (ok_or (as_array v) Invalid_Input) (\<lambda>arr.
     if length arr > max_len then Inl Invalid_Input else parse_each (uuid_str E) arr)"

definition parse_typed_value :: "('n, 'f, 'd, 't) crates \<Rightarrow> string \<Rightarrow> 'n json \<Rightarrow> invalid_input + ('f, 'd, 't) collection_value" where
  "parse_typed_value E key inner =
     (if key = ''text'' then rbind (limited_string VALUE_TEXT_MAX inner) (\<lambda>s. Inr (VText s))
      else if key = ''number'' then
        rbind (ok_or (case inner of JNumber n \<Rightarrow> num_as_f64 E n | _ \<Rightarrow> None) Invalid_Input) (\<lambda>number.
        if \<not> f64_is_finite E number then Inl Invalid_Input else Inr (VNumber number))
      else if key = ''date'' then
        rbind (ok_or (Option.bind (as_str inner) (parse_iso_date E)) Invalid_Input) (\<lambda>d. Inr (VDate d))
      else if key = ''datetime'' then
        rbind (ok_or (Option.bind (as_str inner) (parse_iso_datetime E)) Invalid_Input) (\<lambda>t. Inr (VDatetime t))
      else if key = ''checkbox'' then rbind (bool_value inner) (\<lambda>b. Inr (VCheckbox b))
      else if key = ''options'' then rbind (uuid_list E VALUE_OPTIONS_MAX inner) (\<lambda>us. Inr (VOptions us))
      else if key = ''users'' then rbind (uuid_list E VALUE_USERS_MAX inner) (\<lambda>us. Inr (VUsers us))
      else Inl Invalid_Input)"

definition parse_collection_value :: "('n, 'f, 'd, 't) crates \<Rightarrow> 'n json \<Rightarrow> invalid_input + ('f, 'd, 't) collection_value" where
  "parse_collection_value E v =
     (if is_null v then Inr VNull
      else rbind (object v) (\<lambda>m. case m of [(key, inner)] \<Rightarrow> parse_typed_value E key inner | _ \<Rightarrow> Inl Invalid_Input))"

record ('f, 'd, 't) value_input =
  vi_field_id :: uuid
  vi_expected_version :: int
  vi_expected_field_version :: int
  vi_value :: "('f, 'd, 't) collection_value"

definition parse_value_input :: "('n, 'f, 'd, 't) crates \<Rightarrow> 'n json \<Rightarrow> invalid_input + ('f, 'd, 't) value_input" where
  "parse_value_input E body =
     rbind (object body) (\<lambda>m.
     rbind (only_keys m [''fieldId'', ''expectedVersion'', ''expectedFieldVersion'', ''value'']) (\<lambda>_.
     rbind (required m ''fieldId'') (\<lambda>fv. rbind (uuid_str E fv) (\<lambda>field_id.
     rbind (required m ''expectedVersion'') (\<lambda>ev. rbind (positive_int E ev) (\<lambda>expected_version.
     rbind (required m ''expectedFieldVersion'') (\<lambda>fev. rbind (positive_int E fev) (\<lambda>expected_field_version.
     rbind (required m ''value'') (\<lambda>vv. rbind (parse_collection_value E vv) (\<lambda>v.
     Inr \<lparr>vi_field_id = field_id, vi_expected_version = expected_version,
       vi_expected_field_version = expected_field_version, vi_value = v\<rparr>))))))))))"

section \<open>Queries and views\<close>

datatype group_by = GStatus | GField uuid
datatype date_by = DDue | DStart | DField uuid

record ('f, 'd) query_config =
  qc_query :: "('f, 'd) view_query"
  qc_group_by :: "group_by option"
  qc_date_by :: "date_by option"

definition query_config_to_json :: "('n, 'f, 'd, 't) crates \<Rightarrow> ('f, 'd) query_config \<Rightarrow> 'n json" where
  "query_config_to_json E c = jobj
     [(''query'', view_query_to_json E (qc_query c)),
      (''groupBy'', case qc_group_by c of
         None \<Rightarrow> JNull | Some GStatus \<Rightarrow> JString ''status'' | Some (GField i) \<Rightarrow> JString (uuid_to_string E i)),
      (''dateBy'', case qc_date_by c of
         None \<Rightarrow> JNull | Some DDue \<Rightarrow> JString ''due'' | Some DStart \<Rightarrow> JString ''start''
       | Some (DField i) \<Rightarrow> JString (uuid_to_string E i))]"

definition query_has_nul :: "('f, 'd) view_query \<Rightarrow> bool" where
  "query_has_nul q \<longleftrightarrow> (case f_title (q_filters q) of None \<Rightarrow> False | Some s \<Rightarrow> CHR 0x00 \<in> set s) \<or>
     list_ex (\<lambda>f. case cf_operator f of CEquals (CText s) \<Rightarrow> CHR 0x00 \<in> set s | _ \<Rightarrow> False) (f_custom (q_filters q))"

definition parse_query_config :: "('n, 'f, 'd, 't) crates \<Rightarrow> 'n json \<Rightarrow> invalid_input + ('f, 'd) query_config" where
  "parse_query_config E v =
     rbind (object v) (\<lambda>m.
     rbind (only_keys m [''query'', ''groupBy'', ''dateBy'']) (\<lambda>_.
     rbind (case map_of m ''query'' of
              None \<Rightarrow> Inr view_query_default
            | Some qv \<Rightarrow> map_err (\<lambda>_. Invalid_Input) (parse_view_query_value E qv)) (\<lambda>query.
     if query_has_nul query then Inl Invalid_Input
     else
       rbind (case map_of m ''groupBy'' of
                None \<Rightarrow> Inr None
              | Some other \<Rightarrow>
                  if other = JNull then Inr None
                  else if other = JString ''status'' then Inr (Some GStatus)
                  else rbind (uuid_str E other) (\<lambda>u. Inr (Some (GField u)))) (\<lambda>group_by.
       rbind (case map_of m ''dateBy'' of
                None \<Rightarrow> Inr None
              | Some other \<Rightarrow>
                  if other = JNull then Inr None
                  else if other = JString ''due'' then Inr (Some DDue)
                  else if other = JString ''start'' then Inr (Some DStart)
                  else rbind (uuid_str E other) (\<lambda>u. Inr (Some (DField u)))) (\<lambda>date_by.
       Inr \<lparr>qc_query = query, qc_group_by = group_by, qc_date_by = date_by\<rparr>)))))"

record 'd calendar_window =
  w_from :: 'd
  w_to :: 'd
  w_time_zone :: string

record ('f, 'd) query_input =
  qi_config :: "('f, 'd) query_config"
  qi_group :: "string option option"
  qi_day :: "'d option option"
  qi_window :: "'d calendar_window option"
  qi_cursor :: "string option"
  qi_limit :: int

definition parse_window :: "('n, 'f, 'd, 't) crates \<Rightarrow> 'n json \<Rightarrow> invalid_input + 'd calendar_window" where
  "parse_window E v =
     rbind (object v) (\<lambda>w.
     rbind (only_keys w [''from'', ''to'', ''timeZone'']) (\<lambda>_.
     rbind (enum_field w ''timeZone'' Some) (\<lambda>time_zone.
     if time_zone = [] \<or> utf16_count time_zone > TIME_ZONE_MAX then Inl Invalid_Input
     else
       rbind (enum_field w ''from'' (parse_iso_date E)) (\<lambda>from.
       rbind (enum_field w ''to'' (parse_iso_date E)) (\<lambda>to.
       Inr \<lparr>w_from = from, w_to = to, w_time_zone = time_zone\<rparr>)))))"

definition parse_query_limit :: "('n, 'f, 'd, 't) crates \<Rightarrow> 'n json option \<Rightarrow> invalid_input + int" where
  "parse_query_limit E v = (case v of
     None \<Rightarrow> Inr QUERY_LIMIT_DEFAULT
   | Some v \<Rightarrow> rbind (ok_or (case v of JNumber n \<Rightarrow> num_as_i64 E n | _ \<Rightarrow> None) Invalid_Input) (\<lambda>limit.
       if \<not> (1 \<le> limit \<and> limit \<le> QUERY_LIMIT_MAX) then Inl Invalid_Input else Inr limit))"

definition parse_query_input :: "('n, 'f, 'd, 't) crates \<Rightarrow> 'n json \<Rightarrow> invalid_input + ('f, 'd) query_input" where
  "parse_query_input E body =
     rbind (object body) (\<lambda>m.
     rbind (only_keys m [''config'', ''group'', ''day'', ''window'', ''cursor'', ''limit'']) (\<lambda>_.
     rbind (required m ''config'') (\<lambda>cv.
     rbind (parse_query_config E cv) (\<lambda>config.
     rbind (nullable_field m ''group'' (limited_string GROUP_MAX)) (\<lambda>group.
     rbind (nullable_field m ''day'' (\<lambda>v. ok_or (Option.bind (as_str v) (parse_iso_date E)) Invalid_Input)) (\<lambda>day.
     rbind (opt_field m ''window'' (parse_window E)) (\<lambda>window.
     rbind (opt_field m ''cursor'' (limited_string COLLECTION_CURSOR_MAX)) (\<lambda>cursor.
     rbind (parse_query_limit E (map_of m ''limit'')) (\<lambda>limit.
     Inr \<lparr>qi_config = config, qi_group = group, qi_day = day, qi_window = window, qi_cursor = cursor,
       qi_limit = limit\<rparr>)))))))))"

datatype collection_view_type = ViewTable | ViewBoard | ViewCalendar
datatype visibility = Private | Shared

definition view_type_parse :: "string \<Rightarrow> collection_view_type option" where
  "view_type_parse s = map_of [(''table'', ViewTable), (''board'', ViewBoard), (''calendar'', ViewCalendar)] s"

fun view_type_as_str :: "collection_view_type \<Rightarrow> string" where
  "view_type_as_str ViewTable = ''table''"
| "view_type_as_str ViewBoard = ''board''"
| "view_type_as_str ViewCalendar = ''calendar''"

definition visibility_parse :: "string \<Rightarrow> visibility option" where
  "visibility_parse s = map_of [(''private'', Private), (''shared'', Shared)] s"

fun visibility_as_str :: "visibility \<Rightarrow> string" where
  "visibility_as_str Private = ''private''"
| "visibility_as_str Shared = ''shared''"

record ('f, 'd) collection_view_input =
  cv_name :: string
  cv_view_type :: collection_view_type
  cv_visibility :: visibility
  cv_config :: "('f, 'd) query_config"
  cv_expected_version :: "int option"

definition parse_collection_view :: "('n, 'f, 'd, 't) crates \<Rightarrow> 'n json \<Rightarrow> bool \<Rightarrow> invalid_input + ('f, 'd) collection_view_input" where
  "parse_collection_view E body patch =
     rbind (object body) (\<lambda>m.
     rbind (if patch then only_keys m [''name'', ''type'', ''visibility'', ''config'', ''expectedVersion'']
            else only_keys m [''name'', ''type'', ''visibility'', ''config'']) (\<lambda>_.
     rbind (required m ''name'') (\<lambda>nv. rbind (parse_name nv) (\<lambda>name.
     rbind (enum_field m ''type'' view_type_parse) (\<lambda>view_type.
     rbind (enum_field m ''visibility'' visibility_parse) (\<lambda>visib.
     rbind (required m ''config'') (\<lambda>cv. rbind (parse_query_config E cv) (\<lambda>config.
     rbind (if patch then rbind (required m ''expectedVersion'') (\<lambda>ev. rbind (positive_int E ev) (\<lambda>n. Inr (Some n)))
            else Inr None) (\<lambda>expected_version.
     Inr \<lparr>cv_name = name, cv_view_type = view_type, cv_visibility = visib, cv_config = config,
       cv_expected_version = expected_version\<rparr>)))))))))"

definition PROJECT_VIEW_TYPES :: "string list" where
  "PROJECT_VIEW_TYPES = [''list'', ''board'', ''calendar'', ''gantt'', ''table'']"

record ('f, 'd) project_view_create_input =
  pc_name :: string
  pc_view_type :: string
  pc_config :: "('f, 'd) view_query"

definition parse_project_view_create :: "('n, 'f, 'd, 't) crates \<Rightarrow> 'n json \<Rightarrow> invalid_input + ('f, 'd) project_view_create_input" where
  "parse_project_view_create E body =
     rbind (object body) (\<lambda>m.
     rbind (only_keys m [''name'', ''type'', ''config'']) (\<lambda>_.
     rbind (enum_field m ''type'' Some) (\<lambda>view_type.
     if view_type \<notin> set PROJECT_VIEW_TYPES then Inl Invalid_Input
     else
       rbind (required m ''name'') (\<lambda>nv. rbind (parse_name nv) (\<lambda>name.
       rbind (required m ''config'') (\<lambda>cv.
       rbind (map_err (\<lambda>_. Invalid_Input) (parse_view_query_value E cv)) (\<lambda>config.
       Inr \<lparr>pc_name = name, pc_view_type = view_type, pc_config = config\<rparr>)))))))"

record ('f, 'd) project_view_patch_input =
  pp_name :: "string option"
  pp_config :: "('f, 'd) view_query option"
  pp_expected_config :: "('f, 'd) view_query option"

definition parse_project_view_patch :: "('n, 'f, 'd, 't) crates \<Rightarrow> 'n json \<Rightarrow> invalid_input + ('f, 'd) project_view_patch_input" where
  "parse_project_view_patch E body =
     rbind (object body) (\<lambda>m.
     rbind (only_keys m [''name'', ''config'', ''expectedConfig'']) (\<lambda>_.
     let parse_query = (\<lambda>v. map_err (\<lambda>_. Invalid_Input) (parse_view_query_value E v)) in
     rbind (opt_field m ''name'' parse_name) (\<lambda>name.
     rbind (opt_field m ''config'' parse_query) (\<lambda>config.
     rbind (opt_field m ''expectedConfig'' parse_query) (\<lambda>expected_config.
     if name = None \<and> config = None then Inl Invalid_Input
     else if config \<noteq> None \<and> expected_config = None then Inl Invalid_Input
     else Inr \<lparr>pp_name = name, pp_config = config, pp_expected_config = expected_config\<rparr>)))))"

section \<open>What accepted bodies satisfy\<close>

definition name_ok :: "string \<Rightarrow> bool" where
  "name_ok s \<longleftrightarrow> 1 \<le> utf16_count s \<and> utf16_count s \<le> NAME_MAX \<and> CHR 0x00 \<notin> set s"

definition text_ok :: "nat \<Rightarrow> string \<Rightarrow> bool" where
  "text_ok n s \<longleftrightarrow> utf16_count s \<le> n \<and> CHR 0x00 \<notin> set s"

definition version_ok :: "int \<Rightarrow> bool" where
  "version_ok n \<longleftrightarrow> 1 \<le> n \<and> n < 2 ^ 31"

definition field_create_ok :: "field_create_input \<Rightarrow> bool" where
  "field_create_ok f \<longleftrightarrow> name_ok (fc_name f) \<and> pred_option field_key_is_valid (fc_key f) \<and>
     pred_option (text_ok FIELD_DESCRIPTION_MAX) (fc_description f) \<and> length (fc_options f) \<le> CREATE_OPTIONS_MAX \<and>
     list_all name_ok (fc_options f) \<and> (fc_options f \<noteq> [] \<longrightarrow> has_options (fc_field_type f))"

definition field_patch_ok :: "field_patch_input \<Rightarrow> bool" where
  "field_patch_ok p \<longleftrightarrow> version_ok (fp_expected_version p) \<and> pred_option name_ok (fp_name p) \<and>
     pred_option (pred_option (text_ok FIELD_DESCRIPTION_MAX)) (fp_description p) \<and>
     pred_option (\<lambda>os. length os \<le> PATCH_OPTIONS_MAX \<and> list_all (\<lambda>e. name_ok (op_label e)) os) (fp_options p) \<and>
     (fp_name p \<noteq> None \<or> fp_description p \<noteq> None \<or> fp_deleted p \<noteq> None \<or> fp_options p \<noteq> None)"

fun value_ok :: "('n, 'f, 'd, 't) crates \<Rightarrow> ('f, 'd, 't) collection_value \<Rightarrow> bool" where
  "value_ok E (VText s) = text_ok VALUE_TEXT_MAX s"
| "value_ok E (VNumber x) = f64_is_finite E x"
| "value_ok E (VOptions us) = (length us \<le> VALUE_OPTIONS_MAX)"
| "value_ok E (VUsers us) = (length us \<le> VALUE_USERS_MAX)"
| "value_ok E _ = True"

definition query_input_ok :: "('n, 'f, 'd, 't) crates \<Rightarrow> ('f, 'd) query_input \<Rightarrow> bool" where
  "query_input_ok E q \<longleftrightarrow> view_query_ok E (qc_query (qi_config q)) \<and> 1 \<le> qi_limit q \<and> qi_limit q \<le> QUERY_LIMIT_MAX \<and>
     pred_option (pred_option (text_ok GROUP_MAX)) (qi_group q) \<and> pred_option (text_ok COLLECTION_CURSOR_MAX) (qi_cursor q) \<and>
     pred_option (\<lambda>w. w_time_zone w \<noteq> [] \<and> utf16_count (w_time_zone w) \<le> TIME_ZONE_MAX) (qi_window q)"

section \<open>Lemmas\<close>

lemma parse_name_ok: "parse_name v = Inr s \<Longrightarrow> name_ok s"
  by (auto simp: parse_name_def name_ok_def result_simps Let_def split: if_splits)

lemma limited_string_ok: "limited_string n v = Inr s \<Longrightarrow> text_ok n s"
  by (auto simp: limited_string_def text_ok_def result_simps split: if_splits)

lemma positive_int_ok: "positive_int E v = Inr n \<Longrightarrow> version_ok n"
  by (auto simp: positive_int_def version_ok_def result_simps split: if_splits)

lemma nullable_pred: "nullable_field m k p = Inr a \<Longrightarrow> (\<And>v b. p v = Inr b \<Longrightarrow> P b) \<Longrightarrow> pred_option (pred_option P) a"
  by (auto simp: nullable_field_def result_simps split: option.splits json.splits)

lemma only_keys_iff: "only_keys m allowed = (if fst ` set m \<subseteq> set allowed then Inr () else Inl Invalid_Input)"
  by (auto simp: only_keys_def list_all_iff)

lemma parse_field_create_ok:
  fixes body :: "'n json"
  assumes "parse_field_create body = Inr f"
  shows "field_create_ok f"
proof -
  from assms obtain m :: "'n json_map" and nv :: "'n json" and n k t ds os where n: "parse_name nv = Inr n" and k: "opt_field m ''key'' parse_field_key = Inr k"
    and d: "nullable_field m ''description'' (limited_string FIELD_DESCRIPTION_MAX) = Inr ds"
    and os: "(case map_of m ''options'' of None \<Rightarrow> Inr [] | Some v \<Rightarrow> parse_option_names v) = Inr os"
      "os \<noteq> [] \<longrightarrow> has_options t"
    and f: "f = \<lparr>fc_name = n, fc_key = k, fc_field_type = t, fc_description = Option.bind ds id, fc_options = os\<rparr>"
    by (auto simp: parse_field_create_def rbind_eq_Inr if_Inl_eq_Inr)
  have "pred_option field_key_is_valid k"
    using k by (rule opt_field_pred) (auto simp: parse_field_key_def result_simps split: if_splits)
  moreover have "pred_option (text_ok FIELD_DESCRIPTION_MAX) (Option.bind ds id)"
    using nullable_pred [OF d, of "text_ok FIELD_DESCRIPTION_MAX"] limited_string_ok by (cases ds) auto
  moreover have "length os \<le> CREATE_OPTIONS_MAX \<and> list_all name_ok os"
    using os(1) parse_each_Inr [of parse_name] parse_each_all [OF _ parse_name_ok]
    by (fastforce simp: parse_option_names_def result_simps split: option.splits if_splits)
  ultimately show ?thesis
    using os(2) parse_name_ok [OF n] by (simp add: field_create_ok_def f)
qed

lemma parse_option_patch_label: "parse_option_patch E v = Inr p \<Longrightarrow> name_ok (op_label p)"
  by (auto simp: parse_option_patch_def result_simps intro: parse_name_ok)

lemma parse_option_patches_ok:
  "parse_option_patches E v = Inr os \<Longrightarrow> length os \<le> PATCH_OPTIONS_MAX \<and> list_all (\<lambda>e. name_ok (op_label e)) os"
  using parse_each_Inr [of "parse_option_patch E"] parse_each_all [OF _ parse_option_patch_label]
  by (fastforce simp: parse_option_patches_def result_simps split: if_splits)

lemma parse_field_patch_ok:
  assumes "parse_field_patch E body = Inr p"
  shows "field_patch_ok p"
proof -
  from assms obtain m vv where
    v: "positive_int E vv = Inr (fp_expected_version p)" "opt_field m ''name'' parse_name = Inr (fp_name p)"
      "nullable_field m ''description'' (limited_string FIELD_DESCRIPTION_MAX) = Inr (fp_description p)"
      "opt_field m ''options'' (parse_option_patches E) = Inr (fp_options p)"
    and c: "fp_name p \<noteq> None \<or> fp_description p \<noteq> None \<or> fp_deleted p \<noteq> None \<or> fp_options p \<noteq> None"
    by (auto simp: parse_field_patch_def rbind_eq_Inr if_Inl_eq_Inr)
  have "pred_option name_ok (fp_name p)"
    using v(2) by (rule opt_field_pred) (rule parse_name_ok)
  moreover have "pred_option (pred_option (text_ok FIELD_DESCRIPTION_MAX)) (fp_description p)"
    using v(3) by (rule nullable_pred) (rule limited_string_ok)
  moreover have "pred_option (\<lambda>os. length os \<le> PATCH_OPTIONS_MAX \<and> list_all (\<lambda>e. name_ok (op_label e)) os) (fp_options p)"
    using v(4) by (rule opt_field_pred) (rule parse_option_patches_ok)
  ultimately show ?thesis
    using positive_int_ok [OF v(1)] c by (simp add: field_patch_ok_def)
qed

lemma uuid_list_ok: "uuid_list E n v = Inr us \<Longrightarrow> length us \<le> n"
  using parse_each_Inr [of "uuid_str E"] by (fastforce simp: uuid_list_def result_simps split: if_splits)

lemma parse_typed_value_ok: "parse_typed_value E k v = Inr x \<Longrightarrow> value_ok E x"
  by (auto simp: parse_typed_value_def result_simps limited_string_ok uuid_list_ok split: if_splits)

lemma parse_collection_value_ok:
  assumes "parse_collection_value E v = Inr x"
  shows "value_ok E x"
proof (cases "is_null v")
  case False
  with assms obtain m where "(case m of [(key, inner)] \<Rightarrow> parse_typed_value E key inner | _ \<Rightarrow> Inl Invalid_Input) = Inr x"
    by (auto simp: parse_collection_value_def rbind_eq_Inr)
  then obtain key inner where "parse_typed_value E key inner = Inr x"
    by (auto split: list.splits)
  then show ?thesis
    by (rule parse_typed_value_ok)
qed (use assms in \<open>auto simp: parse_collection_value_def\<close>)

lemma group_date_ok:
  assumes "crates_ok E" and "parse_query_config E v = Inr c"
  shows "view_query_ok E (qc_query c)"
proof -
  have "view_query_ok E view_query_default"
    by (simp add: view_query_ok_def view_query_default_def view_filters_default_def view_filters_ok_def)
  moreover from assms(2) obtain m where
    "(case map_of m ''query'' of None \<Rightarrow> Inr view_query_default
      | Some qv \<Rightarrow> map_err (\<lambda>_. Invalid_Input) (parse_view_query_value E qv)) = Inr (qc_query c)"
    by (auto simp: parse_query_config_def rbind_eq_Inr if_Inl_eq_Inr)
  ultimately show ?thesis
    using parse_view_query_ok [OF assms(1)] by (auto simp: map_err_eq_Inr split: option.splits)
qed

lemma parse_query_input_ok:
  assumes E: "crates_ok E" and p: "parse_query_input E body = Inr q"
  shows "query_input_ok E q"
proof -
  from p obtain m cv where
    c: "parse_query_config E cv = Inr (qi_config q)"
    and g: "nullable_field m ''group'' (limited_string GROUP_MAX) = Inr (qi_group q)"
    and w: "opt_field m ''window'' (parse_window E) = Inr (qi_window q)"
    and u: "opt_field m ''cursor'' (limited_string COLLECTION_CURSOR_MAX) = Inr (qi_cursor q)"
    and l: "parse_query_limit E (map_of m ''limit'') = Inr (qi_limit q)"
    by (auto simp: parse_query_input_def rbind_eq_Inr)
  have "1 \<le> qi_limit q \<and> qi_limit q \<le> QUERY_LIMIT_MAX"
    using l by (auto simp: parse_query_limit_def result_simps QUERY_LIMIT_DEFAULT_def QUERY_LIMIT_MAX_def
        split: option.splits if_splits)
  moreover have "pred_option (\<lambda>w. w_time_zone w \<noteq> [] \<and> utf16_count (w_time_zone w) \<le> TIME_ZONE_MAX) (qi_window q)"
    using w by (rule opt_field_pred) (auto simp: parse_window_def result_simps split: if_splits)
  moreover have "pred_option (pred_option (text_ok GROUP_MAX)) (qi_group q)"
    using g by (rule nullable_pred) (rule limited_string_ok)
  moreover have "pred_option (text_ok COLLECTION_CURSOR_MAX) (qi_cursor q)"
    using u by (rule opt_field_pred) (rule limited_string_ok)
  ultimately show ?thesis
    using group_date_ok [OF E c] by (simp add: query_input_ok_def)
qed

lemma view_query_no_nul: "view_query_ok E q \<Longrightarrow> \<not> query_has_nul q"
  by (auto simp: view_query_ok_def view_filters_ok_def query_has_nul_def title_ok_def custom_ok_def list_all_iff list_ex_iff
      split: option.splits custom_operator.splits custom_value.splits)

lemma uuid_str_show: "crates_ok E \<Longrightarrow> uuid_str E (JString (uuid_to_string E u)) = Inr u"
  by (simp add: uuid_str_def crates_uuid)

lemma uuid_not_short: "crates_ok E \<Longrightarrow> length s < 36 \<Longrightarrow> uuid_to_string E u \<noteq> s"
  using crates_uuid(2) [of E u] by auto

lemma config_round_trip:
  assumes E: "crates_ok E" and c: "view_query_ok E (qc_query c)"
  shows "parse_query_config E (query_config_to_json E c) = Inr c"
  using uuid_not_short [OF E, of "''status''"] uuid_not_short [OF E, of "''due''"] uuid_not_short [OF E, of "''start''"]
    view_query_no_nul [OF c] query_round_trip [OF E c] uuid_str_show [OF E]
  by (cases c)
    (auto simp: parse_query_config_def query_config_to_json_def object_def jobj_simps only_keys_iff
      split: option.splits group_by.splits date_by.splits)

section \<open>Properties\<close>

text \<open>C38: Bodies that are accepted are within the documented bounds, whatever was sent: names of 1 to
  100 UTF-16 units without NUL, well-formed field keys, options only on fields that have them,
  positive 32-bit versions, a patch that changes something, values inside their size limits, queries
  with 1 to 100 rows; and a saved-view configuration is only replaced together with the one the
  client last saw.\<close>

theorem collection_inputs_bounded:
  assumes "crates_ok E"
  shows "(parse_collection_create E body = Inr c \<longrightarrow> name_ok (cc_name c) \<and> (cc_kind c = KTask \<longrightarrow> cc_project_id c \<noteq> None)) \<and>
    (parse_field_create body = Inr f \<longrightarrow> field_create_ok f) \<and>
    (parse_field_patch E body = Inr p \<longrightarrow> field_patch_ok p) \<and>
    (parse_value_input E body = Inr v \<longrightarrow>
       version_ok (vi_expected_version v) \<and> version_ok (vi_expected_field_version v) \<and> value_ok E (vi_value v)) \<and>
    (parse_query_input E body = Inr q \<longrightarrow> query_input_ok E q) \<and>
    (parse_collection_view E body patch = Inr w \<longrightarrow> name_ok (cv_name w) \<and> view_query_ok E (qc_query (cv_config w)) \<and>
       (if patch then pred_option version_ok (cv_expected_version w) \<and> cv_expected_version w \<noteq> None
        else cv_expected_version w = None)) \<and>
    (parse_project_view_patch E body = Inr u \<longrightarrow> (pp_config u \<noteq> None \<longrightarrow> pp_expected_config u \<noteq> None) \<and>
       (pp_name u \<noteq> None \<or> pp_config u \<noteq> None))"
  using parse_field_create_ok parse_field_patch_ok parse_query_input_ok [OF assms] parse_name_ok group_date_ok [OF assms]
    positive_int_ok parse_collection_value_ok
  by (intro conjI impI)
    (auto simp: parse_collection_create_def parse_value_input_def parse_collection_view_def parse_project_view_patch_def
      rbind_eq_Inr if_Inl_eq_Inr Let_def split: if_splits)

theorem collection_inputs_bounded_witness:
  "parse_field_create (JObject [(''name'', JString '' Due ''), (''type'', JString ''date'')] :: int json) =
     Inr \<lparr>fc_name = ''Due'', fc_key = None, fc_field_type = FDate, fc_description = None, fc_options = []\<rparr> \<and>
   field_create_ok \<lparr>fc_name = ''Due'', fc_key = None, fc_field_type = FDate, fc_description = None, fc_options = []\<rparr>"
proof -
  have "parse_field_create (JObject [(''name'', JString '' Due ''), (''type'', JString ''date'')] :: int json) =
     Inr \<lparr>fc_name = ''Due'', fc_key = None, fc_field_type = FDate, fc_description = None, fc_options = []\<rparr>"
    by code_simp
  with collection_inputs_bounded [OF sample_crates_ok] show ?thesis
    by blast
qed

text \<open>The stored configuration of a collection view is canonical: the configurations the parser
  returns are those with a well-formed query, and the JSON written for one parses back to it, the
  grouping and the date axis included.\<close>

lemma query_config_canonical:
  assumes "crates_ok E"
  shows "((\<exists>v. parse_query_config E v = Inr c) \<longleftrightarrow> view_query_ok E (qc_query c)) \<and>
    (view_query_ok E (qc_query c) \<longrightarrow> parse_query_config E (query_config_to_json E c) = Inr c)"
  using group_date_ok [OF assms] config_round_trip [OF assms] by blast

lemma query_config_canonical_witness:
  "parse_query_config sample_crates (query_config_to_json sample_crates
     \<lparr>qc_query = view_query_default, qc_group_by = Some (GField 4), qc_date_by = Some DDue\<rparr>) =
   Inr \<lparr>qc_query = view_query_default, qc_group_by = Some (GField 4), qc_date_by = Some DDue\<rparr>"
proof -
  have "view_query_ok sample_crates (qc_query
      \<lparr>qc_query = view_query_default, qc_group_by = Some (GField 4), qc_date_by = Some DDue\<rparr>)"
    by (simp add: view_query_ok_def view_query_default_def view_filters_default_def view_filters_ok_def)
  with query_config_canonical [OF sample_crates_ok] show ?thesis
    by blast
qed

text \<open>The names of field types, collection kinds, view types and visibilities in requests and in
  the database are in bijection with the variants: a string parses to a variant exactly if it is the
  string that variant is written as.\<close>

lemma collection_names_bijective:
  "(field_type_parse s = Some t \<longleftrightarrow> s = field_type_as_str t) \<and> (collection_kind_parse s = Some k \<longleftrightarrow> s = collection_kind_as_str k) \<and>
   (view_type_parse s = Some w \<longleftrightarrow> s = view_type_as_str w) \<and> (visibility_parse s = Some v \<longleftrightarrow> s = visibility_as_str v)"
proof (intro conjI)
  show "field_type_parse s = Some t \<longleftrightarrow> s = field_type_as_str t"
    by (cases t) (auto simp: field_type_parse_def split: if_splits)
qed (cases k; cases w; cases v;
    auto simp: collection_kind_parse_def view_type_parse_def visibility_parse_def split: if_splits)+

end
