(* ===== verification/Blocks.thy ===== *)
theory Blocks
  imports Json "HOL-Library.Sublist"
begin

text \<open>
  The block edit of a document body (\<open>src/documents/blocks.rs\<close>): replacing the node with a
  given id in a TipTap document tree. The recursive walk over \<open>&mut Value\<close> returns the value it
  leaves behind together with its boolean; the reference is a search over the paths of the tree in
  preorder.
\<close>

section \<open>The code\<close>

definition TIPTAP_WALK_MAX_DEPTH :: nat where "TIPTAP_WALK_MAX_DEPTH = 64"

definition UNIQUE_ID_NODE_TYPES :: "string list" where
  "UNIQUE_ID_NODE_TYPES = [''heading'', ''paragraph'', ''blockquote'', ''codeBlock'', ''embed'', ''listItem'', ''table'',
     ''horizontalRule'', ''callout'', ''mermaid'', ''math'', ''details'', ''detailsContent'', ''detailsSummary'', ''taskList'',
     ''taskItem'']"

record 'n block_node =
  b_type :: string
  b_attrs :: "'n json_map option"
  b_content :: "'n json list option"
  b_marks :: "'n json list option"
  b_text :: "string option"

definition insert_or_remove :: "string \<Rightarrow> 'n json option \<Rightarrow> 'n json_map \<Rightarrow> 'n json_map" where
  "insert_or_remove k v m = (case v of Some v \<Rightarrow> bt_insert k v m | None \<Rightarrow> bt_remove k m)"

definition apply_node :: "string \<Rightarrow> 'n block_node \<Rightarrow> 'n json_map \<Rightarrow> 'n json_map" where
  "apply_node block_id node m =
     (let m = bt_insert ''type'' (JString (b_type node)) m;
          attrs = bt_insert ''id'' (JString block_id) (case b_attrs node of Some a \<Rightarrow> a | None \<Rightarrow> []);
          m = bt_insert ''attrs'' (JObject attrs) m;
          m = insert_or_remove ''content'' (map_option JArray (b_content node)) m;
          m = insert_or_remove ''text'' (map_option JString (b_text node)) m
      in insert_or_remove ''marks'' (map_option JArray (b_marks node)) m)"

definition node_matches :: "string \<Rightarrow> 'n json_map \<Rightarrow> bool" where
  "node_matches block_id m \<longleftrightarrow>
     Option.bind (Option.bind (Option.bind (map_of m ''attrs'') as_object) (\<lambda>a. map_of a ''id'')) as_str = Some block_id \<and>
     (case Option.bind (map_of m ''type'') as_str of None \<Rightarrow> False | Some t \<Rightarrow> t \<in> set UNIQUE_ID_NODE_TYPES)"

function replace_in :: "'n json \<Rightarrow> string \<Rightarrow> 'n block_node \<Rightarrow> nat \<Rightarrow> bool \<times> 'n json"
  and replace_in_children :: "'n json list \<Rightarrow> string \<Rightarrow> 'n block_node \<Rightarrow> nat \<Rightarrow> bool \<times> 'n json list" where
  "replace_in v block_id node depth =
     (if depth > TIPTAP_WALK_MAX_DEPTH then (False, v)
      else case v of
        JObject m \<Rightarrow>
          if node_matches block_id m then (True, JObject (apply_node block_id node m))
          else (case map_of m ''content'' of
            Some (JArray children) \<Rightarrow>
              (case replace_in_children children block_id node (depth + 1) of
                 (True, children') \<Rightarrow> (True, JObject (bt_insert ''content'' (JArray children') m))
               | (False, _) \<Rightarrow> (False, v))
          | _ \<Rightarrow> (False, v))
      | _ \<Rightarrow> (False, v))"
| "replace_in_children [] block_id node depth = (False, [])"
| "replace_in_children (c # cs) block_id node depth =
     (case replace_in c block_id node depth of
        (True, c') \<Rightarrow> (True, c' # cs)
      | (False, c') \<Rightarrow> (case replace_in_children cs block_id node depth of (b, cs') \<Rightarrow> (b, c' # cs')))"
  by pat_completeness auto
termination
proof (relation "measures [\<lambda>x. case x of Inl (_, _, _, d) \<Rightarrow> 2 * (66 - d) | Inr (_, _, _, d) \<Rightarrow> 2 * (66 - d) + 1,
    \<lambda>x. case x of Inl _ \<Rightarrow> 0 | Inr (cs, _) \<Rightarrow> length cs]")
qed (auto simp: TIPTAP_WALK_MAX_DEPTH_def)

declare replace_in.simps [simp del]

definition replace_node_by_id :: "'n json \<Rightarrow> string \<Rightarrow> 'n block_node \<Rightarrow> 'n json option" where
  "replace_node_by_id doc block_id node =
     (case replace_in doc block_id node 0 of (b, next) \<Rightarrow> if b then Some next else None)"

section \<open>Paths\<close>

text \<open>The children of a node and the node at a path of child positions.\<close>

definition children :: "'n json \<Rightarrow> 'n json list" where
  "children v = (case Option.bind (Option.bind (as_object v) (\<lambda>m. map_of m ''content'')) as_array of Some cs \<Rightarrow> cs | None \<Rightarrow> [])"

fun node_at :: "nat list \<Rightarrow> 'n json \<Rightarrow> 'n json option" where
  "node_at [] v = Some v"
| "node_at (i # p) v = (if i < length (children v) then node_at p (children v ! i) else None)"

definition set_children :: "'n json list \<Rightarrow> 'n json \<Rightarrow> 'n json" where
  "set_children cs v = (case v of JObject m \<Rightarrow> JObject (bt_insert ''content'' (JArray cs) m) | _ \<Rightarrow> v)"

fun update_at :: "('n json \<Rightarrow> 'n json) \<Rightarrow> nat list \<Rightarrow> 'n json \<Rightarrow> 'n json" where
  "update_at f [] v = f v"
| "update_at f (i # p) v = (if i < length (children v)
     then set_children ((children v)[i := update_at f p (children v ! i)]) v else v)"

definition is_match :: "string \<Rightarrow> 'n json \<Rightarrow> bool" where
  "is_match block_id v = (case v of JObject m \<Rightarrow> node_matches block_id m | _ \<Rightarrow> False)"

definition edit_node :: "string \<Rightarrow> 'n block_node \<Rightarrow> 'n json \<Rightarrow> 'n json" where
  "edit_node block_id node v = (case v of JObject m \<Rightarrow> JObject (apply_node block_id node m) | _ \<Rightarrow> v)"

text \<open>The paths of a tree in preorder, down to a number of levels.\<close>

fun preorder :: "nat \<Rightarrow> 'n json \<Rightarrow> nat list list" where
  "preorder 0 v = []"
| "preorder (Suc n) v = [] # concat (map (\<lambda>(i, c). map ((#) i) (preorder n c)) (enumerate 0 (children v)))"

text \<open>The first match of a whole tree and of a list of siblings that starts at position \<open>i\<close>.\<close>

definition first_match :: "nat \<Rightarrow> string \<Rightarrow> 'n json \<Rightarrow> nat list option" where
  "first_match n block_id v = find (\<lambda>p. pred_option (is_match block_id) (node_at p v) \<and> node_at p v \<noteq> None) (preorder n v)"

section \<open>Lemmas\<close>

lemma children_simps:
  "children (JObject m) = (case map_of m ''content'' of Some (JArray cs) \<Rightarrow> cs | _ \<Rightarrow> [])"
  "(\<And>m. v \<noteq> JObject m) \<Longrightarrow> children v = []"
  by (auto simp: children_def split: option.splits json.splits) (cases v; auto)

lemma children_set_children: "children v \<noteq> [] \<Longrightarrow> children (set_children cs v) = cs"
  by (cases v) (simp_all add: children_def set_children_def map_of_bt_insert)

lemma find_map: "find P (map g xs) = map_option g (find (P \<circ> g) xs)"
  by (induction xs) auto

lemma find_append: "find P (xs @ ys) = (case find P xs of Some x \<Rightarrow> Some x | None \<Rightarrow> find P ys)"
  by (induction xs) auto

lemma find_concat_enumerate:
  "find P (concat (map (\<lambda>(i, c). map ((#) i) (g c)) (enumerate k (c # cs)))) =
     (case find (P \<circ> (#) k) (g c) of Some p \<Rightarrow> Some (k # p)
      | None \<Rightarrow> find P (concat (map (\<lambda>(i, c). map ((#) i) (g c)) (enumerate (Suc k) cs))))"
  by (auto simp: find_append find_map split: option.splits)

fun first_in :: "nat \<Rightarrow> string \<Rightarrow> 'n json list \<Rightarrow> (nat \<times> nat list) option" where
  "first_in n block_id [] = None"
| "first_in n block_id (c # cs) =
     (case first_match n block_id c of
        Some p \<Rightarrow> Some (0, p)
      | None \<Rightarrow> map_option (\<lambda>(i, p). (Suc i, p)) (first_in n block_id cs))"

lemma find_in_siblings:
  assumes "children v = pre @ cs"
  shows "find (\<lambda>p. pred_option (is_match b) (node_at p v) \<and> node_at p v \<noteq> None)
      (concat (map (\<lambda>(i, c). map ((#) i) (preorder n c)) (enumerate (length pre) cs))) =
    map_option (\<lambda>(i, p). (length pre + i) # p) (first_in n b cs)"
  using assms
proof (induction cs arbitrary: pre)
  case (Cons c cs)
  have "children v ! length pre = c" "length pre < length (children v)"
    using Cons.prems by simp_all
  then have "((\<lambda>p. pred_option (is_match b) (node_at p v) \<and> node_at p v \<noteq> None) \<circ> (#) (length pre)) =
      (\<lambda>p. pred_option (is_match b) (node_at p c) \<and> node_at p c \<noteq> None)"
    by auto
  moreover have "find (\<lambda>p. pred_option (is_match b) (node_at p v) \<and> node_at p v \<noteq> None)
      (concat (map (\<lambda>(i, c). map ((#) i) (preorder n c)) (enumerate (Suc (length pre)) cs))) =
    map_option (\<lambda>(i, p). (Suc (length pre) + i) # p) (first_in n b cs)"
    using Cons.IH [of "pre @ [c]"] Cons.prems by simp
  ultimately show ?case
    unfolding find_concat_enumerate first_in.simps
    by (cases "first_match n b c"; cases "first_in n b cs") (auto simp: first_match_def)
qed simp

lemma first_match_Suc:
  "first_match (Suc n) b v = (if is_match b v then Some [] else map_option (\<lambda>(i, p). i # p) (first_in n b (children v)))"
  using find_in_siblings [of v "[]" "children v" b n] by (auto simp: first_match_def)

lemma first_in_bound: "first_in n b cs = Some (i, p) \<Longrightarrow> i < length cs"
  by (induction cs arbitrary: i) (auto split: option.splits)

lemma first_in_object: "children v \<noteq> [] \<Longrightarrow> \<exists>m. v = JObject m"
  by (cases v) (simp_all add: children_def)

lemma replace_in_first_match:
  "d \<le> 65 \<Longrightarrow> replace_in v b node d =
     (case first_match (65 - d) b v of None \<Rightarrow> (False, v) | Some p \<Rightarrow> (True, update_at (edit_node b node) p v))"
  "d \<le> 65 \<Longrightarrow> replace_in_children cs b node d =
     (case first_in (65 - d) b cs of None \<Rightarrow> (False, cs)
      | Some (i, p) \<Rightarrow> (True, cs[i := update_at (edit_node b node) p (cs ! i)]))"
proof (induction v b node d and cs b node d rule: replace_in_replace_in_children.induct)
  case (1 v b node d)
  show ?case
  proof (cases "d > TIPTAP_WALK_MAX_DEPTH")
    case True
    then show ?thesis
      using 1 by (simp add: replace_in.simps [of v] first_match_def TIPTAP_WALK_MAX_DEPTH_def)
  next
    case False
    then obtain n where n: "65 - d = Suc n" "65 - (d + 1) = n"
      by (cases "65 - d") (auto simp: TIPTAP_WALK_MAX_DEPTH_def)
    show ?thesis
    proof (cases "\<exists>m. v = JObject m \<and> \<not> node_matches b m")
      case True
      then obtain m where m: "v = JObject m" "\<not> node_matches b m"
        by blast
      show ?thesis
      proof (cases "\<exists>cs. map_of m ''content'' = Some (JArray cs)")
        case True
        then obtain cs where cs: "map_of m ''content'' = Some (JArray cs)"
          by blast
        have "replace_in_children cs b node (d + 1) = (case first_in n b cs of None \<Rightarrow> (False, cs)
            | Some (i, p) \<Rightarrow> (True, cs[i := update_at (edit_node b node) p (cs ! i)]))"
          using 1(1) [OF False m cs] False n by (simp add: TIPTAP_WALK_MAX_DEPTH_def)
        then show ?thesis
          using False m cs n first_in_bound [of n b cs]
          by (auto simp: replace_in.simps [of "JObject m"] first_match_Suc is_match_def children_simps set_children_def
              split: option.splits)
      next
        case no: False
        then have "children v = []"
          by (auto simp: m children_simps split: option.splits json.splits)
        with no False m n show ?thesis
          by (auto simp: replace_in.simps [of "JObject m"] first_match_Suc is_match_def split: option.splits json.splits)
      qed
    next
      case no: False
      have "children v = [] \<and> \<not> is_match b v" if "\<And>m. v \<noteq> JObject m"
        using that by (cases v) (auto simp: children_def is_match_def)
      with no False n show ?thesis
        by (cases v) (simp_all add: replace_in.simps [where depth = d] first_match_Suc is_match_def edit_node_def)
    qed
  qed
next
  case (2 b node d)
  then show ?case
    by simp
next
  case (3 c cs b node d)
  show ?case
  proof (cases "first_match (65 - d) b c")
    case None
    with 3 have c: "replace_in c b node d = (False, c)"
      by simp
    have "replace_in_children cs b node d = (case first_in (65 - d) b cs of None \<Rightarrow> (False, cs)
        | Some (i, p) \<Rightarrow> (True, cs[i := update_at (edit_node b node) p (cs ! i)]))"
      by (rule 3(2) [OF c [symmetric]]) (use 3 in simp_all)
    with None c show ?thesis
      by (cases "first_in (65 - d) b cs") auto
  next
    case (Some p)
    with 3 show ?thesis
      by simp
  qed
qed

lemma node_at_update: "node_at p v = Some w \<Longrightarrow> node_at p (update_at f p v) = Some (f w)"
proof (induction p arbitrary: v)
  case (Cons i p)
  then have i: "i < length (children v)"
    by (simp split: if_splits)
  then have "children v \<noteq> []"
    by auto
  with Cons i show ?case
    by (simp add: children_set_children)
qed simp

lemma node_at_elsewhere:
  "\<not> prefix p q \<Longrightarrow> \<not> prefix q p \<Longrightarrow> node_at q (update_at f p v) = node_at q v"
proof (induction p arbitrary: q v)
  case (Cons i p)
  then obtain j q' where q: "q = j # q'"
    by (cases q) auto
  show ?case
  proof (cases "i < length (children v)")
    case True
    then have "children v \<noteq> []"
      by auto
    with True Cons q show ?thesis
      by (cases "i = j") (auto simp: children_set_children)
  qed (simp add: q)
qed simp

lemma first_match_node:
  assumes "first_match n b v = Some p"
  shows "\<exists>m. node_at p v = Some (JObject m) \<and> node_matches b m"
proof -
  from assms have "pred_option (is_match b) (node_at p v) \<and> node_at p v \<noteq> None"
    by (auto simp: first_match_def find_Some_iff)
  then obtain w where "node_at p v = Some w" "is_match b w"
    by auto
  then show ?thesis
    by (cases w) (simp_all add: is_match_def)
qed

lemma apply_node_id:
  "Option.bind (map_of (apply_node b node m) ''attrs'') as_object =
     Some (bt_insert ''id'' (JString b) (case b_attrs node of Some a \<Rightarrow> a | None \<Rightarrow> []))"
  by (simp add: apply_node_def insert_or_remove_def Let_def map_of_bt_insert bt_remove_def map_of_filter_ne
      split: option.splits)

section \<open>Properties\<close>

text \<open>C39: The in-place recursive walk is the preorder search: the edited document is the document
  with the node at the first path (of at most 64 steps, parents before children, siblings in order)
  that has the id and an id-carrying type rewritten, and there is no result exactly if no such path
  exists. The rewritten node keeps the id, and every node that is neither above nor below it is
  unchanged.\<close>

theorem replace_node_first_match:
  "replace_node_by_id doc b node = map_option (\<lambda>p. update_at (edit_node b node) p doc) (first_match 65 b doc) \<and>
   (\<forall>doc'. replace_node_by_id doc b node = Some doc' \<longrightarrow> (\<exists>p m. first_match 65 b doc = Some p \<and>
      node_at p doc' = Some (JObject (apply_node b node m)) \<and>
      (\<exists>a. map_of (apply_node b node m) ''attrs'' = Some (JObject a) \<and> map_of a ''id'' = Some (JString b)) \<and>
      (\<forall>q. \<not> prefix p q \<longrightarrow> \<not> prefix q p \<longrightarrow> node_at q doc' = node_at q doc)))"
proof -
  have eq: "replace_node_by_id doc b node = map_option (\<lambda>p. update_at (edit_node b node) p doc) (first_match 65 b doc)"
    by (simp add: replace_node_by_id_def replace_in_first_match split: option.splits)
  have "\<exists>p m. first_match 65 b doc = Some p \<and> node_at p doc' = Some (JObject (apply_node b node m)) \<and>
      (\<exists>a. map_of (apply_node b node m) ''attrs'' = Some (JObject a) \<and> map_of a ''id'' = Some (JString b)) \<and>
      (\<forall>q. \<not> prefix p q \<longrightarrow> \<not> prefix q p \<longrightarrow> node_at q doc' = node_at q doc)"
    if r: "replace_node_by_id doc b node = Some doc'" for doc'
  proof -
    from r eq obtain p where p: "first_match 65 b doc = Some p" and d: "doc' = update_at (edit_node b node) p doc"
      by auto
    from first_match_node [OF p] obtain m where m: "node_at p doc = Some (JObject m)"
      by blast
    have "node_at p doc' = Some (JObject (apply_node b node m))"
      using node_at_update [OF m] by (simp add: d edit_node_def)
    moreover have "\<exists>a. map_of (apply_node b node m) ''attrs'' = Some (JObject a) \<and> map_of a ''id'' = Some (JString b)"
      using apply_node_id [of b node m] by (auto simp: bind_eq_Some_conv map_of_bt_insert)
    ultimately show ?thesis
      using p node_at_elsewhere [of p _ "edit_node b node" doc] by (auto simp: d)
  qed
  with eq show ?thesis
    by blast
qed

theorem replace_node_first_match_witness:
  "replace_node_by_id
     (JObject [(''content'', JArray [JObject [(''attrs'', JObject [(''id'', JString ''a'')]), (''type'', JString ''paragraph'')]])] :: int json)
     ''a'' \<lparr>b_type = ''math'', b_attrs = None, b_content = None, b_marks = None, b_text = None\<rparr> =
   Some (JObject [(''content'', JArray [JObject [(''attrs'', JObject [(''id'', JString ''a'')]), (''type'', JString ''math'')]])])"
proof -
  let ?doc = "JObject [(''content'', JArray [JObject [(''attrs'', JObject [(''id'', JString ''a'')]), (''type'', JString ''paragraph'')]])] :: int json"
  have "first_match 65 ''a'' ?doc = Some [0]"
    using first_match_Suc [of 64 "''a''" ?doc] first_match_Suc [of 63 "''a''" "children ?doc ! 0"]
    by (simp add: children_simps is_match_def node_matches_def UNIQUE_ID_NODE_TYPES_def)
  then show ?thesis
    using conjunct1 [OF replace_node_first_match [of ?doc "''a''"
          "\<lparr>b_type = ''math'', b_attrs = None, b_content = None, b_marks = None, b_text = None\<rparr>"]]
    by (simp add: children_simps set_children_def edit_node_def apply_node_def insert_or_remove_def bt_remove_def)
qed

end
