(* ===== verification/Chunk.thy ===== *)
theory Chunk
  imports Prelude
begin

text \<open>
  The chunker of the search index (\<open>src/search/chunk.rs\<close>): a text is cut into overlapping
  chunks counted in UTF-16 units, preferably at blank lines and page breaks. A text is the list of its
  Unicode scalar values; \<open>str::encode_utf16\<close> and \<open>String::from_utf16_lossy\<close> are written
  out. Chunk numbers and offsets are \<open>i32\<close> values, as the casts leave them.
\<close>

section \<open>UTF-16\<close>

type_synonym scalar = nat

definition scalar_ok :: "scalar \<Rightarrow> bool" where
  "scalar_ok c \<longleftrightarrow> c < 0xD800 \<or> 0xE000 \<le> c \<and> c \<le> 0x10FFFF"

definition encode_utf16_char :: "scalar \<Rightarrow> u16 list" where
  "encode_utf16_char c =
     (if c < 0x10000 then [of_nat c]
      else [of_nat (0xD800 + (c - 0x10000) div 0x400), of_nat (0xDC00 + (c - 0x10000) mod 0x400)])"

definition encode_utf16 :: "scalar list \<Rightarrow> u16 list" where
  "encode_utf16 s = concat (map encode_utf16_char s)"

definition is_high :: "u16 \<Rightarrow> bool" where "is_high u \<longleftrightarrow> 0xD800 \<le> unat u \<and> unat u < 0xDC00"
definition is_low :: "u16 \<Rightarrow> bool" where "is_low u \<longleftrightarrow> 0xDC00 \<le> unat u \<and> unat u < 0xE000"

fun from_utf16_lossy :: "u16 list \<Rightarrow> scalar list" where
  "from_utf16_lossy [] = []"
| "from_utf16_lossy (u # us) =
     (if is_high u then
        (case us of
           w # ws \<Rightarrow>
             if is_low w then (0x10000 + (unat u - 0xD800) * 0x400 + (unat w - 0xDC00)) # from_utf16_lossy ws
             else 0xFFFD # from_utf16_lossy us
         | [] \<Rightarrow> [0xFFFD])
      else if is_low u then 0xFFFD # from_utf16_lossy us
      else unat u # from_utf16_lossy us)"

section \<open>The code\<close>

definition TARGET :: nat where "TARGET = 1500"
definition CHUNK_MIN :: nat where "CHUNK_MIN = 800"
definition CHUNK_MAX :: nat where "CHUNK_MAX = 2000"
definition OVERLAP :: nat where "OVERLAP = 150"

record text_chunk =
  chunk_no :: "32 word"
  chunk_start :: "32 word"
  chunk_end :: "32 word"
  chunk_text :: "scalar list"

definition is_js_space :: "u16 \<Rightarrow> bool" where
  "is_js_space u \<longleftrightarrow> u \<in> {0x09, 0x0a, 0x0b, 0x0c, 0x0d, 0x20, 0xa0, 0x1680, 0x2028, 0x2029, 0x202f, 0x205f, 0x3000, 0xfeff} \<or>
     0x2000 \<le> u \<and> u \<le> 0x200a"

text \<open>\<open>while j < units.len() && p(units[j]) { j += 1 }\<close>.\<close>

function skip_while :: "(u16 \<Rightarrow> bool) \<Rightarrow> u16 list \<Rightarrow> nat \<Rightarrow> nat" where
  "skip_while p us j = (if j < length us \<and> p (us ! j) then skip_while p us (j + 1) else j)"
  by pat_completeness auto
termination
  by (relation "measure (\<lambda>(p, us, j). length us - j)") auto

declare skip_while.simps [simp del]

lemma skip_while_ge: "j \<le> skip_while p us j"
proof (induction p us j rule: skip_while.induct)
  case (1 p us j)
  then show ?case
    by (cases "j < length us \<and> p (us ! j)") (auto simp: skip_while.simps [of p us j])
qed

function boundaries_from :: "u16 list \<Rightarrow> nat \<Rightarrow> nat list" where
  "boundaries_from us i =
     (if i < length us then
        if us ! i = 0x0c then
          let j = skip_while is_js_space us (i + 1) in j # boundaries_from us (max j (i + 1))
        else if us ! i = 0x0a then
          let j = skip_while (\<lambda>u. u = 0x20 \<or> u = 0x09) us (i + 1) in
          if j < length us \<and> us ! j = 0x0a then
            let k = skip_while is_js_space us (j + 1) in k # boundaries_from us k
          else boundaries_from us (i + 1)
        else boundaries_from us (i + 1)
      else [])"
  by pat_completeness auto
termination
proof (relation "measure (\<lambda>(us, i). length us - i)", goal_cases)
  case (3 us i j k)
  then have "i + 1 \<le> j" "j + 1 \<le> k"
    using skip_while_ge by blast+
  with 3(1) show ?case
    by simp
qed auto

declare boundaries_from.simps [simp del]

definition boundaries :: "u16 list \<Rightarrow> nat list" where
  "boundaries us = boundaries_from us 0"

definition abs_diff :: "nat \<Rightarrow> nat \<Rightarrow> nat" where
  "abs_diff a b = (if a \<le> b then b - a else a - b)"

definition chunk_end_at :: "u16 list \<Rightarrow> nat list \<Rightarrow> nat \<Rightarrow> nat" where
  "chunk_end_at us bounds start =
     (let stop = length us in
      if stop - start > CHUNK_MAX then
        let goal = start + TARGET; near = filter (\<lambda>b. b \<ge> start + CHUNK_MIN \<and> b \<le> start + CHUNK_MAX) bounds in
        if near = [] then min goal (length us)
        else (case min_by_key (\<lambda>b. abs_diff b goal) near of Some b \<Rightarrow> b | None \<Rightarrow> goal)
      else stop)"

definition make_chunk :: "u16 list \<Rightarrow> nat \<Rightarrow> nat \<Rightarrow> nat \<Rightarrow> text_chunk" where
  "make_chunk us n start stop = \<lparr>chunk_no = of_nat n, chunk_start = of_nat start, chunk_end = of_nat stop,
     chunk_text = from_utf16_lossy (take (stop - start) (drop start us))\<rparr>"

definition near_bounds :: "nat list \<Rightarrow> nat \<Rightarrow> nat list" where
  "near_bounds bounds start = filter (\<lambda>b. b \<ge> start + CHUNK_MIN \<and> b \<le> start + CHUNK_MAX) bounds"

text \<open>Where a chunk that does not reach the end of the text stops.\<close>

lemma chunk_end_near:
  assumes "length us - start > CHUNK_MAX"
  shows "(near_bounds bounds start = [] \<and> chunk_end_at us bounds start = start + TARGET) \<or>
    (chunk_end_at us bounds start \<in> set (near_bounds bounds start) \<and>
     (\<forall>b \<in> set (near_bounds bounds start). abs_diff (chunk_end_at us bounds start) (start + TARGET) \<le> abs_diff b (start + TARGET)))"
proof (cases "near_bounds bounds start = []")
  case True
  with assms show ?thesis
    by (auto simp: chunk_end_at_def near_bounds_def Let_def TARGET_def CHUNK_MAX_def)
next
  case False
  then obtain b where b: "min_by_key (\<lambda>b. abs_diff b (start + TARGET)) (near_bounds bounds start) = Some b"
    using min_by_key_None [of "\<lambda>b. abs_diff b (start + TARGET)" "near_bounds bounds start"] by blast
  with assms False have "chunk_end_at us bounds start = b"
    unfolding chunk_end_at_def Let_def near_bounds_def by simp
  with min_by_key_in [OF b] min_by_key_le [OF b] show ?thesis
    by blast
qed

lemma chunk_end_cut:
  assumes "length us - start > CHUNK_MAX"
  shows "start + CHUNK_MIN \<le> chunk_end_at us bounds start \<and> chunk_end_at us bounds start \<le> start + CHUNK_MAX"
  using chunk_end_near [OF assms, of bounds]
  by (auto simp: near_bounds_def TARGET_def CHUNK_MIN_def CHUNK_MAX_def)

lemma chunk_end_whole: "\<not> length us - start > CHUNK_MAX \<Longrightarrow> chunk_end_at us bounds start = length us"
  by (simp add: chunk_end_at_def)

lemma chunk_end_progress:
  assumes "\<not> chunk_end_at us bounds start \<ge> length us"
  shows "start + CHUNK_MIN \<le> chunk_end_at us bounds start"
  using assms chunk_end_cut [of us start bounds] chunk_end_whole [of us start bounds] by linarith

function chunk_loop :: "u16 list \<Rightarrow> nat list \<Rightarrow> nat \<Rightarrow> nat \<Rightarrow> text_chunk list" where
  "chunk_loop us bounds start n =
     (if start < length us then
        let stop = chunk_end_at us bounds start in
        make_chunk us n start stop #
          (if stop \<ge> length us then [] else chunk_loop us bounds (stop - OVERLAP) (n + 1))
      else [])"
  by pat_completeness auto
termination
proof (relation "measure (\<lambda>(us, bounds, start, n). length us - start)", goal_cases)
  case (2 us bounds start n stop)
  then show ?case
    using chunk_end_progress [of us bounds start] by (auto simp: OVERLAP_def CHUNK_MIN_def)
qed auto

declare chunk_loop.simps [simp del]

definition chunk_plain_text :: "scalar list \<Rightarrow> text_chunk list" where
  "chunk_plain_text text =
     (let us = encode_utf16 text in
      if us = [] then [] else chunk_loop us (boundaries us) 0 0)"

section \<open>What the chunks are\<close>

text \<open>The chunks of a text from a position on: each chunk but the last ends 800 to 2000 units after
  its start, at a boundary nearest to 1500 units if there is one in that range and at 1500 units
  otherwise, and the next chunk starts 150 units before that end; the last one ends with the text.\<close>

definition preferred_end :: "nat list \<Rightarrow> nat \<Rightarrow> nat \<Rightarrow> bool" where
  "preferred_end bounds start e \<longleftrightarrow>
     (near_bounds bounds start = [] \<and> e = start + TARGET) \<or>
     (e \<in> set (near_bounds bounds start) \<and>
      (\<forall>b \<in> set (near_bounds bounds start). abs_diff e (start + TARGET) \<le> abs_diff b (start + TARGET)))"

fun chunked :: "u16 list \<Rightarrow> nat list \<Rightarrow> nat \<Rightarrow> nat \<Rightarrow> text_chunk list \<Rightarrow> bool" where
  "chunked us bounds n start [] = False"
| "chunked us bounds n start (c # cs) = (\<exists>e. c = make_chunk us n start e \<and> start < e \<and> e \<le> start + CHUNK_MAX \<and>
     (if cs = [] then e = length us
      else e < length us \<and> start + CHUNK_MIN \<le> e \<and> preferred_end bounds start e \<and>
        chunked us bounds (Suc n) (e - OVERLAP) cs))"

lemma chunk_loop_chunked: "start < length us \<Longrightarrow> chunked us bounds n start (chunk_loop us bounds start n)"
proof (induction us bounds start n rule: chunk_loop.induct)
  case (1 us bounds start n)
  let ?e = "chunk_end_at us bounds start"
  show ?case
  proof (cases "length us - start > CHUNK_MAX")
    case False
    with 1(2) show ?thesis
      by (simp add: chunk_loop.simps [of us bounds start] chunk_end_whole Let_def)
  next
    case True
    note cut = chunk_end_cut [OF True, of bounds]
    then have e: "?e < length us" "start < ?e" "?e - OVERLAP < length us"
      using True by (auto simp: CHUNK_MIN_def CHUNK_MAX_def OVERLAP_def)
    then have "chunked us bounds (Suc n) (?e - OVERLAP) (chunk_loop us bounds (?e - OVERLAP) (Suc n))"
      using 1(1) [OF 1(2) refl] by simp
    moreover from this have "chunk_loop us bounds (?e - OVERLAP) (Suc n) \<noteq> []"
      by auto
    ultimately show ?thesis
      using 1(2) cut e chunk_end_near [OF True, of bounds]
      by (auto simp: chunk_loop.simps [of us bounds start] preferred_end_def Let_def)
  qed
qed

lemma chunked_covers:
  "chunked us bounds n start cs \<Longrightarrow> length us < 2 ^ 31 \<Longrightarrow> start \<le> k \<Longrightarrow> k < length us \<Longrightarrow>
   \<exists>c \<in> set cs. unat (chunk_start c) \<le> k \<and> k < unat (chunk_end c)"
proof (induction cs arbitrary: n start)
  case (Cons c cs)
  then obtain e where c: "c = make_chunk us n start e" "start < e"
    and rest: "if cs = [] then e = length us else e < length us \<and> chunked us bounds (Suc n) (e - OVERLAP) cs"
    by (auto split: if_splits)
  then have "e < 2 ^ 32" "start < 2 ^ 32"
    using Cons.prems by (auto split: if_splits)
  then have "unat (chunk_start c) = start" "unat (chunk_end c) = e"
    by (simp_all add: c make_chunk_def unat_of_nat)
  with rest Cons show ?case
    by (cases "k < e") (fastforce split: if_splits)+
qed simp

lemma utf16_char:
  assumes "scalar_ok c"
  shows "from_utf16_lossy (encode_utf16_char c @ us) = c # from_utf16_lossy us"
proof (cases "c < 0x10000")
  case True
  then have "unat (of_nat c :: u16) = c"
    by (simp add: unat_of_nat)
  with True assms show ?thesis
    by (auto simp: encode_utf16_char_def scalar_ok_def is_high_def is_low_def)
next
  case False
  then have c: "0x10000 \<le> c" "c \<le> 0x10FFFF"
    using assms by (auto simp: scalar_ok_def)
  then have "(c - 0x10000) div 0x400 < 0x400"
    by (simp add: less_mult_imp_div_less)
  then have "unat (of_nat (0xD800 + (c - 0x10000) div 0x400) :: u16) = 0xD800 + (c - 0x10000) div 0x400"
    "unat (of_nat (0xDC00 + (c - 0x10000) mod 0x400) :: u16) = 0xDC00 + (c - 0x10000) mod 0x400"
    by (subst unat_of_nat; simp)+
  moreover have "0x10000 + (c - 0x10000) div 0x400 * 0x400 + (c - 0x10000) mod 0x400 = c"
    using c by simp
  ultimately show ?thesis
    using c \<open>(c - 0x10000) div 0x400 < 0x400\<close>
    by (simp add: encode_utf16_char_def is_high_def is_low_def del: of_nat_add)
qed

lemma utf16_round_trip: "list_all scalar_ok s \<Longrightarrow> from_utf16_lossy (encode_utf16 s) = s"
  by (induction s) (simp_all add: encode_utf16_def utf16_char)

lemma encode_utf16_Nil: "encode_utf16 s = [] \<longleftrightarrow> s = []"
  by (cases s) (auto simp: encode_utf16_def encode_utf16_char_def)

section \<open>Properties\<close>

text \<open>C40: On a text that is not empty the chunker terminates with chunks that follow one another as specified: none has
  more than 2000 units, each but the last has at least 800, is cut at the nearest boundary and is overlapped by 150 by
  the next; the last ends with the text and may be shorter. In a text of less than 2^31 units every unit lies in a
  chunk; a text of at most 2000 units is one chunk with exactly that text.\<close>

theorem chunks_cover_text:
  assumes "text \<noteq> []"
  shows "chunked (encode_utf16 text) (boundaries (encode_utf16 text)) 0 0 (chunk_plain_text text) \<and>
    (length (encode_utf16 text) < 2 ^ 31 \<longrightarrow> (\<forall>k < length (encode_utf16 text).
       \<exists>c \<in> set (chunk_plain_text text). unat (chunk_start c) \<le> k \<and> k < unat (chunk_end c))) \<and>
    (length (encode_utf16 text) \<le> CHUNK_MAX \<longrightarrow> list_all scalar_ok text \<longrightarrow> map chunk_text (chunk_plain_text text) = [text])"
proof -
  let ?us = "encode_utf16 text"
  have "?us \<noteq> []"
    using assms by (simp add: encode_utf16_Nil)
  then have loop: "chunk_plain_text text = chunk_loop ?us (boundaries ?us) 0 0" and "0 < length ?us"
    by (simp_all add: chunk_plain_text_def Let_def)
  then have ok: "chunked ?us (boundaries ?us) 0 0 (chunk_plain_text text)"
    using chunk_loop_chunked by simp
  moreover have "map chunk_text (chunk_plain_text text) = [text]" if "length ?us \<le> CHUNK_MAX" "list_all scalar_ok text"
    using that \<open>?us \<noteq> []\<close> chunk_end_whole [of ?us 0 "boundaries ?us"] utf16_round_trip [OF that(2)]
    by (simp add: loop chunk_loop.simps make_chunk_def Let_def)
  ultimately show ?thesis
    using chunked_covers [OF ok] by blast
qed

theorem chunks_cover_text_witness: "map chunk_text (chunk_plain_text [104, 105, 0x1F600]) = [[104, 105, 0x1F600]]"
proof -
  have "length (encode_utf16 [104, 105, 0x1F600]) \<le> CHUNK_MAX" "list_all scalar_ok [104, 105, 0x1F600]"
    by (simp_all add: encode_utf16_def encode_utf16_char_def CHUNK_MAX_def scalar_ok_def)
  with chunks_cover_text [of "[104, 105, 0x1F600]"] show ?thesis
    by blast
qed

end
