(* ===== verification/Access.thy ===== *)
theory Access
  imports Wire
begin

text \<open>
  Who may read and write a collaborative resource. The tables the checks read are lists of
  rows, a statement is the list of the rows it returns, and \<open>fetch_optional\<close> takes the first.
  Two programs answer the question: the locking one (\<open>src/src/db/collab.rs\<close>,
  \<open>lock_collab_actor\<close> and its callers), which runs one statement per row inside the writing
  transaction, and the snapshot one (\<open>src/src/db/collab_delivery.rs\<close>), a single joined
  statement followed by a policy on its columns. The permission lattice is the one of
  \<open>src/src/projects.rs\<close>. The property at the end is that both programs give the same answer.
\<close>

section \<open>Roles and permissions\<close>

datatype workspace_role = WsOwner | WsAdmin | WsMember | WsGuest

fun workspace_role_parse :: "string \<Rightarrow> workspace_role option" where
  "workspace_role_parse s =
     (if s = ''owner'' then Some WsOwner
      else if s = ''admin'' then Some WsAdmin
      else if s = ''member'' then Some WsMember
      else if s = ''guest'' then Some WsGuest
      else None)"

datatype project_permission = PermNone | PermView | PermEdit | PermManage

text \<open>The derived order of the Rust enum is the order of its constructors.\<close>

fun permission_index :: "project_permission \<Rightarrow> nat" where
  "permission_index PermNone = 0"
| "permission_index PermView = 1"
| "permission_index PermEdit = 2"
| "permission_index PermManage = 3"

lemma permission_index_inj: "permission_index a = permission_index b \<longleftrightarrow> a = b"
  by (cases a; cases b) simp_all

instantiation project_permission :: linorder
begin

definition less_eq_project_permission :: "project_permission \<Rightarrow> project_permission \<Rightarrow> bool" where
  "less_eq_project_permission a b \<longleftrightarrow> permission_index a \<le> permission_index b"

definition less_project_permission :: "project_permission \<Rightarrow> project_permission \<Rightarrow> bool" where
  "less_project_permission a b \<longleftrightarrow> permission_index a < permission_index b"

instance
  by standard
    (auto simp: less_eq_project_permission_def less_project_permission_def
      simp flip: permission_index_inj)

end

lemmas permission_order = less_eq_project_permission_def less_project_permission_def

definition at_least :: "project_permission \<Rightarrow> project_permission \<Rightarrow> bool" where
  "at_least p q \<longleftrightarrow> p \<ge> q"

datatype project_member_role = Lead | PMember | Viewer

fun project_member_role_parse :: "string \<Rightarrow> project_member_role option" where
  "project_member_role_parse s =
     (if s = ''lead'' then Some Lead
      else if s = ''member'' then Some PMember
      else if s = ''viewer'' then Some Viewer
      else None)"

fun role_permission :: "project_member_role \<Rightarrow> project_permission" where
  "role_permission Lead = PermManage"
| "role_permission PMember = PermEdit"
| "role_permission Viewer = PermView"

fun workspace_base_permission :: "workspace_role \<Rightarrow> project_permission" where
  "workspace_base_permission WsGuest = PermNone"
| "workspace_base_permission WsMember = PermEdit"
| "workspace_base_permission WsAdmin = PermManage"
| "workspace_base_permission WsOwner = PermManage"

definition effective_permission ::
    "workspace_role \<Rightarrow> string \<Rightarrow> project_member_role option \<Rightarrow> project_permission" where
  "effective_permission workspace_role visibility member_role =
     (if visibility = ''workspace'' \<and> workspace_role \<noteq> WsGuest
      then workspace_base_permission workspace_role
      else case member_role of None \<Rightarrow> PermNone | Some r \<Rightarrow> role_permission r)"

definition grant_role_permission :: "string \<Rightarrow> project_permission" where
  "grant_role_permission role =
     (case project_member_role_parse role of None \<Rightarrow> PermNone | Some r \<Rightarrow> role_permission r)"

section \<open>Tables\<close>

type_synonym time = int

record user_row =
  u_id :: uuid
  u_deleted_at :: "time option"
  u_suspended_at :: "time option"

record session_row =
  s_id :: uuid
  s_user :: uuid
  s_revoked_at :: "time option"
  s_expires_at :: time

record api_token_row =
  t_id :: uuid
  t_workspace :: uuid
  t_user :: uuid
  t_expires_at :: "time option"

record workspace_row =
  w_id :: uuid
  w_deleted_at :: "time option"

record membership_row =
  m_workspace :: uuid
  m_user :: uuid
  m_role :: string

record document_row =
  d_workspace :: uuid
  d_id :: uuid
  d_project :: "uuid option"
  d_status :: string
  d_deleted_at :: "time option"

record task_row =
  k_workspace :: uuid
  k_id :: uuid
  k_project :: uuid
  k_archived_at :: "time option"
  k_deleted_at :: "time option"

record project_row =
  p_workspace :: uuid
  p_id :: uuid
  p_visibility :: string
  p_status :: string
  p_deleted_at :: "time option"

record group_member_row =
  g_workspace :: uuid
  g_group :: uuid
  g_user :: uuid

record project_member_row =
  pm_workspace :: uuid
  pm_project :: uuid
  pm_user :: "uuid option"
  pm_group :: "uuid option"
  pm_role :: string

record document_member_row =
  dm_workspace :: uuid
  dm_document :: uuid
  dm_group :: "uuid option"
  dm_role :: string

record room_fence_row =
  f_workspace :: uuid
  f_resource :: uuid
  f_fence :: int
  f_owner :: uuid
  f_expires_at :: time

record authz_db =
  users :: "user_row list"
  sessions :: "session_row list"
  api_tokens :: "api_token_row list"
  workspaces :: "workspace_row list"
  memberships :: "membership_row list"
  documents :: "document_row list"
  tasks :: "task_row list"
  projects :: "project_row list"
  group_members :: "group_member_row list"
  project_members :: "project_member_row list"
  document_members :: "document_member_row list"
  collab_room_fences :: "room_fence_row list"
  task_collab_room_fences :: "room_fence_row list"

text \<open>The primary keys of the schema (\<open>src/migrations\<close>).\<close>

definition keys_unique :: "authz_db \<Rightarrow> bool" where
  "keys_unique db \<longleftrightarrow>
     distinct (map u_id (users db)) \<and> distinct (map s_id (sessions db)) \<and>
     distinct (map w_id (workspaces db)) \<and>
     distinct (map (\<lambda>m. (m_workspace m, m_user m)) (memberships db)) \<and>
     distinct (map (\<lambda>d. (d_workspace d, d_id d)) (documents db)) \<and>
     distinct (map (\<lambda>k. (k_workspace k, k_id k)) (tasks db)) \<and>
     distinct (map (\<lambda>p. (p_workspace p, p_id p)) (projects db))"

datatype db_backend = Postgres | SqliteFamily

section \<open>Statements\<close>

fun fetch_optional :: "'a list \<Rightarrow> 'a option" where
  "fetch_optional [] = None"
| "fetch_optional (r # rs) = Some r"

definition left_join :: "('a \<Rightarrow> bool) \<Rightarrow> 'a list \<Rightarrow> 'a option list" where
  "left_join on rows = (case filter on rows of [] \<Rightarrow> [None] | rs \<Rightarrow> map Some rs)"

text \<open>\<open>max\<close> of a column, NULL on no rows.\<close>

fun sql_max :: "int list \<Rightarrow> int option" where
  "sql_max [] = None"
| "sql_max (x # xs) = Some (case sql_max xs of None \<Rightarrow> x | Some y \<Rightarrow> max x y)"

section \<open>The locking check\<close>

definition user_live :: "user_row \<Rightarrow> bool" where
  "user_live u \<longleftrightarrow> u_deleted_at u = None \<and> u_suspended_at u = None"

definition session_live :: "time \<Rightarrow> session_row \<Rightarrow> bool" where
  "session_live now s \<longleftrightarrow> s_revoked_at s = None \<and> s_expires_at s > now"

definition token_live :: "time \<Rightarrow> api_token_row \<Rightarrow> bool" where
  "token_live now t \<longleftrightarrow> (case t_expires_at t of None \<Rightarrow> True | Some e \<Rightarrow> e > now)"

text \<open>\<open>SESSION_RECHECK_SQL\<close> and \<open>TOKEN_RECHECK_SQL\<close>; the row-level policy of \<open>api_tokens\<close>
  shows a tenant transaction the tokens of its own workspace.\<close>

definition session_recheck :: "authz_db \<Rightarrow> time \<Rightarrow> uuid \<Rightarrow> uuid \<Rightarrow> bool list" where
  "session_recheck db now actor credential =
     [user_live u \<and> session_live now s.
       u \<leftarrow> users db, u_id u = actor,
       s \<leftarrow> sessions db, s_id s = credential \<and> s_user s = u_id u]"

definition token_recheck :: "authz_db \<Rightarrow> time \<Rightarrow> uuid \<Rightarrow> uuid \<Rightarrow> uuid \<Rightarrow> bool list" where
  "token_recheck db now workspace actor credential =
     [user_live u \<and> token_live now t.
       u \<leftarrow> users db, u_id u = actor,
       t \<leftarrow> api_tokens db, t_id t = credential \<and> t_user t = u_id u \<and> t_workspace t = workspace]"

definition recheck_session :: "db_backend \<Rightarrow> authz_db \<Rightarrow> time \<Rightarrow> uuid \<Rightarrow> uuid \<Rightarrow> uuid \<Rightarrow> bool" where
  "recheck_session backend db now workspace actor credential =
     (case backend of
        Postgres \<Rightarrow>
          (case fetch_optional (session_recheck db now actor credential) of
             Some live \<Rightarrow> live
           | None \<Rightarrow>
               (case fetch_optional (token_recheck db now workspace actor credential) of
                  Some live \<Rightarrow> live
                | None \<Rightarrow> False))
      | SqliteFamily \<Rightarrow>
          True \<in> set (session_recheck db now actor credential) \<or>
          True \<in> set (token_recheck db now workspace actor credential))"

definition workspace_is_live :: "authz_db \<Rightarrow> uuid \<Rightarrow> bool" where
  "workspace_is_live db workspace =
     (case fetch_optional [w_deleted_at w = None. w \<leftarrow> workspaces db, w_id w = workspace] of
        Some live \<Rightarrow> live | None \<Rightarrow> False)"

definition membership_role :: "authz_db \<Rightarrow> uuid \<Rightarrow> uuid \<Rightarrow> workspace_role option" where
  "membership_role db workspace user =
     Option.bind
       (fetch_optional
         [m_role m. m \<leftarrow> memberships db, m_workspace m = workspace \<and> m_user m = user])
       workspace_role_parse"

text \<open>Direct grants, then the ones of the groups the user is in.\<close>

definition project_member_role_of :: "authz_db \<Rightarrow> uuid \<Rightarrow> uuid \<Rightarrow> uuid \<Rightarrow> project_member_role option" where
  "project_member_role_of db workspace project user =
     max_by_key role_permission
       (List.map_filter project_member_role_parse
         ([pm_role pm.
             pm \<leftarrow> project_members db,
             pm_workspace pm = workspace \<and> pm_project pm = project \<and> pm_user pm = Some user] @
          [pm_role pm.
             pm \<leftarrow> project_members db,
             pm_workspace pm = workspace \<and> pm_project pm = project \<and> pm_group pm \<noteq> None,
             gm \<leftarrow> group_members db,
             g_workspace gm = pm_workspace pm \<and> Some (g_group gm) = pm_group pm \<and> g_user gm = user]))"

definition share_lock_project_permission ::
    "authz_db \<Rightarrow> uuid \<Rightarrow> uuid \<Rightarrow> uuid \<Rightarrow> (project_permission \<times> bool) option" where
  "share_lock_project_permission db workspace actor project =
     (case fetch_optional
         [(p_visibility p, p_status p).
            p \<leftarrow> projects db,
            p_workspace p = workspace \<and> p_id p = project \<and> p_deleted_at p = None] of
        None \<Rightarrow> None
      | Some (visibility, status) \<Rightarrow>
          let workspace_role =
                (case membership_role db workspace actor of Some r \<Rightarrow> r | None \<Rightarrow> WsGuest);
              member_role = project_member_role_of db workspace project actor
          in Some (effective_permission workspace_role visibility member_role,
                   status = ''archived''))"

definition wiki_document_eligible :: "uuid option \<Rightarrow> time option \<Rightarrow> bool \<Rightarrow> bool" where
  "wiki_document_eligible project_id deleted_at require_live \<longleftrightarrow>
     project_id = None \<and> \<not> (require_live \<and> deleted_at \<noteq> None)"

definition wiki_group_roles :: "authz_db \<Rightarrow> uuid \<Rightarrow> uuid \<Rightarrow> uuid \<Rightarrow> string list" where
  "wiki_group_roles db workspace document user =
     [dm_role dm.
        dm \<leftarrow> document_members db,
        dm_workspace dm = workspace \<and> dm_document dm = document \<and> dm_group dm \<noteq> None,
        gm \<leftarrow> group_members db,
        g_workspace gm = dm_workspace dm \<and> Some (g_group gm) = dm_group dm \<and> g_user gm = user]"

definition document_affiliation ::
    "authz_db \<Rightarrow> uuid \<Rightarrow> uuid \<Rightarrow> (uuid option \<times> time option) option" where
  "document_affiliation db workspace document =
     fetch_optional
       [(d_project d, d_deleted_at d).
          d \<leftarrow> documents db, d_workspace d = workspace \<and> d_id d = document]"

definition document_permission ::
    "authz_db \<Rightarrow> uuid \<Rightarrow> uuid \<Rightarrow> uuid \<Rightarrow> bool \<Rightarrow> project_permission" where
  "document_permission db workspace user document require_live =
     (case membership_role db workspace user of
        None \<Rightarrow> PermNone
      | Some role \<Rightarrow>
          (case document_affiliation db workspace document of
             None \<Rightarrow> PermNone
           | Some (project_id, deleted_at) \<Rightarrow>
               if \<not> wiki_document_eligible project_id deleted_at require_live then PermNone
               else
                 let base = workspace_base_permission role;
                     granted =
                       (case max_by_key (\<lambda>p. p)
                           (map grant_role_permission (wiki_group_roles db workspace document user)) of
                          Some p \<Rightarrow> p | None \<Rightarrow> PermNone)
                 in max base granted))"

record collab_document_access =
  permission :: project_permission
  archived :: bool

definition collab_document_lock ::
    "authz_db \<Rightarrow> uuid \<Rightarrow> uuid \<Rightarrow> (uuid option \<times> string \<times> time option) option" where
  "collab_document_lock db workspace document =
     fetch_optional
       [(d_project d, d_status d, d_deleted_at d).
          d \<leftarrow> documents db, d_workspace d = workspace \<and> d_id d = document]"

definition collab_task_affiliation :: "authz_db \<Rightarrow> uuid \<Rightarrow> uuid \<Rightarrow> uuid option" where
  "collab_task_affiliation db workspace task =
     fetch_optional
       [k_project k.
          k \<leftarrow> tasks db, k_workspace k = workspace \<and> k_id k = task \<and> k_deleted_at k = None]"

definition collab_task_lock ::
    "authz_db \<Rightarrow> uuid \<Rightarrow> uuid \<Rightarrow> (uuid \<times> time option \<times> time option) option" where
  "collab_task_lock db workspace task =
     fetch_optional
       [(k_project k, k_archived_at k, k_deleted_at k).
          k \<leftarrow> tasks db, k_workspace k = workspace \<and> k_id k = task]"

text \<open>
  The affiliation is read without a lock, the rest under row locks, so another transaction may
  commit in between: \<open>before\<close> is the database the unlocked read sees, \<open>db\<close> the locked one.
\<close>

definition lock_collab_document_access ::
    "authz_db \<Rightarrow> authz_db \<Rightarrow> uuid \<Rightarrow> uuid \<Rightarrow> uuid \<Rightarrow> collab_document_access option" where
  "lock_collab_document_access before db workspace actor document =
     (case map_option fst (document_affiliation before workspace document) of
        None \<Rightarrow> None
      | Some expected_project_id \<Rightarrow>
          let project_access =
                (case expected_project_id of
                   Some project_id \<Rightarrow>
                     map_option Some (share_lock_project_permission db workspace actor project_id)
                 | None \<Rightarrow> Some None)
          in (case project_access of
                None \<Rightarrow> None
              | Some access_opt \<Rightarrow>
                  (case collab_document_lock db workspace document of
                     None \<Rightarrow> None
                   | Some (project_id, status, deleted_at) \<Rightarrow>
                       if deleted_at \<noteq> None \<or> project_id \<noteq> expected_project_id then None
                       else
                         let (perm, project_archived) =
                               (case access_opt of
                                  Some access \<Rightarrow> access
                                | None \<Rightarrow> (document_permission db workspace actor document True, False))
                         in Some \<lparr>permission = perm,
                                  archived = (project_archived \<or> status = ''archived'')\<rparr>)))"

definition lock_collab_task_access ::
    "authz_db \<Rightarrow> authz_db \<Rightarrow> uuid \<Rightarrow> uuid \<Rightarrow> uuid \<Rightarrow> collab_document_access option" where
  "lock_collab_task_access before db workspace actor task =
     (case collab_task_affiliation before workspace task of
        None \<Rightarrow> None
      | Some expected_project_id \<Rightarrow>
          (case share_lock_project_permission db workspace actor expected_project_id of
             None \<Rightarrow> None
           | Some (perm, project_archived) \<Rightarrow>
               (case collab_task_lock db workspace task of
                  None \<Rightarrow> None
                | Some (project_id, archived_at, deleted_at) \<Rightarrow>
                    if deleted_at \<noteq> None \<or> project_id \<noteq> expected_project_id then None
                    else Some \<lparr>permission = perm,
                               archived = (project_archived \<or> archived_at \<noteq> None)\<rparr>)))"

definition lock_collab_access ::
    "authz_db \<Rightarrow> authz_db \<Rightarrow> collab_kind \<Rightarrow> uuid \<Rightarrow> uuid \<Rightarrow> uuid \<Rightarrow> collab_document_access option" where
  "lock_collab_access before db k workspace actor resource =
     (case k of
        Document \<Rightarrow> lock_collab_document_access before db workspace actor resource
      | Task \<Rightarrow> lock_collab_task_access before db workspace actor resource)"

datatype actor_access =
  SessionInactive
| WorkspaceGone
| NotMember
| ResourceGone
| Access collab_document_access

text \<open>The authority one collaborative operation runs under: the backend, the clock, the
  database at the unlocked and the locked reads, and the identifiers of the call.\<close>

record collab_actor =
  a_backend :: db_backend
  a_now :: time
  a_kind :: collab_kind
  a_workspace :: uuid
  a_actor :: uuid
  a_credential :: uuid
  a_resource :: uuid

definition lock_collab_actor :: "authz_db \<Rightarrow> authz_db \<Rightarrow> collab_actor \<Rightarrow> actor_access" where
  "lock_collab_actor before db c =
     (if \<not> recheck_session (a_backend c) db (a_now c) (a_workspace c) (a_actor c) (a_credential c)
      then SessionInactive
      else if \<not> workspace_is_live db (a_workspace c) then WorkspaceGone
      else if membership_role db (a_workspace c) (a_actor c) = None then NotMember
      else (case lock_collab_access before db (a_kind c) (a_workspace c) (a_actor c) (a_resource c) of
              None \<Rightarrow> ResourceGone
            | Some access \<Rightarrow> Access access))"

datatype collab_db_error =
  NotFound
| Forbidden
| StaleWriter
| PayloadTooLarge
| OpIdConflict
| StaleCutoff
| InvalidCutoff
| StateBudgetExceeded

definition authorize_collab_write :: "authz_db \<Rightarrow> authz_db \<Rightarrow> collab_actor \<Rightarrow> collab_db_error + unit" where
  "authorize_collab_write before db c =
     (case lock_collab_actor before db c of
        SessionInactive \<Rightarrow> Inl Forbidden
      | NotMember \<Rightarrow> Inl Forbidden
      | WorkspaceGone \<Rightarrow> Inl NotFound
      | ResourceGone \<Rightarrow> Inl NotFound
      | Access access \<Rightarrow>
          if at_least (permission access) PermEdit \<and> \<not> archived access then Inr ()
          else Inl Forbidden)"

definition authorize_collab_read ::
    "authz_db \<Rightarrow> authz_db \<Rightarrow> collab_actor \<Rightarrow> collab_db_error + collab_document_access" where
  "authorize_collab_read before db c =
     (case lock_collab_actor before db c of
        SessionInactive \<Rightarrow> Inl Forbidden
      | WorkspaceGone \<Rightarrow> Inl NotFound
      | NotMember \<Rightarrow> Inl NotFound
      | ResourceGone \<Rightarrow> Inl NotFound
      | Access access \<Rightarrow>
          if at_least (permission access) PermView then Inr access else Inl NotFound)"

record collab_admission =
  adm_read_only :: bool
  adm_archived :: bool

definition resolve_collab_admission ::
    "authz_db \<Rightarrow> authz_db \<Rightarrow> collab_actor \<Rightarrow> collab_db_error + collab_admission" where
  "resolve_collab_admission before db c =
     rbind (authorize_collab_read before db c) (\<lambda>access.
       Inr \<lparr>adm_read_only = (archived access \<or> \<not> at_least (permission access) PermEdit),
            adm_archived = archived access\<rparr>)"

section \<open>The snapshot check\<close>

datatype delivery_admission = Allowed bool | Denied

definition role_rank :: "string \<Rightarrow> int" where
  "role_rank role =
     (if role = ''lead'' then 3 else if role = ''member'' then 2
      else if role = ''viewer'' then 1 else 0)"

text \<open>The two correlated sub-selects of the statement.\<close>

definition project_rank :: "authz_db \<Rightarrow> uuid \<Rightarrow> uuid option \<Rightarrow> uuid \<Rightarrow> int option" where
  "project_rank db workspace project user =
     sql_max
       [role_rank (pm_role pm).
          pm \<leftarrow> project_members db,
          pm_workspace pm = workspace \<and> Some (pm_project pm) = project \<and>
          (pm_user pm = Some user \<or>
           (\<exists>gm \<in> set (group_members db).
              g_workspace gm = pm_workspace pm \<and> Some (g_group gm) = pm_group pm \<and>
              g_user gm = user))]"

definition grant_rank :: "authz_db \<Rightarrow> uuid \<Rightarrow> uuid \<Rightarrow> uuid \<Rightarrow> int option" where
  "grant_rank db workspace document user =
     sql_max
       [role_rank (dm_role dm).
          dm \<leftarrow> document_members db,
          gm \<leftarrow> group_members db,
          g_workspace gm = dm_workspace dm \<and> Some (g_group gm) = dm_group dm \<and>
          dm_workspace dm = workspace \<and> dm_document dm = document \<and> g_user gm = user \<and>
          dm_group dm \<noteq> None]"

record delivery_row =
  r_session_live :: bool
  r_workspace_live :: bool
  r_role :: "string option"
  r_project_id :: "uuid option"
  r_status :: "string option"
  r_deleted_at :: "time option"
  r_grant_rank :: "int option"
  r_project_live :: "bool option"
  r_project_visibility :: "string option"
  r_project_status :: "string option"
  r_project_rank :: "int option"

record task_delivery_row =
  tr_session_live :: bool
  tr_workspace_live :: bool
  tr_role :: "string option"
  tr_project_id :: "uuid option"
  tr_task_archived :: "bool option"
  tr_deleted_at :: "time option"
  tr_project_live :: "bool option"
  tr_project_visibility :: "string option"
  tr_project_status :: "string option"
  tr_project_rank :: "int option"

definition document_delivery_statement ::
    "authz_db \<Rightarrow> time \<Rightarrow> uuid \<Rightarrow> uuid \<Rightarrow> uuid \<Rightarrow> uuid \<Rightarrow> delivery_row list" where
  "document_delivery_statement db now workspace actor credential document =
     [\<lparr>r_session_live = (session_live now s \<and> user_live u),
       r_workspace_live = (w_deleted_at w = None),
       r_role = map_option m_role m,
       r_project_id = Option.bind d d_project,
       r_status = map_option d_status d,
       r_deleted_at = Option.bind d d_deleted_at,
       r_grant_rank = grant_rank db workspace document (u_id u),
       r_project_live = Some (Option.bind p p_deleted_at = None),
       r_project_visibility = map_option p_visibility p,
       r_project_status = map_option p_status p,
       r_project_rank = project_rank db workspace (Option.bind d d_project) (u_id u)\<rparr>.
       u \<leftarrow> users db, u_id u = actor,
       s \<leftarrow> sessions db, s_id s = credential \<and> s_user s = u_id u,
       w \<leftarrow> workspaces db, w_id w = workspace,
       m \<leftarrow> left_join (\<lambda>m. m_workspace m = workspace \<and> m_user m = u_id u) (memberships db),
       d \<leftarrow> left_join (\<lambda>d. d_workspace d = workspace \<and> d_id d = document) (documents db),
       p \<leftarrow> left_join (\<lambda>p. p_workspace p = workspace \<and> Some (p_id p) = Option.bind d d_project)
               (projects db)]"

definition task_delivery_statement ::
    "authz_db \<Rightarrow> time \<Rightarrow> uuid \<Rightarrow> uuid \<Rightarrow> uuid \<Rightarrow> uuid \<Rightarrow> task_delivery_row list" where
  "task_delivery_statement db now workspace actor credential task =
     [\<lparr>tr_session_live = (session_live now s \<and> user_live u),
       tr_workspace_live = (w_deleted_at w = None),
       tr_role = map_option m_role m,
       tr_project_id = map_option k_project k,
       tr_task_archived = Some (Option.bind k k_archived_at \<noteq> None),
       tr_deleted_at = Option.bind k k_deleted_at,
       tr_project_live = Some (Option.bind p p_deleted_at = None),
       tr_project_visibility = map_option p_visibility p,
       tr_project_status = map_option p_status p,
       tr_project_rank = project_rank db workspace (map_option k_project k) (u_id u)\<rparr>.
       u \<leftarrow> users db, u_id u = actor,
       s \<leftarrow> sessions db, s_id s = credential \<and> s_user s = u_id u,
       w \<leftarrow> workspaces db, w_id w = workspace,
       m \<leftarrow> left_join (\<lambda>m. m_workspace m = workspace \<and> m_user m = u_id u) (memberships db),
       k \<leftarrow> left_join (\<lambda>k. k_workspace k = workspace \<and> k_id k = task) (tasks db),
       p \<leftarrow> left_join (\<lambda>p. p_workspace p = workspace \<and> Some (p_id p) = map_option k_project k)
               (projects db)]"

definition rank_role :: "int option \<Rightarrow> project_member_role option" where
  "rank_role rank =
     (if rank = Some 3 then Some Lead else if rank = Some 2 then Some PMember
      else if rank = Some 1 then Some Viewer else None)"

definition rank_permission :: "int option \<Rightarrow> project_permission" where
  "rank_permission rank =
     (if rank = Some 3 then PermManage else if rank = Some 2 then PermEdit
      else if rank = Some 1 then PermView else PermNone)"

definition document_delivery_policy :: "delivery_row option \<Rightarrow> delivery_admission" where
  "document_delivery_policy row =
     (case row of
        None \<Rightarrow> Denied
      | Some r \<Rightarrow>
          if \<not> r_session_live r \<or> \<not> r_workspace_live r then Denied
          else
            (case Option.bind (r_role r) workspace_role_parse of
               None \<Rightarrow> Denied
             | Some role \<Rightarrow>
                 (case r_status r of
                    None \<Rightarrow> Denied
                  | Some status \<Rightarrow>
                      if r_deleted_at r \<noteq> None then Denied
                      else
                        (case (if r_project_id r \<noteq> None
                               then (case (r_project_live r, r_project_visibility r, r_project_status r) of
                                       (Some True, Some visibility, Some project_status) \<Rightarrow>
                                         Some (effective_permission role visibility
                                                 (rank_role (r_project_rank r)),
                                               project_status = ''archived'')
                                     | _ \<Rightarrow> None)
                               else Some (max (workspace_base_permission role)
                                            (rank_permission (r_grant_rank r)), False)) of
                           None \<Rightarrow> Denied
                         | Some (perm, project_archived) \<Rightarrow>
                             if \<not> at_least perm PermView then Denied
                             else Allowed (status = ''archived'' \<or> project_archived \<or>
                                           \<not> at_least perm PermEdit)))))"

definition task_delivery_policy :: "task_delivery_row option \<Rightarrow> delivery_admission" where
  "task_delivery_policy row =
     (case row of
        None \<Rightarrow> Denied
      | Some r \<Rightarrow>
          if \<not> tr_session_live r \<or> \<not> tr_workspace_live r then Denied
          else
            (case Option.bind (tr_role r) workspace_role_parse of
               None \<Rightarrow> Denied
             | Some role \<Rightarrow>
                 if tr_project_id r = None \<or> tr_deleted_at r \<noteq> None then Denied
                 else
                   (case (tr_project_live r, tr_project_visibility r, tr_project_status r) of
                      (Some True, Some visibility, Some project_status) \<Rightarrow>
                        let perm = effective_permission role visibility
                                     (rank_role (tr_project_rank r))
                        in if \<not> at_least perm PermView then Denied
                           else Allowed (tr_task_archived r = Some True \<or>
                                         project_status = ''archived'' \<or>
                                         \<not> at_least perm PermEdit)
                    | _ \<Rightarrow> Denied)))"

text \<open>The lease a room on the SQLite family carries; PostgreSQL rooms carry none. Delivery
  accepts the room's original owner token and the one chosen at its activation.\<close>

record native_fence =
  nf_kind :: collab_kind
  nf_workspace :: uuid
  nf_resource :: uuid
  nf_owner :: uuid
  nf_sequence :: int

record delivery_fence =
  df_original :: native_fence
  df_writer_owner :: uuid

definition native_fence_matches :: "native_fence \<Rightarrow> collab_actor \<Rightarrow> bool" where
  "native_fence_matches f c \<longleftrightarrow>
     nf_kind f = a_kind c \<and> nf_workspace f = a_workspace c \<and> nf_resource f = a_resource c"

definition room_fences :: "authz_db \<Rightarrow> collab_kind \<Rightarrow> room_fence_row list" where
  "room_fences db k =
     (case k of Document \<Rightarrow> collab_room_fences db | Task \<Rightarrow> task_collab_room_fences db)"

definition fence_held :: "authz_db \<Rightarrow> collab_actor \<Rightarrow> delivery_fence \<Rightarrow> bool" where
  "fence_held db c f \<longleftrightarrow>
     (\<exists>row \<in> set (room_fences db (a_kind c)).
        f_workspace row = a_workspace c \<and> f_resource row = a_resource c \<and>
        f_fence row = nf_sequence (df_original f) \<and>
        f_owner row \<in> {nf_owner (df_original f), df_writer_owner f} \<and>
        f_expires_at row > a_now c)"

definition check_delivery_admission_kind :: "authz_db \<Rightarrow> collab_actor \<Rightarrow> delivery_admission" where
  "check_delivery_admission_kind db c =
     (case a_kind c of
        Document \<Rightarrow>
          document_delivery_policy
            (fetch_optional
              (document_delivery_statement db (a_now c) (a_workspace c) (a_actor c)
                (a_credential c) (a_resource c)))
      | Task \<Rightarrow>
          task_delivery_policy
            (fetch_optional
              (task_delivery_statement db (a_now c) (a_workspace c) (a_actor c)
                (a_credential c) (a_resource c))))"

text \<open>The family statement is the same select with the fence as one more condition.\<close>

definition family_delivery_admission ::
    "authz_db \<Rightarrow> collab_actor \<Rightarrow> delivery_fence option \<Rightarrow> delivery_admission" where
  "family_delivery_admission db c fence =
     (case fence of
        None \<Rightarrow> Denied
      | Some f \<Rightarrow>
          if \<not> native_fence_matches (df_original f) c then Denied
          else (case a_kind c of
                  Task \<Rightarrow>
                    task_delivery_policy
                      (fetch_optional
                        (if fence_held db c f
                         then task_delivery_statement db (a_now c) (a_workspace c) (a_actor c)
                                (a_credential c) (a_resource c)
                         else []))
                | Document \<Rightarrow>
                    document_delivery_policy
                      (fetch_optional
                        (if fence_held db c f
                         then document_delivery_statement db (a_now c) (a_workspace c) (a_actor c)
                                (a_credential c) (a_resource c)
                         else []))))"

definition check_delivery_admission_kind_backend ::
    "authz_db \<Rightarrow> collab_actor \<Rightarrow> delivery_fence option \<Rightarrow> delivery_admission" where
  "check_delivery_admission_kind_backend db c fence =
     (case a_backend c of
        Postgres \<Rightarrow> check_delivery_admission_kind db c
      | SqliteFamily \<Rightarrow> family_delivery_admission db c fence)"

section \<open>Statements on a key\<close>

lemma filter_one_row:
  assumes "distinct (map key xs)" and "\<And>x. P x \<Longrightarrow> key x = k"
  shows "filter P xs = (case find P xs of None \<Rightarrow> [] | Some x \<Rightarrow> [x])"
  using assms(1)
proof (induction xs)
  case (Cons x xs)
  have "filter P xs = []" if "P x"
    using Cons.prems assms(2) that by (force simp: filter_empty_conv image_iff)
  with Cons show ?case
    by auto
qed simp

lemma comp_filter: "concat (map (\<lambda>x. if P x then F x else []) xs) = concat (map F (filter P xs))"
  by (induction xs) simp_all

lemma comp_one_row:
  assumes "distinct (map key xs)" and "\<And>x. P x \<Longrightarrow> key x = k"
  shows "concat (map (\<lambda>x. if P x then F x else []) xs) =
    (case find P xs of None \<Rightarrow> [] | Some x \<Rightarrow> F x)"
  using filter_one_row [OF assms] by (simp add: comp_filter split: option.splits)

lemma left_join_one_row:
  assumes "distinct (map key xs)" and "\<And>x. P x \<Longrightarrow> key x = k"
  shows "left_join P xs = [find P xs]"
  using filter_one_row [OF assms] by (simp add: left_join_def split: option.splits)

lemma find_conj_one_row:
  assumes "distinct (map key xs)" and "\<And>x. P x \<Longrightarrow> key x = k"
  shows "find (\<lambda>x. P x \<and> Q x) xs =
    (case find P xs of None \<Rightarrow> None | Some x \<Rightarrow> if Q x then Some x else None)"
  using assms(1)
proof (induction xs)
  case (Cons x xs)
  have "find P xs = None" "find (\<lambda>x. P x \<and> Q x) xs = None" if "P x"
    using Cons.prems assms(2) that by (force simp: find_None_iff image_iff)+
  with Cons show ?case
    by auto
qed simp

lemma fetch_optional_case [simp]:
  "fetch_optional (case v of None \<Rightarrow> [] | Some x \<Rightarrow> [F x]) = map_option F v"
  by (cases v) simp_all

section \<open>Grants as ranks\<close>

lemma sql_max_eq: "sql_max xs = (if xs = [] then None else Some (Max (set xs)))"
proof (induction xs)
  case (Cons x xs)
  then show ?case
    by (cases "xs = []") simp_all
qed simp

lemma sql_max_set: "set xs = set ys \<Longrightarrow> sql_max xs = sql_max ys"
  unfolding sql_max_eq by (metis set_empty)

lemma role_rank_index:
  "role_rank role = int (permission_index (grant_role_permission role))"
  by (simp add: role_rank_def grant_role_permission_def)

lemma rank_permission_index: "rank_permission (Some (int (permission_index p))) = p"
  by (cases p) (simp_all add: rank_permission_def)

lemma rank_permission_None: "rank_permission None = PermNone"
  by (simp add: rank_permission_def)

lemma max_by_key_permission:
  "map_option (\<lambda>p. int (permission_index p)) (max_by_key (\<lambda>p. p) ps) =
   sql_max (map (\<lambda>p. int (permission_index p)) ps)"
  by (induction ps) (auto simp: permission_order max_def split: option.splits)

lemma rank_permission_max:
  "rank_permission (sql_max (map role_rank roles)) =
   (case max_by_key (\<lambda>p. p) (map grant_role_permission roles) of Some p \<Rightarrow> p | None \<Rightarrow> PermNone)"
proof -
  have "sql_max (map role_rank roles) =
      map_option (\<lambda>p. int (permission_index p)) (max_by_key (\<lambda>p. p) (map grant_role_permission roles))"
    by (simp add: max_by_key_permission comp_def role_rank_index [abs_def])
  then show ?thesis
    by (cases "max_by_key (\<lambda>p. p) (map grant_role_permission roles)")
      (simp_all only: rank_permission_index rank_permission_None option.simps option.map)
qed

definition role_value :: "project_member_role option \<Rightarrow> int" where
  "role_value r = (case r of None \<Rightarrow> 0 | Some x \<Rightarrow> int (permission_index (role_permission x)))"

lemma role_rank_value: "role_rank role = role_value (project_member_role_parse role)"
  by (simp add: role_rank_def role_value_def)

lemma rank_role_value: "rank_role (Some (role_value r)) = r"
  by (cases r; cases "the r") (simp_all add: rank_role_def role_value_def)

lemma sql_max_roles:
  "roles \<noteq> [] \<Longrightarrow> sql_max (map role_rank roles) =
    Some (role_value (max_by_key role_permission (List.map_filter project_member_role_parse roles)))"
proof (induction roles)
  case (Cons r rs)
  show ?case
  proof (cases "rs = []")
    case True
    then show ?thesis
      by (simp add: role_rank_value map_filter_simps role_value_def del: project_member_role_parse.simps
          split: option.splits)
  next
    case False
    show ?thesis
      using Cons.IH [OF False]
      by (auto simp: role_rank_value map_filter_simps role_value_def permission_order max_def
          simp del: project_member_role_parse.simps split: option.splits)
  qed
qed simp

lemma rank_role_max:
  "rank_role (sql_max (map role_rank roles)) =
   max_by_key role_permission (List.map_filter project_member_role_parse roles)"
proof (cases "roles = []")
  case True
  then show ?thesis
    by (simp add: rank_role_def map_filter_simps)
next
  case False
  then show ?thesis
    by (simp add: sql_max_roles rank_role_value)
qed

lemma project_rank_role:
  "rank_role (project_rank db workspace (Some project) user) =
   project_member_role_of db workspace project user"
proof -
  let ?pms = "filter (\<lambda>pm. pm_workspace pm = workspace \<and> pm_project pm = project \<and>
      (pm_user pm = Some user \<or> (\<exists>gm \<in> set (group_members db).
         g_workspace gm = pm_workspace pm \<and> Some (g_group gm) = pm_group pm \<and> g_user gm = user)))
      (project_members db)"
  let ?roles = "[pm_role pm. pm \<leftarrow> project_members db,
        pm_workspace pm = workspace \<and> pm_project pm = project \<and> pm_user pm = Some user] @
      [pm_role pm. pm \<leftarrow> project_members db,
        pm_workspace pm = workspace \<and> pm_project pm = project \<and> pm_group pm \<noteq> None,
        gm \<leftarrow> group_members db,
        g_workspace gm = pm_workspace pm \<and> Some (g_group gm) = pm_group pm \<and> g_user gm = user]"
  have "set (map pm_role ?pms) = set ?roles"
    by (auto split: if_splits; force)
  then have "sql_max (map role_rank (map pm_role ?pms)) = sql_max (map role_rank ?roles)"
    by (intro sql_max_set) (simp only: set_map)
  moreover have "project_rank db workspace (Some project) user = sql_max (map role_rank (map pm_role ?pms))"
    unfolding project_rank_def comp_filter by (simp add: comp_def)
  ultimately show ?thesis
    unfolding project_member_role_of_def by (simp only: rank_role_max)
qed

lemma grant_rank_permission:
  "rank_permission (grant_rank db workspace document user) =
   (case max_by_key (\<lambda>p. p) (map grant_role_permission (wiki_group_roles db workspace document user)) of
      Some p \<Rightarrow> p | None \<Rightarrow> PermNone)"
proof -
  let ?ranks = "[role_rank (dm_role dm). dm \<leftarrow> document_members db, gm \<leftarrow> group_members db,
      g_workspace gm = dm_workspace dm \<and> Some (g_group gm) = dm_group dm \<and>
      dm_workspace dm = workspace \<and> dm_document dm = document \<and> g_user gm = user \<and>
      dm_group dm \<noteq> None]"
  have "set ?ranks = set (map role_rank (wiki_group_roles db workspace document user))"
    unfolding wiki_group_roles_def by (auto split: if_splits; force)
  then have "grant_rank db workspace document user =
      sql_max (map role_rank (wiki_group_roles db workspace document user))"
    unfolding grant_rank_def by (rule sql_max_set)
  then show ?thesis
    by (simp only: rank_permission_max)
qed

section \<open>The two checks on one database\<close>

text \<open>The rows the keys select.\<close>

abbreviation user_at :: "authz_db \<Rightarrow> uuid \<Rightarrow> user_row option" where
  "user_at db i \<equiv> find (\<lambda>u. u_id u = i) (users db)"

abbreviation session_at :: "authz_db \<Rightarrow> uuid \<Rightarrow> uuid \<Rightarrow> session_row option" where
  "session_at db i user \<equiv> find (\<lambda>s. s_id s = i \<and> s_user s = user) (sessions db)"

abbreviation workspace_at :: "authz_db \<Rightarrow> uuid \<Rightarrow> workspace_row option" where
  "workspace_at db i \<equiv> find (\<lambda>w. w_id w = i) (workspaces db)"

abbreviation membership_at :: "authz_db \<Rightarrow> uuid \<Rightarrow> uuid \<Rightarrow> membership_row option" where
  "membership_at db w user \<equiv> find (\<lambda>m. m_workspace m = w \<and> m_user m = user) (memberships db)"

abbreviation document_at :: "authz_db \<Rightarrow> uuid \<Rightarrow> uuid \<Rightarrow> document_row option" where
  "document_at db w i \<equiv> find (\<lambda>d. d_workspace d = w \<and> d_id d = i) (documents db)"

abbreviation task_at :: "authz_db \<Rightarrow> uuid \<Rightarrow> uuid \<Rightarrow> task_row option" where
  "task_at db w i \<equiv> find (\<lambda>k. k_workspace k = w \<and> k_id k = i) (tasks db)"

abbreviation project_at :: "authz_db \<Rightarrow> uuid \<Rightarrow> uuid option \<Rightarrow> project_row option" where
  "project_at db w i \<equiv> find (\<lambda>p. p_workspace p = w \<and> Some (p_id p) = i) (projects db)"

lemma comp_users:
  "keys_unique db \<Longrightarrow> concat (map (\<lambda>u. if u_id u = i then F u else []) (users db)) =
    (case user_at db i of None \<Rightarrow> [] | Some u \<Rightarrow> F u)"
  by (rule comp_one_row [of u_id _ _ i]) (auto simp: keys_unique_def)

lemma comp_sessions:
  "keys_unique db \<Longrightarrow>
    concat (map (\<lambda>s. if s_id s = i \<and> s_user s = user then F s else []) (sessions db)) =
    (case session_at db i user of None \<Rightarrow> [] | Some s \<Rightarrow> F s)"
  by (rule comp_one_row [of s_id _ _ i]) (auto simp: keys_unique_def)

lemma comp_workspaces:
  "keys_unique db \<Longrightarrow> concat (map (\<lambda>w. if w_id w = i then F w else []) (workspaces db)) =
    (case workspace_at db i of None \<Rightarrow> [] | Some w \<Rightarrow> F w)"
  by (rule comp_one_row [of w_id _ _ i]) (auto simp: keys_unique_def)

lemma comp_memberships:
  "keys_unique db \<Longrightarrow>
    concat (map (\<lambda>m. if m_workspace m = w \<and> m_user m = i then F m else []) (memberships db)) =
    (case membership_at db w i of None \<Rightarrow> [] | Some m \<Rightarrow> F m)"
  by (rule comp_one_row [of "\<lambda>m. (m_workspace m, m_user m)" _ _ "(w, i)"]) (auto simp: keys_unique_def)

lemma comp_documents:
  "keys_unique db \<Longrightarrow>
    concat (map (\<lambda>d. if d_workspace d = w \<and> d_id d = i then F d else []) (documents db)) =
    (case document_at db w i of None \<Rightarrow> [] | Some d \<Rightarrow> F d)"
  by (rule comp_one_row [of "\<lambda>d. (d_workspace d, d_id d)" _ _ "(w, i)"]) (auto simp: keys_unique_def)

lemma comp_tasks:
  "keys_unique db \<Longrightarrow>
    concat (map (\<lambda>k. if k_workspace k = w \<and> k_id k = i then F k else []) (tasks db)) =
    (case task_at db w i of None \<Rightarrow> [] | Some k \<Rightarrow> F k)"
  by (rule comp_one_row [of "\<lambda>k. (k_workspace k, k_id k)" _ _ "(w, i)"]) (auto simp: keys_unique_def)

lemma comp_live_tasks:
  assumes "keys_unique db"
  shows "concat (map (\<lambda>k. if k_workspace k = w \<and> k_id k = i \<and> k_deleted_at k = None then F k else [])
      (tasks db)) =
    (case task_at db w i of None \<Rightarrow> [] | Some k \<Rightarrow> if k_deleted_at k = None then F k else [])"
proof -
  have "distinct (map (\<lambda>k. (k_workspace k, k_id k)) (tasks db))"
    using assms by (simp add: keys_unique_def)
  from find_conj_one_row [OF this, of "\<lambda>k. k_workspace k = w \<and> k_id k = i" "(w, i)"
      "\<lambda>k. k_deleted_at k = None"] comp_one_row [OF this,
      of "\<lambda>k. k_workspace k = w \<and> k_id k = i \<and> k_deleted_at k = None" "(w, i)" F]
  show ?thesis
    by (simp split: option.splits)
qed

lemma comp_live_projects:
  assumes "keys_unique db"
  shows "concat (map (\<lambda>p. if p_workspace p = w \<and> p_id p = i \<and> p_deleted_at p = None then F p else [])
      (projects db)) =
    (case project_at db w (Some i) of None \<Rightarrow> []
     | Some p \<Rightarrow> if p_deleted_at p = None then F p else [])"
proof -
  have "distinct (map (\<lambda>p. (p_workspace p, p_id p)) (projects db))"
    using assms by (simp add: keys_unique_def)
  from find_conj_one_row [OF this, of "\<lambda>p. p_workspace p = w \<and> p_id p = i" "(w, i)"
      "\<lambda>p. p_deleted_at p = None"] comp_one_row [OF this,
      of "\<lambda>p. p_workspace p = w \<and> p_id p = i \<and> p_deleted_at p = None" "(w, i)" F]
  show ?thesis
    by (simp split: option.splits)
qed

lemma left_join_memberships:
  "keys_unique db \<Longrightarrow>
    left_join (\<lambda>m. m_workspace m = w \<and> m_user m = i) (memberships db) = [membership_at db w i]"
  by (rule left_join_one_row [of "\<lambda>m. (m_workspace m, m_user m)" _ _ "(w, i)"])
    (auto simp: keys_unique_def)

lemma left_join_documents:
  "keys_unique db \<Longrightarrow>
    left_join (\<lambda>d. d_workspace d = w \<and> d_id d = i) (documents db) = [document_at db w i]"
  by (rule left_join_one_row [of "\<lambda>d. (d_workspace d, d_id d)" _ _ "(w, i)"])
    (auto simp: keys_unique_def)

lemma left_join_tasks:
  "keys_unique db \<Longrightarrow>
    left_join (\<lambda>k. k_workspace k = w \<and> k_id k = i) (tasks db) = [task_at db w i]"
  by (rule left_join_one_row [of "\<lambda>k. (k_workspace k, k_id k)" _ _ "(w, i)"])
    (auto simp: keys_unique_def)

lemma left_join_projects:
  "keys_unique db \<Longrightarrow>
    left_join (\<lambda>p. p_workspace p = w \<and> Some (p_id p) = i) (projects db) = [project_at db w i]"
  by (rule left_join_one_row [of "\<lambda>p. (p_workspace p, Some (p_id p))" _ _ "(w, i)"])
    (auto simp: keys_unique_def distinct_map inj_on_def)

lemmas keyed_rows = comp_users comp_sessions comp_workspaces comp_memberships comp_documents
  comp_tasks comp_live_tasks comp_live_projects left_join_memberships left_join_documents
  left_join_tasks left_join_projects

lemma session_recheck_row:
  "keys_unique db \<Longrightarrow> session_recheck db now actor credential =
    (case user_at db actor of None \<Rightarrow> []
     | Some u \<Rightarrow> (case session_at db credential (u_id u) of None \<Rightarrow> []
                 | Some s \<Rightarrow> [user_live u \<and> session_live now s]))"
  by (simp add: session_recheck_def keyed_rows split: option.splits)

lemma workspace_is_live_row:
  "keys_unique db \<Longrightarrow> workspace_is_live db w \<longleftrightarrow>
    (case workspace_at db w of None \<Rightarrow> False | Some r \<Rightarrow> w_deleted_at r = None)"
  by (simp add: workspace_is_live_def keyed_rows split: option.splits)

lemma membership_role_row:
  "keys_unique db \<Longrightarrow> membership_role db w user =
    Option.bind (map_option m_role (membership_at db w user)) workspace_role_parse"
  by (simp add: membership_role_def keyed_rows split: option.splits)

lemma share_lock_row:
  "keys_unique db \<Longrightarrow> share_lock_project_permission db w actor project =
    (case project_at db w (Some project) of
       None \<Rightarrow> None
     | Some p \<Rightarrow>
         if p_deleted_at p = None
         then Some (effective_permission
                      (case membership_role db w actor of Some r \<Rightarrow> r | None \<Rightarrow> WsGuest)
                      (p_visibility p) (project_member_role_of db w project actor),
                    p_status p = ''archived'')
         else None)"
  by (simp add: share_lock_project_permission_def keyed_rows Let_def split: option.splits)

lemmas locked_rows = session_recheck_row workspace_is_live_row membership_role_row share_lock_row

text \<open>What the snapshot policy makes of the locking check's finding.\<close>

fun admission_of :: "actor_access \<Rightarrow> delivery_admission" where
  "admission_of (Access a) =
     (if at_least (permission a) PermView
      then Allowed (archived a \<or> \<not> at_least (permission a) PermEdit) else Denied)"
| "admission_of _ = Denied"

lemma admission_of_resolve:
  "admission_of (lock_collab_actor before db c) =
    (case resolve_collab_admission before db c of
       Inl _ \<Rightarrow> Denied | Inr a \<Rightarrow> Allowed (adm_read_only a))"
  by (cases "lock_collab_actor before db c")
    (simp_all add: resolve_collab_admission_def authorize_collab_read_def)

lemma find_SomeD: "find P xs = Some x \<Longrightarrow> P x"
  by (induction xs) (auto split: if_splits)

lemma document_snapshot:
  assumes "keys_unique db" and "user_at db actor = Some u" and "session_at db credential actor = Some s"
  shows "document_delivery_policy
      (fetch_optional (document_delivery_statement db now w actor credential doc)) =
    (if \<not> (user_live u \<and> session_live now s) \<or> \<not> workspace_is_live db w \<or>
        membership_role db w actor = None
     then Denied
     else case lock_collab_document_access db db w actor doc of
       None \<Rightarrow> Denied | Some a \<Rightarrow> admission_of (Access a))"
proof (cases "workspace_at db w")
  case None
  then show ?thesis
    using assms find_SomeD [OF assms(2)]
    by (simp add: document_delivery_statement_def keyed_rows document_delivery_policy_def
        workspace_is_live_row)
next
  case (Some wr)
  have u: "u_id u = actor"
    using find_SomeD [OF assms(2)] by simp
  let ?d = "document_at db w doc"
  let ?m = "membership_at db w actor"
  let ?p = "project_at db w (Option.bind ?d d_project)"
  have stmt: "document_delivery_statement db now w actor credential doc =
     [\<lparr>r_session_live = (session_live now s \<and> user_live u),
       r_workspace_live = (w_deleted_at wr = None),
       r_role = map_option m_role ?m,
       r_project_id = Option.bind ?d d_project,
       r_status = map_option d_status ?d,
       r_deleted_at = Option.bind ?d d_deleted_at,
       r_grant_rank = grant_rank db w doc actor,
       r_project_live = Some (Option.bind ?p p_deleted_at = None),
       r_project_visibility = map_option p_visibility ?p,
       r_project_status = map_option p_status ?p,
       r_project_rank = project_rank db w (Option.bind ?d d_project) actor\<rparr>]"
    using assms Some u by (simp add: document_delivery_statement_def keyed_rows)
  have live: "workspace_is_live db w \<longleftrightarrow> w_deleted_at wr = None"
    using assms Some by (simp add: workspace_is_live_row)
  have role: "Option.bind (map_option m_role ?m) workspace_role_parse = membership_role db w actor"
    using assms by (simp only: membership_role_row)
  show ?thesis
  proof (cases "membership_role db w actor")
    case None
    then show ?thesis
      by (simp add: stmt document_delivery_policy_def role)
  next
    case role_some: (Some r)
    show ?thesis
    proof (cases "?d")
      case None
      then show ?thesis
        using assms by (simp add: stmt document_delivery_policy_def role role_some live
            lock_collab_document_access_def document_affiliation_def keyed_rows)
    next
      case doc: (Some d)
      show ?thesis
      proof (cases "d_project d")
        case None
        then show ?thesis
          using assms by (simp add: stmt document_delivery_policy_def role role_some live doc
              lock_collab_document_access_def document_affiliation_def collab_document_lock_def
              document_permission_def wiki_document_eligible_def grant_rank_permission keyed_rows
              Let_def)
      next
        case proj: (Some project)
        then show ?thesis
          using assms by (cases "project_at db w (Some project)")
            (auto simp: stmt document_delivery_policy_def role role_some live doc
              lock_collab_document_access_def document_affiliation_def collab_document_lock_def
              share_lock_row project_rank_role keyed_rows Let_def split: bool.splits)
      qed
    qed
  qed
qed

lemma task_snapshot:
  assumes "keys_unique db" and "user_at db actor = Some u" and "session_at db credential actor = Some s"
  shows "task_delivery_policy
      (fetch_optional (task_delivery_statement db now w actor credential task)) =
    (if \<not> (user_live u \<and> session_live now s) \<or> \<not> workspace_is_live db w \<or>
        membership_role db w actor = None
     then Denied
     else case lock_collab_task_access db db w actor task of
       None \<Rightarrow> Denied | Some a \<Rightarrow> admission_of (Access a))"
proof (cases "workspace_at db w")
  case None
  then show ?thesis
    using assms find_SomeD [OF assms(2)]
    by (simp add: task_delivery_statement_def keyed_rows task_delivery_policy_def
        workspace_is_live_row)
next
  case (Some wr)
  have u: "u_id u = actor"
    using find_SomeD [OF assms(2)] by simp
  let ?k = "task_at db w task"
  let ?m = "membership_at db w actor"
  let ?p = "project_at db w (map_option k_project ?k)"
  have stmt: "task_delivery_statement db now w actor credential task =
     [\<lparr>tr_session_live = (session_live now s \<and> user_live u),
       tr_workspace_live = (w_deleted_at wr = None),
       tr_role = map_option m_role ?m,
       tr_project_id = map_option k_project ?k,
       tr_task_archived = Some (Option.bind ?k k_archived_at \<noteq> None),
       tr_deleted_at = Option.bind ?k k_deleted_at,
       tr_project_live = Some (Option.bind ?p p_deleted_at = None),
       tr_project_visibility = map_option p_visibility ?p,
       tr_project_status = map_option p_status ?p,
       tr_project_rank = project_rank db w (map_option k_project ?k) actor\<rparr>]"
    using assms Some u by (simp add: task_delivery_statement_def keyed_rows)
  have live: "workspace_is_live db w \<longleftrightarrow> w_deleted_at wr = None"
    using assms Some by (simp add: workspace_is_live_row)
  have role: "Option.bind (map_option m_role ?m) workspace_role_parse = membership_role db w actor"
    using assms by (simp only: membership_role_row)
  show ?thesis
  proof (cases "membership_role db w actor")
    case None
    then show ?thesis
      by (simp add: stmt task_delivery_policy_def role)
  next
    case role_some: (Some r)
    show ?thesis
    proof (cases "?k")
      case None
      then show ?thesis
        using assms by (simp add: stmt task_delivery_policy_def role role_some live
            lock_collab_task_access_def collab_task_affiliation_def keyed_rows)
    next
      case task: (Some k)
      then show ?thesis
        using assms by (cases "project_at db w (Some (k_project k))")
          (auto simp: stmt task_delivery_policy_def role role_some live
            lock_collab_task_access_def collab_task_affiliation_def collab_task_lock_def
            share_lock_row project_rank_role keyed_rows Let_def split: bool.splits)
    qed
  qed
qed

lemma no_session_denied:
  assumes "keys_unique db"
    and "\<And>u. user_at db actor = Some u \<Longrightarrow> session_at db credential actor = None"
  shows "document_delivery_statement db now w actor credential doc = []"
    and "task_delivery_statement db now w actor credential task = []"
proof -
  have "session_at db credential (u_id u) = None" if "user_at db actor = Some u" for u
    using assms(2) [OF that] find_SomeD [OF that] by simp
  with assms(1) show "document_delivery_statement db now w actor credential doc = []"
    and "task_delivery_statement db now w actor credential task = []"
    by (simp_all add: document_delivery_statement_def task_delivery_statement_def keyed_rows
        split: option.splits)
qed

lemma snapshot_session:
  assumes "keys_unique db" and "user_at db (a_actor c) = Some u"
    and "session_at db (a_credential c) (a_actor c) = Some s"
    and "recheck_session (a_backend c) db (a_now c) (a_workspace c) (a_actor c) (a_credential c) \<longleftrightarrow>
      user_live u \<and> session_live (a_now c) s"
  shows "check_delivery_admission_kind db c = admission_of (lock_collab_actor db db c)"
  using assms(4) document_snapshot [OF assms(1-3)] task_snapshot [OF assms(1-3)]
  by (auto simp: check_delivery_admission_kind_def lock_collab_actor_def lock_collab_access_def
      split: collab_kind.splits option.splits)

lemma no_token_rows:
  "\<forall>t \<in> set (api_tokens db). t_id t \<noteq> credential \<Longrightarrow> token_recheck db now w actor credential = []"
  by (auto simp: token_recheck_def)

text \<open>On PostgreSQL a session row decides alone; the family accepts a token beside it.\<close>

lemma recheck_with_session:
  assumes "keys_unique db" and "user_at db actor = Some u" and "session_at db credential actor = Some s"
    and "b = Postgres \<or> (\<forall>t \<in> set (api_tokens db). t_id t \<noteq> credential) \<or>
      user_live u \<and> session_live now s"
  shows "recheck_session b db now w actor credential \<longleftrightarrow> user_live u \<and> session_live now s"
proof -
  have "session_recheck db now actor credential = [user_live u \<and> session_live now s]"
    using assms(1-3) find_SomeD [OF assms(2)] by (simp add: session_recheck_row)
  then show ?thesis
    using assms(4) by (auto simp: recheck_session_def no_token_rows split: db_backend.splits)
qed

lemma recheck_without_session:
  assumes "keys_unique db" and "\<And>u. user_at db actor = Some u \<Longrightarrow> session_at db credential actor = None"
    and "\<forall>t \<in> set (api_tokens db). t_id t \<noteq> credential"
  shows "\<not> recheck_session b db now w actor credential"
proof -
  have "session_at db credential (u_id u) = None" if "user_at db actor = Some u" for u
    using assms(2) [OF that] find_SomeD [OF that] by simp
  then have "session_recheck db now actor credential = []"
    using assms(1) by (simp add: session_recheck_row split: option.splits)
  then show ?thesis
    using assms(3) by (simp add: recheck_session_def no_token_rows split: db_backend.splits)
qed

definition room_proof :: "authz_db \<Rightarrow> collab_actor \<Rightarrow> delivery_fence option \<Rightarrow> bool" where
  "room_proof db c fence \<longleftrightarrow>
     a_backend c = Postgres \<or> (\<exists>f. fence = Some f \<and> native_fence_matches (df_original f) c \<and> fence_held db c f)"

lemma delivery_backend:
  "check_delivery_admission_kind_backend db c fence =
    (if room_proof db c fence then check_delivery_admission_kind db c else Denied)"
  by (auto simp: check_delivery_admission_kind_backend_def family_delivery_admission_def
      check_delivery_admission_kind_def room_proof_def document_delivery_policy_def
      task_delivery_policy_def split: db_backend.splits option.splits collab_kind.splits)

lemma snapshot_denied_session:
  assumes "keys_unique db" and "\<not> (\<exists>u s. user_at db (a_actor c) = Some u \<and>
      session_at db (a_credential c) (a_actor c) = Some s)"
  shows "check_delivery_admission_kind db c = Denied"
proof -
  have "session_at db (a_credential c) (a_actor c) = None" if "user_at db (a_actor c) = Some u" for u
    using assms(2) that by (cases "session_at db (a_credential c) (a_actor c)") auto
  from no_session_denied [OF assms(1) this] show ?thesis
    by (simp add: check_delivery_admission_kind_def document_delivery_policy_def
        task_delivery_policy_def split: collab_kind.split)
qed

lemma snapshot_allowed_live:
  assumes "keys_unique db" and "user_at db (a_actor c) = Some u"
    and "session_at db (a_credential c) (a_actor c) = Some s"
    and "check_delivery_admission_kind db c = Allowed ro"
  shows "user_live u \<and> session_live (a_now c) s"
  using assms(4) document_snapshot [OF assms(1-3)] task_snapshot [OF assms(1-3)]
  by (auto simp: check_delivery_admission_kind_def split: collab_kind.splits if_splits)

lemma snapshot_allowed:
  assumes "keys_unique db" and "check_delivery_admission_kind db c = Allowed ro"
  shows "admission_of (lock_collab_actor db db c) = Allowed ro"
proof -
  obtain u s where us: "user_at db (a_actor c) = Some u"
      "session_at db (a_credential c) (a_actor c) = Some s"
    using snapshot_denied_session [OF assms(1), of c] assms(2) by force
  have "user_live u \<and> session_live (a_now c) s"
    using snapshot_allowed_live [OF assms(1) us assms(2)] .
  with assms us show ?thesis
    using snapshot_session [OF assms(1) us] recheck_with_session [OF assms(1) us] by simp
qed

lemma snapshot_eq:
  assumes "keys_unique db" and "\<forall>t \<in> set (api_tokens db). t_id t \<noteq> a_credential c"
  shows "check_delivery_admission_kind db c = admission_of (lock_collab_actor db db c)"
proof (cases "\<exists>u s. user_at db (a_actor c) = Some u \<and> session_at db (a_credential c) (a_actor c) = Some s")
  case True
  then obtain u s where us: "user_at db (a_actor c) = Some u"
      "session_at db (a_credential c) (a_actor c) = Some s"
    by blast
  show ?thesis
    by (rule snapshot_session [OF assms(1) us], rule recheck_with_session [OF assms(1) us])
      (use assms(2) in simp)
next
  case False
  then have none: "session_at db (a_credential c) (a_actor c) = None"
    if "user_at db (a_actor c) = Some u" for u
    using that by (cases "session_at db (a_credential c) (a_actor c)") auto
  from recheck_without_session [OF assms(1) none assms(2)] snapshot_denied_session [OF assms(1) False]
  show ?thesis
    by (simp add: lock_collab_actor_def)
qed

lemma write_iff_read:
  "authorize_collab_write before db c = Inr () \<longleftrightarrow>
    (\<exists>a. resolve_collab_admission before db c = Inr a \<and> \<not> adm_read_only a)"
  by (cases "lock_collab_actor before db c")
    (auto simp: authorize_collab_write_def resolve_collab_admission_def authorize_collab_read_def
      at_least_def permission_order split: if_splits)

definition sample_authz :: authz_db where
  "sample_authz =
     \<lparr>users = [\<lparr>u_id = 1, u_deleted_at = None, u_suspended_at = None\<rparr>],
      sessions = [\<lparr>s_id = 2, s_user = 1, s_revoked_at = None, s_expires_at = 100\<rparr>],
      api_tokens = [], workspaces = [\<lparr>w_id = 3, w_deleted_at = None\<rparr>],
      memberships = [\<lparr>m_workspace = 3, m_user = 1, m_role = ''guest''\<rparr>],
      documents = [\<lparr>d_workspace = 3, d_id = 4, d_project = Some 5, d_status = ''draft'',
                     d_deleted_at = None\<rparr>],
      tasks = [],
      projects = [\<lparr>p_workspace = 3, p_id = 5, p_visibility = ''private'', p_status = ''active'',
                    p_deleted_at = None\<rparr>],
      group_members = [\<lparr>g_workspace = 3, g_group = 6, g_user = 1\<rparr>],
      project_members =
        [\<lparr>pm_workspace = 3, pm_project = 5, pm_user = None, pm_group = Some 6, pm_role = ''viewer''\<rparr>],
      document_members = [], collab_room_fences = [], task_collab_room_fences = []\<rparr>"

definition sample_actor :: collab_actor where
  "sample_actor =
     \<lparr>a_backend = Postgres, a_now = 50, a_kind = Document, a_workspace = 3, a_actor = 1,
      a_credential = 2, a_resource = 4\<rparr>"

lemma sample_authz_keys: "keys_unique sample_authz"
  by (simp add: keys_unique_def sample_authz_def)

lemma sample_snapshot: "check_delivery_admission_kind_backend sample_authz sample_actor None = Allowed True"
  by (simp add: sample_authz_def sample_actor_def check_delivery_admission_kind_backend_def
      check_delivery_admission_kind_def document_delivery_statement_def left_join_def
      session_live_def user_live_def project_rank_def role_rank_def document_delivery_policy_def
      effective_permission_def rank_role_def at_least_def permission_order)

section \<open>Properties\<close>

text \<open>C14: The lock-free delivery check and the locking admission check are the same policy. On a
  database that satisfies its primary keys, whatever the delivery statement lets through is
  admitted by the locking check with the same read-only verdict, and the writer check accepts
  exactly when that verdict is read-write; and for a session credential (one that is not an API
  token) under a held room proof the two checks agree on every outcome, refusals included.\<close>

theorem delivery_agrees_with_locking:
  assumes "keys_unique db"
  shows "(\<forall>ro. check_delivery_admission_kind_backend db c fence = Allowed ro \<longrightarrow>
      (\<exists>a. resolve_collab_admission db db c = Inr a \<and> adm_read_only a = ro) \<and>
      (authorize_collab_write db db c = Inr () \<longleftrightarrow> \<not> ro)) \<and>
    ((\<forall>t \<in> set (api_tokens db). t_id t \<noteq> a_credential c) \<and> room_proof db c fence \<longrightarrow>
      check_delivery_admission_kind_backend db c fence =
        (case resolve_collab_admission db db c of
           Inl _ \<Rightarrow> Denied | Inr a \<Rightarrow> Allowed (adm_read_only a)))"
proof (intro conjI allI impI)
  fix ro
  assume "check_delivery_admission_kind_backend db c fence = Allowed ro"
  then have "admission_of (lock_collab_actor db db c) = Allowed ro"
    using snapshot_allowed [OF assms] by (simp add: delivery_backend split: if_splits)
  then show "\<exists>a. resolve_collab_admission db db c = Inr a \<and> adm_read_only a = ro"
    and "authorize_collab_write db db c = Inr () \<longleftrightarrow> \<not> ro"
    by (auto simp: admission_of_resolve write_iff_read split: sum.splits)
next
  assume "(\<forall>t \<in> set (api_tokens db). t_id t \<noteq> a_credential c) \<and> room_proof db c fence"
  then show "check_delivery_admission_kind_backend db c fence =
      (case resolve_collab_admission db db c of Inl _ \<Rightarrow> Denied | Inr a \<Rightarrow> Allowed (adm_read_only a))"
    using snapshot_eq [OF assms] by (simp add: delivery_backend admission_of_resolve)
qed

theorem delivery_agrees_with_locking_witness:
  "\<exists>a. resolve_collab_admission sample_authz sample_authz sample_actor = Inr a \<and> adm_read_only a = True"
  using delivery_agrees_with_locking [OF sample_authz_keys] sample_snapshot by blast

end
