(* ===== verification/CollabStore.thy ===== *)
theory CollabStore
  imports Access Json
begin

text \<open>
  The durable side of one collaborative resource (\<open>src/src/db/collab.rs\<close>): its state row
  (snapshot, writer generation, cutoff and tail sequence numbers), the tail of update rows, the
  operation receipts, the derived body and the events. Each transaction of the code (claim,
  load, append, verify, compact, project) is a function on these rows; the authority checks are
  those of \<open>Access\<close>. A driver failure or an unreported commit is an argument of the
  function that finishes the transaction, so every outcome the callers must handle is a value.
  All statements carry the same workspace and resource keys, so the tables are the rows of
  that key.
\<close>

section \<open>Constants and rows\<close>

definition COLLAB_STATE_ENCODING_V1 :: int where
  "COLLAB_STATE_ENCODING_V1 = 1"

definition MAX_COLLAB_SNAPSHOT_BYTES :: int where
  "MAX_COLLAB_SNAPSHOT_BYTES = 8 * 1024 * 1024"

definition MAX_COLLAB_UPDATE_BYTES :: int where
  "MAX_COLLAB_UPDATE_BYTES = 8 * 1024 * 1024"

definition MAX_COLLAB_TAIL_UPDATES :: int where
  "MAX_COLLAB_TAIL_UPDATES = 64"

definition MAX_COLLAB_LOAD_BYTES :: int where
  "MAX_COLLAB_LOAD_BYTES = 32 * 1024 * 1024"

definition EMPTY_YJS_STATE_V1 :: "u8 list" where
  "EMPTY_YJS_STATE_V1 = [0, 0]"

lemmas collab_limits = MAX_COLLAB_SNAPSHOT_BYTES_def MAX_COLLAB_UPDATE_BYTES_def
  MAX_COLLAB_TAIL_UPDATES_def MAX_COLLAB_LOAD_BYTES_def

definition load_budget_allows :: "int \<Rightarrow> int \<Rightarrow> int \<Rightarrow> collab_db_error + unit" where
  "load_budget_allows snapshot_len tail_count tail_bytes =
     (if tail_count > MAX_COLLAB_TAIL_UPDATES then Inl StateBudgetExceeded
      else if snapshot_len + tail_bytes > MAX_COLLAB_LOAD_BYTES then Inl StateBudgetExceeded
      else Inr ())"

record state_row =
  state :: "u8 list"
  encoding :: int
  writer_generation :: int
  snapshot_cutoff_seq :: int
  tail_seq :: int

record collab_update_row =
  seq :: int
  op_id :: uuid
  payload :: "u8 list"

record receipt_row =
  rc_op_id :: uuid
  rc_seq :: int
  rc_payload_len :: int
  rc_payload_sha256 :: "u8 list"
  rc_actor_user_id :: uuid

datatype collab_event =
  CollabUpdateAppended uuid uuid int int
| CollabSnapshotCompacted uuid int int
| BodyUpdated

record 'n native_store =
  st_state :: "state_row option"
  st_updates :: "collab_update_row list"
  st_receipts :: "receipt_row list"
  st_content_json :: "'n json"
  st_text :: string
  st_chosung :: string
  st_events :: "collab_event list"
  st_audit :: "collab_event list"

record collab_load_state =
  l_snapshot :: "u8 list"
  l_tail :: "collab_update_row list"
  l_writer_generation :: int
  l_snapshot_cutoff_seq :: int
  l_tail_seq :: int

definition empty_document_json :: "'n json" where
  "empty_document_json =
     JObject [(''content'', JArray [JObject [(''type'', JString ''paragraph'')]]),
              (''type'', JString ''doc'')]"

section \<open>Statements on the rows\<close>

definition native_state_generation :: "'n native_store \<Rightarrow> int option" where
  "native_state_generation st = map_option writer_generation (st_state st)"

definition insert_empty_native_state :: "'n native_store \<Rightarrow> 'n native_store" where
  "insert_empty_native_state st =
     st\<lparr>st_state := Some \<lparr>state = EMPTY_YJS_STATE_V1, encoding = COLLAB_STATE_ENCODING_V1,
                          writer_generation = 0, snapshot_cutoff_seq = 0, tail_seq = 0\<rparr>\<rparr>"

definition ensure_collab_state :: "'n json \<Rightarrow> 'n native_store \<Rightarrow> collab_db_error + 'n native_store" where
  "ensure_collab_state content st =
     (if native_state_generation st \<noteq> None then Inr st
      else if content \<noteq> empty_document_json then Inl NotFound
      else Inr (insert_empty_native_state st))"

definition native_append_fence :: "'n native_store \<Rightarrow> (int \<times> int \<times> int \<times> int) option" where
  "native_append_fence st =
     map_option (\<lambda>r. (int (length (state r)), writer_generation r, snapshot_cutoff_seq r, tail_seq r))
       (st_state st)"

definition native_operation_receipt :: "'n native_store \<Rightarrow> uuid \<Rightarrow> receipt_row option" where
  "native_operation_receipt st operation =
     fetch_optional [r. r \<leftarrow> st_receipts st, rc_op_id r = operation]"

definition advance_native_tail :: "int \<Rightarrow> int \<Rightarrow> 'n native_store \<Rightarrow> 'n native_store \<times> int option" where
  "advance_native_tail generation expected_tail st =
     (case st_state st of
        None \<Rightarrow> (st, None)
      | Some r \<Rightarrow>
          if writer_generation r = generation \<and> tail_seq r = expected_tail
          then (st\<lparr>st_state := Some (r\<lparr>tail_seq := tail_seq r + 1\<rparr>)\<rparr>, Some (tail_seq r + 1))
          else (st, None))"

definition insert_native_update_and_receipt ::
    "uuid \<Rightarrow> uuid \<Rightarrow> int \<Rightarrow> u8 list \<Rightarrow> u8 list \<Rightarrow> 'n native_store \<Rightarrow> 'n native_store" where
  "insert_native_update_and_receipt actor operation s bytes digest st =
     st\<lparr>st_updates := st_updates st @ [\<lparr>seq = s, op_id = operation, payload = bytes\<rparr>],
        st_receipts := st_receipts st @
          [\<lparr>rc_op_id = operation, rc_seq = s, rc_payload_len = int (length bytes),
            rc_payload_sha256 = digest, rc_actor_user_id = actor\<rparr>]\<rparr>"

definition record_event :: "collab_event \<Rightarrow> 'n native_store \<Rightarrow> 'n native_store" where
  "record_event e st = st\<lparr>st_events := st_events st @ [e], st_audit := st_audit st @ [e]\<rparr>"

definition record_native_append ::
    "uuid \<Rightarrow> uuid \<Rightarrow> int \<Rightarrow> int \<Rightarrow> 'n native_store \<Rightarrow> 'n native_store" where
  "record_native_append actor operation s generation st =
     record_event (CollabUpdateAppended actor operation s generation) st"

definition bump_native_writer_generation :: "'n native_store \<Rightarrow> 'n native_store \<times> int option" where
  "bump_native_writer_generation st =
     (case st_state st of
        None \<Rightarrow> (st, None)
      | Some r \<Rightarrow>
          (st\<lparr>st_state := Some (r\<lparr>writer_generation := writer_generation r + 1\<rparr>)\<rparr>,
           Some (writer_generation r + 1)))"

definition native_tail_stats :: "'n native_store \<Rightarrow> int \<Rightarrow> int \<times> int" where
  "native_tail_stats st cutoff =
     (let rows = [u. u \<leftarrow> st_updates st, seq u > cutoff]
      in (int (length rows), int (sum_list (map (length \<circ> payload) rows))))"

definition load_native_tail ::
    "'n native_store \<Rightarrow> int \<Rightarrow> int \<Rightarrow> collab_db_error + collab_update_row list" where
  "load_native_tail st cutoff snapshot_len =
     (let (count, bytes) = native_tail_stats st cutoff
      in rbind (load_budget_allows snapshot_len count bytes) (\<lambda>_.
           Inr (take (nat MAX_COLLAB_TAIL_UPDATES)
                 (sort_key seq [u. u \<leftarrow> st_updates st, seq u > cutoff]))))"

definition state_row_to_load :: "state_row \<Rightarrow> collab_update_row list \<Rightarrow> collab_load_state" where
  "state_row_to_load row tail =
     \<lparr>l_snapshot = state row, l_tail = tail, l_writer_generation = writer_generation row,
      l_snapshot_cutoff_seq = snapshot_cutoff_seq row, l_tail_seq = tail_seq row\<rparr>"

definition load_durable_native_source :: "'n native_store \<Rightarrow> collab_db_error + collab_load_state" where
  "load_durable_native_source st =
     (case st_state st of
        None \<Rightarrow> Inl NotFound
      | Some row \<Rightarrow>
          if encoding row \<noteq> COLLAB_STATE_ENCODING_V1 then Inl NotFound
          else rbind (load_native_tail st (snapshot_cutoff_seq row) (int (length (state row))))
                 (\<lambda>tail. Inr (state_row_to_load row tail)))"

definition native_compaction_tail_flags :: "'n native_store \<Rightarrow> int \<Rightarrow> bool \<times> bool" where
  "native_compaction_tail_flags st cutoff =
     (\<exists>u \<in> set (st_updates st). seq u > cutoff, \<exists>u \<in> set (st_updates st). seq u \<le> cutoff)"

definition compact_native_rows ::
    "uuid \<Rightarrow> int \<Rightarrow> int \<Rightarrow> u8 list \<Rightarrow> 'n native_store \<Rightarrow> 'n native_store" where
  "compact_native_rows actor generation cutoff snapshot st =
     (let st1 = (case st_state st of
                   None \<Rightarrow> st
                 | Some r \<Rightarrow>
                     if writer_generation r = generation
                     then st\<lparr>st_state := Some (r\<lparr>state := snapshot, snapshot_cutoff_seq := cutoff\<rparr>)\<rparr>
                     else st);
          st2 = st1\<lparr>st_updates := [u. u \<leftarrow> st_updates st1, \<not> seq u \<le> cutoff]\<rparr>
      in record_event (CollabSnapshotCompacted actor cutoff generation) st2)"

definition write_native_body_projection ::
    "'n json \<Rightarrow> string \<Rightarrow> string \<Rightarrow> 'n native_store \<Rightarrow> 'n native_store \<times> bool" where
  "write_native_body_projection content_json body_text chosung st =
     (if st_content_json st = content_json then (st, False)
      else (st\<lparr>st_content_json := content_json, st_text := body_text, st_chosung := chosung\<rparr>, True))"

definition append_native_body_updated :: "'n native_store \<Rightarrow> 'n native_store" where
  "append_native_body_updated st = st\<lparr>st_events := st_events st @ [BodyUpdated]\<rparr>"

section \<open>Transactions\<close>

text \<open>
  What a transaction may meet: a statement fails in the driver, the rollback of a refusal
  fails, the commit fails without effect, or it takes effect and its reply is lost.
\<close>

datatype tx_fault = NoFault | StatementFault | RollbackFault | CommitRefused | CommitReplyLost

datatype 'a tx_result = DriverError | Refused collab_db_error | Done 'a

record tx_ctx =
  x_before :: authz_db
  x_db :: authz_db
  x_actor :: collab_actor
  x_end :: time
  x_fault :: tx_fault

definition finish_native_room_operation ::
    "tx_fault \<Rightarrow> 'n native_store \<Rightarrow> 'n native_store \<times> 'a tx_result \<Rightarrow> 'n native_store \<times> 'a tx_result" where
  "finish_native_room_operation fault st body =
     (if fault = StatementFault then (st, DriverError)
      else case snd body of
        DriverError \<Rightarrow> (st, DriverError)
      | Refused e \<Rightarrow> (st, if fault = RollbackFault then DriverError else Refused e)
      | Done v \<Rightarrow>
          (case fault of
             CommitRefused \<Rightarrow> (st, DriverError)
           | CommitReplyLost \<Rightarrow> (fst body, DriverError)
           | _ \<Rightarrow> (fst body, Done v)))"

definition verify_family_native_room_fence :: "authz_db \<Rightarrow> time \<Rightarrow> native_fence \<Rightarrow> bool" where
  "verify_family_native_room_fence db now f \<longleftrightarrow>
     (\<exists>row \<in> set (room_fences db (nf_kind f)).
        f_workspace row = nf_workspace f \<and> f_resource row = nf_resource f \<and>
        f_owner row = nf_owner f \<and> f_fence row = nf_sequence f \<and> f_expires_at row > now)"

text \<open>The room scope of \<open>NativeWriteScope\<close>; on PostgreSQL the statement on a family lease is a
  protocol error (\<open>None\<close>).\<close>

definition current_native_write_scope ::
    "tx_ctx \<Rightarrow> time \<Rightarrow> native_fence option \<Rightarrow> bool option" where
  "current_native_write_scope ctx now fence =
     (case fence of
        None \<Rightarrow> Some (a_backend (x_actor ctx) = Postgres)
      | Some f \<Rightarrow>
          if \<not> native_fence_matches f (x_actor ctx) then Some False
          else if a_backend (x_actor ctx) = Postgres then None
          else Some (verify_family_native_room_fence (x_db ctx) now f))"

definition in_scope ::
    "bool option \<Rightarrow> 'n native_store \<Rightarrow> 'n native_store \<times> 'a tx_result \<Rightarrow> 'n native_store \<times> 'a tx_result" where
  "in_scope scope st k =
     (case scope of
        None \<Rightarrow> (st, DriverError)
      | Some False \<Rightarrow> (st, Refused StaleWriter)
      | Some True \<Rightarrow> k)"

record append_input =
  ai_writer_generation :: int
  ai_expected_tail_seq :: int
  ai_op_id :: uuid
  ai_payload :: "u8 list"

datatype prepared_native_append = Appended int | Replay int

datatype append_collab_result = Committed int | DuplicateAck int

text \<open>The locked fence, after seeding a row that never existed.\<close>

definition seeded_append_fence ::
    "'n native_store \<Rightarrow> collab_db_error + 'n native_store \<times> (int \<times> int \<times> int \<times> int) option" where
  "seeded_append_fence st =
     (case native_append_fence st of
        Some f \<Rightarrow> Inr (st, Some f)
      | None \<Rightarrow>
          rbind (ensure_collab_state (st_content_json st) st)
            (\<lambda>st1. Inr (st1, native_append_fence st1)))"

text \<open>An append of the room (\<open>NativeWriteScope::Room\<close>) that restores no revision.\<close>

definition append_collab_native ::
    "(u8 list \<Rightarrow> u8 list) \<Rightarrow> tx_ctx \<Rightarrow> native_fence option \<Rightarrow> append_input \<Rightarrow> 'n native_store \<Rightarrow>
     'n native_store \<times> prepared_native_append tx_result" where
  "append_collab_native sha256 ctx fence inp st =
     (let bytes = ai_payload inp; actor = a_actor (x_actor ctx) in
      if bytes = [] \<or> int (length bytes) > MAX_COLLAB_UPDATE_BYTES then (st, Refused PayloadTooLarge)
      else in_scope (current_native_write_scope ctx (a_now (x_actor ctx)) fence) st
        (case authorize_collab_write (x_before ctx) (x_db ctx) (x_actor ctx) of
           Inl e \<Rightarrow> (st, Refused e)
         | Inr _ \<Rightarrow>
             (case seeded_append_fence st of
                Inl e \<Rightarrow> (st, Refused e)
              | Inr (st1, None) \<Rightarrow> (st1, Refused NotFound)
              | Inr (st1, Some (snapshot_len, current_generation, cutoff, tail)) \<Rightarrow>
                  if current_generation \<noteq> ai_writer_generation inp then (st1, Refused StaleWriter)
                  else
                    let incoming_len = int (length bytes);
                        incoming_digest = sha256 bytes
                    in (case native_operation_receipt st1 (ai_op_id inp) of
                          Some r \<Rightarrow>
                            if rc_payload_len r = incoming_len \<and> rc_payload_sha256 r = incoming_digest \<and>
                               rc_actor_user_id r = actor
                            then in_scope (current_native_write_scope ctx (x_end ctx) fence) st1
                                   (st1, Done (Replay (rc_seq r)))
                            else (st1, Refused OpIdConflict)
                        | None \<Rightarrow>
                            if tail \<noteq> ai_expected_tail_seq inp then (st1, Refused StaleCutoff)
                            else
                              let (count, tail_bytes) = native_tail_stats st1 cutoff
                              in if count + 1 > MAX_COLLAB_TAIL_UPDATES \<or>
                                    snapshot_len + tail_bytes + incoming_len > MAX_COLLAB_LOAD_BYTES
                                 then (st1, Refused StateBudgetExceeded)
                                 else
                                   (case advance_native_tail (ai_writer_generation inp)
                                           (ai_expected_tail_seq inp) st1 of
                                      (st2, None) \<Rightarrow> (st2, Refused StaleWriter)
                                    | (st2, Some s) \<Rightarrow>
                                        let st3 = insert_native_update_and_receipt actor (ai_op_id inp) s
                                                    bytes incoming_digest st2;
                                            st4 = record_native_append actor (ai_op_id inp) s
                                                    (ai_writer_generation inp) st3
                                        in in_scope (current_native_write_scope ctx (x_end ctx) fence) st4
                                             (st4, Done (Appended s)))))))"

fun confirmed :: "prepared_native_append tx_result \<Rightarrow> append_collab_result tx_result" where
  "confirmed (Done (Appended s)) = Done (Committed s)"
| "confirmed (Done (Replay s)) = Done (DuplicateAck s)"
| "confirmed (Refused e) = Refused e"
| "confirmed DriverError = DriverError"

definition append_collab_update_in_tx ::
    "(u8 list \<Rightarrow> u8 list) \<Rightarrow> tx_ctx \<Rightarrow> native_fence option \<Rightarrow> append_input \<Rightarrow> 'n native_store \<Rightarrow>
     'n native_store \<times> append_collab_result tx_result" where
  "append_collab_update_in_tx sha256 ctx fence inp st =
     apsnd confirmed
       (finish_native_room_operation (x_fault ctx) st (append_collab_native sha256 ctx fence inp st))"

text \<open>The room's guard: the detached PostgreSQL connection, or the family lease (its original
  token, the current one and the token its activation installs).\<close>

datatype room_guard = PgGuard | FamilyGuard native_fence native_fence uuid

fun family_fence :: "room_guard \<Rightarrow> native_fence option" where
  "family_fence PgGuard = None"
| "family_fence (FamilyGuard original current writer_owner) = Some current"

fun delivery_fence_of :: "room_guard \<Rightarrow> delivery_fence option" where
  "delivery_fence_of PgGuard = None"
| "delivery_fence_of (FamilyGuard original current writer_owner) =
     Some \<lparr>df_original = original, df_writer_owner = writer_owner\<rparr>"

definition guard_append ::
    "(u8 list \<Rightarrow> u8 list) \<Rightarrow> tx_ctx \<Rightarrow> room_guard \<Rightarrow> append_input \<Rightarrow> 'n native_store \<Rightarrow>
     'n native_store \<times> append_collab_result tx_result" where
  "guard_append sha256 ctx guard inp st =
     (let too_large = ai_payload inp = [] \<or> int (length (ai_payload inp)) > MAX_COLLAB_UPDATE_BYTES
      in case guard of
           PgGuard \<Rightarrow>
             if too_large then (st, Refused PayloadTooLarge)
             else append_collab_update_in_tx sha256 ctx None inp st
         | FamilyGuard original current writer_owner \<Rightarrow>
             if \<not> native_fence_matches current (x_actor ctx) then (st, Refused StaleWriter)
             else if a_backend (x_actor ctx) = Postgres then (st, DriverError)
             else if too_large then (st, Refused PayloadTooLarge)
             else append_collab_update_in_tx sha256 ctx (Some current) inp st)"

datatype native_load_mode = ClaimWriter | LoadWriter | LoadReader

record claim_writer_result =
  cw_writer_generation :: int
  cw_load :: collab_load_state

definition load_collab_native ::
    "native_load_mode \<Rightarrow> tx_ctx \<Rightarrow> 'n native_store \<Rightarrow> 'n native_store \<times> claim_writer_result tx_result" where
  "load_collab_native mode ctx st =
     (case (if mode = LoadReader
            then rbind (authorize_collab_read (x_before ctx) (x_db ctx) (x_actor ctx)) (\<lambda>_. Inr ())
            else authorize_collab_write (x_before ctx) (x_db ctx) (x_actor ctx)) of
        Inl e \<Rightarrow> (st, Refused e)
      | Inr _ \<Rightarrow>
          (case ensure_collab_state (st_content_json st) st of
             Inl e \<Rightarrow> (st, Refused e)
           | Inr st1 \<Rightarrow>
               (case (if mode = ClaimWriter then bump_native_writer_generation st1 else (st1, Some 0)) of
                  (st2, None) \<Rightarrow> (st2, Refused NotFound)
                | (st2, Some _) \<Rightarrow>
                    (case load_durable_native_source st2 of
                       Inl e \<Rightarrow> (st2, Refused e)
                     | Inr load \<Rightarrow>
                         (st2, Done \<lparr>cw_writer_generation = l_writer_generation load, cw_load = load\<rparr>)))))"

definition claim_writer_and_load ::
    "tx_ctx \<Rightarrow> 'n native_store \<Rightarrow> 'n native_store \<times> claim_writer_result tx_result" where
  "claim_writer_and_load ctx st =
     (if a_backend (x_actor ctx) \<noteq> Postgres then (st, DriverError)
      else finish_native_room_operation (x_fault ctx) st (load_collab_native ClaimWriter ctx st))"

text \<open>The lease row handed to the room's writer token: one \<open>UPDATE\<close> of the rows that still
  match, with the number of rows it changed. The tables belong to the database, so the changed
  rows are only what the rest of the transaction reads.\<close>

definition hand_over_lease ::
    "native_fence \<Rightarrow> uuid \<Rightarrow> time \<Rightarrow> authz_db \<Rightarrow> authz_db \<times> nat" where
  "hand_over_lease f owner now db =
     (let hit = (\<lambda>row. f_workspace row = nf_workspace f \<and> f_resource row = nf_resource f \<and>
            f_owner row = nf_owner f \<and> f_fence row = nf_sequence f \<and> f_expires_at row > now);
          rows = room_fences db (nf_kind f);
          rows' = map (\<lambda>row. if hit row then row\<lparr>f_owner := owner\<rparr> else row) rows;
          db' = (case nf_kind f of
                   Document \<Rightarrow> db\<lparr>collab_room_fences := rows'\<rparr>
                 | Task \<Rightarrow> db\<lparr>task_collab_room_fences := rows'\<rparr>)
      in (db', length (filter hit rows)))"

text \<open>Activation of a family lease: the first claim of the room's writer token bumps the
  generation, a retry finds the token installed. A task room refuses a nil token as well.\<close>

definition activate_in_tx ::
    "tx_ctx \<Rightarrow> native_fence \<Rightarrow> uuid \<Rightarrow> 'n native_store \<Rightarrow>
     'n native_store \<times> (native_fence \<times> claim_writer_result) tx_result" where
  "activate_in_tx ctx guard writer_owner st =
     (case load_collab_native LoadWriter ctx st of
        (st1, DriverError) \<Rightarrow> (st1, DriverError)
      | (st1, Refused e) \<Rightarrow> (st1, Refused e)
      | (st1, Done native) \<Rightarrow>
          let activated = guard\<lparr>nf_owner := writer_owner\<rparr>;
              now = a_now (x_actor ctx) in
          if a_backend (x_actor ctx) = Postgres then (st1, DriverError)
          else if verify_family_native_room_fence (x_db ctx) now activated
          then in_scope (Some (verify_family_native_room_fence (x_db ctx) (x_end ctx) activated)) st1
                 (st1, Done (activated, native))
          else if \<not> verify_family_native_room_fence (x_db ctx) now guard
          then (st1, Refused StaleWriter)
          else
            let (db', changed) = hand_over_lease guard writer_owner now (x_db ctx) in
            if changed \<noteq> 1 then (st1, Refused StaleWriter)
            else
              (case bump_native_writer_generation st1 of
                 (st2, None) \<Rightarrow> (st2, Refused NotFound)
               | (st2, Some generation) \<Rightarrow>
                   in_scope (Some (verify_family_native_room_fence db' (x_end ctx) activated)) st2
                     (st2, Done (activated,
                        \<lparr>cw_writer_generation = generation,
                         cw_load = (cw_load native)\<lparr>l_writer_generation := generation\<rparr>\<rparr>))))"

definition activate_family_writer ::
    "tx_ctx \<Rightarrow> native_fence \<Rightarrow> uuid \<Rightarrow> 'n native_store \<Rightarrow>
     'n native_store \<times> (native_fence \<times> claim_writer_result) tx_result" where
  "activate_family_writer ctx guard writer_owner st =
     (if nf_kind guard = Document \<and> a_backend (x_actor ctx) = Postgres then (st, DriverError)
      else if nf_kind guard = Task \<and> writer_owner = 0 \<or> writer_owner = nf_owner guard
      then (st, DriverError)
      else finish_native_room_operation (x_fault ctx) st (activate_in_tx ctx guard writer_owner st))"

definition guard_claim_writer ::
    "tx_ctx \<Rightarrow> room_guard \<Rightarrow> 'n native_store \<Rightarrow>
     'n native_store \<times> room_guard \<times> claim_writer_result tx_result" where
  "guard_claim_writer ctx guard st =
     (case guard of
        PgGuard \<Rightarrow> (let (st', claim) = claim_writer_and_load ctx st in (st', guard, claim))
      | FamilyGuard original current writer_owner \<Rightarrow>
          if \<not> native_fence_matches original (x_actor ctx) then (st, guard, Refused StaleWriter)
          else
            (case activate_family_writer ctx original writer_owner st of
               (st', Done (fence, native)) \<Rightarrow> (st', FamilyGuard original fence writer_owner, Done native)
             | (st', Refused e) \<Rightarrow> (st', guard, Refused e)
             | (st', DriverError) \<Rightarrow> (st', guard, DriverError)))"

fun map_done :: "('a \<Rightarrow> 'b) \<Rightarrow> 'a tx_result \<Rightarrow> 'b tx_result" where
  "map_done f (Done v) = Done (f v)"
| "map_done f (Refused e) = Refused e"
| "map_done f DriverError = DriverError"

definition load_room_collab_readonly ::
    "tx_ctx \<Rightarrow> native_fence option \<Rightarrow> 'n native_store \<Rightarrow> 'n native_store \<times> collab_load_state tx_result" where
  "load_room_collab_readonly ctx fence st =
     (if a_backend (x_actor ctx) = Postgres
      then apsnd (map_done cw_load)
             (finish_native_room_operation (x_fault ctx) st (load_collab_native LoadReader ctx st))
      else case fence of
        None \<Rightarrow> (st, Refused StaleWriter)
      | Some f \<Rightarrow>
          if \<not> native_fence_matches f (x_actor ctx) then (st, Refused StaleWriter)
          else
            finish_native_room_operation (x_fault ctx) st
              (if \<not> verify_family_native_room_fence (x_db ctx) (a_now (x_actor ctx)) f
               then (st, Refused StaleWriter)
               else
                 (case load_collab_native LoadReader ctx st of
                    (st1, Done claimed) \<Rightarrow>
                      if \<not> verify_family_native_room_fence (x_db ctx) (x_end ctx) f
                      then (st1, Refused StaleWriter)
                      else (st1, Done (cw_load claimed))
                  | (st1, Refused e) \<Rightarrow> (st1, Refused e)
                  | (st1, DriverError) \<Rightarrow> (st1, DriverError))))"

record verify_input =
  vi_op_id :: uuid
  vi_payload_len :: int
  vi_payload_sha256 :: "u8 list"
  vi_actor_user_id :: uuid

definition verify_native_operation ::
    "tx_ctx \<Rightarrow> verify_input \<Rightarrow> 'n native_store \<Rightarrow> receipt_row tx_result" where
  "verify_native_operation ctx inp st =
     (case authorize_collab_read (x_before ctx) (x_db ctx) (x_actor ctx) of
        Inl e \<Rightarrow> Refused e
      | Inr _ \<Rightarrow>
          (case native_operation_receipt st (vi_op_id inp) of
             None \<Rightarrow> Refused NotFound
           | Some r \<Rightarrow>
               if rc_payload_len r \<noteq> vi_payload_len inp \<or>
                  rc_payload_sha256 r \<noteq> vi_payload_sha256 inp \<or>
                  rc_actor_user_id r \<noteq> vi_actor_user_id inp
               then Refused OpIdConflict
               else Done r))"

record consumer_proof =
  cp_room :: native_fence
  cp_generation :: int
  cp_tail :: int

definition family_room_native_head ::
    "tx_ctx \<Rightarrow> consumer_proof \<Rightarrow> 'n native_store \<Rightarrow> (int \<times> int) option" where
  "family_room_native_head ctx proof st =
     (if verify_family_native_room_fence (x_db ctx) (a_now (x_actor ctx)) (cp_room proof) \<and>
         verify_family_native_room_fence (x_db ctx) (x_end ctx) (cp_room proof)
      then map_option (\<lambda>r. (writer_generation r, tail_seq r)) (st_state st)
      else None)"

text \<open>The lookup writes nothing, so its transaction leaves the rows as they are.\<close>

definition verify_room_collab_operation ::
    "tx_ctx \<Rightarrow> verify_input \<Rightarrow> consumer_proof option \<Rightarrow> 'n native_store \<Rightarrow> receipt_row tx_result" where
  "verify_room_collab_operation ctx inp proof st =
     (if a_backend (x_actor ctx) = Postgres
      then snd (finish_native_room_operation (x_fault ctx) st (st, verify_native_operation ctx inp st))
      else case proof of
        None \<Rightarrow> Refused StaleWriter
      | Some p \<Rightarrow>
          if \<not> native_fence_matches (cp_room p) (x_actor ctx) then Refused StaleWriter
          else snd (finish_native_room_operation (x_fault ctx) st
                 (st, case verify_native_operation ctx inp st of
                        Done r \<Rightarrow>
                          (case family_room_native_head ctx p st of
                             Some (generation, tail) \<Rightarrow>
                               if generation = cp_generation p \<and> tail \<ge> rc_seq r then Done r
                               else Refused StaleWriter
                           | None \<Rightarrow> Refused StaleWriter)
                      | other \<Rightarrow> other)))"

record compact_input =
  ci_writer_generation :: int
  ci_cutoff_seq :: int
  ci_expected_tail_seq :: int
  ci_new_snapshot :: "u8 list"

definition validate_compaction_snapshot :: "u8 list \<Rightarrow> collab_db_error + unit" where
  "validate_compaction_snapshot snapshot =
     (if snapshot = [] \<or> int (length snapshot) > MAX_COLLAB_SNAPSHOT_BYTES
      then Inl PayloadTooLarge else Inr ())"

text \<open>The refreshed source, under a lease that still holds.\<close>

definition compact_reload ::
    "tx_ctx \<Rightarrow> native_fence option \<Rightarrow> 'n native_store \<Rightarrow> 'n native_store \<times> collab_load_state tx_result" where
  "compact_reload ctx fence st =
     (case st_state st of
        None \<Rightarrow> (st, Refused NotFound)
      | Some refreshed \<Rightarrow>
          (case load_native_tail st (snapshot_cutoff_seq refreshed) (int (length (state refreshed))) of
             Inl e \<Rightarrow> (st, Refused e)
           | Inr tail \<Rightarrow>
               in_scope
                 (case fence of
                    None \<Rightarrow> Some True
                  | Some f \<Rightarrow>
                      if a_backend (x_actor ctx) = Postgres then None
                      else Some (verify_family_native_room_fence (x_db ctx) (x_end ctx) f)) st
                 (st, Done (state_row_to_load refreshed tail))))"

definition compact_native ::
    "tx_ctx \<Rightarrow> native_fence option \<Rightarrow> compact_input \<Rightarrow> 'n native_store \<Rightarrow>
     'n native_store \<times> collab_load_state tx_result" where
  "compact_native ctx fence inp st =
     (case validate_compaction_snapshot (ci_new_snapshot inp) of
        Inl e \<Rightarrow> (st, Refused e)
      | Inr _ \<Rightarrow>
          in_scope
            (if a_backend (x_actor ctx) = Postgres then Some True
             else case fence of
               None \<Rightarrow> Some False
             | Some f \<Rightarrow> Some (native_fence_matches f (x_actor ctx) \<and>
                               verify_family_native_room_fence (x_db ctx) (a_now (x_actor ctx)) f)) st
            (case authorize_collab_write (x_before ctx) (x_db ctx) (x_actor ctx) of
               Inl e \<Rightarrow> (st, Refused e)
             | Inr _ \<Rightarrow>
                 (case ensure_collab_state (st_content_json st) st of
                    Inl e \<Rightarrow> (st, Refused e)
                  | Inr st1 \<Rightarrow>
                      (case st_state st1 of
                         None \<Rightarrow> (st1, Refused NotFound)
                       | Some row \<Rightarrow>
                           if writer_generation row \<noteq> ci_writer_generation inp
                           then (st1, Refused StaleWriter)
                           else if ci_expected_tail_seq inp \<noteq> tail_seq row
                           then (st1, Refused StaleCutoff)
                           else if ci_cutoff_seq inp < snapshot_cutoff_seq row \<or>
                                   ci_cutoff_seq inp > tail_seq row
                           then (st1, Refused InvalidCutoff)
                           else
                             let (newer, compactable) =
                                   native_compaction_tail_flags st1 (ci_cutoff_seq inp)
                             in if ci_cutoff_seq inp < tail_seq row \<and> newer
                                then (st1, Refused InvalidCutoff)
                                else
                                  let unchanged = ci_cutoff_seq inp = snapshot_cutoff_seq row \<and>
                                        \<not> compactable \<and> state row = ci_new_snapshot inp;
                                      st2 = (if unchanged then st1
                                             else compact_native_rows (a_actor (x_actor ctx))
                                                    (ci_writer_generation inp) (ci_cutoff_seq inp)
                                                    (ci_new_snapshot inp) st1)
                                  in compact_reload ctx fence st2))))"

definition compact_collab_snapshot_in_room ::
    "tx_ctx \<Rightarrow> native_fence option \<Rightarrow> compact_input \<Rightarrow> 'n native_store \<Rightarrow>
     'n native_store \<times> collab_load_state tx_result" where
  "compact_collab_snapshot_in_room ctx fence inp st =
     (case validate_compaction_snapshot (ci_new_snapshot inp) of
        Inl e \<Rightarrow> (st, Refused e)
      | Inr _ \<Rightarrow>
          finish_native_room_operation (x_fault ctx) st (compact_native ctx fence inp st))"

record 'n project_input =
  pi_writer_generation :: int
  pi_expected_tail_seq :: int
  pi_content_json :: "'n json"
  pi_text :: string
  pi_chosung :: string

datatype project_derived_body_result = BodyWritten | BodyUnchanged | SkippedSeed

definition project_collab_derived_body ::
    "tx_ctx \<Rightarrow> native_fence option \<Rightarrow> 'n project_input \<Rightarrow> 'n native_store \<Rightarrow>
     'n native_store \<times> project_derived_body_result tx_result" where
  "project_collab_derived_body ctx fence inp st =
     in_scope (current_native_write_scope ctx (a_now (x_actor ctx)) fence) st
       (case authorize_collab_write (x_before ctx) (x_db ctx) (x_actor ctx) of
          Inl e \<Rightarrow> (st, Refused e)
        | Inr _ \<Rightarrow>
            (case native_append_fence st of
               None \<Rightarrow> (st, Refused NotFound)
             | Some (snapshot_len, current_generation, cutoff, current_tail_seq) \<Rightarrow>
                 if current_tail_seq = 0
                 then in_scope (current_native_write_scope ctx (x_end ctx) fence) st (st, Done SkippedSeed)
                 else if current_generation \<noteq> pi_writer_generation inp then (st, Refused StaleWriter)
                 else if current_tail_seq \<noteq> pi_expected_tail_seq inp then (st, Refused StaleCutoff)
                 else
                   let (st1, changed) = write_native_body_projection (pi_content_json inp)
                                          (pi_text inp) (pi_chosung inp) st;
                       st2 = (if changed then append_native_body_updated st1 else st1)
                   in in_scope (current_native_write_scope ctx (x_end ctx) fence) st2
                        (st2, Done (if changed then BodyWritten else BodyUnchanged))))"

definition project_derived_body_in_room ::
    "tx_ctx \<Rightarrow> native_fence option \<Rightarrow> 'n project_input \<Rightarrow> 'n native_store \<Rightarrow>
     'n native_store \<times> project_derived_body_result tx_result" where
  "project_derived_body_in_room ctx fence inp st =
     finish_native_room_operation (x_fault ctx) st (project_collab_derived_body ctx fence inp st)"

section \<open>The invariant of the rows\<close>

text \<open>
  The update rows are the gap-free sequence after the snapshot's cutoff up to the tail; every
  operation ever appended has one receipt, in sequence order, and the rows still in the tail
  agree with theirs; and what a load has to read stays within its budget.
\<close>

definition receipted :: "(u8 list \<Rightarrow> u8 list) \<Rightarrow> receipt_row list \<Rightarrow> collab_update_row \<Rightarrow> bool" where
  "receipted sha256 receipts u \<longleftrightarrow>
     (\<exists>r \<in> set receipts. rc_op_id r = op_id u \<and> rc_seq r = seq u \<and>
        rc_payload_len r = int (length (payload u)) \<and> rc_payload_sha256 r = sha256 (payload u))"

definition tail_bytes :: "collab_update_row list \<Rightarrow> int" where
  "tail_bytes us = int (sum_list (map (length \<circ> payload) us))"

definition wf_row :: "(u8 list \<Rightarrow> u8 list) \<Rightarrow> 'n native_store \<Rightarrow> state_row \<Rightarrow> bool" where
  "wf_row sha256 st r \<longleftrightarrow>
     encoding r = COLLAB_STATE_ENCODING_V1 \<and> 0 \<le> writer_generation r \<and>
     0 \<le> snapshot_cutoff_seq r \<and> snapshot_cutoff_seq r \<le> tail_seq r \<and>
     map seq (st_updates st) = [snapshot_cutoff_seq r + 1 .. tail_seq r] \<and>
     map rc_seq (st_receipts st) = [1 .. tail_seq r] \<and>
     distinct (map rc_op_id (st_receipts st)) \<and>
     (\<forall>u \<in> set (st_updates st). receipted sha256 (st_receipts st) u \<and> payload u \<noteq> [] \<and>
        int (length (payload u)) \<le> MAX_COLLAB_UPDATE_BYTES) \<and>
     int (length (st_updates st)) \<le> MAX_COLLAB_TAIL_UPDATES \<and>
     int (length (state r)) + tail_bytes (st_updates st) \<le> MAX_COLLAB_LOAD_BYTES"

definition wf_store :: "(u8 list \<Rightarrow> u8 list) \<Rightarrow> 'n native_store \<Rightarrow> bool" where
  "wf_store sha256 st \<longleftrightarrow>
     (case st_state st of
        None \<Rightarrow> st_updates st = [] \<and> st_receipts st = []
      | Some r \<Rightarrow> wf_row sha256 st r)"

lemma wf_storeD: "wf_store sha256 st \<Longrightarrow> st_state st = Some r \<Longrightarrow> wf_row sha256 st r"
  by (simp add: wf_store_def)

lemma wf_row_filter:
  assumes "wf_row sha256 st r"
  shows "filter (\<lambda>u. seq u > snapshot_cutoff_seq r) (st_updates st) = st_updates st"
proof -
  have "seq ` set (st_updates st) = {snapshot_cutoff_seq r + 1 .. tail_seq r}"
    using assms unfolding wf_row_def by (metis list.set_map set_upto)
  then show ?thesis
    by (force simp: filter_id_conv)
qed

lemma comp_eq_filter: "[u. u \<leftarrow> us, P u] = filter P us"
  by (induction us) simp_all

lemma wf_row_stats:
  "wf_row sha256 st r \<Longrightarrow> native_tail_stats st (snapshot_cutoff_seq r) =
    (int (length (st_updates st)), tail_bytes (st_updates st))"
  using wf_row_filter [of sha256 st r]
  by (simp add: native_tail_stats_def comp_eq_filter tail_bytes_def Let_def)

lemma sorted_map_seq: "map seq us = [i..j] \<Longrightarrow> sort_key seq us = us"
  by (rule sort_key_id_if_sorted) (simp add: sorted_upto)

lemma wf_row_tail:
  assumes "wf_row sha256 st r"
  shows "load_native_tail st (snapshot_cutoff_seq r) (int (length (state r))) = Inr (st_updates st)"
proof -
  have "length (st_updates st) \<le> nat MAX_COLLAB_TAIL_UPDATES"
    using assms by (simp add: wf_row_def le_nat_iff)
  moreover have "sort_key seq (st_updates st) = st_updates st"
    using assms unfolding wf_row_def by (blast intro: sorted_map_seq)
  moreover have "load_budget_allows (int (length (state r))) (int (length (st_updates st)))
      (tail_bytes (st_updates st)) = Inr ()"
    using assms by (simp add: wf_row_def load_budget_allows_def)
  ultimately show ?thesis
    using wf_row_stats [OF assms] wf_row_filter [OF assms]
    by (simp add: load_native_tail_def comp_eq_filter)
qed

lemma wf_row_load:
  "wf_row sha256 st r \<Longrightarrow> st_state st = Some r \<Longrightarrow>
    load_durable_native_source st = Inr (state_row_to_load r (st_updates st))"
  by (simp add: load_durable_native_source_def wf_row_tail) (simp add: wf_row_def)

lemma receipt_lookup:
  assumes "distinct (map rc_op_id (st_receipts st))"
  shows "native_operation_receipt st op = Some r \<longleftrightarrow> r \<in> set (st_receipts st) \<and> rc_op_id r = op"
proof -
  have "fetch_optional (filter (\<lambda>r. rc_op_id r = op) xs) = Some r \<longleftrightarrow> r \<in> set xs \<and> rc_op_id r = op"
    if "distinct (map rc_op_id xs)" for xs
    using that by (induction xs) auto
  with assms show ?thesis
    by (simp add: native_operation_receipt_def comp_eq_filter)
qed

lemma receipt_lookup_None:
  "native_operation_receipt st op = None \<longleftrightarrow> op \<notin> rc_op_id ` set (st_receipts st)"
proof -
  have "fetch_optional xs = None \<longleftrightarrow> xs = []" for xs :: "receipt_row list"
    by (cases xs) simp_all
  then show ?thesis
    by (auto simp: native_operation_receipt_def comp_eq_filter filter_empty_conv)
qed

definition seeded :: "'n native_store \<Rightarrow> 'n native_store" where
  "seeded st = (if st_state st = None then insert_empty_native_state st else st)"

lemma seeded_state: "st_state (seeded st) \<noteq> None"
  by (simp add: seeded_def insert_empty_native_state_def)

lemma seeded_rows [simp]:
  "st_updates (seeded st) = st_updates st" "st_receipts (seeded st) = st_receipts st"
  by (simp_all add: seeded_def insert_empty_native_state_def)

lemma ensure_seeded: "ensure_collab_state content st = Inr st1 \<Longrightarrow> st1 = seeded st"
  by (auto simp: ensure_collab_state_def native_state_generation_def seeded_def split: if_splits)

lemma wf_seeded: "wf_store sha256 st \<Longrightarrow> wf_store sha256 (seeded st)"
  by (auto simp: seeded_def wf_store_def insert_empty_native_state_def wf_row_def tail_bytes_def
      EMPTY_YJS_STATE_V1_def collab_limits)

lemma wf_record_event [simp]: "wf_store sha256 (record_event e st) \<longleftrightarrow> wf_store sha256 st"
  by (simp add: record_event_def wf_store_def wf_row_def split: option.splits)

lemma wf_bump: "wf_store sha256 st \<Longrightarrow> wf_store sha256 (fst (bump_native_writer_generation st))"
  by (auto simp: bump_native_writer_generation_def wf_store_def wf_row_def split: option.splits)

text \<open>The rows after one appended operation.\<close>

definition appended :: "(u8 list \<Rightarrow> u8 list) \<Rightarrow> uuid \<Rightarrow> append_input \<Rightarrow> state_row \<Rightarrow> 'n native_store \<Rightarrow>
    'n native_store" where
  "appended sha256 actor inp r st =
     record_native_append actor (ai_op_id inp) (tail_seq r + 1) (ai_writer_generation inp)
       (insert_native_update_and_receipt actor (ai_op_id inp) (tail_seq r + 1) (ai_payload inp)
          (sha256 (ai_payload inp))
          (st\<lparr>st_state := Some (r\<lparr>tail_seq := tail_seq r + 1\<rparr>)\<rparr>))"

definition append_fits :: "append_input \<Rightarrow> state_row \<Rightarrow> 'n native_store \<Rightarrow> bool" where
  "append_fits inp r st \<longleftrightarrow>
     ai_payload inp \<noteq> [] \<and> int (length (ai_payload inp)) \<le> MAX_COLLAB_UPDATE_BYTES \<and>
     writer_generation r = ai_writer_generation inp \<and> tail_seq r = ai_expected_tail_seq inp \<and>
     native_operation_receipt st (ai_op_id inp) = None \<and>
     (let (count, bytes) = native_tail_stats st (snapshot_cutoff_seq r)
      in count + 1 \<le> MAX_COLLAB_TAIL_UPDATES \<and>
         int (length (state r)) + bytes + int (length (ai_payload inp)) \<le> MAX_COLLAB_LOAD_BYTES)"

definition receipt_matches :: "(u8 list \<Rightarrow> u8 list) \<Rightarrow> uuid \<Rightarrow> append_input \<Rightarrow> receipt_row \<Rightarrow> bool" where
  "receipt_matches sha256 actor inp rc \<longleftrightarrow>
     rc_payload_len rc = int (length (ai_payload inp)) \<and>
     rc_payload_sha256 rc = sha256 (ai_payload inp) \<and> rc_actor_user_id rc = actor"

lemma in_scope_Done:
  "in_scope scope st k = (st', Done v) \<longleftrightarrow> scope = Some True \<and> k = (st', Done v)"
  by (auto simp: in_scope_def split: option.splits bool.splits)

lemma append_fence_state:
  "native_append_fence st = Some (len, gen, cutoff, tail) \<longleftrightarrow>
    (\<exists>r. st_state st = Some r \<and> len = int (length (state r)) \<and> gen = writer_generation r \<and>
      cutoff = snapshot_cutoff_seq r \<and> tail = tail_seq r)"
  by (auto simp: native_append_fence_def)

lemma seeded_append_fence_Inr:
  assumes "seeded_append_fence st = Inr (st1, f)"
  shows "st1 = seeded st \<and> f = native_append_fence (seeded st)"
proof (cases "st_state st")
  case None
  with assms show ?thesis
    by (cases "ensure_collab_state (st_content_json st) st")
      (auto simp: seeded_append_fence_def native_append_fence_def dest: ensure_seeded)
next
  case (Some r)
  with assms show ?thesis
    by (auto simp: seeded_append_fence_def native_append_fence_def seeded_def)
qed

lemma seeded_append_fence_row:
  "seeded_append_fence st = Inr (st1, Some (len, gen, cutoff, tail)) \<Longrightarrow>
    \<exists>r. st1 = seeded st \<and> st_state (seeded st) = Some r \<and> len = int (length (state r)) \<and>
      gen = writer_generation r \<and> cutoff = snapshot_cutoff_seq r \<and> tail = tail_seq r"
  by (drule seeded_append_fence_Inr) (metis append_fence_state)

lemma append_native_Done:
  assumes "append_collab_native sha256 ctx fence inp st = (st', Done p)"
  shows "\<exists>r. st_state (seeded st) = Some r \<and> writer_generation r = ai_writer_generation inp \<and>
    (case p of
       Appended s \<Rightarrow> s = tail_seq r + 1 \<and> append_fits inp r (seeded st) \<and>
         st' = appended sha256 (a_actor (x_actor ctx)) inp r (seeded st)
     | Replay s \<Rightarrow> st' = seeded st \<and> (\<exists>rc. native_operation_receipt (seeded st) (ai_op_id inp) = Some rc \<and>
         rc_seq rc = s \<and> receipt_matches sha256 (a_actor (x_actor ctx)) inp rc))"
  using assms
  unfolding append_collab_native_def Let_def
  by (auto simp: in_scope_Done advance_native_tail_def append_fits_def appended_def
      receipt_matches_def dest!: seeded_append_fence_row
      split: if_splits sum.splits option.splits prod.splits)

lemma appended_rows [simp]:
  "st_state (appended sha256 actor inp r st) = Some (r\<lparr>tail_seq := tail_seq r + 1\<rparr>)"
  "st_updates (appended sha256 actor inp r st) = st_updates st @
     [\<lparr>seq = tail_seq r + 1, op_id = ai_op_id inp, payload = ai_payload inp\<rparr>]"
  "st_receipts (appended sha256 actor inp r st) = st_receipts st @
     [\<lparr>rc_op_id = ai_op_id inp, rc_seq = tail_seq r + 1,
       rc_payload_len = int (length (ai_payload inp)),
       rc_payload_sha256 = sha256 (ai_payload inp), rc_actor_user_id = actor\<rparr>]"
  by (simp_all add: appended_def record_native_append_def record_event_def
      insert_native_update_and_receipt_def)

lemma upto_snoc: "i \<le> j + 1 \<Longrightarrow> [i .. j] @ [j + 1] = [i .. j + 1 :: int]"
  by (simp add: upto_rec2)

lemma receipted_append: "receipted sha256 rs u \<Longrightarrow> receipted sha256 (rs @ ts) u"
  by (auto simp: receipted_def)

lemma wf_appended:
  assumes "wf_store sha256 st" and "st_state st = Some r" and "append_fits inp r st"
  shows "wf_store sha256 (appended sha256 actor inp r st)"
proof -
  have wf: "wf_row sha256 st r"
    using assms by (simp add: wf_storeD)
  have "native_tail_stats st (snapshot_cutoff_seq r) =
      (int (length (st_updates st)), tail_bytes (st_updates st))"
    by (rule wf_row_stats [OF wf])
  then have fits: "int (length (st_updates st)) + 1 \<le> MAX_COLLAB_TAIL_UPDATES"
      "int (length (state r)) + tail_bytes (st_updates st) + int (length (ai_payload inp))
        \<le> MAX_COLLAB_LOAD_BYTES"
      "ai_payload inp \<noteq> []" "int (length (ai_payload inp)) \<le> MAX_COLLAB_UPDATE_BYTES"
      "ai_op_id inp \<notin> rc_op_id ` set (st_receipts st)"
    using assms(3) by (auto simp: append_fits_def receipt_lookup_None)
  have "wf_row sha256 (appended sha256 actor inp r st) (r\<lparr>tail_seq := tail_seq r + 1\<rparr>)"
    using wf fits unfolding wf_row_def
    by (auto simp: upto_snoc tail_bytes_def receipted_append) (auto simp: receipted_def)
  then show ?thesis
    by (simp add: wf_store_def)
qed

lemma finish_cases:
  "fst (finish_native_room_operation fault st body) = st \<or>
   (\<exists>v. snd body = Done v \<and> fst (finish_native_room_operation fault st body) = fst body)"
  by (auto simp: finish_native_room_operation_def split: tx_result.splits tx_fault.splits)

lemma finish_Done:
  "finish_native_room_operation fault st body = (st', Done v) \<longleftrightarrow>
    body = (st', Done v) \<and> fault \<in> {NoFault, RollbackFault}"
  by (cases body)
    (auto simp: finish_native_room_operation_def split: tx_result.splits tx_fault.splits if_splits)

lemma load_native_Done:
  assumes "load_collab_native mode ctx st = (st', Done v)"
  shows "st' = (if mode = ClaimWriter then fst (bump_native_writer_generation (seeded st)) else seeded st) \<and>
    load_durable_native_source st' = Inr (cw_load v) \<and>
    cw_writer_generation v = l_writer_generation (cw_load v)"
  using assms unfolding load_collab_native_def
  by (auto dest!: ensure_seeded split: if_splits sum.splits option.splits prod.splits)

lemma compact_rows [simp]:
  "st_state st = Some r \<Longrightarrow> writer_generation r = generation \<Longrightarrow>
    st_state (compact_native_rows actor generation cutoff snapshot st) =
      Some (r\<lparr>state := snapshot, snapshot_cutoff_seq := cutoff\<rparr>)"
  "st_updates (compact_native_rows actor generation cutoff snapshot st) =
    filter (\<lambda>u. \<not> seq u \<le> cutoff) (st_updates st)"
  "st_receipts (compact_native_rows actor generation cutoff snapshot st) = st_receipts st"
  by (simp_all add: compact_native_rows_def record_event_def Let_def comp_eq_filter
      split: option.splits)

lemma compact_reload_Done:
  "compact_reload ctx fence st = (st', Done load) \<Longrightarrow> st' = st \<and>
    (\<exists>row tail. st_state st = Some row \<and>
       load_native_tail st (snapshot_cutoff_seq row) (int (length (state row))) = Inr tail \<and>
       load = state_row_to_load row tail)"
  by (auto simp: compact_reload_def in_scope_Done split: sum.splits option.splits)

lemma compact_native_Done:
  assumes "compact_native ctx fence inp st = (st', Done load)"
  shows "\<exists>r. st_state (seeded st) = Some r \<and> writer_generation r = ci_writer_generation inp \<and>
    tail_seq r = ci_expected_tail_seq inp \<and> snapshot_cutoff_seq r \<le> ci_cutoff_seq inp \<and>
    ci_cutoff_seq inp \<le> tail_seq r \<and>
    (ci_cutoff_seq inp = tail_seq r \<or> (\<forall>u \<in> set (st_updates st). seq u \<le> ci_cutoff_seq inp)) \<and>
    ci_new_snapshot inp \<noteq> [] \<and> int (length (ci_new_snapshot inp)) \<le> MAX_COLLAB_SNAPSHOT_BYTES \<and>
    (st' = seeded st \<and> state r = ci_new_snapshot inp \<and> ci_cutoff_seq inp = snapshot_cutoff_seq r \<or>
     st' = compact_native_rows (a_actor (x_actor ctx)) (ci_writer_generation inp)
             (ci_cutoff_seq inp) (ci_new_snapshot inp) (seeded st)) \<and>
    (\<exists>row tail. st_state st' = Some row \<and>
       load_native_tail st' (snapshot_cutoff_seq row) (int (length (state row))) = Inr tail \<and>
       load = state_row_to_load row tail)"
  using assms unfolding compact_native_def validate_compaction_snapshot_def Let_def
  by (auto simp: in_scope_Done native_compaction_tail_flags_def not_less not_le
      simp del: compact_rows dest!: ensure_seeded compact_reload_Done
      split: if_splits sum.splits option.splits prod.splits)

lemma compact_at_tail:
  assumes "wf_row sha256 st r" and "snapshot_cutoff_seq r \<le> c" and "c \<le> tail_seq r"
    and "c = tail_seq r \<or> (\<forall>u \<in> set (st_updates st). seq u \<le> c)"
  shows "c = tail_seq r" and "filter (\<lambda>u. \<not> seq u \<le> c) (st_updates st) = []"
proof -
  have seqs: "seq ` set (st_updates st) = {snapshot_cutoff_seq r + 1 .. tail_seq r}"
    using assms(1) unfolding wf_row_def by (metis list.set_map set_upto)
  show c: "c = tail_seq r"
  proof (rule ccontr)
    assume "c \<noteq> tail_seq r"
    then have "tail_seq r \<in> seq ` set (st_updates st)"
      using assms(2,3) seqs by simp
    with assms(3,4) \<open>c \<noteq> tail_seq r\<close> show False
      by auto
  qed
  show "filter (\<lambda>u. \<not> seq u \<le> c) (st_updates st) = []"
    using seqs c by (auto simp: filter_empty_conv)
qed

lemma wf_compacted:
  assumes "wf_store sha256 st" and "st_state st = Some r" and "writer_generation r = generation"
    and "snapshot_cutoff_seq r \<le> c" and "c \<le> tail_seq r"
    and "c = tail_seq r \<or> (\<forall>u \<in> set (st_updates st). seq u \<le> c)"
    and "int (length snapshot) \<le> MAX_COLLAB_SNAPSHOT_BYTES"
  shows "wf_store sha256 (compact_native_rows actor generation c snapshot st)"
    and "st_updates (compact_native_rows actor generation c snapshot st) = []"
proof -
  have wf: "wf_row sha256 st r"
    using assms by (simp add: wf_storeD)
  note tail = compact_at_tail [OF wf assms(4-6)]
  show "st_updates (compact_native_rows actor generation c snapshot st) = []"
    using tail(2) by simp
  show "wf_store sha256 (compact_native_rows actor generation c snapshot st)"
    using wf assms(2,3,7) tail
    by (simp add: wf_store_def) (auto simp: wf_row_def tail_bytes_def collab_limits)
qed

lemma projected_rows:
  assumes "project_collab_derived_body ctx fence inp st = (st', Done v)"
  shows "st_state st' = st_state st \<and> st_updates st' = st_updates st \<and> st_receipts st' = st_receipts st"
  using assms unfolding project_collab_derived_body_def write_native_body_projection_def Let_def
  by (auto simp: in_scope_Done append_native_body_updated_def
      split: if_splits sum.splits option.splits prod.splits)

lemma wf_same_rows:
  "st_state st' = st_state st \<Longrightarrow> st_updates st' = st_updates st \<Longrightarrow> st_receipts st' = st_receipts st \<Longrightarrow>
    wf_store sha256 st' \<longleftrightarrow> wf_store sha256 st"
  by (simp add: wf_store_def wf_row_def split: option.splits)

section \<open>The store as a state machine\<close>

text \<open>Every transaction of a room on the resource, of any server, in any order and with any failure of the driver:
  claims, appends, reads, compactions and body projections. The transactions outside the rooms (restoring a revision,
  an append without a room, the first rows of an import or a duplicate) are no steps here.\<close>

inductive store_step :: "(u8 list \<Rightarrow> u8 list) \<Rightarrow> 'n native_store \<Rightarrow> 'n native_store \<Rightarrow> bool"
  for sha256 :: "u8 list \<Rightarrow> u8 list" where
  step_append: "store_step sha256 st (fst (guard_append sha256 ctx guard inp st))"
| step_claim: "store_step sha256 st (fst (claim_writer_and_load ctx st))"
| step_activate: "store_step sha256 st (fst (activate_family_writer ctx fence owner st))"
| step_load: "store_step sha256 st (fst (load_room_collab_readonly ctx fence st))"
| step_compact: "store_step sha256 st (fst (compact_collab_snapshot_in_room ctx fence cinput st))"
| step_project: "store_step sha256 st (fst (project_derived_body_in_room ctx fence pinput st))"

definition initial_store :: "'n native_store \<Rightarrow> bool" where
  "initial_store st \<longleftrightarrow> st_state st = None \<and> st_updates st = [] \<and> st_receipts st = []"

abbreviation store_steps :: "(u8 list \<Rightarrow> u8 list) \<Rightarrow> 'n native_store \<Rightarrow> 'n native_store \<Rightarrow> bool" where
  "store_steps sha256 \<equiv> (store_step sha256)\<^sup>*\<^sup>*"

text \<open>What a transaction may do to the rows.\<close>

inductive row_change :: "(u8 list \<Rightarrow> u8 list) \<Rightarrow> 'n native_store \<Rightarrow> 'n native_store \<Rightarrow> bool"
  for sha256 :: "u8 list \<Rightarrow> u8 list" and st :: "'n native_store" where
  change_same: "st_state st' = st_state st \<Longrightarrow> st_updates st' = st_updates st \<Longrightarrow>
    st_receipts st' = st_receipts st \<Longrightarrow> row_change sha256 st st'"
| change_seed: "row_change sha256 st (seeded st)"
| change_bump: "row_change sha256 st (fst (bump_native_writer_generation (seeded st)))"
| change_append: "st_state (seeded st) = Some r \<Longrightarrow> append_fits inp r (seeded st) \<Longrightarrow>
    row_change sha256 st (appended sha256 actor inp r (seeded st))"
| change_compact: "st_state (seeded st) = Some r \<Longrightarrow> snapshot_cutoff_seq r \<le> c \<Longrightarrow> c \<le> tail_seq r \<Longrightarrow>
    c = tail_seq r \<or> (\<forall>u \<in> set (st_updates st). seq u \<le> c) \<Longrightarrow>
    int (length snapshot) \<le> MAX_COLLAB_SNAPSHOT_BYTES \<Longrightarrow>
    row_change sha256 st (compact_native_rows actor (writer_generation r) c snapshot (seeded st))"

lemma row_change_refl [simp]: "row_change sha256 st st"
  by (rule change_same) simp_all

lemma finish_change:
  assumes "\<And>v. snd body = Done v \<Longrightarrow> row_change sha256 st (fst body)"
  shows "row_change sha256 st (fst (finish_native_room_operation fault st body))"
  using assms finish_cases [of fault st body] by auto

lemma append_change: "row_change sha256 st (fst (guard_append sha256 ctx guard inp st))"
proof -
  have body: "row_change sha256 st (fst (append_collab_native sha256 ctx fence inp st))"
    if "snd (append_collab_native sha256 ctx fence inp st) = Done v" for fence v
  proof -
    have "append_collab_native sha256 ctx fence inp st =
        (fst (append_collab_native sha256 ctx fence inp st), Done v)"
      using that by (simp add: prod_eq_iff)
    from append_native_Done [OF this] show ?thesis
      by (cases v) (auto intro: change_append change_seed)
  qed
  have "row_change sha256 st (fst (append_collab_update_in_tx sha256 ctx fence inp st))" for fence
    unfolding append_collab_update_in_tx_def using finish_change [OF body] by simp
  then show ?thesis
    by (auto simp: guard_append_def Let_def split: room_guard.split)
qed

lemma load_change: "snd (load_collab_native mode ctx st) = Done v \<Longrightarrow>
    row_change sha256 st (fst (load_collab_native mode ctx st))"
  using load_native_Done [of mode ctx st "fst (load_collab_native mode ctx st)" v]
  by (auto simp: prod_eq_iff intro: change_seed change_bump)

lemma activate_change: "row_change sha256 st (fst (activate_family_writer ctx fence owner st))"
proof -
  have "row_change sha256 st (fst (activate_in_tx ctx fence owner st))"
    if "snd (activate_in_tx ctx fence owner st) = Done v" for v
  proof (cases "load_collab_native LoadWriter ctx st")
    case (Pair st1 x)
    from that obtain native where x: "x = Done native"
      by (cases x) (simp_all add: activate_in_tx_def Pair)
    then have "st1 = seeded st"
      using load_native_Done [of LoadWriter ctx st st1 native] Pair by simp
    then have "fst (activate_in_tx ctx fence owner st) = seeded st \<or>
        fst (activate_in_tx ctx fence owner st) = fst (bump_native_writer_generation (seeded st))"
      by (simp add: activate_in_tx_def Pair x Let_def in_scope_def split: prod.split option.split bool.split)
    then show ?thesis
      by (auto intro: change_seed change_bump)
  qed
  then show ?thesis
    by (simp add: activate_family_writer_def finish_change)
qed

lemma compact_change: "snd (compact_native ctx fence inp st) = Done v \<Longrightarrow>
    row_change sha256 st (fst (compact_native ctx fence inp st))"
proof -
  assume "snd (compact_native ctx fence inp st) = Done v"
  then have "compact_native ctx fence inp st = (fst (compact_native ctx fence inp st), Done v)"
    by (simp add: prod_eq_iff)
  from compact_native_Done [OF this] obtain r where r: "st_state (seeded st) = Some r"
      "writer_generation r = ci_writer_generation inp"
      "snapshot_cutoff_seq r \<le> ci_cutoff_seq inp" "ci_cutoff_seq inp \<le> tail_seq r"
      "ci_cutoff_seq inp = tail_seq r \<or> (\<forall>u \<in> set (st_updates st). seq u \<le> ci_cutoff_seq inp)"
      "int (length (ci_new_snapshot inp)) \<le> MAX_COLLAB_SNAPSHOT_BYTES"
    and st': "fst (compact_native ctx fence inp st) = seeded st \<or>
      fst (compact_native ctx fence inp st) = compact_native_rows (a_actor (x_actor ctx))
        (ci_writer_generation inp) (ci_cutoff_seq inp) (ci_new_snapshot inp) (seeded st)"
    by blast
  from change_compact [OF r(1,3,4,5,6)] st' r(2) show ?thesis
    by (auto intro: change_seed)
qed

lemma project_change: "snd (project_collab_derived_body ctx fence inp st) = Done v \<Longrightarrow>
    row_change sha256 st (fst (project_collab_derived_body ctx fence inp st))"
  using projected_rows [of ctx fence inp st "fst (project_collab_derived_body ctx fence inp st)" v]
  by (simp add: prod_eq_iff change_same)

lemma load_room_change:
  "row_change sha256 st (fst (load_room_collab_readonly ctx fence st))"
proof -
  let ?body = "\<lambda>c. (case load_collab_native LoadReader ctx st of
      (st1, Done claimed) \<Rightarrow> if c then (st1, Refused StaleWriter) else (st1, Done (cw_load claimed))
    | (st1, Refused e) \<Rightarrow> (st1, Refused e)
    | (st1, DriverError) \<Rightarrow> (st1, DriverError))"
  have body: "row_change sha256 st (fst (?body c))" if "snd (?body c) = Done v" for c v
    using that load_change [of LoadReader ctx st _ sha256]
    by (auto split: if_splits prod.splits tx_result.splits)
  have "row_change sha256 st (fst (finish_native_room_operation (x_fault ctx) st (?body c)))" for c
    by (rule finish_change) (rule body)
  moreover have "row_change sha256 st (fst (finish_native_room_operation (x_fault ctx) st
      (st, Refused e :: collab_load_state tx_result)))" for e
    by (rule finish_change) simp
  ultimately show ?thesis
    unfolding load_room_collab_readonly_def by (simp add: finish_change load_change split: option.split)
qed

lemma store_step_change: "store_step sha256 st st' \<Longrightarrow> row_change sha256 st st'"
proof (induction rule: store_step.cases)
  case (step_append st ctx guard inp)
  then show ?case
    using append_change by simp
next
  case (step_claim st ctx)
  then show ?case
    by (simp add: claim_writer_and_load_def finish_change load_change)
next
  case (step_activate st ctx fence owner)
  then show ?case
    using activate_change by simp
next
  case (step_load st ctx fence)
  then show ?case
    using load_room_change by simp
next
  case (step_compact st ctx fence cinput)
  then show ?case
    by (simp add: compact_collab_snapshot_in_room_def finish_change compact_change split: sum.split)
next
  case (step_project st ctx fence pinput)
  then show ?case
    by (simp add: project_derived_body_in_room_def finish_change project_change)
qed

definition generation_of :: "'n native_store \<Rightarrow> int" where
  "generation_of st = (case st_state st of None \<Rightarrow> 0 | Some r \<Rightarrow> writer_generation r)"

definition tail_of :: "'n native_store \<Rightarrow> int" where
  "tail_of st = (case st_state st of None \<Rightarrow> 0 | Some r \<Rightarrow> tail_seq r)"

lemma seeded_heads [simp]: "generation_of (seeded st) = generation_of st" "tail_of (seeded st) = tail_of st"
  by (simp_all add: generation_of_def tail_of_def seeded_def insert_empty_native_state_def)

lemma heads_of:
  assumes "st_state (seeded st) = Some r"
  shows "generation_of st = writer_generation r" "tail_of st = tail_seq r"
proof -
  have "generation_of (seeded st) = writer_generation r" "tail_of (seeded st) = tail_seq r"
    using assms by (simp_all add: generation_of_def tail_of_def del: seeded_heads)
  then show "generation_of st = writer_generation r" "tail_of st = tail_seq r"
    by simp_all
qed

lemma row_change_wf:
  assumes "row_change sha256 st st'" and "wf_store sha256 st"
  shows "wf_store sha256 st'"
  using assms(1)
proof cases
  case change_same
  then show ?thesis
    using wf_same_rows [OF change_same] assms(2) by blast
next
  case change_bump
  with assms(2) show ?thesis
    by (simp add: wf_bump wf_seeded)
next
  case (change_compact r c snapshot actor)
  with assms(2) show ?thesis
    by (auto intro!: wf_compacted(1) wf_seeded)
qed (use assms(2) in \<open>simp_all add: wf_seeded wf_appended\<close>)

lemma row_change_grows:
  assumes "row_change sha256 st st'"
  shows "generation_of st \<le> generation_of st' \<and> tail_of st \<le> tail_of st' \<and>
    (\<exists>zs. st_receipts st' = st_receipts st @ zs)"
  using assms
proof cases
  case change_same
  then show ?thesis
    by (simp add: generation_of_def tail_of_def)
next
  case change_bump
  obtain r where r: "st_state (seeded st) = Some r"
    using seeded_state by blast
  show ?thesis
    unfolding heads_of [OF r] using change_bump r
    by (simp add: bump_native_writer_generation_def generation_of_def tail_of_def)
next
  case (change_append r inp actor)
  show ?thesis
    unfolding heads_of [OF change_append(2)] using change_append(1)
    by (simp add: generation_of_def tail_of_def)
next
  case (change_compact r c snapshot actor)
  show ?thesis
    unfolding heads_of [OF change_compact(2)] using change_compact(1,2)
    by (simp add: generation_of_def tail_of_def)
qed simp_all

lemma store_steps_wf: "store_steps sha256 st st' \<Longrightarrow> wf_store sha256 st \<Longrightarrow> wf_store sha256 st'"
  by (induction rule: rtranclp_induct) (auto dest: store_step_change row_change_wf)

lemma store_steps_grow:
  "store_steps sha256 st st' \<Longrightarrow> generation_of st \<le> generation_of st' \<and> tail_of st \<le> tail_of st' \<and>
    (\<exists>zs. st_receipts st' = st_receipts st @ zs)"
  by (induction rule: rtranclp_induct) (fastforce dest: store_step_change row_change_grows)+

lemma initial_wf: "initial_store st \<Longrightarrow> wf_store sha256 st"
  by (simp add: initial_store_def wf_store_def)

section \<open>Appends and retries\<close>

definition may_append :: "tx_ctx \<Rightarrow> room_guard \<Rightarrow> bool" where
  "may_append ctx guard \<longleftrightarrow>
     authorize_collab_write (x_before ctx) (x_db ctx) (x_actor ctx) = Inr () \<and> x_fault ctx = NoFault \<and>
     (case guard of
        PgGuard \<Rightarrow> a_backend (x_actor ctx) = Postgres
      | FamilyGuard original current writer_owner \<Rightarrow>
          a_backend (x_actor ctx) = SqliteFamily \<and> native_fence_matches current (x_actor ctx) \<and>
          verify_family_native_room_fence (x_db ctx) (a_now (x_actor ctx)) current \<and>
          verify_family_native_room_fence (x_db ctx) (x_end ctx) current)"

lemma may_append_scope:
  "may_append ctx guard \<Longrightarrow>
    current_native_write_scope ctx (a_now (x_actor ctx)) (family_fence guard) = Some True \<and>
    current_native_write_scope ctx (x_end ctx) (family_fence guard) = Some True"
  by (cases guard) (auto simp: may_append_def current_native_write_scope_def)

lemma guard_append_in_tx:
  assumes "may_append ctx guard" and "ai_payload inp \<noteq> []"
    and "int (length (ai_payload inp)) \<le> MAX_COLLAB_UPDATE_BYTES"
  shows "guard_append sha256 ctx guard inp st =
    append_collab_update_in_tx sha256 ctx (family_fence guard) inp st"
  using assms by (cases guard) (auto simp: guard_append_def may_append_def Let_def)

lemma append_body_cases:
  assumes "guard_append sha256 ctx guard inp st = (st', res)"
  shows "(st' = st \<and> (\<forall>v. res \<noteq> Done v)) \<or>
    (\<exists>p. append_collab_native sha256 ctx (family_fence guard) inp st = (st', Done p) \<and>
      (res = confirmed (Done p) \<or> res = DriverError))"
proof -
  let ?body = "append_collab_native sha256 ctx (family_fence guard) inp st"
  have tx: "(st' = st \<and> (\<forall>v. res \<noteq> Done v)) \<or>
      (\<exists>p. ?body = (st', Done p) \<and> (res = confirmed (Done p) \<or> res = DriverError))"
    if "append_collab_update_in_tx sha256 ctx (family_fence guard) inp st = (st', res)"
    using that unfolding append_collab_update_in_tx_def finish_native_room_operation_def
    by (cases "?body"; cases "snd ?body") (auto split: tx_fault.splits if_splits)
  show ?thesis
    using assms tx by (auto simp: guard_append_def Let_def split: room_guard.splits if_splits)
qed

lemma append_changed:
  assumes "guard_append sha256 ctx guard inp st = (st', res)" and "st_receipts st' \<noteq> st_receipts st"
  shows "\<exists>r. st_state (seeded st) = Some r \<and> append_fits inp r (seeded st) \<and>
    st' = appended sha256 (a_actor (x_actor ctx)) inp r (seeded st)"
  using append_body_cases [OF assms(1)] assms(2)
  by (auto dest!: append_native_Done split: prepared_native_append.splits)

lemma append_committed:
  assumes "guard_append sha256 ctx guard inp st = (st', Done (Committed s))"
  shows "\<exists>r. st_state (seeded st) = Some r \<and> append_fits inp r (seeded st) \<and> s = tail_seq r + 1 \<and>
    st' = appended sha256 (a_actor (x_actor ctx)) inp r (seeded st)"
proof -
  obtain p where p: "append_collab_native sha256 ctx (family_fence guard) inp st = (st', Done p)"
      "Done (Committed s) = confirmed (Done p)"
    using append_body_cases [OF assms] by auto
  then have "p = Appended s"
    by (cases p) simp_all
  with append_native_Done [OF p(1)] show ?thesis
    by auto
qed

lemma append_replay:
  assumes "may_append ctx guard" and "ai_payload inp \<noteq> []"
    and "int (length (ai_payload inp)) \<le> MAX_COLLAB_UPDATE_BYTES"
    and "st_state st = Some r" and "writer_generation r = ai_writer_generation inp"
    and "native_operation_receipt st (ai_op_id inp) = Some rc"
    and "receipt_matches sha256 (a_actor (x_actor ctx)) inp rc"
  shows "guard_append sha256 ctx guard inp st = (st, Done (DuplicateAck (rc_seq rc)))"
proof -
  have "append_collab_native sha256 ctx (family_fence guard) inp st = (st, Done (Replay (rc_seq rc)))"
    using assms(2-) may_append_scope [OF assms(1)] assms(1)
    by (simp add: append_collab_native_def in_scope_def may_append_def seeded_append_fence_def
        native_append_fence_def receipt_matches_def)
  then show ?thesis
    unfolding guard_append_in_tx [OF assms(1-3)] using assms(1)
    by (simp add: append_collab_update_in_tx_def finish_native_room_operation_def may_append_def)
qed

lemma generation_row: "st_state st = Some r \<Longrightarrow> generation_of st = writer_generation r"
  by (simp add: generation_of_def)

lemma wf_receipts_distinct: "wf_store sha256 st \<Longrightarrow> distinct (map rc_op_id (st_receipts st))"
  by (auto simp: wf_store_def wf_row_def split: option.splits)

lemma appended_load:
  assumes "wf_store sha256 st" and "st_state st = Some r" and "append_fits inp r st"
    and "load_durable_native_source st = Inr l"
  shows "load_durable_native_source (appended sha256 actor inp r st) =
    Inr (l\<lparr>l_tail := l_tail l @ [\<lparr>seq = tail_seq r + 1, op_id = ai_op_id inp,
             payload = ai_payload inp\<rparr>],
           l_tail_seq := tail_seq r + 1\<rparr>)"
proof -
  have "l = state_row_to_load r (st_updates st)"
    using wf_row_load [OF wf_storeD [OF assms(1,2)] assms(2)] assms(4) by simp
  moreover have "load_durable_native_source (appended sha256 actor inp r st) =
      Inr (state_row_to_load (r\<lparr>tail_seq := tail_seq r + 1\<rparr>)
        (st_updates (appended sha256 actor inp r st)))"
    by (rule wf_row_load [OF wf_storeD [OF wf_appended [OF assms(1-3)]]]) (rule appended_rows)+
  ultimately show ?thesis
    by (simp add: state_row_to_load_def)
qed

section \<open>Properties\<close>

definition sample_store :: "unit native_store" where
  "sample_store =
     \<lparr>st_state = None, st_updates = [], st_receipts = [], st_content_json = empty_document_json,
      st_text = '''', st_chosung = '''', st_events = [], st_audit = []\<rparr>"

definition sample_writer_db :: authz_db where
  "sample_writer_db = sample_authz
     \<lparr>memberships := [\<lparr>m_workspace = 3, m_user = 1, m_role = ''member''\<rparr>],
      documents := [\<lparr>d_workspace = 3, d_id = 4, d_project = None, d_status = ''draft'',
                      d_deleted_at = None\<rparr>]\<rparr>"

definition sample_ctx :: tx_ctx where
  "sample_ctx = \<lparr>x_before = sample_writer_db, x_db = sample_writer_db, x_actor = sample_actor,
     x_end = 50, x_fault = NoFault\<rparr>"

definition sample_input :: append_input where
  "sample_input = \<lparr>ai_writer_generation = 0, ai_expected_tail_seq = 0, ai_op_id = 7,
     ai_payload = [1, 2, 3]\<rparr>"

lemma sample_may_append: "may_append sample_ctx PgGuard"
  by (simp add: may_append_def sample_ctx_def sample_writer_db_def sample_authz_def sample_actor_def
      authorize_collab_write_def lock_collab_actor_def lock_collab_access_def
      lock_collab_document_access_def recheck_session_def session_recheck_def user_live_def
      session_live_def workspace_is_live_def membership_role_def document_affiliation_def
      collab_document_lock_def document_permission_def wiki_document_eligible_def
      wiki_group_roles_def at_least_def permission_order max_def)

lemma sample_input_fits:
  "ai_payload sample_input \<noteq> []" "int (length (ai_payload sample_input)) \<le> MAX_COLLAB_UPDATE_BYTES"
  by (simp_all add: sample_input_def collab_limits)

lemma sample_append:
  "guard_append id sample_ctx PgGuard sample_input sample_store =
    (appended id 1 sample_input (the (st_state (seeded sample_store))) (seeded sample_store),
     Done (Committed 1))"
proof -
  have "current_native_write_scope sample_ctx t None = Some True" for t
    by (simp add: current_native_write_scope_def sample_ctx_def sample_actor_def)
  moreover have "authorize_collab_write (x_before sample_ctx) (x_db sample_ctx) (x_actor sample_ctx) = Inr ()"
    using sample_may_append by (simp add: may_append_def)
  moreover have "a_actor (x_actor sample_ctx) = 1" "x_fault sample_ctx = NoFault"
    by (simp_all add: sample_ctx_def sample_actor_def)
  ultimately show ?thesis
    unfolding guard_append_in_tx [OF sample_may_append sample_input_fits]
    by (simp add: append_collab_update_in_tx_def finish_native_room_operation_def
        append_collab_native_def in_scope_def sample_input_def sample_store_def collab_limits
        seeded_append_fence_def native_append_fence_def ensure_collab_state_def
        native_state_generation_def insert_empty_native_state_def native_operation_receipt_def
        native_tail_stats_def EMPTY_YJS_STATE_V1_def advance_native_tail_def appended_def seeded_def
        Let_def)
qed

lemma sample_initial: "initial_store sample_store"
  by (simp add: initial_store_def sample_store_def)

text \<open>C9: The durable log of a resource never goes bad. After any sequence of the transactions of
  any number of rooms and servers, from a resource that was never opened and with driver failures
  and lost commit replies anywhere, the durable source loads: its tail rows are the gap-free
  sequence after the snapshot's cutoff up to the recorded tail, at most 64 of them and within the
  32 MiB load budget, with one receipt for every sequence number ever issued; and a further
  transaction never lowers the writer generation or the tail and never rewrites a receipt.\<close>

theorem durable_log_loads:
  assumes "initial_store st0" and "store_steps sha256 st0 st" and "st_state st \<noteq> None"
  shows "(\<exists>l. load_durable_native_source st = Inr l \<and>
      map seq (l_tail l) = [l_snapshot_cutoff_seq l + 1 .. l_tail_seq l] \<and>
      length (l_tail l) \<le> 64 \<and>
      int (length (l_snapshot l)) + tail_bytes (l_tail l) \<le> 32 * 1024 * 1024 \<and>
      map rc_seq (st_receipts st) = [1 .. l_tail_seq l]) \<and>
    (\<forall>st'. store_step sha256 st st' \<longrightarrow>
      generation_of st \<le> generation_of st' \<and> tail_of st \<le> tail_of st' \<and>
      (\<exists>zs. st_receipts st' = st_receipts st @ zs))"
proof
  obtain r where r: "st_state st = Some r"
    using assms(3) by blast
  have wf: "wf_row sha256 st r"
    using store_steps_wf [OF assms(2) initial_wf [OF assms(1)]] r by (rule wf_storeD)
  show "\<exists>l. load_durable_native_source st = Inr l \<and>
      map seq (l_tail l) = [l_snapshot_cutoff_seq l + 1 .. l_tail_seq l] \<and>
      length (l_tail l) \<le> 64 \<and>
      int (length (l_snapshot l)) + tail_bytes (l_tail l) \<le> 32 * 1024 * 1024 \<and>
      map rc_seq (st_receipts st) = [1 .. l_tail_seq l]"
    unfolding wf_row_load [OF wf r] using wf
    by (auto simp: wf_row_def state_row_to_load_def collab_limits)
  show "\<forall>st'. store_step sha256 st st' \<longrightarrow>
      generation_of st \<le> generation_of st' \<and> tail_of st \<le> tail_of st' \<and>
      (\<exists>zs. st_receipts st' = st_receipts st @ zs)"
    using store_step_change row_change_grows by blast
qed

theorem durable_log_loads_witness:
  "\<exists>l. load_durable_native_source (fst (guard_append id sample_ctx PgGuard sample_input sample_store)) = Inr l \<and>
    map seq (l_tail l) = [l_snapshot_cutoff_seq l + 1 .. l_tail_seq l]"
  using durable_log_loads [OF sample_initial r_into_rtranclp [of "store_step id"],
      OF step_append [of id sample_store sample_ctx PgGuard sample_input]]
  unfolding sample_append by auto

text \<open>C8: What an acknowledged append stores is what the next load reads. When the guard's append
  answers \<open>Committed s\<close>, the sequence number is the expected tail plus one, the writer generation
  is the one the row holds, and the durable source is the previous one with exactly this payload,
  under this operation id, added at the end of its tail.\<close>

theorem append_then_load:
  assumes "wf_store sha256 st" and "load_durable_native_source st = Inr l"
    and "guard_append sha256 ctx guard inp st = (st', Done (Committed s))"
  shows "s = ai_expected_tail_seq inp + 1 \<and> l_tail_seq l = ai_expected_tail_seq inp \<and>
    l_writer_generation l = ai_writer_generation inp \<and>
    load_durable_native_source st' =
      Inr (l\<lparr>l_tail := l_tail l @ [\<lparr>seq = s, op_id = ai_op_id inp, payload = ai_payload inp\<rparr>],
             l_tail_seq := s\<rparr>)"
proof -
  obtain r where r: "st_state (seeded st) = Some r" "append_fits inp r (seeded st)"
      "s = tail_seq r + 1" "st' = appended sha256 (a_actor (x_actor ctx)) inp r (seeded st)"
    using append_committed [OF assms(3)] by blast
  obtain row where "st_state st = Some row"
    using assms(2) by (cases "st_state st") (simp_all add: load_durable_native_source_def)
  then have st: "seeded st = st"
    by (simp add: seeded_def)
  have "l = state_row_to_load r (st_updates st)"
    using wf_row_load [OF wf_storeD [OF assms(1)]] r(1) assms(2) by (simp add: st)
  with r appended_load [OF assms(1) _ _ assms(2)] show ?thesis
    by (simp add: st append_fits_def state_row_to_load_def)
qed

lemma sample_seeded_load:
  "load_durable_native_source (seeded sample_store) =
    Inr \<lparr>l_snapshot = [0, 0], l_tail = [], l_writer_generation = 0, l_snapshot_cutoff_seq = 0,
         l_tail_seq = 0\<rparr>"
  by (simp add: load_durable_native_source_def sample_store_def seeded_def
      insert_empty_native_state_def load_native_tail_def native_tail_stats_def load_budget_allows_def
      collab_limits EMPTY_YJS_STATE_V1_def COLLAB_STATE_ENCODING_V1_def state_row_to_load_def)

lemma sample_append_seeded:
  "\<exists>st'. guard_append id sample_ctx PgGuard sample_input (seeded sample_store) = (st', Done (Committed 1))"
proof -
  have "current_native_write_scope sample_ctx t None = Some True" for t
    by (simp add: current_native_write_scope_def sample_ctx_def sample_actor_def)
  moreover have "authorize_collab_write (x_before sample_ctx) (x_db sample_ctx) (x_actor sample_ctx) = Inr ()"
    using sample_may_append by (simp add: may_append_def)
  moreover have "x_fault sample_ctx = NoFault"
    by (simp add: sample_ctx_def)
  ultimately show ?thesis
    unfolding guard_append_in_tx [OF sample_may_append sample_input_fits]
    by (simp add: append_collab_update_in_tx_def finish_native_room_operation_def
        append_collab_native_def in_scope_def sample_input_def sample_store_def collab_limits
        seeded_append_fence_def native_append_fence_def
        insert_empty_native_state_def native_operation_receipt_def
        native_tail_stats_def EMPTY_YJS_STATE_V1_def advance_native_tail_def seeded_def Let_def)
qed

theorem append_then_load_witness:
  "\<exists>st' l. guard_append id sample_ctx PgGuard sample_input (seeded sample_store) = (st', Done (Committed 1)) \<and>
    load_durable_native_source st' = Inr l \<and> map payload (l_tail l) = [[1, 2, 3]]"
proof -
  obtain st' where st': "guard_append id sample_ctx PgGuard sample_input (seeded sample_store) =
      (st', Done (Committed 1))"
    using sample_append_seeded by blast
  have "wf_store id (seeded sample_store)"
    by (rule wf_seeded [OF initial_wf [OF sample_initial]])
  from append_then_load [OF this sample_seeded_load st'] st' show ?thesis
    by (simp add: sample_input_def)
qed

text \<open>C7: An append takes effect at most once and only for the current writer. If the store has
  changed at all by an append's receipt (whatever the caller was told, a lost commit reply
  included), the row held the inp's writer generation and expected tail; and whatever
  transactions ran since, the same writer's retry of the same inp, as long as its generation is
  still current, is answered \<open>DuplicateAck\<close> with the sequence number of the first append and
  changes nothing. An append from a superseded generation leaves every row as it was.\<close>

theorem append_exactly_once:
  assumes "wf_store sha256 st" and "guard_append sha256 ctx guard inp st = (st', res)"
  shows "(st_receipts st' \<noteq> st_receipts st \<longrightarrow>
      generation_of st = ai_writer_generation inp \<and> tail_of st = ai_expected_tail_seq inp \<and>
      (\<forall>st2 ctx2 guard2. store_steps sha256 st' st2 \<and> may_append ctx2 guard2 \<and>
         a_actor (x_actor ctx2) = a_actor (x_actor ctx) \<and>
         generation_of st2 = ai_writer_generation inp \<longrightarrow>
         guard_append sha256 ctx2 guard2 inp st2 =
           (st2, Done (DuplicateAck (ai_expected_tail_seq inp + 1))))) \<and>
    (generation_of st \<noteq> ai_writer_generation inp \<longrightarrow> st' = st)"
proof (intro conjI impI allI)
  assume changed: "st_receipts st' \<noteq> st_receipts st"
  obtain r where r: "st_state (seeded st) = Some r" "append_fits inp r (seeded st)"
      "st' = appended sha256 (a_actor (x_actor ctx)) inp r (seeded st)"
    using append_changed [OF assms(2) changed] by blast
  then show "generation_of st = ai_writer_generation inp" "tail_of st = ai_expected_tail_seq inp"
    using heads_of [OF r(1)] by (simp_all add: append_fits_def)
  fix st2 ctx2 guard2
  assume retry: "store_steps sha256 st' st2 \<and> may_append ctx2 guard2 \<and>
      a_actor (x_actor ctx2) = a_actor (x_actor ctx) \<and> generation_of st2 = ai_writer_generation inp"
  have wf': "wf_store sha256 st'"
    using r wf_appended [OF wf_seeded [OF assms(1)]] by blast
  have wf2: "wf_store sha256 st2"
    using store_steps_wf retry wf' by blast
  obtain zs where zs: "st_receipts st2 = st_receipts st' @ zs"
    using store_steps_grow retry by blast
  let ?rc = "\<lparr>rc_op_id = ai_op_id inp, rc_seq = tail_seq r + 1,
      rc_payload_len = int (length (ai_payload inp)),
      rc_payload_sha256 = sha256 (ai_payload inp), rc_actor_user_id = a_actor (x_actor ctx)\<rparr>"
  have rc: "native_operation_receipt st2 (ai_op_id inp) = Some ?rc"
    using receipt_lookup [OF wf_receipts_distinct [OF wf2]] zs r(3) by simp
  obtain r2 where r2: "st_state st2 = Some r2"
    using wf2 zs r(3) by (cases "st_state st2") (simp_all add: wf_store_def)
  then have "writer_generation r2 = ai_writer_generation inp"
    using retry by (simp add: generation_row)
  with append_replay [OF _ _ _ r2 _ rc, of ctx2 guard2] retry r(2)
  show "guard_append sha256 ctx2 guard2 inp st2 =
      (st2, Done (DuplicateAck (ai_expected_tail_seq inp + 1)))"
    by (simp add: append_fits_def receipt_matches_def)
next
  assume stale: "generation_of st \<noteq> ai_writer_generation inp"
  show "st' = st"
    using append_body_cases [OF assms(2)] stale
    by (auto dest!: append_native_Done simp: heads_of)
qed

theorem append_exactly_once_witness:
  "\<exists>st'. guard_append id sample_ctx PgGuard sample_input sample_store = (st', Done (Committed 1)) \<and>
    guard_append id sample_ctx PgGuard sample_input st' = (st', Done (DuplicateAck 1))"
proof -
  let ?st = "appended id 1 sample_input (the (st_state (seeded sample_store))) (seeded sample_store)"
  have "st_receipts ?st \<noteq> st_receipts sample_store" "generation_of ?st = 0"
    by (simp_all add: sample_store_def seeded_def insert_empty_native_state_def generation_of_def)
  then have "guard_append id sample_ctx PgGuard sample_input ?st = (?st, Done (DuplicateAck 1))"
    using append_exactly_once [OF initial_wf [OF sample_initial] sample_append] sample_may_append
    by (auto simp: sample_input_def)
  with sample_append show ?thesis
    by blast
qed

end
