(* ===== verification/RoomOut.thy ===== *)
theory RoomOut
  imports Awareness CollabStore "HOL-Library.Multiset"
begin

text \<open>
  The connections of a collaboration room (\<open>src/src/collab/room.rs\<close>): admission of a
  connection and its client id, delivery of frames under the connection's outbound budget,
  eviction of slow peers, closing in either order, the awareness broadcast queue, and the budget of
  rejected updates per user. The channel to a transport and the budget of a connection are shared
  with the transport task and outlive the connection, so they live in stores of their own and a
  connection holds their handles. The transport's side (\<open>src/src/collab/transport.rs\<close>) is
  a set of steps that interleave with the room's. Times are milliseconds of the monotonic clock.
\<close>

section \<open>Channels and budgets\<close>

definition OUTBOUND_FRAME_OVERHEAD :: nat where
  "OUTBOUND_FRAME_OVERHEAD = 48"

definition MAX_REJECTED_CANDIDATES_PER_USER :: nat where
  "MAX_REJECTED_CANDIDATES_PER_USER = 8"

definition REJECTED_CANDIDATE_WINDOW :: nat where
  "REJECTED_CANDIDATE_WINDOW = 30 * 1000"

definition USER_REJECT_COOLDOWN :: nat where
  "USER_REJECT_COOLDOWN = 30 * 1000"

datatype outbound_kind = Control | Data

text \<open>A frame's permit names its budget and the bytes it accounts for.\<close>

record outbound_frame =
  of_bytes :: "u8 list"
  of_kind :: outbound_kind
  of_permit :: "(nat \<times> nat) option"

definition unaccounted :: "u8 list \<Rightarrow> outbound_frame" where
  "unaccounted bytes = \<lparr>of_bytes = bytes, of_kind = Control, of_permit = None\<rparr>"

datatype room_client_event =
  Outbound outbound_frame
| CloseEvent nat string

record connection_cancel =
  cc_code :: nat
  cc_reason :: string

text \<open>An events channel with the frame its transport is sending, and the cancel watch of the
  same socket.\<close>

record channel =
  ch_capacity :: nat
  ch_queue :: "room_client_event list"
  ch_sending :: "outbound_frame option"
  ch_closed :: bool
  ch_cancel :: "connection_cancel option"

datatype try_send_result = Sent | Full | Closed

definition try_send :: "room_client_event \<Rightarrow> channel \<Rightarrow> try_send_result \<times> channel" where
  "try_send e ch =
     (if ch_closed ch then (Closed, ch)
      else if length (ch_queue ch) \<ge> ch_capacity ch then (Full, ch)
      else (Sent, ch\<lparr>ch_queue := ch_queue ch @ [e]\<rparr>))"

text \<open>\<open>bd_permits\<close> are the free permits of the frame semaphore.\<close>

record connection_outbound_budget =
  bd_permits :: nat
  bd_queued_bytes :: nat
  bd_max_bytes :: nat

section \<open>Connections and the room\<close>

record collab_session =
  cs_session_id :: uuid
  cs_user_id :: uuid
  cs_given_name :: string
  cs_family_name :: "string option"
  cs_locale :: string

record persist_barrier =
  pb_request_id :: uuid
  pb_prefix_fifo :: nat

record connection_state =
  cn_session :: collab_session
  cn_client_id :: u32
  cn_read_only :: bool
  cn_routing_key :: string
  cn_events :: nat
  cn_cancel :: "nat option"
  cn_outbound_budget :: nat
  cn_generation :: u64
  cn_pending_bytes :: nat
  cn_poisoned :: bool
  cn_pending_persist :: "persist_barrier list"
  cn_in_flight :: bool

record user_reject_budget =
  ur_rejects :: "nat list"
  ur_cooldown_until :: "nat option"

record room_config =
  cfg_max_connections_per_room :: nat
  cfg_max_pending_bytes_per_connection :: nat
  cfg_max_outbound_frames_per_connection :: nat
  cfg_max_outbound_bytes_per_connection :: nat
  cfg_client_id_ttl_ms :: nat
  cfg_revision_session_snapshot :: bool

text \<open>A captured revision; its document is kept as its JSON text.\<close>

record captured_revision =
  cr_y_snapshot :: "u8 list"
  cr_content_json :: string

record session_revision_state =
  sr_writer_generation :: int
  sr_captured :: "captured_revision option"
  sr_head_retries :: nat

record room =
  rm_config :: room_config
  rm_channels :: "channel list"
  rm_budgets :: "connection_outbound_budget list"
  rm_connections :: "(uuid \<times> connection_state) list"
  rm_awareness :: awareness_registry
  rm_pending_awareness :: "u8 list list"
  rm_flushing_awareness :: bool
  rm_client_id_owner :: "(u32 \<times> (uuid \<times> nat)) list"
  rm_user_reject_budgets :: "(uuid \<times> user_reject_budget) list"
  rm_writer_generation :: "int option"
  rm_committed_loaded :: bool
  rm_fence_lost :: bool
  rm_session_revision :: "session_revision_state option"

definition set_channel :: "nat \<Rightarrow> channel \<Rightarrow> 'z room_scheme \<Rightarrow> 'z room_scheme" where
  "set_channel h ch r = r\<lparr>rm_channels := (rm_channels r)[h := ch]\<rparr>"

definition set_budget :: "nat \<Rightarrow> connection_outbound_budget \<Rightarrow> 'z room_scheme \<Rightarrow> 'z room_scheme" where
  "set_budget h bd r = r\<lparr>rm_budgets := (rm_budgets r)[h := bd]\<rparr>"

definition conn_of :: "uuid \<Rightarrow> 'z room_scheme \<Rightarrow> connection_state option" where
  "conn_of conn_id r = map_of (rm_connections r) conn_id"

text \<open>\<open>connections.get_mut\<close>: change a connection if it is there.\<close>

definition update_conn ::
    "uuid \<Rightarrow> (connection_state \<Rightarrow> connection_state) \<Rightarrow> 'z room_scheme \<Rightarrow> 'z room_scheme" where
  "update_conn conn_id f r =
     r\<lparr>rm_connections := map (\<lambda>(i, c). (i, if i = conn_id then f c else c)) (rm_connections r)\<rparr>"

text \<open>Dropping a delivery permit gives the frame permit and the bytes back.\<close>

fun drop_permit :: "(nat \<times> nat) option \<Rightarrow> 'z room_scheme \<Rightarrow> 'z room_scheme" where
  "drop_permit None r = r"
| "drop_permit (Some (h, n)) r =
     (let bd = rm_budgets r ! h in
      set_budget h (bd\<lparr>bd_permits := bd_permits bd + 1, bd_queued_bytes := bd_queued_bytes bd - n\<rparr>) r)"

section \<open>Closing\<close>

definition signal_cancel :: "nat option \<Rightarrow> nat \<Rightarrow> string \<Rightarrow> 'z room_scheme \<Rightarrow> 'z room_scheme" where
  "signal_cancel cancel code reason r =
     (case cancel of
        Some h \<Rightarrow> set_channel h ((rm_channels r ! h)\<lparr>ch_cancel := Some \<lparr>cc_code = code, cc_reason = reason\<rparr>\<rparr>) r
      | None \<Rightarrow> r)"

definition enqueue_close ::
    "nat \<Rightarrow> nat option \<Rightarrow> nat \<Rightarrow> string \<Rightarrow> 'z room_scheme \<Rightarrow> 'z room_scheme" where
  "enqueue_close events cancel code reason r =
     (let r = signal_cancel cancel code reason r in
      set_channel events (snd (try_send (CloseEvent code reason) (rm_channels r ! events))) r)"

definition enqueue_close_ordered ::
    "nat \<Rightarrow> nat option \<Rightarrow> nat \<Rightarrow> string \<Rightarrow> 'z room_scheme \<Rightarrow> 'z room_scheme" where
  "enqueue_close_ordered events cancel code reason r =
     (case try_send (CloseEvent code reason) (rm_channels r ! events) of
        (Sent, ch) \<Rightarrow> set_channel events ch r
      | (_, ch) \<Rightarrow> enqueue_close events cancel code reason r)"

datatype close_order = Preempt | AfterQueued

definition close_events ::
    "close_order \<Rightarrow> connection_state \<Rightarrow> nat \<Rightarrow> string \<Rightarrow> 'z room_scheme \<Rightarrow> 'z room_scheme" where
  "close_events order c code reason r =
     (case order of
        Preempt \<Rightarrow> enqueue_close (cn_events c) (cn_cancel c) code reason r
      | AfterQueued \<Rightarrow> enqueue_close_ordered (cn_events c) (cn_cancel c) code reason r)"

definition evict_connection ::
    "uuid \<Rightarrow> nat \<Rightarrow> string \<Rightarrow> close_order \<Rightarrow> 'z room_scheme \<Rightarrow> u8 list option \<times> 'z room_scheme" where
  "evict_connection conn_id code reason order r =
     (case conn_of conn_id r of
        None \<Rightarrow> (None, r)
      | Some c \<Rightarrow>
          let (tombstone, reg) = remove_client (cn_client_id c) (cn_generation c) (rm_awareness r);
              r = r\<lparr>rm_awareness := reg, rm_connections := hm_remove conn_id (rm_connections r)\<rparr>
          in (tombstone, close_events order c code reason r))"

definition session_revision_scheduling_blocked :: "'z room_scheme \<Rightarrow> bool" where
  "session_revision_scheduling_blocked r \<longleftrightarrow>
     rm_fence_lost r \<or> rm_connections r \<noteq> [] \<or> \<not> rm_committed_loaded r"

definition try_schedule_session_revision :: "'z room_scheme \<Rightarrow> 'z room_scheme" where
  "try_schedule_session_revision r =
     (if \<not> cfg_revision_session_snapshot (rm_config r) then r
      else if rm_session_revision r \<noteq> None then r
      else if session_revision_scheduling_blocked r then r
      else case rm_writer_generation r of
             None \<Rightarrow> r
           | Some g \<Rightarrow> r\<lparr>rm_session_revision :=
               Some \<lparr>sr_writer_generation = g, sr_captured = None, sr_head_retries = 0\<rparr>\<rparr>)"

definition push_awareness :: "u8 list option \<Rightarrow> 'z room_scheme \<Rightarrow> 'z room_scheme" where
  "push_awareness encoded r =
     (case encoded of
        Some e \<Rightarrow> r\<lparr>rm_pending_awareness := rm_pending_awareness r @ [e]\<rparr>
      | None \<Rightarrow> r)"

section \<open>Delivery\<close>

definition evict_for_backpressure :: "uuid \<Rightarrow> 'z room_scheme \<Rightarrow> 'z room_scheme" where
  "evict_for_backpressure conn_id r =
     (let (tombstone, r) = evict_connection conn_id 1009 ''outbound queue full'' Preempt r
      in try_schedule_session_revision (push_awareness tombstone r))"

text \<open>The send itself: the permit is taken before the frame is queued, and given back when the
  channel refuses the frame.\<close>

definition send_accounted ::
    "uuid \<Rightarrow> connection_state \<Rightarrow> u8 list \<Rightarrow> outbound_kind \<Rightarrow> nat \<Rightarrow> 'z room_scheme \<Rightarrow> 'z room_scheme" where
  "send_accounted conn_id c bytes k accounted_bytes r =
     (let h = cn_outbound_budget c; bd = rm_budgets r ! h;
          r = set_budget h (bd\<lparr>bd_permits := bd_permits bd - 1,
                               bd_queued_bytes := bd_queued_bytes bd + accounted_bytes\<rparr>) r;
          permit = Some (h, accounted_bytes);
          frame = \<lparr>of_bytes = bytes, of_kind = k, of_permit = permit\<rparr>
      in case try_send (Outbound frame) (rm_channels r ! cn_events c) of
           (Sent, ch) \<Rightarrow> set_channel (cn_events c) ch r
         | (Closed, _) \<Rightarrow> drop_permit permit r
         | (Full, _) \<Rightarrow> drop_permit permit (evict_for_backpressure conn_id r))"

definition deliver_outbound :: "uuid \<Rightarrow> u8 list \<Rightarrow> outbound_kind \<Rightarrow> 'z room_scheme \<Rightarrow> 'z room_scheme" where
  "deliver_outbound conn_id bytes k r =
     (case conn_of conn_id r of
        None \<Rightarrow> r
      | Some c \<Rightarrow>
          if ch_closed (rm_channels r ! cn_events c) then r
          else
            let accounted_bytes = length bytes + OUTBOUND_FRAME_OVERHEAD;
                bd = rm_budgets r ! cn_outbound_budget c in
            if accounted_bytes > bd_max_bytes bd then evict_for_backpressure conn_id r
            else if bd_queued_bytes bd + accounted_bytes > bd_max_bytes bd
            then evict_for_backpressure conn_id r
            else if bd_permits bd = 0 then evict_for_backpressure conn_id r
            else send_accounted conn_id c bytes k accounted_bytes r)"

definition encode_or_empty :: "wire_frame \<Rightarrow> u8 list" where
  "encode_or_empty frame = (case encode frame of Inr bytes \<Rightarrow> bytes | Inl _ \<Rightarrow> [])"

definition recipients :: "'z room_scheme \<Rightarrow> (uuid \<times> string) list" where
  "recipients r = map (\<lambda>(i, c). (i, cn_routing_key c)) (rm_connections r)"

definition deliver_all :: "document_message \<Rightarrow> (uuid \<times> string) list \<Rightarrow> 'z room_scheme \<Rightarrow> 'z room_scheme" where
  "deliver_all message targets r =
     fold (\<lambda>(i, key). deliver_outbound i (encode_or_empty (DocumentFrame key None message)) Data) targets r"

text \<open>Every eviction takes a connection away and adds at most one tombstone, so the queue of
  awareness messages drains.\<close>

definition flush_weight :: "'z room_scheme \<Rightarrow> nat" where
  "flush_weight r = length (rm_pending_awareness r) + 2 * length (rm_connections r)"

lemma room_store_fields [simp]:
  "rm_connections (set_channel h ch r) = rm_connections r"
  "rm_connections (set_budget h bd r) = rm_connections r"
  "rm_pending_awareness (set_channel h ch r) = rm_pending_awareness r"
  "rm_pending_awareness (set_budget h bd r) = rm_pending_awareness r"
  "rm_channels (set_budget h bd r) = rm_channels r"
  "rm_budgets (set_channel h ch r) = rm_budgets r"
  by (simp_all add: set_channel_def set_budget_def)

lemma drop_permit_fields [simp]:
  "rm_connections (drop_permit p r) = rm_connections r"
  "rm_pending_awareness (drop_permit p r) = rm_pending_awareness r"
  "rm_channels (drop_permit p r) = rm_channels r"
  by (cases "(p, r)" rule: drop_permit.cases; simp add: Let_def)+

lemma close_fields [simp]:
  "rm_connections (close_events order c code reason r) = rm_connections r"
  "rm_pending_awareness (close_events order c code reason r) = rm_pending_awareness r"
  "rm_budgets (close_events order c code reason r) = rm_budgets r"
  by (simp_all add: close_events_def enqueue_close_def enqueue_close_ordered_def signal_cancel_def Let_def
      split: close_order.split try_send_result.split prod.split option.split)

lemma schedule_fields [simp]:
  "rm_connections (try_schedule_session_revision r) = rm_connections r"
  "rm_pending_awareness (try_schedule_session_revision r) = rm_pending_awareness r"
  "rm_channels (try_schedule_session_revision r) = rm_channels r"
  "rm_budgets (try_schedule_session_revision r) = rm_budgets r"
  by (simp_all add: try_schedule_session_revision_def split: option.split)

lemma push_awareness_fields [simp]:
  "rm_connections (push_awareness e r) = rm_connections r"
  "rm_channels (push_awareness e r) = rm_channels r"
  "rm_budgets (push_awareness e r) = rm_budgets r"
  "length (rm_pending_awareness (push_awareness e r)) \<le> Suc (length (rm_pending_awareness r))"
  by (simp_all add: push_awareness_def split: option.split)

lemma evict_connection_fields:
  "rm_connections (snd (evict_connection conn_id code reason order r)) = hm_remove conn_id (rm_connections r)"
  "rm_pending_awareness (snd (evict_connection conn_id code reason order r)) = rm_pending_awareness r"
  "rm_budgets (snd (evict_connection conn_id code reason order r)) = rm_budgets r"
  by (auto simp: evict_connection_def conn_of_def hm_remove_def map_of_eq_None_iff
      split: option.split prod.split intro!: filter_True [symmetric])

lemma hm_remove_shorter:
  "map_of m k = Some v \<Longrightarrow> length (hm_remove k m) < length m"
  unfolding hm_remove_def by (rule length_filter_less [of "(k, v)"]) (auto dest: map_of_SomeD)

lemma evict_for_backpressure_weight:
  assumes "conn_of conn_id r = Some c"
  shows "flush_weight (evict_for_backpressure conn_id r) < flush_weight r"
proof -
  obtain t r' where e: "evict_connection conn_id 1009 ''outbound queue full'' Preempt r = (t, r')"
    by (cases "evict_connection conn_id 1009 ''outbound queue full'' Preempt r")
  with evict_connection_fields [of conn_id 1009 "''outbound queue full''" Preempt r]
  have "rm_connections r' = hm_remove conn_id (rm_connections r)"
    and "rm_pending_awareness r' = rm_pending_awareness r"
    by auto
  with assms hm_remove_shorter [of "rm_connections r" conn_id c]
    push_awareness_fields(4) [of t r']
  show ?thesis
    by (simp add: flush_weight_def evict_for_backpressure_def e conn_of_def)
qed

lemma deliver_outbound_weight: "flush_weight (deliver_outbound conn_id bytes k r) \<le> flush_weight r"
proof (cases "conn_of conn_id r")
  case None
  then show ?thesis by (simp add: deliver_outbound_def)
next
  case (Some c)
  have fw: "flush_weight (drop_permit p s) = flush_weight s" "flush_weight (set_budget h bd s) = flush_weight s"
    "flush_weight (set_channel h ch s) = flush_weight s" "conn_of i (set_budget h bd s) = conn_of i s"
    for p h bd ch i and s :: "'a room_scheme"
    by (simp_all add: flush_weight_def conn_of_def)
  have evict: "flush_weight (evict_for_backpressure conn_id s) \<le> flush_weight s"
    if "conn_of conn_id s = Some c" for s :: "'a room_scheme"
    using evict_for_backpressure_weight [OF that] by simp
  show ?thesis
    using evict [OF Some] evict [of "set_budget _ _ r"] Some
    by (simp add: deliver_outbound_def send_accounted_def Let_def fw
        split: try_send_result.split prod.split)
qed

lemma deliver_all_weight: "flush_weight (deliver_all message targets r) \<le> flush_weight r"
proof (induction targets arbitrary: r)
  case Nil
  then show ?case by (simp add: deliver_all_def)
next
  case (Cons t targets)
  obtain i key where t: "t = (i, key)" by (cases t)
  from Cons [of "deliver_outbound i (encode_or_empty (DocumentFrame key None message)) Data r"]
  have "flush_weight (deliver_all message (t # targets) r)
      \<le> flush_weight (deliver_outbound i (encode_or_empty (DocumentFrame key None message)) Data r)"
    by (simp add: deliver_all_def t)
  with deliver_outbound_weight show ?case
    using le_trans by blast
qed

function flush_loop :: "'z room_scheme \<Rightarrow> 'z room_scheme" where
  "flush_loop r =
     (case rm_pending_awareness r of
        [] \<Rightarrow> r
      | encoded # rest \<Rightarrow>
          let r = r\<lparr>rm_pending_awareness := rest\<rparr>
          in flush_loop (deliver_all (Awareness encoded) (recipients r) r))"
  by pat_completeness auto
termination
proof (relation "measure flush_weight")
  fix r :: "'z room_scheme" and encoded rest s
  assume "rm_pending_awareness r = encoded # rest" and "s = r\<lparr>rm_pending_awareness := rest\<rparr>"
  then have "flush_weight s < flush_weight r"
    by (simp add: flush_weight_def)
  with deliver_all_weight [of "Awareness encoded" "recipients s" s]
  show "(deliver_all (Awareness encoded) (recipients s) s, r) \<in> measure flush_weight"
    by simp
qed simp

declare flush_loop.simps [simp del]

definition flush_pending_awareness :: "'z room_scheme \<Rightarrow> 'z room_scheme" where
  "flush_pending_awareness r =
     (if rm_flushing_awareness r then r
      else (flush_loop (r\<lparr>rm_flushing_awareness := True\<rparr>))\<lparr>rm_flushing_awareness := False\<rparr>)"

section \<open>Closing a connection, broadcasts and replies\<close>

definition close_connection_in_order ::
    "uuid \<Rightarrow> nat \<Rightarrow> string \<Rightarrow> close_order \<Rightarrow> 'z room_scheme \<Rightarrow> 'z room_scheme" where
  "close_connection_in_order conn_id code reason order r =
     (let (tombstone, r) = evict_connection conn_id code reason order r
      in try_schedule_session_revision (flush_pending_awareness (push_awareness tombstone r)))"

definition close_connection :: "uuid \<Rightarrow> nat \<Rightarrow> string \<Rightarrow> 'z room_scheme \<Rightarrow> 'z room_scheme" where
  "close_connection conn_id code reason r = close_connection_in_order conn_id code reason Preempt r"

definition close_connection_ordered :: "uuid \<Rightarrow> nat \<Rightarrow> string \<Rightarrow> 'z room_scheme \<Rightarrow> 'z room_scheme" where
  "close_connection_ordered conn_id code reason r = close_connection_in_order conn_id code reason AfterQueued r"

definition close_each :: "nat \<Rightarrow> string \<Rightarrow> close_order \<Rightarrow> 'z room_scheme \<Rightarrow> 'z room_scheme" where
  "close_each code reason order r =
     fold (\<lambda>i. close_connection_in_order i code reason order) (map fst (rm_connections r)) r"

definition close_all_connections :: "nat \<Rightarrow> string \<Rightarrow> 'z room_scheme \<Rightarrow> 'z room_scheme" where
  "close_all_connections code reason r = close_each code reason Preempt r"

text \<open>The terminal failure paths drain the map and close every socket at once.\<close>

definition drain_connections :: "nat \<Rightarrow> string \<Rightarrow> 'z room_scheme \<Rightarrow> 'z room_scheme" where
  "drain_connections code reason r =
     fold (\<lambda>(_, c). enqueue_close (cn_events c) (cn_cancel c) code reason) (rm_connections r)
       (r\<lparr>rm_connections := []\<rparr>)"

definition broadcast_update :: "u8 list \<Rightarrow> 'z room_scheme \<Rightarrow> 'z room_scheme" where
  "broadcast_update yp r =
     flush_pending_awareness
       (deliver_all (Sync \<lparr>step = Update, y_protocol = yp\<rparr>) (recipients r) r)"

definition broadcast_awareness :: "u8 list \<Rightarrow> 'z room_scheme \<Rightarrow> 'z room_scheme" where
  "broadcast_awareness encoded r = flush_pending_awareness (push_awareness (Some encoded) r)"

definition deliver_document_message :: "uuid \<Rightarrow> string \<Rightarrow> document_message \<Rightarrow> 'z room_scheme \<Rightarrow> 'z room_scheme" where
  "deliver_document_message conn_id key message r =
     (case encode (DocumentFrame key None message) of
        Inr bytes \<Rightarrow> flush_pending_awareness (deliver_outbound conn_id bytes Data r)
      | Inl _ \<Rightarrow> r)"

definition send_sync_status :: "uuid \<Rightarrow> string \<Rightarrow> bool \<Rightarrow> 'z room_scheme \<Rightarrow> 'z room_scheme" where
  "send_sync_status conn_id key ok r = deliver_document_message conn_id key (SyncStatus ok) r"

definition send_stateless :: "uuid \<Rightarrow> string \<Rightarrow> 'z room_scheme \<Rightarrow> 'z room_scheme" where
  "send_stateless conn_id text r =
     (case conn_of conn_id r of
        Some c \<Rightarrow> deliver_document_message conn_id (cn_routing_key c) (Stateless text) r
      | None \<Rightarrow> r)"

definition handle_connection_ping :: "uuid \<Rightarrow> 'z room_scheme \<Rightarrow> 'z room_scheme" where
  "handle_connection_ping conn_id r =
     (if conn_of conn_id r \<noteq> None
      then flush_pending_awareness (deliver_outbound conn_id (encode_or_empty (ConnectionFrame Pong)) Control r)
      else r)"

definition handle_auth :: "uuid \<Rightarrow> string \<Rightarrow> bool \<Rightarrow> auth_message \<Rightarrow> 'z room_scheme \<Rightarrow> 'z room_scheme" where
  "handle_auth conn_id key read_only auth r =
     (case auth of
        Token _ _ \<Rightarrow>
          deliver_document_message conn_id key
            (Auth (Authenticated (if read_only then ''readonly'' else ''read-write''))) r
      | _ \<Rightarrow> r)"

definition handle_query_awareness :: "uuid \<Rightarrow> string \<Rightarrow> 'z room_scheme \<Rightarrow> 'z room_scheme" where
  "handle_query_awareness conn_id key r =
     (let encoded = encode_all (rm_awareness r) in
      if encoded \<noteq> [] then deliver_document_message conn_id key (Awareness encoded) r else r)"

definition handle_leave :: "uuid \<Rightarrow> 'z room_scheme \<Rightarrow> 'z room_scheme" where
  "handle_leave conn_id r =
     (if conn_of conn_id r = None then r else close_connection conn_id 1000 ''client leave'' r)"

definition close_dropped_connection :: "uuid \<Rightarrow> u64 \<Rightarrow> 'z room_scheme \<Rightarrow> 'z room_scheme" where
  "close_dropped_connection conn_id gen r =
     (case conn_of conn_id r of
        Some c \<Rightarrow> if cn_generation c = gen then close_connection conn_id 1000 ''client leave'' r else r
      | None \<Rightarrow> r)"

text \<open>Presence of a connection: decode, apply to the registry, broadcast what changed. The crates'
  JSON parser and printers are arguments, as in \<open>Awareness\<close>.\<close>

record 'n presence_crates =
  pc_parse :: "string \<Rightarrow> 'n json option"
  pc_from_slice :: "u8 list \<Rightarrow> 'n json option"
  pc_to_vec :: "'n json \<Rightarrow> u8 list option"
  pc_uuid_simple :: "uuid \<Rightarrow> string"
  pc_uuid_string :: "uuid \<Rightarrow> string"

definition handle_awareness ::
    "'n presence_crates \<Rightarrow> u32 \<Rightarrow> collab_session \<Rightarrow> u64 \<Rightarrow> u8 list \<Rightarrow> 'z room_scheme \<Rightarrow> 'z room_scheme" where
  "handle_awareness crates client_id session conn_generation bytes r =
     (let updates = (case decode_awareness (pc_parse crates) bytes of Inr us \<Rightarrow> us | Inl _ \<Rightarrow> []);
          display = display_name (cs_given_name session) (cs_family_name session) (cs_locale session);
          color = user_color (pc_uuid_simple crates) (cs_user_id session);
          (encoded, reg) = apply_connection_updates (pc_from_slice crates) (pc_to_vec crates) client_id
             updates (pc_uuid_string crates (cs_user_id session)) display color conn_generation (rm_awareness r);
          r = r\<lparr>rm_awareness := reg\<rparr>
      in case encoded of Some e \<Rightarrow> broadcast_awareness e r | None \<Rightarrow> r)"

section \<open>Client ids, rejected updates and admission\<close>

definition parse_client_id :: "string \<Rightarrow> u32 option" where
  "parse_client_id token =
     (if token = [] \<or> length token > 10 \<or> \<not> list_all (\<lambda>c. of_char c \<in> {48..57::nat}) token then None
      else let n = foldl (\<lambda>acc c. acc * 10 + (of_char c - 48)) (0::nat) token
           in if n > 0xFFFFFFFF then None else Some (of_nat n))"

definition reserve_client_id :: "nat \<Rightarrow> u32 \<Rightarrow> uuid \<Rightarrow> 'z room_scheme \<Rightarrow> bool \<times> 'z room_scheme" where
  "reserve_client_id now client_id user_id r =
     (let live = map (\<lambda>(_, c). cn_client_id c) (rm_connections r);
          owners = filter (\<lambda>(cid, (_, at)). cid \<in> set live \<or> now - at < cfg_client_id_ttl_ms (rm_config r))
            (rm_client_id_owner r);
          r = r\<lparr>rm_client_id_owner := owners\<rparr>
      in if list_ex (\<lambda>(_, c). cn_client_id c = client_id \<and> cs_user_id (cn_session c) \<noteq> user_id) (rm_connections r)
         then (False, r)
         else if (case map_of owners client_id of Some (owner, _) \<Rightarrow> owner \<noteq> user_id | None \<Rightarrow> False)
         then (False, r)
         else (True, r\<lparr>rm_client_id_owner := hm_insert client_id (user_id, now) owners\<rparr>))"

definition reject_budget_of :: "uuid \<Rightarrow> 'z room_scheme \<Rightarrow> user_reject_budget" where
  "reject_budget_of user_id r =
     (case map_of (rm_user_reject_budgets r) user_id of
        Some b \<Rightarrow> b | None \<Rightarrow> \<lparr>ur_rejects = [], ur_cooldown_until = None\<rparr>)"

definition set_reject_budget :: "uuid \<Rightarrow> user_reject_budget \<Rightarrow> 'z room_scheme \<Rightarrow> 'z room_scheme" where
  "set_reject_budget user_id b r =
     r\<lparr>rm_user_reject_budgets := hm_insert user_id b (rm_user_reject_budgets r)\<rparr>"

definition retain_rejects :: "nat \<Rightarrow> user_reject_budget \<Rightarrow> user_reject_budget" where
  "retain_rejects now b = b\<lparr>ur_rejects := filter (\<lambda>t. now - t < REJECTED_CANDIDATE_WINDOW) (ur_rejects b)\<rparr>"

definition user_write_reject_blocked :: "nat \<Rightarrow> uuid \<Rightarrow> 'z room_scheme \<Rightarrow> bool \<times> 'z room_scheme" where
  "user_write_reject_blocked now user_id r =
     (let b = reject_budget_of user_id r in
      case ur_cooldown_until b of
        Some u \<Rightarrow>
          if now < u then (True, set_reject_budget user_id b r)
          else (False, set_reject_budget user_id
                  (retain_rejects now (b\<lparr>ur_cooldown_until := None, ur_rejects := []\<rparr>)) r)
      | None \<Rightarrow> (False, set_reject_budget user_id (retain_rejects now b) r))"

definition record_user_rejected_candidate :: "nat \<Rightarrow> uuid \<Rightarrow> 'z room_scheme \<Rightarrow> 'z room_scheme" where
  "record_user_rejected_candidate now user_id r =
     (let b = retain_rejects now (reject_budget_of user_id r);
          b = b\<lparr>ur_rejects := ur_rejects b @ [now]\<rparr>;
          b = (if length (ur_rejects b) \<ge> MAX_REJECTED_CANDIDATES_PER_USER
               then b\<lparr>ur_cooldown_until := Some (now + USER_REJECT_COOLDOWN), ur_rejects := []\<rparr> else b)
      in set_reject_budget user_id b r)"

record room_join =
  jn_conn_id :: uuid
  jn_session :: collab_session
  jn_client_id :: u32
  jn_routing_key :: string
  jn_read_only :: bool
  jn_events :: nat
  jn_cancel :: "nat option"

text \<open>The connection half of \<open>handle_join\<close>, once the room is loaded: reserve the client
  id, claim it in the registry, insert the connection with a fresh budget, greet it.\<close>

definition new_budget :: "room_config \<Rightarrow> connection_outbound_budget" where
  "new_budget cfg =
     \<lparr>bd_permits = cfg_max_outbound_frames_per_connection cfg, bd_queued_bytes = 0,
      bd_max_bytes = cfg_max_outbound_bytes_per_connection cfg\<rparr>"

definition new_connection :: "bool \<Rightarrow> room_join \<Rightarrow> nat \<Rightarrow> u64 \<Rightarrow> connection_state" where
  "new_connection read_only j budget gen =
     \<lparr>cn_session = jn_session j, cn_client_id = jn_client_id j, cn_read_only = read_only,
      cn_routing_key = jn_routing_key j, cn_events = jn_events j, cn_cancel = jn_cancel j,
      cn_outbound_budget = budget, cn_generation = gen, cn_pending_bytes = 0,
      cn_poisoned = False, cn_pending_persist = [], cn_in_flight = False\<rparr>"

definition insert_connection :: "bool \<Rightarrow> room_join \<Rightarrow> 'z room_scheme \<Rightarrow> 'z room_scheme" where
  "insert_connection read_only j r =
     (let (gen, reg) = connection_generation (rm_awareness r)
      in r\<lparr>rm_awareness := claim_connection_client (jn_client_id j) gen reg,
           rm_budgets := rm_budgets r @ [new_budget (rm_config r)],
           rm_connections := hm_insert (jn_conn_id j) (new_connection read_only j (length (rm_budgets r)) gen)
             (rm_connections r)\<rparr>)"

definition greet_connection :: "room_join \<Rightarrow> 'z room_scheme \<Rightarrow> 'z room_scheme" where
  "greet_connection j r =
     (let encoded = encode_all (rm_awareness r) in
      flush_pending_awareness
        (if encoded \<noteq> []
         then (case encode (DocumentFrame (jn_routing_key j) None (Awareness encoded)) of
                 Inr bytes \<Rightarrow> deliver_outbound (jn_conn_id j) bytes Data r
               | Inl _ \<Rightarrow> r)
         else r))"

definition admit_connection :: "nat \<Rightarrow> bool \<Rightarrow> room_join \<Rightarrow> 'z room_scheme \<Rightarrow> bool \<times> 'z room_scheme" where
  "admit_connection now read_only j r =
     (case reserve_client_id now (jn_client_id j) (cs_user_id (jn_session j)) r of
        (False, r) \<Rightarrow> (False, r)
      | (True, r) \<Rightarrow> (True, greet_connection j (insert_connection read_only j r)))"

section \<open>Invariants of delivery\<close>

text \<open>What evictions keep, every eviction for backpressure keeps; what deliveries also keep,
  every broadcast, reply and close keeps.\<close>

locale eviction_invariant =
  fixes I :: "'z room_scheme \<Rightarrow> bool"
  assumes evict: "I r \<Longrightarrow> I (snd (evict_connection conn_id code reason order r))"
    and pending: "I r \<Longrightarrow> I (r\<lparr>rm_pending_awareness := p\<rparr>)"
    and revision: "I r \<Longrightarrow> I (r\<lparr>rm_session_revision := s\<rparr>)"
begin

lemma push: "I r \<Longrightarrow> I (push_awareness e r)"
  by (simp add: push_awareness_def pending split: option.split)

lemma schedule: "I r \<Longrightarrow> I (try_schedule_session_revision r)"
  by (simp add: try_schedule_session_revision_def revision split: option.split)

lemma backpressure: "I r \<Longrightarrow> I (evict_for_backpressure conn_id r)"
  using evict [of r conn_id 1009 "''outbound queue full''" Preempt]
  by (auto simp: evict_for_backpressure_def intro!: push schedule split: prod.split)

end

locale delivery_invariant = eviction_invariant I
  for I :: "'z room_scheme \<Rightarrow> bool" +
  assumes deliver: "I r \<Longrightarrow> I (deliver_outbound conn_id bytes k r)"
    and flushing: "I r \<Longrightarrow> I (r\<lparr>rm_flushing_awareness := f\<rparr>)"
begin

lemma all: "I r \<Longrightarrow> I (deliver_all message targets r)"
  by (induction targets arbitrary: r) (auto simp: deliver_all_def deliver)

lemma loop: "I r \<Longrightarrow> I (flush_loop r)"
proof (induction r rule: flush_loop.induct)
  case (1 r)
  then show ?case
    by (subst flush_loop.simps) (simp add: Let_def all pending split: list.split)
qed

lemma flush: "I r \<Longrightarrow> I (flush_pending_awareness r)"
  by (simp add: flush_pending_awareness_def loop flushing)

lemma close: "I r \<Longrightarrow> I (close_connection_in_order conn_id code reason order r)"
  using evict [of r conn_id code reason order]
  by (auto simp: close_connection_in_order_def intro!: push schedule flush split: prod.split)

lemma each: "I r \<Longrightarrow> I (close_each code reason order r)"
proof -
  have "I r \<Longrightarrow> I (fold (\<lambda>i. close_connection_in_order i code reason order) ids r)" for ids r
    by (induction ids arbitrary: r) (simp_all add: close)
  then show "I r \<Longrightarrow> I (close_each code reason order r)"
    by (simp add: close_each_def)
qed

lemma updates: "I r \<Longrightarrow> I (broadcast_update yp r)"
  by (simp add: broadcast_update_def flush all)

lemma presence: "I r \<Longrightarrow> I (broadcast_awareness e r)"
  by (simp add: broadcast_awareness_def flush push)

lemma message: "I r \<Longrightarrow> I (deliver_document_message conn_id key m r)"
  by (simp add: deliver_document_message_def flush deliver split: sum.split)

lemma greet: "I r \<Longrightarrow> I (greet_connection j r)"
  by (simp add: greet_connection_def Let_def flush deliver split: sum.split)

lemma ping: "I r \<Longrightarrow> I (handle_connection_ping conn_id r)"
  by (simp add: handle_connection_ping_def flush deliver)

end

subsection \<open>Where evictions and sends act\<close>

lemma set_channel_budget:
  "set_channel g ch (set_budget h bd r) = set_budget h bd (set_channel g ch r)"
  by (simp add: set_channel_def set_budget_def)

lemma enqueue_close_budget:
  "enqueue_close events cancel code reason (set_budget h bd r) =
     set_budget h bd (enqueue_close events cancel code reason r)"
  by (simp add: enqueue_close_def signal_cancel_def Let_def set_channel_budget split: option.split)

lemma push_budget: "push_awareness e (set_budget h bd r) = set_budget h bd (push_awareness e r)"
  by (cases e) (simp_all add: set_budget_def push_awareness_def)

lemma schedule_budget:
  "try_schedule_session_revision (set_budget h bd r) = set_budget h bd (try_schedule_session_revision r)"
proof -
  have "rm_config (set_budget h bd r) = rm_config r" "rm_session_revision (set_budget h bd r) = rm_session_revision r"
    "rm_writer_generation (set_budget h bd r) = rm_writer_generation r"
    "session_revision_scheduling_blocked (set_budget h bd r) = session_revision_scheduling_blocked r"
    "(set_budget h bd r)\<lparr>rm_session_revision := s\<rparr> = set_budget h bd (r\<lparr>rm_session_revision := s\<rparr>)" for s
    by (simp_all add: set_budget_def session_revision_scheduling_blocked_def)
  then show ?thesis
    by (cases "rm_writer_generation r") (simp_all add: try_schedule_session_revision_def)
qed

lemma evict_connection_budget:
  "evict_connection conn_id code reason Preempt (set_budget h bd r) =
     (fst (evict_connection conn_id code reason Preempt r),
      set_budget h bd (snd (evict_connection conn_id code reason Preempt r)))"
proof (cases "conn_of conn_id r")
  case None
  then show ?thesis
    by (simp add: evict_connection_def conn_of_def)
next
  case (Some c)
  have "(set_budget h bd r)\<lparr>rm_awareness := a, rm_connections := m\<rparr> =
      set_budget h bd (r\<lparr>rm_awareness := a, rm_connections := m\<rparr>)" for a m
    by (simp add: set_budget_def)
  moreover have "rm_awareness (set_budget h bd r) = rm_awareness r"
    by (simp add: set_budget_def)
  ultimately show ?thesis
    using Some by (simp add: evict_connection_def conn_of_def close_events_def enqueue_close_budget
        split: prod.split)
qed

lemma evict_budget_commute:
  "evict_for_backpressure conn_id (set_budget h bd r) = set_budget h bd (evict_for_backpressure conn_id r)"
  by (simp add: evict_for_backpressure_def evict_connection_budget push_budget schedule_budget split: prod.split)

lemma set_budget_back:
  "h < length (rm_budgets r) \<Longrightarrow> set_budget h (rm_budgets r ! h) (set_budget h bd r) = r"
  by (simp add: set_budget_def)

lemma evict_for_backpressure_budgets [simp]:
  "rm_budgets (evict_for_backpressure conn_id r) = rm_budgets r"
  using evict_connection_fields(3) [of conn_id 1009 "''outbound queue full''" Preempt r]
  by (cases "evict_connection conn_id 1009 ''outbound queue full'' Preempt r")
    (simp add: evict_for_backpressure_def)

definition charge :: "nat \<Rightarrow> nat \<Rightarrow> 'z room_scheme \<Rightarrow> 'z room_scheme" where
  "charge h n r = (let bd = rm_budgets r ! h in
     set_budget h (bd\<lparr>bd_permits := bd_permits bd - 1, bd_queued_bytes := bd_queued_bytes bd + n\<rparr>) r)"

lemma drop_permit_charge:
  assumes "h < length (rm_budgets r)" and "bd_permits (rm_budgets r ! h) \<noteq> 0"
  shows "drop_permit (Some (h, n)) (charge h n r) = r"
  using assms by (simp add: charge_def Let_def set_budget_def)

lemma send_accounted_eq:
  assumes h: "cn_outbound_budget c < length (rm_budgets r)"
    and p: "bd_permits (rm_budgets r ! cn_outbound_budget c) \<noteq> 0"
  shows "send_accounted conn_id c bytes k n r =
    (case try_send (Outbound \<lparr>of_bytes = bytes, of_kind = k, of_permit = Some (cn_outbound_budget c, n)\<rparr>)
            (rm_channels r ! cn_events c) of
       (Sent, ch) \<Rightarrow> set_channel (cn_events c) ch (charge (cn_outbound_budget c) n r)
     | (Closed, _) \<Rightarrow> r
     | (Full, _) \<Rightarrow> evict_for_backpressure conn_id r)"
proof -
  let ?h = "cn_outbound_budget c"
  have e: "evict_for_backpressure conn_id (charge ?h n r) = charge ?h n (evict_for_backpressure conn_id r)"
    by (simp add: charge_def Let_def evict_budget_commute)
  have d: "drop_permit (Some (?h, n)) (charge ?h n s) = s" if "rm_budgets s = rm_budgets r" for s :: "'a room_scheme"
    using drop_permit_charge [of ?h s n] that h p by simp
  have "send_accounted conn_id c bytes k n r =
    (case try_send (Outbound \<lparr>of_bytes = bytes, of_kind = k, of_permit = Some (?h, n)\<rparr>)
            (rm_channels r ! cn_events c) of
       (Sent, ch) \<Rightarrow> set_channel (cn_events c) ch (charge ?h n r)
     | (Closed, _) \<Rightarrow> drop_permit (Some (?h, n)) (charge ?h n r)
     | (Full, _) \<Rightarrow> drop_permit (Some (?h, n)) (evict_for_backpressure conn_id (charge ?h n r)))"
    by (simp only: send_accounted_def charge_def Let_def room_store_fields)
  then show ?thesis
    by (simp add: e d del: drop_permit.simps split: try_send_result.split prod.split)
qed

section \<open>The outbound budget\<close>

fun event_frames :: "room_client_event \<Rightarrow> outbound_frame list" where
  "event_frames (Outbound f) = [f]"
| "event_frames (CloseEvent code reason) = []"

text \<open>The frames a channel still holds: the one being sent and the queued ones.\<close>

definition frames_of :: "channel \<Rightarrow> outbound_frame list" where
  "frames_of ch = (case ch_sending ch of Some f \<Rightarrow> [f] | None \<Rightarrow> []) @ concat (map event_frames (ch_queue ch))"

fun permit_bytes :: "nat \<Rightarrow> outbound_frame \<Rightarrow> nat" where
  "permit_bytes h f = (case of_permit f of Some (g, n) \<Rightarrow> if g = h then n else 0 | None \<Rightarrow> 0)"

fun permit_count :: "nat \<Rightarrow> outbound_frame \<Rightarrow> nat" where
  "permit_count h f = (case of_permit f of Some (g, n) \<Rightarrow> if g = h then 1 else 0 | None \<Rightarrow> 0)"

definition held :: "(outbound_frame \<Rightarrow> nat) \<Rightarrow> 'z room_scheme \<Rightarrow> nat" where
  "held m r = (\<Sum>ch\<leftarrow>rm_channels r. \<Sum>f\<leftarrow>frames_of ch. m f)"

text \<open>A budget agrees with the frames that hold its permits and never exceeds its limits.\<close>

definition budget_ok :: "'z room_scheme \<Rightarrow> nat \<Rightarrow> bool" where
  "budget_ok r h \<longleftrightarrow> (let bd = rm_budgets r ! h in
     bd_queued_bytes bd = held (permit_bytes h) r \<and>
     bd_permits bd + held (permit_count h) r = cfg_max_outbound_frames_per_connection (rm_config r) \<and>
     bd_max_bytes bd = cfg_max_outbound_bytes_per_connection (rm_config r) \<and>
     bd_queued_bytes bd \<le> bd_max_bytes bd)"

definition known_frame :: "nat \<Rightarrow> outbound_frame \<Rightarrow> bool" where
  "known_frame n f \<longleftrightarrow> (case of_permit f of
     Some (h, accounted) \<Rightarrow> h < n \<and> accounted = length (of_bytes f) + OUTBOUND_FRAME_OVERHEAD
   | None \<Rightarrow> True)"

definition permits_known :: "'z room_scheme \<Rightarrow> bool" where
  "permits_known r \<longleftrightarrow> (\<forall>ch\<in>set (rm_channels r). \<forall>f\<in>set (frames_of ch). known_frame (length (rm_budgets r)) f)"

definition handle_ok :: "'z room_scheme \<Rightarrow> connection_state \<Rightarrow> bool" where
  "handle_ok r c \<longleftrightarrow> cn_events c < length (rm_channels r) \<and> cn_outbound_budget c < length (rm_budgets r)"

definition outbound_ok :: "'z room_scheme \<Rightarrow> bool" where
  "outbound_ok r \<longleftrightarrow> (\<forall>h<length (rm_budgets r). budget_ok r h) \<and> permits_known r \<and>
     (\<forall>(i, c)\<in>set (rm_connections r). handle_ok r c)"

lemma held_update:
  assumes "h < length (rm_channels r)"
  shows "held m (set_channel h ch r) + (\<Sum>f\<leftarrow>frames_of (rm_channels r ! h). m f) =
    held m r + (\<Sum>f\<leftarrow>frames_of ch. m f)"
proof -
  let ?g = "\<lambda>ch. \<Sum>f\<leftarrow>frames_of ch. m f"
  from assms have "?g (rm_channels r ! h) \<le> sum_list (map ?g (rm_channels r))"
    by (intro member_le_sum_list) auto
  moreover have "sum_list (map ?g ((rm_channels r)[h := ch])) =
      sum_list (map ?g (rm_channels r)) + ?g ch - ?g (rm_channels r ! h)"
    using assms by (simp add: map_update sum_list_update)
  ultimately show ?thesis
    by (simp add: held_def set_channel_def)
qed

text \<open>Closes and cancellations leave the frames of every channel alone.\<close>

definition quiet :: "'z room_scheme \<Rightarrow> 'z room_scheme \<Rightarrow> bool" where
  "quiet r r' \<longleftrightarrow> rm_budgets r' = rm_budgets r \<and> rm_config r' = rm_config r \<and>
     map frames_of (rm_channels r') = map frames_of (rm_channels r) \<and>
     set (rm_connections r') \<subseteq> set (rm_connections r)"

lemma quiet_refl: "quiet r r"
  by (simp add: quiet_def)

lemma quiet_trans: "quiet r s \<Longrightarrow> quiet s t \<Longrightarrow> quiet r t"
  by (auto simp: quiet_def)

lemma quiet_fields:
  assumes "quiet r r'"
  shows "held m r' = held m r" and "length (rm_channels r') = length (rm_channels r)"
    and "permits_known r' = permits_known r"
proof -
  from assms have eq: "map frames_of (rm_channels r') = map frames_of (rm_channels r)"
    and b: "rm_budgets r' = rm_budgets r"
    by (simp_all add: quiet_def)
  have "held m s = (\<Sum>fs\<leftarrow>map frames_of (rm_channels s). \<Sum>f\<leftarrow>fs. m f)" for s :: "'a room_scheme"
    by (simp add: held_def comp_def)
  with eq show "held m r' = held m r"
    by metis
  from eq show "length (rm_channels r') = length (rm_channels r)"
    by (metis length_map)
  have "permits_known s \<longleftrightarrow> (\<forall>fs\<in>set (map frames_of (rm_channels s)). \<forall>f\<in>set fs.
      known_frame (length (rm_budgets s)) f)"
    for s :: "'a room_scheme"
    by (simp add: permits_known_def)
  with eq b show "permits_known r' = permits_known r"
    by metis
qed

lemma quiet_outbound: "quiet r r' \<Longrightarrow> outbound_ok r \<Longrightarrow> outbound_ok r'"
  by (fastforce simp: outbound_ok_def quiet_fields quiet_def budget_ok_def handle_ok_def)

lemma quiet_set_channel:
  "frames_of ch = frames_of (rm_channels r ! h) \<Longrightarrow> quiet r (set_channel h ch r)"
  by (cases "h < length (rm_channels r)")
    (auto simp: quiet_def set_channel_def map_update list_update_beyond intro: nth_equalityI
      simp: list_update_same_conv)

lemma frames_of_simps [simp]:
  "frames_of (ch\<lparr>ch_cancel := w\<rparr>) = frames_of ch"
  "frames_of (ch\<lparr>ch_queue := ch_queue ch @ [e]\<rparr>) = frames_of ch @ event_frames e"
  by (simp_all add: frames_of_def)

lemma frames_of_try_send:
  "frames_of (snd (try_send (CloseEvent code reason) ch)) = frames_of ch"
  by (simp add: try_send_def)

lemma quiet_signal: "quiet r (signal_cancel cancel code reason r)"
  by (auto simp: signal_cancel_def quiet_refl intro: quiet_set_channel split: option.split)

lemma quiet_enqueue: "quiet r (enqueue_close events cancel code reason r)"
  unfolding enqueue_close_def Let_def
  by (rule quiet_trans [OF quiet_signal quiet_set_channel]) (rule frames_of_try_send)

lemma quiet_enqueue_ordered: "quiet r (enqueue_close_ordered events cancel code reason r)"
  using frames_of_try_send [of code reason "rm_channels r ! events"]
  by (cases "try_send (CloseEvent code reason) (rm_channels r ! events)")
    (auto simp: enqueue_close_ordered_def intro: quiet_enqueue quiet_set_channel split: try_send_result.split)

lemma quiet_evict: "quiet r (snd (evict_connection conn_id code reason order r))"
proof (cases "conn_of conn_id r")
  case None
  then show ?thesis by (simp add: evict_connection_def quiet_refl)
next
  case (Some c)
  have "quiet r (r\<lparr>rm_awareness := a, rm_connections := hm_remove conn_id (rm_connections r)\<rparr>)" for a
    by (auto simp: quiet_def hm_remove_def)
  moreover have "quiet s (close_events order c code reason s)" for s :: "'a room_scheme"
    by (simp add: close_events_def quiet_enqueue quiet_enqueue_ordered split: close_order.split)
  ultimately show ?thesis
    using Some by (auto simp: evict_connection_def intro: quiet_trans split: prod.split)
qed

lemma quiet_other:
  "quiet r (r\<lparr>rm_pending_awareness := p\<rparr>)" "quiet r (r\<lparr>rm_session_revision := s\<rparr>)"
  "quiet r (r\<lparr>rm_flushing_awareness := f\<rparr>)" "quiet r (r\<lparr>rm_awareness := a\<rparr>)"
  "quiet r (r\<lparr>rm_client_id_owner := o'\<rparr>)" "quiet r (r\<lparr>rm_user_reject_budgets := b\<rparr>)"
  by (simp_all add: quiet_def)

interpretation outbound_evict: eviction_invariant outbound_ok
  by unfold_locales (rule quiet_outbound, rule quiet_evict quiet_other, assumption)+

lemma held_charge [simp]: "held m (charge h n r) = held m r"
  by (simp add: held_def charge_def Let_def set_budget_def)

lemma charge_fields [simp]:
  "rm_connections (charge h n r) = rm_connections r" "rm_channels (charge h n r) = rm_channels r"
  "rm_config (charge h n r) = rm_config r" "length (rm_budgets (charge h n r)) = length (rm_budgets r)"
  by (simp_all add: charge_def Let_def set_budget_def)

lemma set_channel_config [simp]: "rm_config (set_channel h ch r) = rm_config r"
  by (simp add: set_channel_def)

lemma permits_known_set_channel:
  assumes "permits_known r" and "\<And>f. f \<in> set (frames_of ch) \<Longrightarrow> known_frame (length (rm_budgets r)) f"
  shows "permits_known (set_channel h ch r)"
  using assms set_update_subset_insert [of "rm_channels r" h ch]
  by (auto simp: permits_known_def set_channel_def)

lemma outbound_sent:
  assumes ok: "outbound_ok r" and e: "e < length (rm_channels r)" and h: "h < length (rm_budgets r)"
    and p: "bd_permits (rm_budgets r ! h) \<noteq> 0"
    and n: "bd_queued_bytes (rm_budgets r ! h) + n \<le> bd_max_bytes (rm_budgets r ! h)"
    and f: "of_permit f = Some (h, n)" "n = length (of_bytes f) + OUTBOUND_FRAME_OVERHEAD"
    and ch: "frames_of ch = frames_of (rm_channels r ! e) @ [f]"
  shows "outbound_ok (set_channel e ch (charge h n r))"
proof -
  let ?r = "set_channel e ch (charge h n r)"
  have held: "held m ?r = held m r + m f" for m
    using held_update [of e "charge h n r" m ch] e by (simp add: ch)
  have budgets: "rm_budgets (charge h n r) ! g = (if g = h then (rm_budgets r ! h)\<lparr>bd_permits := bd_permits (rm_budgets r ! h) - 1,
      bd_queued_bytes := bd_queued_bytes (rm_budgets r ! h) + n\<rparr> else rm_budgets r ! g)" for g
    using h by (simp add: charge_def Let_def set_budget_def)
  have "budget_ok ?r g" if "g < length (rm_budgets r)" for g
  proof -
    from ok that have "budget_ok r g"
      by (simp add: outbound_ok_def)
    then show ?thesis
      using p n by (auto simp: budget_ok_def Let_def budgets held f(1))
  qed
  moreover have "permits_known ?r"
  proof (rule permits_known_set_channel)
    show known: "permits_known (charge h n r)"
      using ok by (simp add: outbound_ok_def permits_known_def)
    show "known_frame (length (rm_budgets (charge h n r))) g" if "g \<in> set (frames_of ch)" for g
      using that known e h by (auto simp: ch f known_frame_def permits_known_def)
  qed
  moreover have "length (rm_channels ?r) = length (rm_channels r)"
    by (simp add: set_channel_def)
  ultimately show ?thesis
    using ok by (auto simp: outbound_ok_def handle_ok_def)
qed

lemma try_send_Sent:
  "try_send e ch = (Sent, ch') \<longleftrightarrow>
     \<not> ch_closed ch \<and> length (ch_queue ch) < ch_capacity ch \<and> ch' = ch\<lparr>ch_queue := ch_queue ch @ [e]\<rparr>"
  by (auto simp: try_send_def)

lemma outbound_deliver:
  assumes ok: "outbound_ok r"
  shows "outbound_ok (deliver_outbound conn_id bytes k r)"
proof (cases "conn_of conn_id r")
  case None
  with ok show ?thesis by (simp add: deliver_outbound_def)
next
  case (Some c)
  let ?h = "cn_outbound_budget c" and ?n = "length bytes + OUTBOUND_FRAME_OVERHEAD"
  let ?bd = "rm_budgets r ! ?h"
  from Some have "(conn_id, c) \<in> set (rm_connections r)"
    by (simp add: conn_of_def map_of_SomeD)
  with ok have handles: "cn_events c < length (rm_channels r)" "?h < length (rm_budgets r)"
    by (auto simp: outbound_ok_def handle_ok_def)
  have "outbound_ok (send_accounted conn_id c bytes k ?n r)"
    if room: "bd_queued_bytes ?bd + ?n \<le> bd_max_bytes ?bd" "bd_permits ?bd \<noteq> 0"
  proof -
    have "outbound_ok (set_channel (cn_events c) ch (charge ?h ?n r))"
      if "try_send (Outbound \<lparr>of_bytes = bytes, of_kind = k, of_permit = Some (?h, ?n)\<rparr>)
        (rm_channels r ! cn_events c) = (Sent, ch)" for ch
      by (rule outbound_sent [OF ok handles room(2,1)]) (use that in \<open>auto simp: try_send_Sent\<close>)
    with ok outbound_evict.backpressure [OF ok] show ?thesis
      by (auto simp: send_accounted_eq [OF handles(2) room(2)] split: prod.split try_send_result.split)
  qed
  with ok outbound_evict.backpressure [OF ok] Some show ?thesis
    by (simp add: deliver_outbound_def Let_def)
qed

interpretation outbound: delivery_invariant outbound_ok
  by unfold_locales (blast intro: outbound_deliver quiet_outbound quiet_other)+

subsection \<open>Who writes to which channel\<close>

text \<open>Two channels that differ only in their cancel watch.\<close>

definition same_events :: "channel \<Rightarrow> channel \<Rightarrow> bool" where
  "same_events ch ch' \<longleftrightarrow> ch_capacity ch' = ch_capacity ch \<and> ch_queue ch' = ch_queue ch \<and>
     ch_sending ch' = ch_sending ch \<and> ch_closed ch' = ch_closed ch"

lemma same_events_refl [simp]: "same_events ch ch"
  by (simp add: same_events_def)

definition own_frame :: "connection_state \<Rightarrow> outbound_frame \<Rightarrow> bool" where
  "own_frame c f \<longleftrightarrow> (case of_permit f of Some (h, _) \<Rightarrow> h = cn_outbound_budget c | None \<Rightarrow> True)"

text \<open>While a connection is in the room, its channel belongs to it alone, no Close is queued there,
  and its accounted frames hold permits of its own budget.\<close>

definition wired_conn :: "'z room_scheme \<Rightarrow> connection_state \<Rightarrow> bool" where
  "wired_conn r c \<longleftrightarrow> (let ch = rm_channels r ! cn_events c in
     list_all (\<lambda>e. event_frames e \<noteq> []) (ch_queue ch) \<and> list_all (own_frame c) (frames_of ch)) \<and>
     (cn_cancel c = None \<or> cn_cancel c = Some (cn_events c))"

definition wired :: "'z room_scheme \<Rightarrow> bool" where
  "wired r \<longleftrightarrow> hm_ok (rm_connections r) \<and>
     (\<forall>ch\<in>set (rm_channels r). ch_capacity ch = max (cfg_max_outbound_frames_per_connection (rm_config r)) 8) \<and>
     (\<forall>(i, c)\<in>set (rm_connections r). wired_conn r c) \<and>
     (\<forall>(i, c)\<in>set (rm_connections r). \<forall>(j, d)\<in>set (rm_connections r). i \<noteq> j \<longrightarrow> cn_events c \<noteq> cn_events d)"

lemma wiredI:
  assumes "hm_ok (rm_connections r)"
    and "\<And>ch. ch \<in> set (rm_channels r) \<Longrightarrow> ch_capacity ch = max (cfg_max_outbound_frames_per_connection (rm_config r)) 8"
    and "\<And>i c. (i, c) \<in> set (rm_connections r) \<Longrightarrow> wired_conn r c"
    and "\<And>i c j d. (i, c) \<in> set (rm_connections r) \<Longrightarrow> (j, d) \<in> set (rm_connections r) \<Longrightarrow> i \<noteq> j \<Longrightarrow>
      cn_events c \<noteq> cn_events d"
  shows "wired r"
  using assms by (auto simp: wired_def)

lemma wiredD:
  assumes "wired r"
  shows "hm_ok (rm_connections r)"
    and "ch \<in> set (rm_channels r) \<Longrightarrow> ch_capacity ch = max (cfg_max_outbound_frames_per_connection (rm_config r)) 8"
    and "(i, c) \<in> set (rm_connections r) \<Longrightarrow> wired_conn r c"
    and "(i, c) \<in> set (rm_connections r) \<Longrightarrow> (j, d) \<in> set (rm_connections r) \<Longrightarrow> i \<noteq> j \<Longrightarrow>
      cn_events c \<noteq> cn_events d"
  using assms by (auto simp: wired_def)

definition room_ok :: "'z room_scheme \<Rightarrow> bool" where
  "room_ok r \<longleftrightarrow> outbound_ok r \<and> wired r"

text \<open>A change that touches the events of one channel only, and takes connections away at most.\<close>

definition only_channel :: "nat \<Rightarrow> 'z room_scheme \<Rightarrow> 'z room_scheme \<Rightarrow> bool" where
  "only_channel g r r' \<longleftrightarrow> rm_config r' = rm_config r \<and> length (rm_channels r') = length (rm_channels r) \<and>
     (\<forall>h. h \<noteq> g \<longrightarrow> h < length (rm_channels r) \<longrightarrow> same_events (rm_channels r ! h) (rm_channels r' ! h)) \<and>
     (\<forall>h<length (rm_channels r). ch_capacity (rm_channels r' ! h) = ch_capacity (rm_channels r ! h))"

lemma nth_set_channel:
  "j < length (rm_channels r) \<Longrightarrow>
     rm_channels (set_channel g ch r) ! j = (if j = g then ch else rm_channels r ! j)"
  by (auto simp: set_channel_def nth_list_update)

lemma length_set_channel [simp]: "length (rm_channels (set_channel g ch r)) = length (rm_channels r)"
  by (simp add: set_channel_def)

lemma only_channel_refl: "only_channel g r r"
  by (simp add: only_channel_def)

lemma only_channel_trans: "only_channel g r s \<Longrightarrow> only_channel g s t \<Longrightarrow> only_channel g r t"
  by (simp add: only_channel_def same_events_def)

lemma only_channel_set:
  "ch_capacity ch = ch_capacity (rm_channels r ! g) \<Longrightarrow> only_channel g r (set_channel g ch r)"
  by (simp add: only_channel_def nth_set_channel)

lemma only_channel_signal: "only_channel g r (signal_cancel cancel code reason r)"
  by (simp add: only_channel_def signal_cancel_def nth_set_channel same_events_def split: option.split)

lemma try_send_capacity: "ch_capacity (snd (try_send e ch)) = ch_capacity ch"
  by (simp add: try_send_def)

lemma only_channel_enqueue: "only_channel g r (enqueue_close g cancel code reason r)"
  unfolding enqueue_close_def Let_def
  by (rule only_channel_trans [OF only_channel_signal only_channel_set]) (rule try_send_capacity)

lemma only_channel_close: "only_channel (cn_events c) r (close_events order c code reason r)"
  using try_send_capacity [of "CloseEvent code reason" "rm_channels r ! cn_events c"]
  by (cases "try_send (CloseEvent code reason) (rm_channels r ! cn_events c)")
    (auto simp: close_events_def enqueue_close_ordered_def intro: only_channel_enqueue only_channel_set
      split: close_order.split try_send_result.split)

lemma wired_conn_same:
  assumes "wired_conn r c" and "same_events (rm_channels r ! cn_events c) (rm_channels r' ! cn_events c)"
  shows "wired_conn r' c"
  using assms by (simp add: wired_conn_def Let_def same_events_def frames_of_def)

lemma wired_shrink:
  assumes w: "wired r" and o: "only_channel g r r'"
    and conns: "set (rm_connections r') \<subseteq> set (rm_connections r)" "hm_ok (rm_connections r')"
    and h: "\<And>i c. (i, c) \<in> set (rm_connections r') \<Longrightarrow>
      cn_events c < length (rm_channels r) \<and> (cn_events c \<noteq> g \<or> wired_conn r' c)"
  shows "wired r'"
proof -
  have "wired_conn r' c" if "(i, c) \<in> set (rm_connections r')" for i c
  proof (cases "cn_events c = g")
    case False
    with o h [OF that] have "same_events (rm_channels r ! cn_events c) (rm_channels r' ! cn_events c)"
      by (simp add: only_channel_def)
    moreover from w conns(1) that have "wired_conn r c"
      unfolding wired_def by blast
    ultimately show ?thesis
      by (rule wired_conn_same [rotated])
  qed (use h [OF that] in simp)
  moreover have "ch_capacity ch = max (cfg_max_outbound_frames_per_connection (rm_config r')) 8"
    if "ch \<in> set (rm_channels r')" for ch
  proof -
    from that o obtain h where "h < length (rm_channels r)" and "ch = rm_channels r' ! h"
      by (auto simp: in_set_conv_nth only_channel_def)
    with o w show ?thesis
      by (simp add: only_channel_def wired_def)
  qed
  ultimately show ?thesis
    using w conns unfolding wired_def by blast
qed

lemma room_okD:
  assumes "room_ok r" and "(i, c) \<in> set (rm_connections r)"
  shows "cn_events c < length (rm_channels r)" and "cn_outbound_budget c < length (rm_budgets r)"
    and "wired_conn r c" and "conn_of i r = Some c"
  using assms by (auto simp: room_ok_def outbound_ok_def handle_ok_def wired_def conn_of_def hm_ok_def)

lemma room_ok_evict:
  assumes ok: "room_ok r"
  shows "room_ok (snd (evict_connection conn_id code reason order r))"
proof (cases "conn_of conn_id r")
  case None
  with ok show ?thesis by (simp add: evict_connection_def)
next
  case (Some c)
  let ?s = "\<lambda>a. r\<lparr>rm_awareness := a, rm_connections := hm_remove conn_id (rm_connections r)\<rparr>"
  from Some have c: "(conn_id, c) \<in> set (rm_connections r)"
    by (simp add: conn_of_def map_of_SomeD)
  have "wired (close_events order c code reason (?s a))" for a
  proof (rule wired_shrink [where g = "cn_events c"])
    show "wired r"
      using ok by (simp add: room_ok_def)
    have "only_channel (cn_events c) r (?s a)"
      by (simp add: only_channel_def)
    then show "only_channel (cn_events c) r (close_events order c code reason (?s a))"
      by (rule only_channel_trans) (rule only_channel_close)
    show "set (rm_connections (close_events order c code reason (?s a))) \<subseteq> set (rm_connections r)"
      and "hm_ok (rm_connections (close_events order c code reason (?s a)))"
      using ok by (auto simp: hm_remove_def room_ok_def wired_def intro: hm.inv_remove [unfolded hm_remove_def])
    fix i d
    assume "(i, d) \<in> set (rm_connections (close_events order c code reason (?s a)))"
    then have "(i, d) \<in> set (rm_connections r)" and "i \<noteq> conn_id"
      by (auto simp: hm_remove_def)
    with ok c show "cn_events d < length (rm_channels r) \<and> (cn_events d \<noteq> cn_events c \<or>
        wired_conn (close_events order c code reason (?s a)) d)"
      using room_okD(1) [OF ok] by (fastforce simp: room_ok_def wired_def)
  qed
  moreover have "outbound_ok (snd (evict_connection conn_id code reason order r))"
    using ok by (simp add: room_ok_def outbound_evict.evict)
  ultimately show ?thesis
    using Some by (simp add: room_ok_def evict_connection_def split: prod.splits)
qed

lemma wired_other:
  "wired (r\<lparr>rm_pending_awareness := p\<rparr>) = wired r" "wired (r\<lparr>rm_session_revision := s\<rparr>) = wired r"
  "wired (r\<lparr>rm_flushing_awareness := f\<rparr>) = wired r" "wired (r\<lparr>rm_awareness := a\<rparr>) = wired r"
  "wired (r\<lparr>rm_client_id_owner := o'\<rparr>) = wired r" "wired (r\<lparr>rm_user_reject_budgets := b\<rparr>) = wired r"
  by (simp_all add: wired_def wired_conn_def)

interpretation room_evict: eviction_invariant room_ok
  by unfold_locales
    (simp_all add: room_ok_evict, auto simp: room_ok_def wired_other intro: quiet_outbound quiet_other)

lemma room_ok_owner:
  assumes "room_ok r" and "(i, c) \<in> set (rm_connections r)" and "(j, d) \<in> set (rm_connections r)"
    and "cn_events c = cn_events d"
  shows "i = j \<and> c = d"
proof -
  from assms have "i = j"
    by (fastforce simp: room_ok_def wired_def)
  with assms(2,3) room_okD(4) [OF assms(1)] show ?thesis
    by (metis option.inject)
qed

lemma room_ok_sent:
  assumes ok: "room_ok r" and c: "(i, c) \<in> set (rm_connections r)"
    and ch: "ch = (rm_channels r ! cn_events c)\<lparr>ch_queue := ch_queue (rm_channels r ! cn_events c) @ [Outbound f]\<rparr>"
    and f: "of_permit f = Some (cn_outbound_budget c, n)"
    and out: "outbound_ok (set_channel (cn_events c) ch (charge (cn_outbound_budget c) n r))"
  shows "room_ok (set_channel (cn_events c) ch (charge (cn_outbound_budget c) n r))"
proof -
  let ?r = "set_channel (cn_events c) ch (charge (cn_outbound_budget c) n r)"
  note c' = room_okD [OF ok c]
  have "wired ?r"
  proof (rule wired_shrink)
    show "wired r"
      using ok by (simp add: room_ok_def)
    have "only_channel (cn_events c) r (charge (cn_outbound_budget c) n r)"
      by (simp add: only_channel_def)
    then show "only_channel (cn_events c) r ?r"
      by (rule only_channel_trans) (simp add: only_channel_set ch)
    show "set (rm_connections ?r) \<subseteq> set (rm_connections r)" and "hm_ok (rm_connections ?r)"
      using ok by (simp_all add: room_ok_def wired_def)
    fix j d
    assume "(j, d) \<in> set (rm_connections ?r)"
    then have d: "(j, d) \<in> set (rm_connections r)"
      by simp
    have "wired_conn ?r c"
      using c'(1,3) by (simp add: wired_conn_def Let_def nth_set_channel ch own_frame_def f)
    with room_ok_owner [OF ok c d] have "cn_events d \<noteq> cn_events c \<or> wired_conn ?r d"
      by metis
    with room_okD(1) [OF ok d]
    show "cn_events d < length (rm_channels r) \<and> (cn_events d \<noteq> cn_events c \<or> wired_conn ?r d)" ..
  qed
  with out show ?thesis
    by (simp add: room_ok_def)
qed

text \<open>What a delivery does: nothing, an eviction, or one accounted frame queued.\<close>

inductive delivered :: "uuid \<Rightarrow> u8 list \<Rightarrow> 'z room_scheme \<Rightarrow> 'z room_scheme \<Rightarrow> bool"
  for conn_id bytes r where
  skipped: "(\<And>c. conn_of conn_id r = Some c \<Longrightarrow> ch_closed (rm_channels r ! cn_events c)) \<Longrightarrow> delivered conn_id bytes r r"
| evicted: "conn_of conn_id r = Some c \<Longrightarrow> delivered conn_id bytes r (evict_for_backpressure conn_id r)"
| queued: "conn_of conn_id r = Some c \<Longrightarrow> \<not> ch_closed (rm_channels r ! cn_events c) \<Longrightarrow> of_bytes f = bytes \<Longrightarrow>
    of_permit f = Some (cn_outbound_budget c, n) \<Longrightarrow>
    ch = (rm_channels r ! cn_events c)\<lparr>ch_queue := ch_queue (rm_channels r ! cn_events c) @ [Outbound f]\<rparr> \<Longrightarrow>
    delivered conn_id bytes r (set_channel (cn_events c) ch (charge (cn_outbound_budget c) n r))"

lemma deliver_outbound_delivered:
  assumes ok: "outbound_ok r"
  shows "delivered conn_id bytes r (deliver_outbound conn_id bytes k r)"
proof (cases "conn_of conn_id r")
  case None
  then show ?thesis by (auto simp: deliver_outbound_def intro: skipped)
next
  case (Some c)
  then have "(conn_id, c) \<in> set (rm_connections r)"
    by (simp add: conn_of_def map_of_SomeD)
  with ok have h: "cn_outbound_budget c < length (rm_budgets r)"
    by (auto simp: outbound_ok_def handle_ok_def)
  have "delivered conn_id bytes r (send_accounted conn_id c bytes k n r)"
    if p: "bd_permits (rm_budgets r ! cn_outbound_budget c) \<noteq> 0" for n
    unfolding send_accounted_eq [OF h p]
    using queued [OF Some, of "\<lparr>of_bytes = bytes, of_kind = k, of_permit = Some (cn_outbound_budget c, n)\<rparr>"]
    by (auto simp: try_send_def Some intro: skipped evicted)
  with Some show ?thesis
    by (auto simp: deliver_outbound_def Let_def intro: delivered.intros)
qed

lemma room_ok_deliver:
  assumes ok: "room_ok r"
  shows "room_ok (deliver_outbound conn_id bytes k r)"
proof -
  from ok have out: "outbound_ok r"
    by (simp add: room_ok_def)
  from deliver_outbound_delivered [OF out, of conn_id bytes k] outbound.deliver [OF out, of conn_id bytes k]
  show ?thesis
  proof cases
    case (queued c f n ch)
    from queued(2) have "(conn_id, c) \<in> set (rm_connections r)"
      by (simp add: conn_of_def map_of_SomeD)
    from room_ok_sent [OF ok this queued(6,5)] outbound.deliver [OF out, of conn_id bytes k] show ?thesis
      by (simp add: queued(1))
  qed (use ok room_evict.backpressure in auto)
qed

interpretation live_room: delivery_invariant room_ok
  by unfold_locales
    (simp_all add: room_ok_deliver, auto simp: room_ok_def wired_other intro: quiet_outbound quiet_other)

section \<open>The transport's side\<close>

text \<open>A socket task makes its channel, may queue unaccounted frames before it joins, receives one
  event at a time, drops a frame's permit once the frame is sent, and drops its receiver with all
  that is queued when it ends.\<close>

definition open_socket :: "'z room_scheme \<Rightarrow> 'z room_scheme" where
  "open_socket r = r\<lparr>rm_channels := rm_channels r @
     [\<lparr>ch_capacity = max (cfg_max_outbound_frames_per_connection (rm_config r)) 8, ch_queue = [],
       ch_sending = None, ch_closed = False, ch_cancel = None\<rparr>]\<rparr>"

definition pre_auth_send :: "nat \<Rightarrow> u8 list \<Rightarrow> 'z room_scheme \<Rightarrow> 'z room_scheme" where
  "pre_auth_send h bytes r =
     set_channel h (snd (try_send (Outbound (unaccounted bytes)) (rm_channels r ! h))) r"

definition transport_recv :: "nat \<Rightarrow> 'z room_scheme \<Rightarrow> 'z room_scheme" where
  "transport_recv h r =
     (let ch = rm_channels r ! h in
      case (ch_sending ch, ch_queue ch) of
        (None, Outbound f # q) \<Rightarrow> set_channel h (ch\<lparr>ch_queue := q, ch_sending := Some f\<rparr>) r
      | _ \<Rightarrow> r)"

definition transport_sent :: "nat \<Rightarrow> 'z room_scheme \<Rightarrow> 'z room_scheme" where
  "transport_sent h r =
     (let ch = rm_channels r ! h in
      case ch_sending ch of
        Some f \<Rightarrow> drop_permit (of_permit f) (set_channel h (ch\<lparr>ch_sending := None\<rparr>) r)
      | None \<Rightarrow> r)"

definition transport_exit :: "nat \<Rightarrow> 'z room_scheme \<Rightarrow> 'z room_scheme" where
  "transport_exit h r =
     (let ch = rm_channels r ! h in
      fold (\<lambda>f. drop_permit (of_permit f)) (frames_of ch)
        (set_channel h (ch\<lparr>ch_queue := [], ch_sending := None, ch_closed := True\<rparr>) r))"

text \<open>Permits in hand: frames that left a channel and are not dropped yet.\<close>

definition budget_with :: "outbound_frame list \<Rightarrow> 'z room_scheme \<Rightarrow> nat \<Rightarrow> bool" where
  "budget_with fs r h \<longleftrightarrow> (let bd = rm_budgets r ! h in
     bd_queued_bytes bd = held (permit_bytes h) r + (\<Sum>f\<leftarrow>fs. permit_bytes h f) \<and>
     bd_permits bd + held (permit_count h) r + (\<Sum>f\<leftarrow>fs. permit_count h f) =
       cfg_max_outbound_frames_per_connection (rm_config r) \<and>
     bd_max_bytes bd = cfg_max_outbound_bytes_per_connection (rm_config r) \<and>
     bd_queued_bytes bd \<le> bd_max_bytes bd)"

definition outbound_with :: "outbound_frame list \<Rightarrow> 'z room_scheme \<Rightarrow> bool" where
  "outbound_with fs r \<longleftrightarrow> (\<forall>h<length (rm_budgets r). budget_with fs r h) \<and> permits_known r \<and>
     (\<forall>f\<in>set fs. known_frame (length (rm_budgets r)) f) \<and> (\<forall>(i, c)\<in>set (rm_connections r). handle_ok r c)"

lemma outbound_with_Nil: "outbound_with [] r = outbound_ok r"
  by (simp add: outbound_with_def outbound_ok_def budget_with_def budget_ok_def)

lemma outbound_take:
  assumes ok: "outbound_ok r" and h: "h < length (rm_channels r)"
    and fs: "mset (frames_of (rm_channels r ! h)) = mset (fs @ frames_of ch)"
  shows "outbound_with fs (set_channel h ch r)"
proof -
  have sum: "(\<Sum>f\<leftarrow>frames_of (rm_channels r ! h). m f) = (\<Sum>f\<leftarrow>fs. m f) + (\<Sum>f\<leftarrow>frames_of ch. m f)"
    for m :: "outbound_frame \<Rightarrow> nat"
  proof -
    from fs have "mset (map m (frames_of (rm_channels r ! h))) = mset (map m (fs @ frames_of ch))"
      by (metis mset_map)
    then have "sum_list (map m (frames_of (rm_channels r ! h))) = sum_list (map m (fs @ frames_of ch))"
      by (metis sum_mset_sum_list)
    then show ?thesis
      by simp
  qed
  have held: "held m r = held m (set_channel h ch r) + (\<Sum>f\<leftarrow>fs. m f)" for m
    using held_update [OF h, of m ch] sum [of m] by simp
  have known: "known_frame (length (rm_budgets r)) f" if "f \<in> set fs \<union> set (frames_of ch)" for f
  proof -
    from fs have "set (frames_of (rm_channels r ! h)) = set fs \<union> set (frames_of ch)"
      by (metis set_append set_mset_mset)
    with that have "f \<in> set (frames_of (rm_channels r ! h))"
      by blast
    with ok nth_mem [OF h] show ?thesis
      unfolding outbound_ok_def permits_known_def by blast
  qed
  show ?thesis
    using ok known permits_known_set_channel [of r ch h]
    by (auto simp: outbound_with_def outbound_ok_def budget_with_def budget_ok_def handle_ok_def Let_def held)
qed

lemma outbound_drop:
  assumes ok: "outbound_with (f # fs) r"
  shows "outbound_with fs (drop_permit (of_permit f) r)"
proof (cases "of_permit f")
  case None
  with ok show ?thesis
    by (simp add: outbound_with_def budget_with_def)
next
  case (Some p)
  then obtain h n where p: "of_permit f = Some (h, n)"
    by (cases p) simp
  with ok have h: "h < length (rm_budgets r)"
    by (simp add: outbound_with_def known_frame_def)
  let ?r = "drop_permit (Some (h, n)) r"
  have budgets: "rm_budgets ?r = (rm_budgets r)[h := (rm_budgets r ! h)\<lparr>bd_permits := bd_permits (rm_budgets r ! h) + 1,
      bd_queued_bytes := bd_queued_bytes (rm_budgets r ! h) - n\<rparr>]"
    by (simp add: Let_def set_budget_def)
  have fields: "held m ?r = held m r" "rm_config ?r = rm_config r" "permits_known ?r = permits_known r" for m
    by (simp_all add: held_def permits_known_def Let_def set_budget_def)
  have "budget_with fs ?r g" if "g < length (rm_budgets r)" for g
    using ok that h
    by (cases "g = h") (auto simp: outbound_with_def budget_with_def Let_def budgets fields p
          simp del: drop_permit.simps)
  with ok show ?thesis
    by (simp add: outbound_with_def p fields budgets handle_ok_def del: drop_permit.simps)
qed

lemma outbound_drop_all:
  "outbound_with fs r \<Longrightarrow> outbound_ok (fold (\<lambda>f. drop_permit (of_permit f)) fs r)"
  by (induction fs arbitrary: r) (simp_all add: outbound_with_Nil outbound_drop)

lemma room_ok_frames:
  fixes r r' :: "'z room_scheme"
  assumes ok: "room_ok r" and out: "outbound_ok r'"
    and eq: "rm_connections r' = rm_connections r" "rm_channels r' = (rm_channels r)[h := ch]" "rm_config r' = rm_config r"
    and cap: "ch_capacity ch = ch_capacity (rm_channels r ! h)"
    and frames: "\<forall>f\<in>set (frames_of ch). f \<in> set (frames_of (rm_channels r ! h)) \<or> of_permit f = None"
    and queue: "list_all (\<lambda>e. event_frames e \<noteq> []) (ch_queue (rm_channels r ! h)) \<Longrightarrow>
      list_all (\<lambda>e. event_frames e \<noteq> []) (ch_queue ch)"
  shows "room_ok r'"
proof -
  have nth: "rm_channels r' ! j = (if j = h then ch else rm_channels r ! j)" if "j < length (rm_channels r)" for j
    using that by (simp add: eq nth_list_update)
  have "wired r'"
  proof (rule wired_shrink [where g = h])
    show "only_channel h r r'"
      using eq(3) cap nth eq(2) [THEN arg_cong, of length] by (simp add: only_channel_def)
    fix i c
    assume "(i, c) \<in> set (rm_connections r')"
    then have "(i, c) \<in> set (rm_connections r)"
      by (simp add: eq)
    note c = room_okD [OF ok this]
    show "cn_events c < length (rm_channels r) \<and> (cn_events c \<noteq> h \<or> wired_conn r' c)"
    proof (cases "cn_events c = h")
      case True
      have "own_frame c f" if "f \<in> set (frames_of ch)" for f
        using that frames c(3) True
        by (cases "of_permit f = None") (auto simp: wired_conn_def Let_def list_all_iff own_frame_def)
      with c queue True have "wired_conn r' c"
        by (simp add: wired_conn_def Let_def nth list_all_iff)
      with c show ?thesis by simp
    qed (use c in simp)
  qed (use ok eq in \<open>auto simp: room_ok_def wired_def\<close>)
  with out show ?thesis
    by (simp add: room_ok_def)
qed

lemma frames_of_recv:
  "ch_sending ch = None \<Longrightarrow> ch_queue ch = Outbound f # q \<Longrightarrow>
     frames_of (ch\<lparr>ch_queue := q, ch_sending := Some f\<rparr>) = frames_of ch"
  by (simp add: frames_of_def)

lemma room_ok_recv: "room_ok r \<Longrightarrow> h < length (rm_channels r) \<Longrightarrow> room_ok (transport_recv h r)"
proof -
  assume ok: "room_ok r" and h: "h < length (rm_channels r)"
  let ?ch = "rm_channels r ! h"
  show "room_ok (transport_recv h r)"
  proof (cases "\<exists>f q. ch_sending ?ch = None \<and> ch_queue ?ch = Outbound f # q")
    case True
    then obtain f q where q: "ch_sending ?ch = None" "ch_queue ?ch = Outbound f # q"
      by blast
    let ?ch' = "?ch\<lparr>ch_queue := q, ch_sending := Some f\<rparr>"
    have "room_ok (set_channel h ?ch' r)"
    proof (rule room_ok_frames [OF ok, where h = h and ch = ?ch'])
      show "outbound_ok (set_channel h ?ch' r)"
        using ok quiet_set_channel [of ?ch' r h] frames_of_recv [OF q]
        by (auto simp: room_ok_def intro: quiet_outbound)
    qed (use q frames_of_recv [OF q] in \<open>simp_all add: set_channel_def\<close>)
    with q show ?thesis
      by (simp add: transport_recv_def Let_def)
  next
    case False
    then have "transport_recv h r = r"
      by (auto simp: transport_recv_def Let_def split: option.split list.split room_client_event.split)
    with ok show ?thesis by simp
  qed
qed

lemma drop_permit_config [simp]: "rm_config (drop_permit p r) = rm_config r"
  by (cases "(p, r)" rule: drop_permit.cases) (simp_all add: Let_def set_budget_def)

lemma fold_drop_fields [simp]:
  "rm_connections (fold (\<lambda>f. drop_permit (of_permit f)) fs r) = rm_connections r"
  "rm_channels (fold (\<lambda>f. drop_permit (of_permit f)) fs r) = rm_channels r"
  "rm_config (fold (\<lambda>f. drop_permit (of_permit f)) fs r) = rm_config r"
  by (induction fs arbitrary: r) simp_all

text \<open>Frames leave a channel and their permits are dropped.\<close>

lemma room_ok_release:
  assumes ok: "room_ok r" and h: "h < length (rm_channels r)"
    and fs: "mset (frames_of (rm_channels r ! h)) = mset (fs @ frames_of ch)"
    and cap: "ch_capacity ch = ch_capacity (rm_channels r ! h)"
    and queue: "list_all (\<lambda>e. event_frames e \<noteq> []) (ch_queue (rm_channels r ! h)) \<Longrightarrow>
      list_all (\<lambda>e. event_frames e \<noteq> []) (ch_queue ch)"
  shows "room_ok (fold (\<lambda>f. drop_permit (of_permit f)) fs (set_channel h ch r))"
proof (rule room_ok_frames [OF ok _ _ _ _ cap])
  show "outbound_ok (fold (\<lambda>f. drop_permit (of_permit f)) fs (set_channel h ch r))"
    using ok outbound_take [OF _ h fs] by (simp add: room_ok_def outbound_drop_all)
  from fs have "set (frames_of (rm_channels r ! h)) = set fs \<union> set (frames_of ch)"
    by (metis set_append set_mset_mset)
  then show "\<forall>f\<in>set (frames_of ch). f \<in> set (frames_of (rm_channels r ! h)) \<or> of_permit f = None"
    by blast
qed (use queue in \<open>simp_all add: set_channel_def\<close>)

lemma room_ok_sent_frame: "room_ok r \<Longrightarrow> h < length (rm_channels r) \<Longrightarrow> room_ok (transport_sent h r)"
proof (cases "ch_sending (rm_channels r ! h)")
  case (Some f)
  assume "room_ok r" and "h < length (rm_channels r)"
  from room_ok_release [OF this, of "[f]" "(rm_channels r ! h)\<lparr>ch_sending := None\<rparr>"] Some show ?thesis
    by (simp add: transport_sent_def Let_def frames_of_def)
qed (simp add: transport_sent_def)

lemma room_ok_exit: "room_ok r \<Longrightarrow> h < length (rm_channels r) \<Longrightarrow> room_ok (transport_exit h r)"
  using room_ok_release [of r h "frames_of (rm_channels r ! h)"
      "(rm_channels r ! h)\<lparr>ch_queue := [], ch_sending := None, ch_closed := True\<rparr>"]
  by (simp add: transport_exit_def Let_def frames_of_def)

lemma room_ok_pre_auth: "room_ok r \<Longrightarrow> h < length (rm_channels r) \<Longrightarrow> room_ok (pre_auth_send h bytes r)"
proof -
  assume ok: "room_ok r" and h: "h < length (rm_channels r)"
  let ?ch = "rm_channels r ! h" and ?e = "Outbound (unaccounted bytes)"
  let ?ch' = "?ch\<lparr>ch_queue := ch_queue ?ch @ [?e]\<rparr>"
  have "held m (set_channel h ?ch' r) = held m r" if "m (unaccounted bytes) = 0" for m
    using held_update [OF h, of m ?ch'] that by simp
  moreover have "permits_known (set_channel h ?ch' r)"
    using ok h by (intro permits_known_set_channel)
      (auto simp: room_ok_def outbound_ok_def permits_known_def known_frame_def unaccounted_def)
  ultimately have "outbound_ok (set_channel h ?ch' r)"
    using ok by (auto simp: room_ok_def outbound_ok_def budget_ok_def handle_ok_def unaccounted_def)
  then have "room_ok (set_channel h ?ch' r)"
    by (rule room_ok_frames [OF ok, where h = h and ch = ?ch']) (auto simp: set_channel_def unaccounted_def)
  moreover have "set_channel h ?ch r = r"
    by (simp add: set_channel_def)
  ultimately show ?thesis
    using ok by (simp add: pre_auth_send_def try_send_def)
qed

lemma room_ok_open_socket: "room_ok r \<Longrightarrow> room_ok (open_socket r)"
proof -
  assume ok: "room_ok r"
  have "held m (open_socket r) = held m r" for m
    by (simp add: held_def open_socket_def frames_of_def)
  moreover have "rm_channels (open_socket r) ! h = rm_channels r ! h" if "h < length (rm_channels r)" for h
    using that by (simp add: open_socket_def nth_append)
  moreover have "permits_known (open_socket r) = permits_known r"
    by (simp add: permits_known_def open_socket_def frames_of_def)
  moreover have "rm_connections (open_socket r) = rm_connections r" "rm_budgets (open_socket r) = rm_budgets r"
    "rm_config (open_socket r) = rm_config r" "length (rm_channels (open_socket r)) = Suc (length (rm_channels r))"
    by (simp_all add: open_socket_def)
  moreover have "wired (open_socket r)"
  proof (rule wiredI)
    have w: "wired r"
      using ok by (simp add: room_ok_def)
    show "ch_capacity ch = max (cfg_max_outbound_frames_per_connection (rm_config (open_socket r))) 8"
      if "ch \<in> set (rm_channels (open_socket r))" for ch
      using that wiredD(2) [OF w] by (auto simp: open_socket_def)
    show "wired_conn (open_socket r) c" if "(i, c) \<in> set (rm_connections (open_socket r))" for i c
      using room_okD(1,3) [OF ok] that by (auto simp: open_socket_def wired_conn_def nth_append)
  qed (use ok in \<open>auto simp: open_socket_def room_ok_def dest: wiredD\<close>)
  ultimately show ?thesis
    using ok by (fastforce simp: room_ok_def outbound_ok_def budget_ok_def handle_ok_def)
qed

subsection \<open>Admission and the terminal paths\<close>

lemma set_hm_insert: "set (hm_insert k v m) \<subseteq> insert (k, v) {e \<in> set m. fst e \<noteq> k}"
  by (auto simp: map_of_eq_None_iff split: if_splits)

text \<open>What the transport brings to a join: its own open channel, holding at most unaccounted
  frames, that no connection of the room uses.\<close>

definition join_ready :: "room_join \<Rightarrow> 'z room_scheme \<Rightarrow> bool" where
  "join_ready j r \<longleftrightarrow> jn_events j < length (rm_channels r) \<and>
     (jn_cancel j = None \<or> jn_cancel j = Some (jn_events j)) \<and>
     (let ch = rm_channels r ! jn_events j in
      list_all (\<lambda>e. event_frames e \<noteq> []) (ch_queue ch) \<and> list_all (\<lambda>f. of_permit f = None) (frames_of ch)) \<and>
     list_all (\<lambda>(i, c). cn_events c \<noteq> jn_events j) (rm_connections r)"

lemma held_fresh:
  assumes "permits_known r" and "m = permit_bytes (length (rm_budgets r)) \<or> m = permit_count (length (rm_budgets r))"
  shows "held m r = 0"
proof -
  have "m f = 0" if "ch \<in> set (rm_channels r)" and "f \<in> set (frames_of ch)" for ch f
  proof -
    from that assms(1) have "known_frame (length (rm_budgets r)) f"
      unfolding permits_known_def by blast
    with assms(2) show ?thesis
      by (auto simp: known_frame_def split: option.splits)
  qed
  then have "(\<Sum>f\<leftarrow>frames_of ch. m f) = 0" if "ch \<in> set (rm_channels r)" for ch
    using that by (auto simp: sum_list_eq_0_iff)
  then show ?thesis
    by (auto simp: held_def sum_list_eq_0_iff)
qed

lemma room_ok_insert:
  assumes ok: "room_ok r" and j: "join_ready j r"
    and c: "cn_events c = jn_events j" "cn_cancel c = jn_cancel j" "cn_outbound_budget c = length (rm_budgets r)"
    and b: "bd_permits b = cfg_max_outbound_frames_per_connection (rm_config r)" "bd_queued_bytes b = 0"
      "bd_max_bytes b = cfg_max_outbound_bytes_per_connection (rm_config r)"
    and m: "set m \<subseteq> insert (k, c) {e \<in> set (rm_connections r). fst e \<noteq> k}" "hm_ok m"
  shows "room_ok (r\<lparr>rm_awareness := a, rm_budgets := rm_budgets r @ [b], rm_connections := m\<rparr>)"
    (is "room_ok ?r")
proof -
  have sub: "set (rm_connections ?r) \<subseteq> insert (k, c) {e \<in> set (rm_connections r). fst e \<noteq> k}"
    using m by simp
  have known: "permits_known r"
    using ok by (simp add: room_ok_def outbound_ok_def)
  have held: "held m ?r = held m r" for m
    by (simp add: held_def)
  have "budget_ok ?r h" if "h < length (rm_budgets ?r)" for h
  proof (cases "h < length (rm_budgets r)")
    case True
    with ok show ?thesis
      by (simp add: room_ok_def outbound_ok_def budget_ok_def nth_append held)
  next
    case False
    with that have "h = length (rm_budgets r)" by simp
    with b held_fresh [OF known] show ?thesis
      by (simp add: budget_ok_def held)
  qed
  moreover have "permits_known ?r"
    using known by (fastforce simp: permits_known_def known_frame_def split: option.splits)
  moreover have "\<forall>(i, d)\<in>set (rm_connections ?r). handle_ok ?r d"
    using sub room_okD(1,2) [OF ok] j c by (fastforce simp: handle_ok_def join_ready_def)
  ultimately have "outbound_ok ?r"
    by (simp add: outbound_ok_def)
  moreover have "wired ?r"
  proof (rule wiredI)
    have w: "wired r"
      using ok by (simp add: room_ok_def)
    have old: "(i, d) \<in> set (rm_connections r) \<and> i \<noteq> k \<or> i = k \<and> d = c" if "(i, d) \<in> set (rm_connections ?r)" for i d
      using that sub by auto
    have new: "cn_events d \<noteq> cn_events c" if "(i, d) \<in> set (rm_connections r)" for i d
      using that j c(1) by (auto simp: join_ready_def list_all_iff)
    show "wired_conn ?r d" if "(i, d) \<in> set (rm_connections ?r)" for i d
      using old [OF that] wiredD(3) [OF w, of i d] j c
      by (auto simp: wired_conn_def join_ready_def Let_def own_frame_def list_all_iff)
    show "cn_events d \<noteq> cn_events e"
      if "(i, d) \<in> set (rm_connections ?r)" "(i', e) \<in> set (rm_connections ?r)" "i \<noteq> i'" for i d i' e
      using old [OF that(1)] old [OF that(2)] that(3) new wiredD(4) [OF w, of i d i' e] by metis
    show "ch_capacity ch = max (cfg_max_outbound_frames_per_connection (rm_config ?r)) 8"
      if "ch \<in> set (rm_channels ?r)" for ch
      using that wiredD(2) [OF w] by simp
  qed (use m in simp)
  ultimately show ?thesis
    by (simp add: room_ok_def)
qed

lemma reserve_client_id_room:
  "\<exists>owners. snd (reserve_client_id now client_id user_id r) = r\<lparr>rm_client_id_owner := owners\<rparr>"
proof -
  have "\<exists>owners. snd (if b then (False, r\<lparr>rm_client_id_owner := x\<rparr>) else if b' then (False, r\<lparr>rm_client_id_owner := x\<rparr>)
      else (True, r\<lparr>rm_client_id_owner := x, rm_client_id_owner := y\<rparr>)) = r\<lparr>rm_client_id_owner := owners\<rparr>" for b b' x y
    by (intro exI [of _ "if b then x else if b' then x else y"]) simp
  then show ?thesis
    unfolding reserve_client_id_def Let_def .
qed

lemma room_ok_owner_update [simp]: "room_ok (r\<lparr>rm_client_id_owner := owners\<rparr>) = room_ok r"
proof -
  have "quiet (r\<lparr>rm_client_id_owner := owners\<rparr>) r"
    by (simp add: quiet_def)
  then show ?thesis
    using quiet_outbound quiet_other(5) by (auto simp: room_ok_def wired_other)
qed

lemma room_ok_admit:
  assumes ok: "room_ok r" and j: "join_ready j r"
  shows "room_ok (snd (admit_connection now read_only j r))"
proof -
  obtain granted s where s: "reserve_client_id now (jn_client_id j) (cs_user_id (jn_session j)) r = (granted, s)"
    by (cases "reserve_client_id now (jn_client_id j) (cs_user_id (jn_session j)) r")
  with reserve_client_id_room [of now "jn_client_id j" "cs_user_id (jn_session j)" r]
  obtain owners where o: "s = r\<lparr>rm_client_id_owner := owners\<rparr>"
    by auto
  have s_ok: "room_ok s" "join_ready j s"
    using ok j by (simp_all add: o join_ready_def)
  have m: "set (hm_insert k c (rm_connections s)) \<subseteq> insert (k, c) {e \<in> set (rm_connections s). fst e \<noteq> k}"
    "hm_ok (hm_insert k c (rm_connections s))" for k c
    using set_hm_insert [of k c "rm_connections s"] s_ok(1) hm.inv_insert [of "rm_connections s" k c]
    by (simp_all add: room_ok_def wired_def del: hm_insert.simps)
  have "room_ok (insert_connection read_only j s)"
    using room_ok_insert [OF s_ok _ _ _ _ _ _ m]
    by (auto simp: insert_connection_def new_connection_def new_budget_def simp del: hm_insert.simps split: prod.split)
  with s s_ok show ?thesis
    by (simp add: admit_connection_def live_room.greet split: bool.split)
qed

lemma room_ok_drain: "room_ok r \<Longrightarrow> room_ok (drain_connections code reason r)"
proof -
  have step: "room_ok (enqueue_close events cancel code reason s) \<and>
      rm_connections (enqueue_close events cancel code reason s) = []"
    if "room_ok s" and "rm_connections s = []" for events cancel and s :: "'a room_scheme"
  proof -
    from that quiet_enqueue [of s events cancel code reason]
    have "rm_connections (enqueue_close events cancel code reason s) = []"
      by (simp add: quiet_def)
    with that quiet_enqueue [of s events cancel code reason] show ?thesis
      by (auto simp: room_ok_def hm_ok_def intro: quiet_outbound
          wired_shrink [OF _ only_channel_enqueue [of events s cancel code reason]])
  qed
  have all: "room_ok (fold (\<lambda>(_, c). enqueue_close (cn_events c) (cn_cancel c) code reason) cs s)"
    if "room_ok s" and "rm_connections s = []" for cs :: "(uuid \<times> connection_state) list" and s :: "'a room_scheme"
    using that by (induction cs arbitrary: s) (auto simp: step)
  assume ok: "room_ok r"
  have "room_ok (r\<lparr>rm_connections := []\<rparr>)"
    using ok by (auto simp: room_ok_def outbound_ok_def budget_ok_def held_def permits_known_def wired_def hm_ok_def)
  then show ?thesis
    by (simp add: drain_connections_def all)
qed

lemma room_ok_update_conn:
  assumes ok: "room_ok r"
    and f: "\<And>c. cn_events (f c) = cn_events c \<and> cn_cancel (f c) = cn_cancel c \<and>
      cn_outbound_budget (f c) = cn_outbound_budget c"
  shows "room_ok (update_conn conn_id f r)"
proof -
  let ?g = "\<lambda>(i, c). (i, if i = conn_id then f c else c)"
  have keys: "map fst (rm_connections (update_conn conn_id f r)) = map fst (rm_connections r)"
    by (auto simp: update_conn_def)
  have conn: "\<exists>c. (i, c) \<in> set (rm_connections r) \<and> cn_events d = cn_events c \<and> cn_cancel d = cn_cancel c \<and>
      cn_outbound_budget d = cn_outbound_budget c" if "(i, d) \<in> set (rm_connections (update_conn conn_id f r))" for i d
    using that f by (fastforce simp: update_conn_def split: if_splits)
  have fields: "rm_channels (update_conn conn_id f r) = rm_channels r" "rm_budgets (update_conn conn_id f r) = rm_budgets r"
    "rm_config (update_conn conn_id f r) = rm_config r"
    by (simp_all add: update_conn_def)
  have "outbound_ok (update_conn conn_id f r)"
    using ok conn by (fastforce simp: room_ok_def outbound_ok_def budget_ok_def held_def permits_known_def
        handle_ok_def fields)
  moreover have "wired (update_conn conn_id f r)"
  proof (rule wiredI)
    have w: "wired r"
      using ok by (simp add: room_ok_def)
    show "hm_ok (rm_connections (update_conn conn_id f r))"
      using wiredD(1) [OF w] by (simp add: hm_ok_def keys)
    show "wired_conn (update_conn conn_id f r) d" if "(i, d) \<in> set (rm_connections (update_conn conn_id f r))" for i d
    proof -
      from conn [OF that] obtain c where c: "(i, c) \<in> set (rm_connections r)" "cn_events d = cn_events c"
        "cn_cancel d = cn_cancel c" "cn_outbound_budget d = cn_outbound_budget c"
        by blast
      then have "own_frame d = own_frame c"
        by (intro ext) (simp add: own_frame_def split: option.split)
      with c wiredD(3) [OF w c(1)] show ?thesis
        by (simp add: wired_conn_def fields)
    qed
    show "cn_events c \<noteq> cn_events d"
      if "(i, c) \<in> set (rm_connections (update_conn conn_id f r))"
        "(j, d) \<in> set (rm_connections (update_conn conn_id f r))" "i \<noteq> j" for i c j d
      using conn [OF that(1)] conn [OF that(2)] that(3) wiredD(4) [OF w] by metis
    show "ch_capacity ch = max (cfg_max_outbound_frames_per_connection (rm_config (update_conn conn_id f r))) 8"
      if "ch \<in> set (rm_channels (update_conn conn_id f r))" for ch
      using that wiredD(2) [OF w] by (simp add: fields)
  qed
  ultimately show ?thesis
    by (simp add: room_ok_def)
qed

section \<open>Steps of a room and its transports\<close>

text \<open>The actor's steps interleave with those of the socket tasks. \<open>internal\<close> covers every
  change that leaves connections, channels and budgets alone, and the order in which a hash map
  happens to iterate; \<open>flags\<close> the changes of a connection's own marks.\<close>

definition keeps_identity :: "(connection_state \<Rightarrow> connection_state) \<Rightarrow> bool" where
  "keeps_identity f \<longleftrightarrow> (\<forall>c. cn_events (f c) = cn_events c \<and> cn_cancel (f c) = cn_cancel c \<and>
     cn_outbound_budget (f c) = cn_outbound_budget c \<and> cn_client_id (f c) = cn_client_id c \<and>
     cn_session (f c) = cn_session c)"

inductive room_step :: "'z room_scheme \<Rightarrow> 'z room_scheme \<Rightarrow> bool" where
  socket: "room_step r (open_socket r)"
| pre_auth: "h < length (rm_channels r) \<Longrightarrow> room_step r (pre_auth_send h bytes r)"
| recv: "h < length (rm_channels r) \<Longrightarrow> room_step r (transport_recv h r)"
| sent: "h < length (rm_channels r) \<Longrightarrow> room_step r (transport_sent h r)"
| exit: "h < length (rm_channels r) \<Longrightarrow> room_step r (transport_exit h r)"
| internal: "rm_config r' = rm_config r \<Longrightarrow> rm_channels r' = rm_channels r \<Longrightarrow> rm_budgets r' = rm_budgets r \<Longrightarrow>
    mset (rm_connections r') = mset (rm_connections r) \<Longrightarrow> room_step r r'"
| flags: "keeps_identity f \<Longrightarrow> room_step r (update_conn conn_id f r)"
| admit: "join_ready j r \<Longrightarrow> room_step r (snd (admit_connection now read_only j r))"
| deliver: "room_step r (deliver_outbound conn_id bytes k r)"
| evict: "room_step r (snd (evict_connection conn_id code reason order r))"
| drain: "room_step r (drain_connections code reason r)"

text \<open>Every broadcast, reply, close and flush is a run of these steps.\<close>

interpretation runs: delivery_invariant "room_step\<^sup>*\<^sup>* r" for r :: "'z room_scheme"
proof unfold_locales
  fix s :: "'z room_scheme" and conn_id code reason order p sr bytes k f
  assume run: "room_step\<^sup>*\<^sup>* r s"
  note next_step = rtranclp.rtrancl_into_rtrancl [OF run]
  show "room_step\<^sup>*\<^sup>* r (snd (evict_connection conn_id code reason order s))"
    and "room_step\<^sup>*\<^sup>* r (deliver_outbound conn_id bytes k s)"
    by (rule next_step, rule room_step.intros)+
  show "room_step\<^sup>*\<^sup>* r (s\<lparr>rm_pending_awareness := p\<rparr>)"
    and "room_step\<^sup>*\<^sup>* r (s\<lparr>rm_session_revision := sr\<rparr>)"
    and "room_step\<^sup>*\<^sup>* r (s\<lparr>rm_flushing_awareness := f\<rparr>)"
    by (rule next_step, rule room_step.internal; simp)+
qed

inductive room_reach :: "'z room_scheme \<Rightarrow> bool" where
  start: "rm_channels r = [] \<Longrightarrow> rm_budgets r = [] \<Longrightarrow> rm_connections r = [] \<Longrightarrow> room_reach r"
| step: "room_reach r \<Longrightarrow> room_step r r' \<Longrightarrow> room_reach r'"

text \<open>The allowance of frames a socket may queue before it has joined.\<close>

record pre_auth_allowance =
  pa_remaining :: nat
  pa_max_bytes :: nat

definition pre_auth_try_send ::
    "nat \<Rightarrow> u8 list \<Rightarrow> pre_auth_allowance \<Rightarrow> 'z room_scheme \<Rightarrow> bool \<times> pre_auth_allowance \<times> 'z room_scheme" where
  "pre_auth_try_send h bytes a r =
     (if pa_remaining a = 0 \<or> length bytes > pa_max_bytes a then (False, a, r)
      else if fst (try_send (Outbound (unaccounted bytes)) (rm_channels r ! h)) = Sent
      then (True, a\<lparr>pa_remaining := pa_remaining a - 1\<rparr>, pre_auth_send h bytes r)
      else (False, a, r))"

lemma pre_auth_try_send_steps:
  "h < length (rm_channels r) \<Longrightarrow> room_step\<^sup>*\<^sup>* r (snd (snd (pre_auth_try_send h bytes a r)))"
  by (auto simp: pre_auth_try_send_def intro: room_step.pre_auth)

lemma room_reach_steps: "room_step\<^sup>*\<^sup>* r r' \<Longrightarrow> room_reach r \<Longrightarrow> room_reach r'"
  by (induction rule: rtranclp_induct) (auto intro: room_reach.step)

lemma room_ok_internal:
  fixes r r' :: "'z room_scheme"
  assumes ok: "room_ok r" and eq: "rm_config r' = rm_config r" "rm_channels r' = rm_channels r"
    "rm_budgets r' = rm_budgets r" "mset (rm_connections r') = mset (rm_connections r)"
  shows "room_ok r'"
proof -
  from eq(4) have set: "set (rm_connections r') = set (rm_connections r)"
    by (rule mset_eq_setD)
  from eq(4) have "mset (map fst (rm_connections r')) = mset (map fst (rm_connections r))"
    by (metis mset_map)
  then have "distinct (map fst (rm_connections r')) = distinct (map fst (rm_connections r))"
    by (rule mset_eq_imp_distinct_iff)
  moreover have "quiet r r'"
    by (simp add: quiet_def eq set)
  moreover have "wired_conn r' c = wired_conn r c" for c
    by (simp add: wired_conn_def eq)
  ultimately show ?thesis
    using ok quiet_outbound [of r r'] by (simp add: room_ok_def wired_def hm_ok_def eq set)
qed

lemma room_step_ok: "room_step r r' \<Longrightarrow> room_ok r \<Longrightarrow> room_ok r'"
proof (induction rule: room_step.induct)
  case (internal r' r)
  then show ?case by (blast intro: room_ok_internal)
next
  case (flags f r conn_id)
  then show ?case by (simp add: keeps_identity_def room_ok_update_conn)
qed (simp_all add: room_ok_open_socket room_ok_pre_auth room_ok_recv room_ok_sent_frame room_ok_exit
    room_ok_admit room_ok_deliver room_ok_evict room_ok_drain)

lemma room_reach_ok: "room_reach r \<Longrightarrow> room_ok r"
proof (induction rule: room_reach.induct)
  case (start r)
  then show ?case
    by (simp add: room_ok_def outbound_ok_def wired_def permits_known_def hm_ok_def)
qed (rule room_step_ok)

section \<open>The outbound properties\<close>

text \<open>The unsent frames that hold a permit of the budget; handshake frames hold none and are left out.\<close>

definition frames_on :: "nat \<Rightarrow> 'z room_scheme \<Rightarrow> outbound_frame list" where
  "frames_on h r = filter (\<lambda>f. case of_permit f of Some (g, _) \<Rightarrow> g = h | None \<Rightarrow> False)
     (concat (map frames_of (rm_channels r)))"

lemma held_concat: "held m r = (\<Sum>f\<leftarrow>concat (map frames_of (rm_channels r)). m f)"
proof -
  have "(\<Sum>ch\<leftarrow>chs. \<Sum>f\<leftarrow>frames_of ch. m f) = (\<Sum>f\<leftarrow>concat (map frames_of chs). m f)" for chs
    by (induction chs) simp_all
  then show ?thesis
    by (simp add: held_def)
qed

lemma held_frames_on:
  assumes "permits_known r"
  shows "held (permit_count h) r = length (frames_on h r)"
    and "held (permit_bytes h) r = (\<Sum>f\<leftarrow>frames_on h r. length (of_bytes f) + OUTBOUND_FRAME_OVERHEAD)"
proof -
  have "(\<Sum>f\<leftarrow>fs. permit_count h f) = length (filter (\<lambda>f. case of_permit f of Some (g, _) \<Rightarrow> g = h | None \<Rightarrow> False) fs)" for fs
    by (induction fs) (auto split: option.split)
  then show "held (permit_count h) r = length (frames_on h r)"
    unfolding held_concat frames_on_def .
  have "(\<Sum>f\<leftarrow>fs. permit_bytes h f) = (\<Sum>f\<leftarrow>filter (\<lambda>f. case of_permit f of Some (g, _) \<Rightarrow> g = h | None \<Rightarrow> False) fs.
      length (of_bytes f) + OUTBOUND_FRAME_OVERHEAD)"
    if "\<forall>f\<in>set fs. known_frame n f" for fs n
    using that by (induction fs) (auto simp: known_frame_def split: option.splits)
  from this [of "concat (map frames_of (rm_channels r))" "length (rm_budgets r)"] assms
  show "held (permit_bytes h) r = (\<Sum>f\<leftarrow>frames_on h r. length (of_bytes f) + OUTBOUND_FRAME_OVERHEAD)"
    by (auto simp: held_concat frames_on_def permits_known_def)
qed

text \<open>C10: However room and transports interleave, the accounted frames a connection's transport has not sent yet
  (those that hold a delivery permit: every frame the room itself sends) never exceed the connection's frame and byte
  limits, each counted with its overhead, and the budget's counters are exact: permits are neither lost nor
  duplicated. The frames of a socket's handshake, up to the reply to its token, hold no permit and are not counted;
  an allowance of their own bounds them.\<close>

theorem outbound_bounded:
  assumes "room_reach r" and "h < length (rm_budgets r)"
  shows "length (frames_on h r) + bd_permits (rm_budgets r ! h) =
      cfg_max_outbound_frames_per_connection (rm_config r) \<and>
    (\<Sum>f\<leftarrow>frames_on h r. length (of_bytes f) + OUTBOUND_FRAME_OVERHEAD)
      \<le> cfg_max_outbound_bytes_per_connection (rm_config r) \<and>
    bd_queued_bytes (rm_budgets r ! h) =
      (\<Sum>f\<leftarrow>frames_on h r. length (of_bytes f) + OUTBOUND_FRAME_OVERHEAD)"
proof -
  from room_reach_ok [OF assms(1)] have "permits_known r" and "budget_ok r h"
    using assms(2) by (simp_all add: room_ok_def outbound_ok_def)
  then show ?thesis
    by (auto simp: budget_ok_def Let_def held_frames_on)
qed

subsection \<open>Closing behind queued frames\<close>

text \<open>A channel no connection of the room owns any more is left alone by everything the room does.\<close>

definition detached :: "nat \<Rightarrow> channel \<Rightarrow> 'z room_scheme \<Rightarrow> bool" where
  "detached g ch r \<longleftrightarrow> room_ok r \<and> g < length (rm_channels r) \<and> rm_channels r ! g = ch \<and>
     (\<forall>(i, c)\<in>set (rm_connections r). cn_events c \<noteq> g)"

lemma close_events_elsewhere:
  assumes "cn_cancel c = None \<or> cn_cancel c = Some (cn_events c)" and "g \<noteq> cn_events c"
    and "g < length (rm_channels r)"
  shows "rm_channels (close_events order c code reason r) ! g = rm_channels r ! g"
  using assms
  by (auto simp: close_events_def enqueue_close_ordered_def enqueue_close_def signal_cancel_def Let_def
      nth_set_channel split: close_order.split try_send_result.split prod.split)

lemma evict_elsewhere:
  assumes ok: "room_ok r" and g: "g < length (rm_channels r)"
    and c: "\<And>c. conn_of conn_id r = Some c \<Longrightarrow> cn_events c \<noteq> g"
  shows "rm_channels (snd (evict_connection conn_id code reason order r)) ! g = rm_channels r ! g"
proof (cases "conn_of conn_id r")
  case (Some d)
  then have "(conn_id, d) \<in> set (rm_connections r)"
    by (simp add: conn_of_def map_of_SomeD)
  from room_okD(3) [OF ok this] have "cn_cancel d = None \<or> cn_cancel d = Some (cn_events d)"
    by (simp add: wired_conn_def)
  with Some c [OF Some] g show ?thesis
    by (simp add: evict_connection_def close_events_elsewhere split: prod.split)
qed (simp add: evict_connection_def)

lemma detached_evict:
  assumes "detached g ch r"
  shows "detached g ch (snd (evict_connection conn_id code reason order r))"
proof -
  from assms have ok: "room_ok r" and g: "g < length (rm_channels r)" and ch: "rm_channels r ! g = ch"
    and free: "\<And>i c. (i, c) \<in> set (rm_connections r) \<Longrightarrow> cn_events c \<noteq> g"
    by (auto simp: detached_def)
  have "rm_channels (snd (evict_connection conn_id code reason order r)) ! g = rm_channels r ! g"
    using free by (intro evict_elsewhere [OF ok g]) (auto simp: conn_of_def dest: map_of_SomeD)
  moreover have q: "quiet r (snd (evict_connection conn_id code reason order r))"
    by (rule quiet_evict)
  from q have "set (rm_connections (snd (evict_connection conn_id code reason order r))) \<subseteq> set (rm_connections r)"
    by (simp add: quiet_def)
  moreover from quiet_fields(2) [OF q] g
  have "g < length (rm_channels (snd (evict_connection conn_id code reason order r)))"
    by simp
  moreover have "room_ok (snd (evict_connection conn_id code reason order r))"
    by (rule room_ok_evict [OF ok])
  ultimately show ?thesis
    using ch free unfolding detached_def by fast
qed

lemma detached_other:
  "detached g ch r \<Longrightarrow> detached g ch (r\<lparr>rm_pending_awareness := p\<rparr>)"
  "detached g ch r \<Longrightarrow> detached g ch (r\<lparr>rm_session_revision := s\<rparr>)"
  "detached g ch r \<Longrightarrow> detached g ch (r\<lparr>rm_flushing_awareness := f\<rparr>)"
  by (simp_all add: detached_def room_evict.pending room_evict.revision live_room.flushing)

interpretation detached_evict: eviction_invariant "detached g ch" for g ch
  by unfold_locales (simp_all add: detached_evict detached_other)

lemma detached_deliver:
  assumes d: "detached g ch r"
  shows "detached g ch (deliver_outbound conn_id bytes k r)"
proof -
  from d have ok: "room_ok r" and out: "outbound_ok r"
    by (simp_all add: detached_def room_ok_def)
  from deliver_outbound_delivered [OF out, of conn_id bytes k] show ?thesis
  proof cases
    case (queued c f n ch')
    then have "(conn_id, c) \<in> set (rm_connections r)"
      by (simp add: conn_of_def map_of_SomeD)
    with d have "cn_events c \<noteq> g"
      by (auto simp: detached_def)
    with d room_ok_deliver [OF ok, of conn_id bytes k] show ?thesis
      by (simp add: queued(1) detached_def nth_set_channel)
  qed (use d detached_evict.backpressure [OF d] in simp_all)
qed

interpretation detached: delivery_invariant "detached g ch" for g ch
  by unfold_locales (simp_all add: detached_deliver detached_other)

text \<open>The comment on the budget's semaphore: while the transport is sending an accounted frame, a slot
  of the channel is free.\<close>

lemma slot_free:
  assumes ok: "room_ok r" and c: "(i, c) \<in> set (rm_connections r)"
    and busy: "ch_sending (rm_channels r ! cn_events c) \<noteq> None"
    and acc: "list_all (\<lambda>f. of_permit f \<noteq> None) (frames_of (rm_channels r ! cn_events c))"
  shows "length (ch_queue (rm_channels r ! cn_events c)) < ch_capacity (rm_channels r ! cn_events c)"
proof -
  let ?ch = "rm_channels r ! cn_events c" and ?h = "cn_outbound_budget c"
  note c' = room_okD [OF ok c]
  have q: "length (concat (map event_frames es)) = length es" if "list_all (\<lambda>e. event_frames e \<noteq> []) es" for es
  proof -
    have "length (event_frames e) = 1" if "event_frames e \<noteq> []" for e
      using that by (cases e) simp_all
    with that show ?thesis
      by (induction es) simp_all
  qed
  have one: "permit_count ?h f = 1" if "f \<in> set (frames_of ?ch)" for f
    using that acc c'(3) by (auto simp: wired_conn_def Let_def list_all_iff own_frame_def split: option.splits)
  have "(\<Sum>f\<leftarrow>frames_of ?ch. permit_count ?h f) = length (frames_of ?ch)"
    using one by (simp add: sum_list_triv cong: map_cong)
  moreover have "length (frames_of ?ch) = Suc (length (ch_queue ?ch))"
    using busy c'(3) q by (auto simp: frames_of_def wired_conn_def Let_def split: option.split)
  moreover have "(\<Sum>f\<leftarrow>frames_of ?ch. permit_count ?h f) \<le> held (permit_count ?h) r"
    unfolding held_def using c'(1) by (intro member_le_sum_list) (auto simp del: permit_count.simps)
  moreover have "held (permit_count ?h) r \<le> cfg_max_outbound_frames_per_connection (rm_config r)"
    using ok c'(2) by (auto simp: room_ok_def outbound_ok_def budget_ok_def Let_def)
  moreover have "ch_capacity ?ch = max (cfg_max_outbound_frames_per_connection (rm_config r)) 8"
    using ok wiredD(2) [of r ?ch] c'(1) by (simp add: room_ok_def)
  ultimately show ?thesis
    by simp
qed

text \<open>C11: Closing a connection behind its queued frames does not preempt them, as long as its transport still
  receives, is in the middle of sending a frame, and has no unaccounted pre-auth frame left: the
  connection's channel afterwards holds exactly its old queue followed by the Close, and its cancel watch is
  untouched, whatever the awareness flush evicts in the course of it. (Otherwise the queue may be full or closed, and
  the close falls back to the cancel watch.)\<close>

theorem ordered_close_behind_queue:
  assumes "room_reach r" and "conn_of conn_id r = Some c" and "ch = rm_channels r ! cn_events c"
    and "\<not> ch_closed ch" and "ch_sending ch \<noteq> None" and "list_all (\<lambda>f. of_permit f \<noteq> None) (frames_of ch)"
  shows "rm_channels (close_connection_ordered conn_id code reason r) ! cn_events c =
      ch\<lparr>ch_queue := ch_queue ch @ [CloseEvent code reason]\<rparr>"
proof -
  let ?g = "cn_events c" and ?ch = "ch\<lparr>ch_queue := ch_queue ch @ [CloseEvent code reason]\<rparr>"
  from room_reach_ok [OF assms(1)] have ok: "room_ok r" .
  from assms(2) have c: "(conn_id, c) \<in> set (rm_connections r)"
    by (simp add: conn_of_def map_of_SomeD)
  note c' = room_okD [OF ok c]
  from slot_free [OF ok c] assms have free: "length (ch_queue ch) < ch_capacity ch"
    by simp
  obtain t s where e: "evict_connection conn_id code reason AfterQueued r = (t, s)"
    by (cases "evict_connection conn_id code reason AfterQueued r")
  from e have s: "s = snd (evict_connection conn_id code reason AfterQueued r)"
    by simp
  have "rm_channels s ! ?g = ?ch"
    using c'(1) free assms by (simp add: s evict_connection_def close_events_def enqueue_close_ordered_def
        try_send_def nth_set_channel split: prod.split)
  moreover have "cn_events d \<noteq> ?g" if "(i, d) \<in> set (rm_connections s)" for i d
    using that room_ok_owner [OF ok c, of i d] evict_connection_fields(1) [of conn_id code reason AfterQueued r]
    by (auto simp: s hm_remove_def)
  ultimately have "detached ?g ?ch s"
    using room_ok_evict [OF ok] c'(1) quiet_fields(2) [OF quiet_evict [of r conn_id code reason AfterQueued]]
    by (auto simp: detached_def s)
  then have "detached ?g ?ch (close_connection_ordered conn_id code reason r)"
    unfolding close_connection_ordered_def close_connection_in_order_def e
    by (simp add: detached_evict.schedule detached_evict.push detached.flush)
  then show ?thesis
    by (simp add: detached_def)
qed

subsection \<open>Client ids\<close>

definition ids_ok :: "'z room_scheme \<Rightarrow> bool" where
  "ids_ok r \<longleftrightarrow> (\<forall>(i, c)\<in>set (rm_connections r). \<forall>(j, d)\<in>set (rm_connections r).
     cn_client_id c = cn_client_id d \<longrightarrow> cs_user_id (cn_session c) = cs_user_id (cn_session d))"

lemma ids_ok_sub: "ids_ok r \<Longrightarrow> set (rm_connections r') \<subseteq> set (rm_connections r) \<Longrightarrow> ids_ok r'"
  unfolding ids_ok_def by blast

lemma evict_connections: "set (rm_connections (snd (evict_connection conn_id code reason order r))) \<subseteq> set (rm_connections r)"
  by (simp add: evict_connection_fields(1) hm_remove_def)

interpretation shrinking_evict: eviction_invariant "\<lambda>r. set (rm_connections r) \<subseteq> m" for m
  by unfold_locales (use evict_connections in fastforce, simp_all)

lemma deliver_connections: "set (rm_connections r) \<subseteq> m \<Longrightarrow> set (rm_connections (deliver_outbound conn_id bytes k r)) \<subseteq> m"
  using shrinking_evict.backpressure [of r m conn_id] shrinking_evict.backpressure [of "set_budget _ _ r" m conn_id]
  by (auto simp: deliver_outbound_def send_accounted_def Let_def
      split: option.split try_send_result.split prod.split simp del: drop_permit.simps)

interpretation shrinking: delivery_invariant "\<lambda>r. set (rm_connections r) \<subseteq> m" for m
  by unfold_locales (rule deliver_connections, simp_all)

lemma admit_connections:
  assumes ids: "ids_ok r"
  shows "ids_ok (snd (admit_connection now read_only j r))"
proof -
  let ?u = "cs_user_id (jn_session j)" and ?id = "jn_client_id j"
  obtain granted s where s: "reserve_client_id now ?id ?u r = (granted, s)"
    by (cases "reserve_client_id now ?id ?u r")
  with reserve_client_id_room [of now ?id ?u r] have conns: "rm_connections s = rm_connections r"
    by auto
  show ?thesis
  proof (cases granted)
    case False
    with ids conns show ?thesis
      by (simp add: admit_connection_def s ids_ok_def)
  next
    case True
    with s have free: "\<forall>(i, c)\<in>set (rm_connections r). cn_client_id c = ?id \<longrightarrow> cs_user_id (cn_session c) = ?u"
      by (auto simp: reserve_client_id_def Let_def list_ex_iff split: if_splits option.splits)
    from True s have s': "reserve_client_id now ?id ?u r = (True, s)"
      by simp
    obtain c where c: "cn_client_id c = ?id" "cn_session c = jn_session j"
      and ins: "set (rm_connections (insert_connection read_only j s)) \<subseteq> insert (jn_conn_id j, c) (set (rm_connections r))"
    proof -
      obtain gen reg where g: "connection_generation (rm_awareness s) = (gen, reg)"
        by (cases "connection_generation (rm_awareness s)")
      show ?thesis
        using that [of "new_connection read_only j (length (rm_budgets s)) gen"] conns
          set_hm_insert [of "jn_conn_id j" "new_connection read_only j (length (rm_budgets s)) gen" "rm_connections r"]
        by (auto simp: insert_connection_def g new_connection_def simp del: hm_insert.simps)
    qed
    have sub: "set (rm_connections (snd (admit_connection now read_only j r))) \<subseteq>
        insert (jn_conn_id j, c) (set (rm_connections r))"
      using shrinking.greet [OF ins] by (simp add: admit_connection_def s')
    show ?thesis
      unfolding ids_ok_def
    proof (intro ballI, clarify)
      fix i d k e
      assume "(i, d) \<in> set (rm_connections (snd (admit_connection now read_only j r)))"
        and "(k, e) \<in> set (rm_connections (snd (admit_connection now read_only j r)))"
        and same: "cn_client_id d = cn_client_id e"
      with sub have "(i, d) \<in> set (rm_connections r) \<or> d = c" and "(k, e) \<in> set (rm_connections r) \<or> e = c"
        by auto
      with same ids free c show "cs_user_id (cn_session d) = cs_user_id (cn_session e)"
        unfolding ids_ok_def by (elim disjE) fastforce+
    qed
  qed
qed

lemma ids_ok_identity:
  assumes "ids_ok r" and "\<And>i d. (i, d) \<in> set (rm_connections r') \<Longrightarrow>
    \<exists>c. (i, c) \<in> set (rm_connections r) \<and> cn_client_id d = cn_client_id c \<and> cn_session d = cn_session c"
  shows "ids_ok r'"
proof -
  have "cs_user_id (cn_session d) = cs_user_id (cn_session e)"
    if "(i, d) \<in> set (rm_connections r')" "(j, e) \<in> set (rm_connections r')" "cn_client_id d = cn_client_id e" for i d j e
    using assms(2) [OF that(1)] assms(2) [OF that(2)] that(3) assms(1) unfolding ids_ok_def by fastforce
  then show ?thesis
    unfolding ids_ok_def by blast
qed

lemma transport_connections [simp]:
  "rm_connections (open_socket r) = rm_connections r" "rm_connections (pre_auth_send h bytes r) = rm_connections r"
  "rm_connections (transport_recv h r) = rm_connections r" "rm_connections (transport_sent h r) = rm_connections r"
  "rm_connections (transport_exit h r) = rm_connections r"
  by (simp_all add: open_socket_def pre_auth_send_def transport_recv_def transport_sent_def transport_exit_def Let_def
      split: option.split list.split room_client_event.split)

lemma drain_connections_empty: "rm_connections (drain_connections code reason r) = []"
proof -
  have "rm_connections (enqueue_close events cancel code reason s) = rm_connections s" for events cancel and s :: "'a room_scheme"
    using close_fields(1) [of Preempt "\<lparr>cn_session = undefined, cn_client_id = 0, cn_read_only = False, cn_routing_key = [],
      cn_events = events, cn_cancel = cancel, cn_outbound_budget = 0, cn_generation = 0, cn_pending_bytes = 0, cn_poisoned = False,
      cn_pending_persist = [], cn_in_flight = False\<rparr>" code reason s]
    by (simp add: close_events_def)
  then have "rm_connections (fold (\<lambda>(_, c). enqueue_close (cn_events c) (cn_cancel c) code reason) cs s) = rm_connections s"
    for cs :: "(uuid \<times> connection_state) list" and s :: "'a room_scheme"
    by (induction cs arbitrary: s) auto
  then show ?thesis
    by (simp add: drain_connections_def)
qed

lemma room_step_ids: "room_step r r' \<Longrightarrow> ids_ok r \<Longrightarrow> ids_ok r'"
proof (induction rule: room_step.induct)
  case (internal r' r)
  then show ?case
    using mset_eq_setD [of "rm_connections r'" "rm_connections r"] by (blast intro: ids_ok_sub)
next
  case (flags f r conn_id)
  then show ?case
    by (elim ids_ok_identity) (force simp: update_conn_def keeps_identity_def)
next
  case (deliver r conn_id bytes k)
  then show ?case
    using deliver_connections [of r "set (rm_connections r)"] by (blast intro: ids_ok_sub)
next
  case (evict r conn_id code reason order)
  then show ?case
    using evict_connections by (blast intro: ids_ok_sub)
next
  case (admit j r now read_only)
  then show ?case by (simp add: admit_connections)
qed (simp_all add: ids_ok_def drain_connections_empty)

text \<open>C13: A client id is never shared by two users: whatever joins, leaves, evictions and reorderings a
  room has seen, connections with the same client id belong to the same user. Presence updates are
  keyed by this id, so no user can speak for another.\<close>

theorem client_ids_exclusive:
  assumes "room_reach r" and "conn_of i r = Some c" and "conn_of j r = Some d"
    and "cn_client_id c = cn_client_id d"
  shows "cs_user_id (cn_session c) = cs_user_id (cn_session d)"
proof -
  from assms(1) have "ids_ok r"
    by (induction rule: room_reach.induct) (simp add: ids_ok_def, rule room_step_ids)
  with assms(2-4) show ?thesis
    by (auto simp: ids_ok_def conn_of_def dest!: map_of_SomeD)
qed

subsection \<open>What the remaining connections receive\<close>

text \<open>The channel of \<open>c\<close> has gained frames with these bytes, in this order, and nothing else.\<close>

definition gained :: "connection_state \<Rightarrow> u8 list list \<Rightarrow> 'z room_scheme \<Rightarrow> 'z room_scheme \<Rightarrow> bool" where
  "gained c bs r r' \<longleftrightarrow> (\<exists>fs. map of_bytes fs = bs \<and>
     rm_channels r' ! cn_events c = (rm_channels r ! cn_events c)\<lparr>ch_queue :=
       ch_queue (rm_channels r ! cn_events c) @ map Outbound fs\<rparr>)"

lemma gained_refl: "gained c [] r r"
  by (simp add: gained_def)

lemma gained_trans:
  assumes "gained c bs r s" and "gained c bs' s t"
  shows "gained c (bs @ bs') r t"
proof -
  from assms obtain fs fs' where "map of_bytes fs = bs" "map of_bytes fs' = bs'"
    "rm_channels s ! cn_events c = (rm_channels r ! cn_events c)\<lparr>ch_queue := ch_queue (rm_channels r ! cn_events c) @ map Outbound fs\<rparr>"
    "rm_channels t ! cn_events c = (rm_channels s ! cn_events c)\<lparr>ch_queue := ch_queue (rm_channels s ! cn_events c) @ map Outbound fs'\<rparr>"
    by (auto simp: gained_def)
  then show ?thesis
    unfolding gained_def by (intro exI [of _ "fs @ fs'"]) simp
qed

lemma gained_open: "gained c bs r r' \<Longrightarrow> ch_closed (rm_channels r' ! cn_events c) = ch_closed (rm_channels r ! cn_events c)"
  by (auto simp: gained_def)

lemma deliver_gained:
  assumes ok: "room_ok r" and open': "\<not> ch_closed (rm_channels r ! cn_events c)"
    and c: "(i, c) \<in> set (rm_connections (deliver_outbound conn_id bytes k r))"
  shows "gained c (if i = conn_id then [bytes] else []) r (deliver_outbound conn_id bytes k r)"
proof -
  have out: "outbound_ok r"
    using ok by (simp add: room_ok_def)
  have c_in: "(i, c) \<in> set (rm_connections r)"
    using deliver_connections [of r "set (rm_connections r)"] c by blast
  note c' = room_okD [OF ok c_in]
  from deliver_outbound_delivered [OF out, of conn_id bytes k] show ?thesis
  proof cases
    case skipped
    with c'(4) open' have "i \<noteq> conn_id"
      by metis
    with skipped(1) show ?thesis
      by (simp add: gained_refl)
  next
    case (evicted d)
    have gone: "rm_connections (deliver_outbound conn_id bytes k r) = hm_remove conn_id (rm_connections r)"
      and chans: "rm_channels (deliver_outbound conn_id bytes k r) =
        rm_channels (snd (evict_connection conn_id 1009 ''outbound queue full'' Preempt r))"
      using evict_connection_fields(1) [of conn_id 1009 "''outbound queue full''" Preempt r]
      by (cases "evict_connection conn_id 1009 ''outbound queue full'' Preempt r",
          simp add: evicted(1) evict_for_backpressure_def)+
    from c gone have i: "i \<noteq> conn_id"
      by (simp add: hm_remove_def)
    have "cn_events e \<noteq> cn_events c" if "conn_of conn_id r = Some e" for e
      using that i room_ok_owner [OF ok c_in, of conn_id e] by (auto simp: conn_of_def dest: map_of_SomeD)
    then have "rm_channels (snd (evict_connection conn_id 1009 ''outbound queue full'' Preempt r)) ! cn_events c =
        rm_channels r ! cn_events c"
      by (rule evict_elsewhere [OF ok c'(1)])
    with i chans show ?thesis
      by (simp add: gained_def)
  next
    case (queued d f n ch)
    show ?thesis
    proof (cases "i = conn_id")
      case True
      with queued(2) c'(4) have "d = c"
        by simp
      with queued c'(1) True show ?thesis
        unfolding gained_def by (intro exI [of _ "[f]"]) (simp add: nth_set_channel)
    next
      case False
      with queued(2) room_ok_owner [OF ok c_in, of conn_id d] have "cn_events c \<noteq> cn_events d"
        by (auto simp: conn_of_def dest: map_of_SomeD)
      with queued c'(1) False show ?thesis
        by (simp add: gained_def nth_set_channel)
    qed
  qed
qed

text \<open>The frame a connection gets for a message.\<close>

definition frame_for :: "connection_state \<Rightarrow> document_message \<Rightarrow> u8 list" where
  "frame_for c message = encode_or_empty (DocumentFrame (cn_routing_key c) None message)"

lemma deliver_all_gained:
  assumes "room_ok r" and "\<not> ch_closed (rm_channels r ! cn_events c)"
    and "(i, c) \<in> set (rm_connections (deliver_all message targets r))"
  shows "gained c (map (\<lambda>(_, key). encode_or_empty (DocumentFrame key None message)) (filter (\<lambda>t. fst t = i) targets))
    r (deliver_all message targets r)"
  using assms
proof (induction targets arbitrary: r)
  case Nil
  then show ?case by (simp add: deliver_all_def gained_refl)
next
  case (Cons t targets)
  obtain j key where t: "t = (j, key)" by (cases t)
  let ?b = "encode_or_empty (DocumentFrame key None message)"
  let ?s = "deliver_outbound j ?b Data r"
  have all: "deliver_all message (t # targets) r = deliver_all message targets ?s"
    by (simp add: deliver_all_def t)
  have c: "(i, c) \<in> set (rm_connections ?s)"
    using shrinking.all [of ?s "set (rm_connections ?s)" message targets] Cons.prems(3) by (auto simp: all)
  note first = deliver_gained [OF Cons.prems(1,2) c]
  have "gained c (map (\<lambda>(_, key). encode_or_empty (DocumentFrame key None message)) (filter (\<lambda>t. fst t = i) targets))
      ?s (deliver_all message targets ?s)"
    using Cons.IH [OF room_ok_deliver [OF Cons.prems(1)]] gained_open [OF first] Cons.prems(2,3) by (simp add: all)
  from gained_trans [OF first this] show ?case
    unfolding all by (auto simp: t)
qed

lemma recipients_once:
  assumes "hm_ok m" and "(i, c) \<in> set m"
  shows "filter (\<lambda>t. fst t = i) (map (\<lambda>(i, c). (i, cn_routing_key c)) m) = [(i, cn_routing_key c)]"
  using assms
proof (induction m)
  case (Cons e m)
  then show ?case
    by (cases e) (force simp: hm_ok_def filter_map comp_def intro: filter_False)
qed simp

lemma broadcast_gained:
  assumes ok: "room_ok r" and "\<not> ch_closed (rm_channels r ! cn_events c)"
    and c: "(i, c) \<in> set (rm_connections (deliver_all message (recipients r) r))"
  shows "gained c [frame_for c message] r (deliver_all message (recipients r) r)"
proof -
  have "(i, c) \<in> set (rm_connections r)"
    using shrinking.all [of r "set (rm_connections r)" message "recipients r"] c by auto
  from recipients_once [OF _ this] ok
  have "filter (\<lambda>t. fst t = i) (recipients r) = [(i, cn_routing_key c)]"
    by (simp add: recipients_def room_ok_def wired_def)
  with deliver_all_gained [OF assms] show ?thesis
    by (simp add: frame_for_def)
qed

subsection \<open>Who leaves during a flush\<close>

lemma awareness_fields [simp]:
  "rm_awareness (set_channel h ch r) = rm_awareness r" "rm_awareness (set_budget h bd r) = rm_awareness r"
  "rm_awareness (try_schedule_session_revision r) = rm_awareness r" "rm_awareness (push_awareness e r) = rm_awareness r"
  "rm_awareness (drop_permit p r) = rm_awareness r" "rm_awareness (close_events order c code reason r) = rm_awareness r"
  by (simp_all add: set_channel_def set_budget_def try_schedule_session_revision_def push_awareness_def close_events_def
      enqueue_close_def enqueue_close_ordered_def signal_cancel_def Let_def
      split: option.split close_order.split try_send_result.split prod.split)
    (cases "(p, r)" rule: drop_permit.cases; simp add: Let_def set_budget_def)

text \<open>The registry when connections leave one after the other, and the removals that announce it.\<close>

fun departures :: "awareness_registry \<Rightarrow> connection_state list \<Rightarrow> u8 list list \<times> awareness_registry" where
  "departures reg [] = ([], reg)"
| "departures reg (c # cs) =
     (let (tombstone, reg) = remove_client (cn_client_id c) (cn_generation c) reg;
          (later, reg) = departures reg cs
      in ((case tombstone of Some e \<Rightarrow> [e] | None \<Rightarrow> []) @ later, reg))"

lemma departures_append:
  "departures reg (cs @ ds) =
     (let (ts, reg) = departures reg cs; (us, reg) = departures reg ds in (ts @ us, reg))"
  by (induction cs arbitrary: reg) (simp_all split: prod.split)

text \<open>From \<open>r\<close> to \<open>r'\<close> exactly the connections \<open>es\<close> left, in this order, and the registry knows it.\<close>

definition departed :: "(uuid \<times> connection_state) list \<Rightarrow> 'z room_scheme \<Rightarrow> 'z room_scheme \<Rightarrow> bool" where
  "departed es r r' \<longleftrightarrow> distinct (map fst es) \<and> set es \<subseteq> set (rm_connections r) \<and>
     rm_connections r' = filter (\<lambda>e. fst e \<notin> fst ` set es) (rm_connections r) \<and>
     rm_awareness r' = snd (departures (rm_awareness r) (map snd es))"

definition tombstones :: "(uuid \<times> connection_state) list \<Rightarrow> 'z room_scheme \<Rightarrow> u8 list list" where
  "tombstones es r = fst (departures (rm_awareness r) (map snd es))"

lemma departed_none: "rm_connections r' = rm_connections r \<Longrightarrow> rm_awareness r' = rm_awareness r \<Longrightarrow> departed [] r r'"
  by (simp add: departed_def)

lemma departed_trans:
  assumes "departed es r s" and "departed es' s t"
  shows "departed (es @ es') r t" and "tombstones (es @ es') r = tombstones es r @ tombstones es' s"
proof -
  have apart: "fst e \<notin> fst ` set es" if "e \<in> set es'" for e
    using assms that by (auto simp: departed_def)
  have "x \<notin> fst ` set es" if "x \<in> fst ` set es'" for x
    using that apart by (elim imageE) simp
  then have "fst ` set es \<inter> fst ` set es' = {}"
    by blast
  moreover have "distinct (map fst es)" "distinct (map fst es')" "set es' \<subseteq> set (rm_connections s)" "set es \<subseteq> set (rm_connections r)"
      "set (rm_connections s) \<subseteq> set (rm_connections r)"
    using assms unfolding departed_def by simp_all
  moreover have "rm_connections t = filter (\<lambda>e. fst e \<notin> fst ` set (es @ es')) (rm_connections r)"
    using assms unfolding departed_def by (simp add: image_Un conj_commute)
  moreover have "rm_awareness t = snd (departures (rm_awareness r) (map snd (es @ es')))"
    using assms unfolding departed_def by (simp add: departures_append split_beta Let_def)
  ultimately show "departed (es @ es') r t"
    unfolding departed_def by (simp add: Un_subset_iff order_trans)
  show "tombstones (es @ es') r = tombstones es r @ tombstones es' s"
    using assms(1) by (simp add: departed_def tombstones_def departures_append split_beta Let_def)
qed

lemma backpressure_departed:
  assumes "conn_of conn_id r = Some c"
  shows "departed [(conn_id, c)] r (evict_for_backpressure conn_id r) \<and>
    rm_pending_awareness (evict_for_backpressure conn_id r) = rm_pending_awareness r @ tombstones [(conn_id, c)] r"
proof -
  obtain t reg where reg: "remove_client (cn_client_id c) (cn_generation c) (rm_awareness r) = (t, reg)"
    by fastforce
  have "hm_remove conn_id (rm_connections r) = filter (\<lambda>e. fst e \<noteq> conn_id) (rm_connections r)"
    by (simp add: hm_remove_def)
  moreover have "(conn_id, c) \<in> set (rm_connections r)"
    using assms by (simp add: conn_of_def map_of_SomeD)
  ultimately show ?thesis
    by (simp add: departed_def tombstones_def evict_for_backpressure_def evict_connection_def assms reg)
      (simp add: push_awareness_def split: option.split)
qed

lemma deliver_departed:
  assumes "outbound_ok r"
  shows "\<exists>es. departed es r (deliver_outbound conn_id bytes k r) \<and>
    rm_pending_awareness (deliver_outbound conn_id bytes k r) = rm_pending_awareness r @ tombstones es r"
  using deliver_outbound_delivered [OF assms, of conn_id bytes k]
proof cases
  case skipped
  then show ?thesis
    by (intro exI [of _ "[]"]) (simp add: departed_none tombstones_def)
next
  case (evicted d)
  with backpressure_departed [OF evicted(2)] show ?thesis
    by auto
next
  case (queued d f n ch)
  then show ?thesis
    by (intro exI [of _ "[]"]) (simp add: departed_none tombstones_def charge_def Let_def)
qed

lemma deliver_all_departed:
  assumes "room_ok r"
  shows "\<exists>es. departed es r (deliver_all message targets r) \<and>
    rm_pending_awareness (deliver_all message targets r) = rm_pending_awareness r @ tombstones es r"
  using assms
proof (induction targets arbitrary: r)
  case Nil
  then show ?case
    by (intro exI [of _ "[]"]) (simp add: deliver_all_def departed_none tombstones_def)
next
  case (Cons t targets)
  obtain i key where t: "t = (i, key)" by (cases t)
  let ?s = "deliver_outbound i (encode_or_empty (DocumentFrame key None message)) Data r"
  have "outbound_ok r"
    using Cons.prems by (simp add: room_ok_def)
  from deliver_departed [OF this] obtain es where es: "departed es r ?s"
    "rm_pending_awareness ?s = rm_pending_awareness r @ tombstones es r"
    by blast
  from Cons.IH [OF room_ok_deliver [OF Cons.prems]] obtain es' where "departed es' ?s (deliver_all message targets ?s)"
    "rm_pending_awareness (deliver_all message targets ?s) = rm_pending_awareness ?s @ tombstones es' ?s"
    by blast
  with es departed_trans [OF es(1)] show ?case
    by (intro exI [of _ "es @ es'"]) (simp add: deliver_all_def t)
qed

lemma flush_loop_gained:
  assumes "room_ok r"
  shows "\<exists>es. departed es r (flush_loop r) \<and> rm_pending_awareness (flush_loop r) = [] \<and>
    (\<forall>i c. (i, c) \<in> set (rm_connections (flush_loop r)) \<longrightarrow> \<not> ch_closed (rm_channels r ! cn_events c) \<longrightarrow>
      gained c (map (\<lambda>e. frame_for c (Awareness e)) (rm_pending_awareness r @ tombstones es r)) r (flush_loop r))"
  using assms
proof (induction r rule: flush_loop.induct)
  case (1 r)
  show ?case
  proof (cases "rm_pending_awareness r")
    case Nil
    then have "flush_loop r = r"
      by (simp add: flush_loop.simps)
    with Nil show ?thesis
      by (intro exI [of _ "[]"]) (simp add: departed_none tombstones_def gained_refl)
  next
    case (Cons encoded rest)
    let ?s = "r\<lparr>rm_pending_awareness := rest\<rparr>"
    let ?t = "deliver_all (Awareness encoded) (recipients ?s) ?s"
    have loop: "flush_loop r = flush_loop ?t"
      by (subst flush_loop.simps) (simp add: Cons Let_def)
    have s: "room_ok ?s" and t: "room_ok ?t"
      using "1.prems" by (simp_all add: room_evict.pending live_room.all)
    from deliver_all_departed [OF s] obtain es where "departed es ?s ?t"
      "rm_pending_awareness ?t = rest @ tombstones es ?s"
      by fastforce
    then have es: "departed es r ?t" and new: "rm_pending_awareness ?t = rest @ tombstones es r"
      by (simp_all add: departed_def tombstones_def)
    from "1.IH" [OF Cons refl t] obtain es' where es': "departed es' ?t (flush_loop ?t)"
      and done': "rm_pending_awareness (flush_loop ?t) = []"
      and tail: "\<And>i c. (i, c) \<in> set (rm_connections (flush_loop ?t)) \<Longrightarrow> \<not> ch_closed (rm_channels ?t ! cn_events c) \<Longrightarrow>
        gained c (map (\<lambda>e. frame_for c (Awareness e)) (rm_pending_awareness ?t @ tombstones es' ?t)) ?t (flush_loop ?t)"
      by blast
    note both = departed_trans [OF es es']
    have "gained c (map (\<lambda>e. frame_for c (Awareness e)) (rm_pending_awareness r @ tombstones (es @ es') r)) r (flush_loop ?t)"
      if c: "(i, c) \<in> set (rm_connections (flush_loop ?t))" and op: "\<not> ch_closed (rm_channels r ! cn_events c)" for i c
    proof -
      have "(i, c) \<in> set (rm_connections ?t)"
        using shrinking.loop [of ?t "set (rm_connections ?t)"] c by auto
      then have first: "gained c [frame_for c (Awareness encoded)] ?s ?t"
        using op by (intro broadcast_gained [OF s]) simp_all
      have "gained c ([frame_for c (Awareness encoded)] @
          map (\<lambda>e. frame_for c (Awareness e)) (rm_pending_awareness ?t @ tombstones es' ?t)) ?s (flush_loop ?t)"
        using first tail [OF c] gained_open [OF first] op by (intro gained_trans [OF first]) simp_all
      then show ?thesis
        by (simp add: gained_def Cons new both(2))
    qed
    with done' both(1) show ?thesis
      unfolding loop by blast
  qed
qed

text \<open>C12: A flush of the awareness queue ends with the queue empty, and tells whoever stays who has gone. There is
  an order in which the flush evicted its slow peers: exactly these connections are gone from the room, and the registry
  is the one left by removing their clients in that order (a client that a newer connection took over stays). Every
  connection that is still in the room and whose transport is listening has received, in order and with nothing in
  between, every queued message and then the removals these departures announce, one for each evicted peer whose own
  presence was live: all remaining peers see the same sequence.\<close>

theorem presence_reaches_everyone:
  assumes "room_reach r" and "\<not> rm_flushing_awareness r"
  shows "\<exists>es. departed es r (flush_pending_awareness r) \<and> rm_pending_awareness (flush_pending_awareness r) = [] \<and>
    (\<forall>i c. conn_of i (flush_pending_awareness r) = Some c \<and> \<not> ch_closed (rm_channels r ! cn_events c) \<longrightarrow>
      gained c (map (\<lambda>e. frame_for c (Awareness e)) (rm_pending_awareness r @ tombstones es r)) r
        (flush_pending_awareness r))"
proof -
  let ?r = "r\<lparr>rm_flushing_awareness := True\<rparr>"
  have "room_ok ?r"
    using room_reach_ok [OF assms(1)] by (rule live_room.flushing)
  from flush_loop_gained [OF this] obtain es where "departed es ?r (flush_loop ?r)" "rm_pending_awareness (flush_loop ?r) = []"
    and "\<And>i c. (i, c) \<in> set (rm_connections (flush_loop ?r)) \<Longrightarrow> \<not> ch_closed (rm_channels r ! cn_events c) \<Longrightarrow>
      gained c (map (\<lambda>e. frame_for c (Awareness e)) (rm_pending_awareness r @ tombstones es ?r)) ?r (flush_loop ?r)"
    by auto
  then show ?thesis
    using assms(2) by (intro exI [of _ es])
      (auto simp: flush_pending_awareness_def gained_def conn_of_def departed_def tombstones_def dest!: map_of_SomeD)
qed

section \<open>A small room\<close>

definition sample_session :: collab_session where
  "sample_session = \<lparr>cs_session_id = 11, cs_user_id = 5, cs_given_name = ''A'', cs_family_name = None, cs_locale = ''en''\<rparr>"

definition sample_room_config :: room_config where
  "sample_room_config =
     \<lparr>cfg_max_connections_per_room = 8, cfg_max_pending_bytes_per_connection = 100,
      cfg_max_outbound_frames_per_connection = 3, cfg_max_outbound_bytes_per_connection = 200,
      cfg_client_id_ttl_ms = 1000, cfg_revision_session_snapshot = False\<rparr>"

definition sample_start :: room where
  "sample_start =
     \<lparr>rm_config = sample_room_config, rm_channels = [], rm_budgets = [], rm_connections = [],
      rm_awareness = registry_new, rm_pending_awareness = [], rm_flushing_awareness = False,
      rm_client_id_owner = [], rm_user_reject_budgets = [], rm_writer_generation = Some 1,
      rm_committed_loaded = True, rm_fence_lost = False, rm_session_revision = None\<rparr>"

definition sample_join :: "uuid \<Rightarrow> nat \<Rightarrow> room_join" where
  "sample_join conn_id h =
     \<lparr>jn_conn_id = conn_id, jn_session = sample_session, jn_client_id = 7, jn_routing_key = ''d'',
      jn_read_only = False, jn_events = h, jn_cancel = Some h\<rparr>"

definition sample_room :: room where
  "sample_room = snd (admit_connection 0 False (sample_join 1 0) (open_socket sample_start))"

definition sample_pair :: room where
  "sample_pair = snd (admit_connection 0 False (sample_join 2 1) (open_socket sample_room))"

definition sample_sending :: room where
  "sample_sending = transport_recv 0 (deliver_outbound 1 [1, 2, 3] Data sample_room)"

lemmas sample_defs = sample_session_def sample_room_config_def sample_start_def sample_join_def
  sample_room_def sample_pair_def sample_sending_def

lemma sample_room_reach: "room_reach sample_room"
proof -
  have "room_reach sample_start"
    by (rule room_reach.start) (simp_all add: sample_start_def)
  then have "room_reach (open_socket sample_start)"
    by (rule room_reach.step) (rule room_step.socket)
  then show ?thesis
    unfolding sample_room_def
    by (rule room_reach.step)
      (rule room_step.admit, simp add: join_ready_def sample_join_def open_socket_def sample_start_def frames_of_def)
qed

lemma sample_room_conn: "conn_of 1 sample_room = Some (new_connection False (sample_join 1 0) 0 1)"
  by code_simp

lemma sample_room_eq:
  "sample_room = sample_start\<lparr>
     rm_channels := [\<lparr>ch_capacity = 8, ch_queue = [], ch_sending = None, ch_closed = False, ch_cancel = None\<rparr>],
     rm_budgets := [new_budget sample_room_config],
     rm_connections := [(1, new_connection False (sample_join 1 0) 0 1)],
     rm_awareness := \<lparr>by_client = [(7, \<lparr>clock = 0, generation = 1, Awareness.client_record.state = None, Awareness.client_record.seq = 1\<rparr>)],
       reg_generation = 1, reg_seq = 1\<rparr>,
     rm_client_id_owner := [(7, (5, 0))]\<rparr>"
  by code_simp

lemma sample_pair_eq:
  "sample_pair = sample_start\<lparr>
     rm_channels := [\<lparr>ch_capacity = 8, ch_queue = [], ch_sending = None, ch_closed = False, ch_cancel = None\<rparr>,
       \<lparr>ch_capacity = 8, ch_queue = [], ch_sending = None, ch_closed = False, ch_cancel = None\<rparr>],
     rm_budgets := [new_budget sample_room_config, new_budget sample_room_config],
     rm_connections := [(2, new_connection False (sample_join 2 1) 1 2), (1, new_connection False (sample_join 1 0) 0 1)],
     rm_awareness := \<lparr>by_client = [(7, \<lparr>clock = 0, generation = 2, Awareness.client_record.state = None, Awareness.client_record.seq = 1\<rparr>)],
       reg_generation = 2, reg_seq = 1\<rparr>,
     rm_client_id_owner := [(7, (5, 0))]\<rparr>"
  by (simp add: sample_pair_def sample_room_eq admit_connection_def reserve_client_id_def open_socket_def
      sample_start_def sample_room_config_def sample_join_def sample_session_def insert_connection_def
      connection_generation_def sat_add_def new_connection_def new_budget_def claim_connection_client_def put_client_def
      greet_connection_def encode_all_def live_updates_def flush_pending_awareness_def flush_loop.simps Let_def
      List.map_filter_def)

lemma sample_pair_conns:
  "rm_connections sample_pair = [(2, new_connection False (sample_join 2 1) 1 2), (1, new_connection False (sample_join 1 0) 0 1)]"
  "rm_flushing_awareness sample_pair = False" "rm_pending_awareness sample_pair = []"
  by (simp_all add: sample_pair_eq sample_start_def)

lemma sample_pair_reach: "room_reach sample_pair"
proof -
  from sample_room_reach have "room_reach (open_socket sample_room)"
    by (rule room_reach.step) (rule room_step.socket)
  moreover have "join_ready (sample_join 2 1) (open_socket sample_room)"
    by code_simp
  ultimately show ?thesis
    unfolding sample_pair_def by (blast intro: room_reach.step room_step.admit)
qed

lemma sample_sending_reach: "room_reach sample_sending"
proof -
  from sample_room_reach have "room_reach (deliver_outbound 1 [1, 2, 3] Data sample_room)"
    by (rule room_reach.step) (rule room_step.deliver)
  moreover have "0 < length (rm_channels (deliver_outbound 1 [1, 2, 3] Data sample_room))"
    by code_simp
  ultimately show ?thesis
    unfolding sample_sending_def by (blast intro: room_reach.step room_step.recv)
qed

theorem outbound_bounded_witness:
  "length (frames_on 0 sample_sending) + bd_permits (rm_budgets sample_sending ! 0) = 3 \<and>
   bd_queued_bytes (rm_budgets sample_sending ! 0) = 51"
proof -
  have "0 < length (rm_budgets sample_sending)" "cfg_max_outbound_frames_per_connection (rm_config sample_sending) = 3"
    "map (length \<circ> of_bytes) (frames_on 0 sample_sending) = [3]"
    by code_simp+
  with outbound_bounded [OF sample_sending_reach, of 0] show ?thesis
    by (cases "frames_on 0 sample_sending") (auto simp: OUTBOUND_FRAME_OVERHEAD_def)
qed

theorem ordered_close_behind_queue_witness:
  "ch_queue (rm_channels (close_connection_ordered 1 1008 ''update rejected'' sample_sending) ! 0) =
     [CloseEvent 1008 ''update rejected'']"
proof -
  let ?c = "new_connection False (sample_join 1 0) 0 1"
  have "conn_of 1 sample_sending = Some ?c" "\<not> ch_closed (rm_channels sample_sending ! cn_events ?c)"
    "ch_sending (rm_channels sample_sending ! cn_events ?c) \<noteq> None"
    "list_all (\<lambda>f. of_permit f \<noteq> None) (frames_of (rm_channels sample_sending ! cn_events ?c))"
    by code_simp+
  from ordered_close_behind_queue [OF sample_sending_reach this(1) refl this(2-4)]
  have "rm_channels (close_connection_ordered 1 1008 ''update rejected'' sample_sending) ! cn_events ?c =
      (rm_channels sample_sending ! cn_events ?c)\<lparr>ch_queue :=
        ch_queue (rm_channels sample_sending ! cn_events ?c) @ [CloseEvent 1008 ''update rejected'']\<rparr>" .
  moreover have "ch_queue (rm_channels sample_sending ! 0) = []"
    by code_simp
  ultimately show ?thesis
    by (simp add: new_connection_def sample_join_def)
qed

theorem client_ids_exclusive_witness:
  "\<exists>c d. conn_of 1 sample_pair = Some c \<and> conn_of 2 sample_pair = Some d \<and> cn_client_id c = cn_client_id d \<and>
     cs_user_id (cn_session c) = cs_user_id (cn_session d)"
proof -
  let ?c = "new_connection False (sample_join 1 0) 0 1" and ?d = "new_connection False (sample_join 2 1) 1 2"
  have "conn_of 1 sample_pair = Some ?c" "conn_of 2 sample_pair = Some ?d" "cn_client_id ?c = cn_client_id ?d"
    by (simp_all add: conn_of_def sample_pair_conns new_connection_def sample_join_def)
  with client_ids_exclusive [OF sample_pair_reach this] show ?thesis
    by blast
qed

text \<open>A pair of which the second peer, whose presence is live, has used up its frames.\<close>

definition slow_frame :: room_client_event where
  "slow_frame = Outbound \<lparr>of_bytes = [1, 2, 3], of_kind = Data, of_permit = Some (1, 51)\<rparr>"

definition sample_slow :: room where
  "sample_slow = sample_start\<lparr>
     rm_channels :=
       [\<lparr>ch_capacity = 8, ch_queue = [], ch_sending = None, ch_closed = False, ch_cancel = None\<rparr>,
        \<lparr>ch_capacity = 8, ch_queue = [slow_frame, slow_frame, slow_frame], ch_sending = None, ch_closed = False, ch_cancel = None\<rparr>],
     rm_budgets := [new_budget sample_room_config, (new_budget sample_room_config)\<lparr>bd_permits := 0, bd_queued_bytes := 153\<rparr>],
     rm_connections := [(2, new_connection False (sample_join 2 1) 1 2), (1, new_connection False (sample_join 1 0) 0 1)],
     rm_awareness := \<lparr>by_client = [(7, \<lparr>clock = 1, generation = 2, Awareness.client_record.state = Some [123, 125],
          Awareness.client_record.seq = 2\<rparr>)], reg_generation = 2, reg_seq = 2\<rparr>,
     rm_pending_awareness := [[1, 7, 1]], rm_client_id_owner := [(7, (5, 0))]\<rparr>"

lemma sample_slow_reach: "room_reach sample_slow"
proof -
  let ?r = "deliver_outbound 2 [1, 2, 3] Data (deliver_outbound 2 [1, 2, 3] Data (deliver_outbound 2 [1, 2, 3] Data sample_pair))"
  have "room_reach ?r"
    by (intro room_reach.step [OF _ room_step.deliver] sample_pair_reach)
  moreover have "rm_config ?r = rm_config sample_slow \<and> rm_channels ?r = rm_channels sample_slow \<and>
      rm_budgets ?r = rm_budgets sample_slow \<and> rm_connections ?r = rm_connections sample_slow"
    by (simp add: sample_pair_eq sample_slow_def slow_frame_def deliver_outbound_def send_accounted_def try_send_def conn_of_def
        new_connection_def sample_join_def new_budget_def sample_room_config_def sample_start_def set_budget_def set_channel_def
        OUTBOUND_FRAME_OVERHEAD_def Let_def)
  ultimately show ?thesis
    by (intro room_reach.step [of ?r sample_slow] room_step.internal) simp_all
qed

lemma distinct_singleton: "distinct xs \<Longrightarrow> set xs = {x} \<Longrightarrow> xs = [x]"
  by (cases xs; cases "tl xs") auto

theorem presence_reaches_everyone_witness:
  "\<exists>c. conn_of 2 (flush_pending_awareness sample_slow) = None \<and> conn_of 1 (flush_pending_awareness sample_slow) = Some c \<and>
     gained c [frame_for c (Awareness [1, 7, 1]),
         frame_for c (Awareness (encode_awareness [\<lparr>u_client_id = 7, u_clock = 2, u_state = None\<rparr>]))]
       sample_slow (flush_pending_awareness sample_slow)"
proof -
  let ?c = "new_connection False (sample_join 1 0) 0 1" and ?d = "new_connection False (sample_join 2 1) 1 2"
  have r: "conn_of 1 (flush_pending_awareness sample_slow) = Some ?c" "conn_of 2 (flush_pending_awareness sample_slow) = None"
      "rm_connections sample_slow = [(2, ?d), (1, ?c)]"
      "\<not> ch_closed (rm_channels sample_slow ! cn_events ?c)" "\<not> rm_flushing_awareness sample_slow"
      "rm_pending_awareness sample_slow = [[1, 7, 1]]"
      "tombstones [(2, ?d)] sample_slow = [encode_awareness [\<lparr>u_client_id = 7, u_clock = 2, u_state = None\<rparr>]]"
    by code_simp+
  from presence_reaches_everyone [OF sample_slow_reach r(5)] r(1,4) obtain es where
    es: "departed es sample_slow (flush_pending_awareness sample_slow)"
    and all: "gained ?c (map (\<lambda>e. frame_for ?c (Awareness e)) (rm_pending_awareness sample_slow @ tombstones es sample_slow))
      sample_slow (flush_pending_awareness sample_slow)"
    by blast
  have "es = [(2, ?d)]"
  proof -
    have "(1, ?c) \<in> set (rm_connections (flush_pending_awareness sample_slow))"
      using r(1) by (simp add: conn_of_def map_of_SomeD)
    then have one: "1 \<notin> fst ` set es"
      using es by (simp add: departed_def)
    have "2 \<in> fst ` set es"
      using r(2,3) es by (auto simp: departed_def conn_of_def split: if_splits)
    moreover have "set es \<subseteq> {(2, ?d), (1, ?c)}"
      using es r(3) by (simp add: departed_def)
    ultimately have "set es = {(2, ?d)}"
      using one by force
    moreover have "distinct es"
      using es by (auto simp: departed_def distinct_map)
    ultimately show ?thesis
      using distinct_singleton [of es "(2, ?d)"] by simp
  qed
  with all r show ?thesis
    by auto
qed

end
