(* ===== verification/RoomWorld.thy ===== *)
theory RoomWorld
  imports RoomOut Engine "HOL-Library.State_Monad"
begin

text \<open>
  The world a room actor runs in. The actor (\<open>RoomActor\<close> of \<open>src/src/collab/room.rs\<close>)
  extends the connections of \<open>RoomOut\<close> by its guard, its cached copy of the durable document and
  its engine bridge (\<open>src/src/collab/engine_bridge.rs\<close>). The world adds the rows of
  \<open>CollabStore\<close> and the other rooms on the same resource with the writer generation each holds.
  Whatever the actor cannot decide (clocks, authorization tables, driver faults, replies of the engine
  child, transactions of other rooms, socket tasks that run while the actor waits) comes from a sequence of
  moments; every await of a handler consumes the next one. Handlers are values of the state monad.
\<close>

section \<open>The engine bridge\<close>

text \<open>\<open>EngineStatus\<close>; the inventory that only the archive reads is left out.\<close>

record 'n engine_ok =
  eo_applied :: bool
  eo_pending :: bool
  eo_durable :: bool
  eo_skip_gc :: bool
  eo_offset_kind :: string
  eo_encoding :: u8
  eo_fragment :: string
  eo_update_b64 :: "string option"
  eo_state_vector_b64 :: "string option"
  eo_xml_string :: "string option"
  eo_xml_len :: "u32 option"
  eo_content_json :: "'n json option"
  eo_yrs :: "string option"

datatype 'n engine_status = StatusOk "'n engine_ok" | Failed engine_failure

fun is_applied_ok :: "'n engine_status \<Rightarrow> bool" where
  "is_applied_ok (StatusOk s) = eo_applied s"
| "is_applied_ok (Failed _) = False"

text \<open>What the bridge's thread meets: it dies, or the child answers (a spawn succeeds or fails).\<close>

datatype 'n child_reply = CallPanics | Answers "'n engine_status"

datatype spawn_reply = SpawnPanics | SpawnFails engine_failure | Spawns

datatype recycle_error = BridgeDead | SpawnRefused engine_failure

record engine_bridge =
  eb_running :: bool
  eb_child :: bool
  eb_ops_used :: u32
  eb_limits :: engine_limits

text \<open>\<open>None\<close> is \<open>BridgeError::Dead\<close>.\<close>

definition bridge_call :: "'n child_reply \<Rightarrow> engine_bridge \<Rightarrow> 'n engine_status option \<times> engine_bridge" where
  "bridge_call reply b =
     (if \<not> eb_running b then (None, b)
      else if \<not> eb_child b then (Some (Failed (WorkerFailure SessionDead)), b)
      else case reply of
             CallPanics \<Rightarrow> (None, b\<lparr>eb_running := False, eb_child := False\<rparr>)
           | Answers s \<Rightarrow> (Some s, b\<lparr>eb_ops_used := eb_ops_used b + 1\<rparr>))"

definition bridge_recycle :: "spawn_reply \<Rightarrow> engine_bridge \<Rightarrow> recycle_error option \<times> engine_bridge" where
  "bridge_recycle reply b =
     (if \<not> eb_running b then (Some BridgeDead, b)
      else case reply of
             SpawnPanics \<Rightarrow> (Some BridgeDead, b\<lparr>eb_running := False, eb_child := False\<rparr>)
           | SpawnFails f \<Rightarrow> (Some (SpawnRefused f), b\<lparr>eb_child := False\<rparr>)
           | Spawns \<Rightarrow> (None, b\<lparr>eb_child := True, eb_ops_used := 0\<rparr>))"

definition needs_recycle :: "engine_bridge \<Rightarrow> bool" where
  "needs_recycle b \<longleftrightarrow>
     (let max_ops = e_max_ops (eb_limits b) in max_ops > 0 \<and> eb_ops_used b \<ge> max_ops - 1)"

definition is_slot_cap_refusal :: "engine_failure \<Rightarrow> bool" where
  "is_slot_cap_refusal f \<longleftrightarrow> f = ResourceLimit LOps"

section \<open>Validation\<close>

datatype bundle_validation = BundleOk | Rejected | CapacityPressure | ValidatorUnavailable

fun admission_resource_limit :: "limit_kind \<Rightarrow> bundle_validation" where
  "admission_resource_limit LTime = ValidatorUnavailable"
| "admission_resource_limit LOps = ValidatorUnavailable"
| "admission_resource_limit _ = Rejected"

fun classify_admission_load :: "'n engine_status \<Rightarrow> bundle_validation + unit" where
  "classify_admission_load (StatusOk s) = (if eo_applied s then Inr () else Inl Rejected)"
| "classify_admission_load (Failed Malformed) = Inl Rejected"
| "classify_admission_load (Failed (Unsupported _)) = Inl Rejected"
| "classify_admission_load (Failed (ResourceLimit k)) = Inl (admission_resource_limit k)"
| "classify_admission_load (Failed (WorkerFailure _)) = Inl ValidatorUnavailable"

definition classify_admission_snapshot ::
    "'n engine_status \<Rightarrow> u8 list option \<Rightarrow> bundle_validation" where
  "classify_admission_snapshot outcome decoded =
     (case outcome of
        StatusOk s \<Rightarrow>
          (case eo_update_b64 s of
             Some _ \<Rightarrow>
               (case decoded of
                  Some bytes \<Rightarrow> if len bytes \<le> MAX_OUTPUT_BYTES then BundleOk else Rejected
                | None \<Rightarrow> ValidatorUnavailable)
           | None \<Rightarrow> ValidatorUnavailable)
      | Failed _ \<Rightarrow>
          (case classify_admission_load outcome of Inl v \<Rightarrow> v | Inr _ \<Rightarrow> ValidatorUnavailable))"

text \<open>A short-lived validator child: whether it spawns, and what it answers to \<open>Load\<close> and
  \<open>Snapshot\<close>. Its blocking task may fail to join.\<close>

record 'n validator =
  vd_spawn :: "engine_failure option"
  vd_load :: "request \<Rightarrow> 'n engine_status"
  vd_snapshot :: "'n engine_status"
  vd_joins :: bool

definition decoded_update :: "(string \<Rightarrow> u8 list option) \<Rightarrow> 'n engine_status \<Rightarrow> u8 list option" where
  "decoded_update b64_decode outcome =
     (case outcome of
        StatusOk s \<Rightarrow> Option.bind (eo_update_b64 s) b64_decode
      | Failed _ \<Rightarrow> None)"

definition validate_snapshot_only ::
    "(string \<Rightarrow> u8 list option) \<Rightarrow> 'n validator \<Rightarrow> u8 list \<Rightarrow> bool" where
  "validate_snapshot_only b64_decode v snapshot =
     (if \<not> vd_joins v then False
      else if snapshot = [] then False
      else if vd_spawn v \<noteq> None then False
      else if \<not> is_applied_ok (vd_load v (ReqLoad (Some snapshot) [] 1)) then False
      else case decoded_update b64_decode (vd_snapshot v) of
             Some bytes \<Rightarrow> len bytes \<le> MAX_OUTPUT_BYTES
           | None \<Rightarrow> False)"

definition validate_recovery_bundle ::
    "(string \<Rightarrow> u8 list option) \<Rightarrow> 'n validator \<Rightarrow> u8 list \<Rightarrow> u8 list list \<Rightarrow> u8 list \<Rightarrow> bundle_validation" where
  "validate_recovery_bundle b64_decode v snapshot committed_tail candidate =
     (if \<not> vd_joins v then ValidatorUnavailable
      else if candidate = [] then Rejected
      else case vd_spawn v of
             Some f \<Rightarrow> if is_slot_cap_refusal f then CapacityPressure else ValidatorUnavailable
           | None \<Rightarrow>
               (case classify_admission_load (vd_load v (ReqLoad (Some snapshot) (committed_tail @ [candidate]) 1)) of
                  Inl outcome \<Rightarrow> outcome
                | Inr _ \<Rightarrow>
                    (case vd_snapshot v of
                       StatusOk s \<Rightarrow>
                         (case eo_update_b64 s of
                            Some b \<Rightarrow> classify_admission_snapshot (StatusOk s) (b64_decode b)
                          | None \<Rightarrow> classify_admission_snapshot (StatusOk s) (Some []))
                     | other \<Rightarrow> classify_admission_snapshot other (Some []))))"

section \<open>The actor\<close>

record committed_bundle =
  cm_snapshot :: "u8 list"
  cm_tail_payloads :: "u8 list list"
  cm_tail_seq :: int
  cm_snapshot_cutoff_seq :: int

text \<open>\<open>ra_libsql_remote\<close> tells the remote family backend from the local ones;
  \<open>ra_owner_record\<close> is the record the room leaves with the hub when the fate of a remote write is
  unknown.\<close>

record room_actor = room +
  ra_workspace_id :: uuid
  ra_document_id :: uuid
  ra_kind :: collab_kind
  ra_backend :: db_backend
  ra_libsql_remote :: bool
  ra_engine :: engine_bridge
  ra_room_guard :: "room_guard option"
  ra_guard_cleanup_failed :: bool
  ra_owner_record :: "native_fence option"
  ra_committed :: committed_bundle
  ra_committed_writer_generation :: int
  ra_fifo_seq :: nat
  ra_compact_unhealthy :: bool
  ra_compact_retry_at_tail_len :: "nat option"
  ra_primary_loaded :: bool
  ra_primary_dirty :: bool
  ra_admission_reserved :: bool

definition is_remote_task_room :: "room_actor \<Rightarrow> bool" where
  "is_remote_task_room r \<longleftrightarrow> ra_kind r = Task \<and> ra_libsql_remote r"

definition actor_fence :: "room_actor \<Rightarrow> native_fence option" where
  "actor_fence r = Option.bind (ra_room_guard r) family_fence"

definition actor_delivery_fence :: "room_actor \<Rightarrow> delivery_fence option" where
  "actor_delivery_fence r = Option.bind (ra_room_guard r) delivery_fence_of"

definition native_consumer_proof :: "room_actor \<Rightarrow> consumer_proof option" where
  "native_consumer_proof r =
     map_option (\<lambda>f. \<lparr>cp_room = f, cp_generation = ra_committed_writer_generation r,
                      cp_tail = cm_tail_seq (ra_committed r)\<rparr>) (actor_fence r)"

definition set_committed_from_load :: "collab_load_state \<Rightarrow> room_actor \<Rightarrow> room_actor" where
  "set_committed_from_load l r =
     r\<lparr>ra_committed_writer_generation := l_writer_generation l,
       ra_committed := \<lparr>cm_snapshot = l_snapshot l, cm_tail_payloads = map payload (l_tail l),
          cm_tail_seq = l_tail_seq l, cm_snapshot_cutoff_seq = l_snapshot_cutoff_seq l\<rparr>,
       rm_committed_loaded := True\<rparr>"

section \<open>Other rooms and socket tasks\<close>

text \<open>A transaction of another room on the same resource, over the same kind of database. That room keeps the
  generation its last claim gave it and writes with no other. Writes outside the rooms, which use the generation they
  have just read, are not among them.\<close>

datatype 'n rival_op =
  RivalClaim tx_ctx room_guard
| RivalAppend tx_ctx room_guard int uuid "u8 list"
| RivalCompact tx_ctx "native_fence option" int int "u8 list"
| RivalProject tx_ctx "native_fence option" int "'n json" string string
| RivalLoad tx_ctx "native_fence option"

definition on_backend :: "db_backend \<Rightarrow> tx_ctx \<Rightarrow> tx_ctx" where
  "on_backend b ctx = ctx\<lparr>x_actor := (x_actor ctx)\<lparr>a_backend := b\<rparr>\<rparr>"

fun run_rival ::
    "(u8 list \<Rightarrow> u8 list) \<Rightarrow> db_backend \<Rightarrow> nat \<times> 'n rival_op \<Rightarrow> (nat \<rightharpoonup> int) \<times> 'n native_store \<Rightarrow>
     (nat \<rightharpoonup> int) \<times> 'n native_store" where
  "run_rival sha256 b (i, RivalClaim ctx guard) (held_by, st) =
     (case guard_claim_writer (on_backend b ctx) guard st of
        (st', _, Done claim) \<Rightarrow> (held_by(i \<mapsto> cw_writer_generation claim), st')
      | (st', _, _) \<Rightarrow> (held_by, st'))"
| "run_rival sha256 b (i, RivalAppend ctx guard expected_tail operation bytes) (held_by, st) =
     (case held_by i of
        None \<Rightarrow> (held_by, st)
      | Some g \<Rightarrow>
          (held_by, fst (guard_append sha256 (on_backend b ctx) guard
             \<lparr>ai_writer_generation = g, ai_expected_tail_seq = expected_tail, ai_op_id = operation,
              ai_payload = bytes\<rparr> st)))"
| "run_rival sha256 b (i, RivalCompact ctx fence cutoff expected_tail snapshot) (held_by, st) =
     (case held_by i of
        None \<Rightarrow> (held_by, st)
      | Some g \<Rightarrow>
          (held_by, fst (compact_collab_snapshot_in_room (on_backend b ctx) fence
             \<lparr>ci_writer_generation = g, ci_cutoff_seq = cutoff, ci_expected_tail_seq = expected_tail,
              ci_new_snapshot = snapshot\<rparr> st)))"
| "run_rival sha256 b (i, RivalProject ctx fence expected_tail content text chosung) (held_by, st) =
     (case held_by i of
        None \<Rightarrow> (held_by, st)
      | Some g \<Rightarrow>
          (held_by, fst (project_derived_body_in_room (on_backend b ctx) fence
             \<lparr>pi_writer_generation = g, pi_expected_tail_seq = expected_tail, pi_content_json = content,
              pi_text = text, pi_chosung = chosung\<rparr> st)))"
| "run_rival sha256 b (i, RivalLoad ctx fence) (held_by, st) =
     (held_by, fst (load_room_collab_readonly (on_backend b ctx) fence st))"

datatype transport_op = SocketOpens | PreAuth nat "u8 list" | Recv nat | FrameSent nat | SocketEnds nat

fun run_transport :: "transport_op \<Rightarrow> 'z room_scheme \<Rightarrow> 'z room_scheme" where
  "run_transport SocketOpens r = open_socket r"
| "run_transport (PreAuth h bytes) r = (if h < length (rm_channels r) then pre_auth_send h bytes r else r)"
| "run_transport (Recv h) r = (if h < length (rm_channels r) then transport_recv h r else r)"
| "run_transport (FrameSent h) r = (if h < length (rm_channels r) then transport_sent h r else r)"
| "run_transport (SocketEnds h) r = (if h < length (rm_channels r) then transport_exit h r else r)"

section \<open>Moments and the world\<close>

record 'n moment =
  mo_clock :: nat
  mo_before :: authz_db
  mo_db :: authz_db
  mo_now :: time
  mo_end :: time
  mo_fault :: tx_fault
  mo_rivals :: "(nat \<times> 'n rival_op) list"
  mo_transport :: "transport_op list"
  mo_reply :: "request \<Rightarrow> 'n child_reply"
  mo_spawn :: spawn_reply
  mo_engine_bin :: bool
  mo_validator :: "'n validator"
  mo_released :: bool
  mo_in_time :: bool
  mo_uuid :: uuid

text \<open>The crates the handlers call, and \<open>prepare_derived_body\<close>, whose text normalization is a
  crate's: the text of a document body and its initial consonants, when the body is a document within
  its size.\<close>

record 'n environment =
  en_moments :: "nat \<Rightarrow> 'n moment"
  en_sha256 :: "u8 list \<Rightarrow> u8 list"
  en_b64_decode :: "string \<Rightarrow> u8 list option"
  en_prepare_derived_body :: "'n json \<Rightarrow> (string \<times> string) option"
  en_uuid_parse :: "string \<Rightarrow> uuid option"
  en_uuid_show :: "uuid \<Rightarrow> string"
  en_presence :: "'n presence_crates"

text \<open>\<open>w_statuses\<close> is a history variable: the \<open>SyncStatus\<close> replies the room has made.\<close>

record 'n world =
  w_room :: room_actor
  w_store :: "'n native_store"
  w_held_by :: "nat \<rightharpoonup> int"
  w_tick :: nat
  w_statuses :: "(uuid \<times> bool) list"

type_synonym ('n, 'a) act = "('n world, 'a) state"

section \<open>Actions\<close>

definition act_return :: "'a \<Rightarrow> ('n, 'a) act" where
  "act_return x = State_Monad.return x"

text \<open>What the rest of the system does before the actor goes on.\<close>

definition others_run :: "'n environment \<Rightarrow> 'n moment \<Rightarrow> 'n world \<Rightarrow> 'n world" where
  "others_run env m w =
     (let (held_by, st) = fold (run_rival (en_sha256 env) (ra_backend (w_room w))) (mo_rivals m)
            (w_held_by w, w_store w)
      in w\<lparr>w_tick := w_tick w + 1, w_held_by := held_by, w_store := st,
           w_room := fold run_transport (mo_transport m) (w_room w)\<rparr>)"

definition await :: "'n environment \<Rightarrow> ('n, 'n moment) act" where
  "await env = do {
     w \<leftarrow> State_Monad.get;
     let m = en_moments env (w_tick w);
     State_Monad.set (others_run env m w);
     act_return m }"

definition ask_room :: "(room_actor \<Rightarrow> 'a) \<Rightarrow> ('n, 'a) act" where
  "ask_room f = do { w \<leftarrow> State_Monad.get; act_return (f (w_room w)) }"

definition on_room_result :: "(room_actor \<Rightarrow> 'a \<times> room_actor) \<Rightarrow> ('n, 'a) act" where
  "on_room_result f = do {
     w \<leftarrow> State_Monad.get;
     let (x, r) = f (w_room w);
     State_Monad.set (w\<lparr>w_room := r\<rparr>);
     act_return x }"

definition on_room :: "(room_actor \<Rightarrow> room_actor) \<Rightarrow> ('n, unit) act" where
  "on_room f = on_room_result (\<lambda>r. ((), f r))"

definition on_store :: "('n native_store \<Rightarrow> 'n native_store \<times> 'a) \<Rightarrow> ('n, 'a) act" where
  "on_store f = do {
     w \<leftarrow> State_Monad.get;
     let (st, x) = f (w_store w);
     State_Monad.set (w\<lparr>w_store := st\<rparr>);
     act_return x }"

definition log_status :: "uuid \<Rightarrow> bool \<Rightarrow> ('n, unit) act" where
  "log_status conn_id ok = do {
     w \<leftarrow> State_Monad.get;
     State_Monad.set (w\<lparr>w_statuses := w_statuses w @ [(conn_id, ok)]\<rparr>) }"

text \<open>A transaction for an actor: its context is the moment it runs in.\<close>

definition tx_context :: "'n moment \<Rightarrow> room_actor \<Rightarrow> uuid \<Rightarrow> uuid \<Rightarrow> tx_ctx" where
  "tx_context m r actor credential =
     \<lparr>x_before = mo_before m, x_db = mo_db m,
      x_actor = \<lparr>a_backend = ra_backend r, a_now = mo_now m, a_kind = ra_kind r,
                 a_workspace = ra_workspace_id r, a_actor = actor, a_credential = credential,
                 a_resource = ra_document_id r\<rparr>,
      x_end = mo_end m, x_fault = mo_fault m\<rparr>"

definition transact ::
    "'n environment \<Rightarrow> uuid \<Rightarrow> uuid \<Rightarrow>
     (tx_ctx \<Rightarrow> room_actor \<Rightarrow> 'n native_store \<Rightarrow> 'n native_store \<times> 'a) \<Rightarrow> ('n, 'a) act" where
  "transact env actor credential f = do {
     m \<leftarrow> await env;
     r \<leftarrow> ask_room id;
     on_store (f (tx_context m r actor credential) r) }"

definition engine_call :: "'n environment \<Rightarrow> request \<Rightarrow> ('n, 'n engine_status option) act" where
  "engine_call env req = do {
     m \<leftarrow> await env;
     on_room_result (\<lambda>r. let (x, b) = bridge_call (mo_reply m req) (ra_engine r) in (x, r\<lparr>ra_engine := b\<rparr>)) }"

definition engine_recycle :: "'n environment \<Rightarrow> ('n, recycle_error option) act" where
  "engine_recycle env = do {
     m \<leftarrow> await env;
     on_room_result (\<lambda>r. let (x, b) = bridge_recycle (mo_spawn m) (ra_engine r) in (x, r\<lparr>ra_engine := b\<rparr>)) }"

text \<open>Reading the clock or the file system is not an await.\<close>

definition peek :: "'n environment \<Rightarrow> ('n, 'n moment) act" where
  "peek env = do { w \<leftarrow> State_Monad.get; act_return (en_moments env (w_tick w)) }"

definition now_ms :: "'n environment \<Rightarrow> ('n, nat) act" where
  "now_ms env = do { m \<leftarrow> peek env; act_return (mo_clock m) }"

end
