(* ===== verification/Room.thy ===== *)
theory Room
  imports RoomWorld
begin

text \<open>
  The handlers of the room actor (\<open>src/src/collab/room.rs\<close>): loading and recycling the primary
  engine, the terminal failure paths, the two sync steps with validation, durable append,
  reconciliation and broadcast, persisting and compaction, joins, frames, and the revocation sweep.
\<close>

section \<open>The primary engine\<close>

datatype join_error =
  AdmissionDenied | UnsupportedKind | RoomFull | CapacityRetry | EngineUnavailable | WriterStale | JoinDbError

definition load_engine_primary :: "'n environment \<Rightarrow> ('n, join_error + unit) act" where
  "load_engine_primary env = do {
     bundle \<leftarrow> ask_room ra_committed;
     report \<leftarrow> engine_call env (ReqLoad (Some (cm_snapshot bundle)) (cm_tail_payloads bundle) 1);
     act_return (case report of
         None \<Rightarrow> Inl EngineUnavailable
       | Some outcome \<Rightarrow> if is_applied_ok outcome then Inr () else Inl EngineUnavailable) }"

definition primary_lost :: "room_actor \<Rightarrow> room_actor" where
  "primary_lost r = r\<lparr>ra_primary_loaded := False, ra_primary_dirty := True\<rparr>"

definition reload_primary_from_committed :: "'n environment \<Rightarrow> ('n, join_error + unit) act" where
  "reload_primary_from_committed env = do {
     recycled \<leftarrow> engine_recycle env;
     case recycled of
       Some err \<Rightarrow> do {
         on_room primary_lost;
         act_return (Inl (case err of
             SpawnRefused report \<Rightarrow> if is_slot_cap_refusal report then CapacityRetry else EngineUnavailable
           | BridgeDead \<Rightarrow> EngineUnavailable)) }
     | None \<Rightarrow> do {
         loaded \<leftarrow> load_engine_primary env;
         case loaded of
           Inr _ \<Rightarrow> do {
             on_room (\<lambda>r. r\<lparr>ra_primary_loaded := True, ra_primary_dirty := False,
                            ra_admission_reserved := False\<rparr>);
             act_return (Inr ()) }
         | Inl err \<Rightarrow> do { on_room primary_lost; act_return (Inl err) } } }"

definition ensure_primary_capacity :: "'n environment \<Rightarrow> ('n, join_error + unit) act" where
  "ensure_primary_capacity env = do {
     stale \<leftarrow> ask_room (\<lambda>r. \<not> ra_primary_loaded r \<or> ra_primary_dirty r \<or> needs_recycle (ra_engine r));
     if stale then reload_primary_from_committed env else act_return (Inr ()) }"

definition recover_primary_after_engine_fault :: "'n environment \<Rightarrow> ('n, bool) act" where
  "recover_primary_after_engine_fault env = do {
     on_room primary_lost;
     reloaded \<leftarrow> reload_primary_from_committed env;
     loaded \<leftarrow> ask_room ra_primary_loaded;
     act_return (reloaded = Inr () \<and> loaded) }"

section \<open>Terminal failures\<close>

definition lose_fence :: "room_actor \<Rightarrow> room_actor" where
  "lose_fence r =
     (drain_connections 1013 ''try again later''
        (primary_lost (r\<lparr>rm_fence_lost := True, rm_writer_generation := None, rm_session_revision := None\<rparr>)))
       \<lparr>rm_pending_awareness := []\<rparr>"

definition fatal_remote_write_unconfirmed :: "('n, unit) act" where
  "fatal_remote_write_unconfirmed =
     on_room (\<lambda>r. (lose_fence r)
       \<lparr>ra_guard_cleanup_failed := True,
        ra_owner_record := (case actor_fence r of Some f \<Rightarrow> Some f | None \<Rightarrow> ra_owner_record r),
        ra_room_guard := None\<rparr>)"

definition fatal_fence_lost :: "'n environment \<Rightarrow> ('n, unit) act" where
  "fatal_fence_lost env = do {
     on_room lose_fence;
     guard \<leftarrow> ask_room ra_room_guard;
     case guard of
       None \<Rightarrow> act_return ()
     | Some _ \<Rightarrow> do {
         on_room (\<lambda>r. r\<lparr>ra_room_guard := None\<rparr>);
         m \<leftarrow> await env;
         if mo_released m then act_return ()
         else on_room (\<lambda>r. r\<lparr>ra_guard_cleanup_failed := True\<rparr>) } }"

definition reload_primary_or_close_room :: "'n environment \<Rightarrow> ('n, bool) act" where
  "reload_primary_or_close_room env = do {
     unsettled \<leftarrow> ask_room (\<lambda>r. is_remote_task_room r \<and> ra_guard_cleanup_failed r);
     if unsettled then act_return False
     else do {
       reloaded \<leftarrow> reload_primary_from_committed env;
       case reloaded of
         Inr _ \<Rightarrow> act_return True
       | Inl _ \<Rightarrow> do { fatal_fence_lost env; act_return False } } }"

definition fatal_writer_stale :: "'n environment \<Rightarrow> close_order \<Rightarrow> ('n, unit) act" where
  "fatal_writer_stale env order = do {
     backend \<leftarrow> ask_room ra_backend;
     if backend \<noteq> Postgres then fatal_fence_lost env
     else on_room (\<lambda>r. close_each 1008 ''writer stale'' order
            (r\<lparr>rm_writer_generation := None, rm_committed_loaded := False\<rparr>)) }"

text \<open>The cached bundle is read again from the rows when that is possible.\<close>

definition reload_from_rows :: "'n environment \<Rightarrow> uuid \<Rightarrow> uuid \<Rightarrow> ('n, unit) act" where
  "reload_from_rows env actor_user_id session_id = do {
     load \<leftarrow> transact env actor_user_id session_id (\<lambda>ctx r. load_room_collab_readonly ctx (actor_fence r));
     case load of
       Done l \<Rightarrow> do {
         on_room (set_committed_from_load l);
         _ \<leftarrow> reload_primary_from_committed env;
         act_return () }
     | _ \<Rightarrow> act_return () }"

definition fatal_room_divergence :: "'n environment \<Rightarrow> uuid \<Rightarrow> uuid \<Rightarrow> ('n, unit) act" where
  "fatal_room_divergence env actor_user_id session_id = do {
     backend \<leftarrow> ask_room ra_backend;
     if backend \<noteq> Postgres then fatal_fence_lost env
     else do {
       reload_from_rows env actor_user_id session_id;
       on_room (\<lambda>r. close_each 1011 ''room state diverged'' Preempt (r\<lparr>rm_writer_generation := None\<rparr>)) } }"

definition fatal_primary_unhealthy :: "'n environment \<Rightarrow> uuid \<Rightarrow> uuid \<Rightarrow> ('n, unit) act" where
  "fatal_primary_unhealthy env actor_user_id session_id = do {
     reload_from_rows env actor_user_id session_id;
     on_room (close_each 1011 ''primary engine unhealthy'' AfterQueued) }"

section \<open>Claims and authority\<close>

definition claim_writer ::
    "'n environment \<Rightarrow> uuid \<Rightarrow> uuid \<Rightarrow> ('n, claim_writer_result tx_result) act" where
  "claim_writer env actor credential = do {
     guard \<leftarrow> ask_room ra_room_guard;
     case guard of
       None \<Rightarrow> act_return (Refused StaleWriter)
     | Some g \<Rightarrow> do {
         (g', claim) \<leftarrow> transact env actor credential (\<lambda>ctx r. guard_claim_writer ctx g);
         on_room (\<lambda>r. r\<lparr>ra_room_guard := Some g'\<rparr>);
         remote \<leftarrow> ask_room is_remote_task_room;
         if remote \<and> claim = DriverError
         then do { fatal_remote_write_unconfirmed; act_return DriverError }
         else act_return claim } }"

text \<open>A claim becomes the room's generation once the primary has loaded its rows.\<close>

definition adopt_writer :: "'n environment \<Rightarrow> claim_writer_result \<Rightarrow> ('n, join_error + unit) act" where
  "adopt_writer env c = do {
     on_room (set_committed_from_load (cw_load c));
     reloaded \<leftarrow> reload_primary_from_committed env;
     case reloaded of
       Inl err \<Rightarrow> act_return (Inl err)
     | Inr _ \<Rightarrow> do {
         on_room (\<lambda>r. r\<lparr>rm_writer_generation := Some (cw_writer_generation c)\<rparr>);
         act_return (Inr ()) } }"

datatype locking_auth = AuthAllow | AuthDeny | AuthDbError

definition locking_session_auth_by_ids ::
    "'n environment \<Rightarrow> uuid \<Rightarrow> uuid \<Rightarrow> bool \<Rightarrow> ('n, locking_auth) act" where
  "locking_session_auth_by_ids env user_id session_id read_only = do {
     m \<leftarrow> await env;
     r \<leftarrow> ask_room id;
     act_return
       (if mo_fault m = StatementFault then AuthDbError
        else case resolve_collab_admission (mo_before m) (mo_db m) (x_actor (tx_context m r user_id session_id)) of
               Inr admission \<Rightarrow> if read_only \<or> \<not> adm_read_only admission then AuthAllow else AuthDeny
             | Inl _ \<Rightarrow> AuthDeny) }"

text \<open>The delivery check; \<open>None\<close> is a driver error.\<close>

definition delivery_check :: "'n environment \<Rightarrow> uuid \<Rightarrow> uuid \<Rightarrow> ('n, delivery_admission option) act" where
  "delivery_check env user_id session_id = do {
     m \<leftarrow> await env;
     r \<leftarrow> ask_room id;
     act_return
       (if mo_fault m = StatementFault then None
        else Some (check_delivery_admission_kind_backend (mo_db m)
               (x_actor (tx_context m r user_id session_id)) (actor_delivery_fence r))) }"

section \<open>Replies\<close>

definition report_sync_status :: "uuid \<Rightarrow> string \<Rightarrow> bool \<Rightarrow> ('n, unit) act" where
  "report_sync_status conn_id key ok = do {
     on_room (send_sync_status conn_id key ok);
     log_status conn_id ok }"

definition reject_candidate :: "'n environment \<Rightarrow> uuid \<Rightarrow> string \<Rightarrow> ('n, unit) act" where
  "reject_candidate env conn_id key = do {
     now \<leftarrow> now_ms env;
     on_room (\<lambda>r. case conn_of conn_id r of
         Some c \<Rightarrow> record_user_rejected_candidate now (cs_user_id (cn_session c)) r
       | None \<Rightarrow> r);
     dirty \<leftarrow> ask_room ra_primary_dirty;
     healthy \<leftarrow> (if dirty then reload_primary_or_close_room env else act_return True);
     if \<not> healthy then act_return ()
     else do {
       on_room (update_conn conn_id (\<lambda>c. c\<lparr>cn_in_flight := False, cn_poisoned := True\<rparr>));
       report_sync_status conn_id key False;
       on_room (close_connection_ordered conn_id 1008 ''update rejected'') } }"

definition reject_candidate_engine_unavailable :: "'n environment \<Rightarrow> uuid \<Rightarrow> ('n, unit) act" where
  "reject_candidate_engine_unavailable env conn_id = do {
     dirty \<leftarrow> ask_room ra_primary_dirty;
     healthy \<leftarrow> (if dirty then reload_primary_or_close_room env else act_return True);
     if \<not> healthy then act_return ()
     else on_room (\<lambda>r. close_connection conn_id 1011 ''engine unavailable''
            (update_conn conn_id (\<lambda>c. c\<lparr>cn_in_flight := False\<rparr>) r)) }"

section \<open>Appends\<close>

text \<open>The operation whose outcome is unknown is looked up by its id; only its own receipt makes it
  committed.\<close>

definition reconcile_ambiguous_append ::
    "'n environment \<Rightarrow> uuid \<Rightarrow> uuid \<Rightarrow> uuid \<Rightarrow> int \<Rightarrow> u8 list \<Rightarrow> u8 list \<Rightarrow>
     ('n, append_collab_result option) act" where
  "reconcile_ambiguous_append env actor_user_id session_id operation expected_tail bytes digest = do {
     verified \<leftarrow> transact env actor_user_id session_id (\<lambda>ctx r st.
       (st, verify_room_collab_operation ctx
          \<lparr>vi_op_id = operation, vi_payload_len = int (length bytes), vi_payload_sha256 = digest,
           vi_actor_user_id = actor_user_id\<rparr> (native_consumer_proof r) st));
     remote \<leftarrow> ask_room is_remote_task_room;
     case verified of
       Done receipt \<Rightarrow> act_return (Some (DuplicateAck (rc_seq receipt)))
     | Refused NotFound \<Rightarrow> do {
         load \<leftarrow> transact env actor_user_id session_id (\<lambda>ctx r. load_room_collab_readonly ctx (actor_fence r));
         case load of
           Done l \<Rightarrow>
             if list_ex (\<lambda>u. op_id u = operation) (l_tail l) \<or> l_tail_seq l > expected_tail
             then do { fatal_room_divergence env actor_user_id session_id; act_return None }
             else act_return None
         | Refused _ \<Rightarrow> do { fatal_room_divergence env actor_user_id session_id; act_return None }
         | DriverError \<Rightarrow>
             if remote then do { fatal_remote_write_unconfirmed; act_return None }
             else do { fatal_room_divergence env actor_user_id session_id; act_return None } }
     | Refused _ \<Rightarrow> do { fatal_room_divergence env actor_user_id session_id; act_return None }
     | DriverError \<Rightarrow>
         if remote then do { fatal_remote_write_unconfirmed; act_return None }
         else do { fatal_room_divergence env actor_user_id session_id; act_return None } }"

definition is_definite_append_rejection :: "collab_db_error \<Rightarrow> bool" where
  "is_definite_append_rejection e \<longleftrightarrow>
     e \<in> {Forbidden, NotFound, OpIdConflict, PayloadTooLarge, StateBudgetExceeded, InvalidCutoff}"

definition validate_candidate_on_primary ::
    "'n environment \<Rightarrow> u8 list \<Rightarrow> ('n, bundle_validation) act" where
  "validate_candidate_on_primary env bytes =
     (if bytes = [] then act_return Rejected
      else do {
        m \<leftarrow> peek env;
        if \<not> mo_engine_bin m then act_return ValidatorUnavailable
        else do {
          report \<leftarrow> engine_call env (ReqApply bytes 1);
          case report of
            None \<Rightarrow> do { _ \<leftarrow> reload_primary_or_close_room env; act_return ValidatorUnavailable }
          | Some status \<Rightarrow>
              (case classify_admission_load status of
                 Inr _ \<Rightarrow> do {
                   on_room (\<lambda>r. r\<lparr>ra_primary_dirty := True\<rparr>);
                   act_return BundleOk }
               | Inl outcome \<Rightarrow>
                   if outcome \<noteq> BundleOk then do {
                     healthy \<leftarrow> reload_primary_or_close_room env;
                     act_return (if healthy then outcome else ValidatorUnavailable) }
                   else act_return outcome) } })"

definition apply_primary :: "'n environment \<Rightarrow> u8 list \<Rightarrow> ('n, bool) act" where
  "apply_primary env bytes = do {
     report \<leftarrow> engine_call env (ReqApply bytes 1);
     act_return (case report of Some outcome \<Rightarrow> is_applied_ok outcome | None \<Rightarrow> False) }"

definition integrate_committed_update ::
    "'n environment \<Rightarrow> u8 list \<Rightarrow> bool \<Rightarrow> ('n, join_error + unit) act" where
  "integrate_committed_update env bytes admission_applied = do {
     recycle \<leftarrow> ask_room (\<lambda>r. needs_recycle (ra_engine r));
     if recycle then reload_primary_from_committed env
     else if admission_applied then do {
       on_room (\<lambda>r. r\<lparr>ra_primary_dirty := False, ra_primary_loaded := True\<rparr>);
       act_return (Inr ()) }
     else do {
       on_room (\<lambda>r. r\<lparr>ra_primary_dirty := True\<rparr>);
       ok \<leftarrow> apply_primary env bytes;
       if ok then do {
         on_room (\<lambda>r. r\<lparr>ra_primary_dirty := False\<rparr>);
         act_return (Inr ()) }
       else reload_primary_from_committed env } }"

text \<open>The cached bundle after a commit at \<open>seq\<close>.\<close>

definition push_committed :: "u8 list \<Rightarrow> int \<Rightarrow> room_actor \<Rightarrow> room_actor" where
  "push_committed bytes s r =
     (let b = ra_committed r;
          b = (if cm_tail_seq b < s then b\<lparr>cm_tail_payloads := cm_tail_payloads b @ [bytes]\<rparr> else b)
      in r\<lparr>ra_committed := b\<lparr>cm_tail_seq := s\<rparr>, ra_fifo_seq := ra_fifo_seq r + 1\<rparr>)"

section \<open>The derived body\<close>

datatype project_derived_outcome =
  Projected | Unchanged | SeedSkipped | DeterministicSkip | PrimaryNotReady | ProjectStaleCutoff
| PermissionDenied | ProjectStaleWriter | EngineFailed | DbFailed

definition is_deterministic_project_limit :: "limit_kind \<Rightarrow> bool" where
  "is_deterministic_project_limit k \<longleftrightarrow> k = LOutput"

definition write_projection ::
    "'n environment \<Rightarrow> int \<Rightarrow> int \<Rightarrow> uuid \<Rightarrow> uuid \<Rightarrow> bool \<Rightarrow> 'n json \<Rightarrow> string \<times> string \<Rightarrow>
     ('n, project_derived_outcome) act" where
  "write_projection env g s actor_user_id session_id preemptive_stale_close content prepared = do {
     written \<leftarrow> transact env actor_user_id session_id (\<lambda>ctx r.
       project_derived_body_in_room ctx (actor_fence r)
         \<lparr>pi_writer_generation = g, pi_expected_tail_seq = s, pi_content_json = content,
          pi_text = fst prepared, pi_chosung = snd prepared\<rparr>);
     remote \<leftarrow> ask_room is_remote_task_room;
     case written of
       Done BodyWritten \<Rightarrow> act_return Projected
     | Done BodyUnchanged \<Rightarrow> act_return Unchanged
     | Done SkippedSeed \<Rightarrow> act_return SeedSkipped
     | Refused StaleWriter \<Rightarrow>
         if preemptive_stale_close
         then do { fatal_writer_stale env Preempt; act_return ProjectStaleWriter }
         else act_return ProjectStaleWriter
     | Refused StaleCutoff \<Rightarrow> act_return ProjectStaleCutoff
     | Refused Forbidden \<Rightarrow> act_return PermissionDenied
     | Refused NotFound \<Rightarrow> act_return PermissionDenied
     | Refused _ \<Rightarrow> act_return DbFailed
     | DriverError \<Rightarrow>
         if remote then do { fatal_remote_write_unconfirmed; act_return DbFailed }
         else act_return DbFailed }"

definition project_report ::
    "'n engine_status option \<Rightarrow> project_derived_outcome + 'n json" where
  "project_report report =
     (case report of
        None \<Rightarrow> Inl EngineFailed
      | Some (StatusOk s) \<Rightarrow> (case eo_content_json s of Some json \<Rightarrow> Inr json | None \<Rightarrow> Inl EngineFailed)
      | Some (Failed (ResourceLimit k)) \<Rightarrow>
          Inl (if is_deterministic_project_limit k then DeterministicSkip else EngineFailed)
      | Some (Failed _) \<Rightarrow> Inl EngineFailed)"

definition maybe_project_derived_body ::
    "'n environment \<Rightarrow> int \<Rightarrow> uuid \<Rightarrow> uuid \<Rightarrow> bool \<Rightarrow> ('n, project_derived_outcome) act" where
  "maybe_project_derived_body env s actor_user_id session_id preemptive_stale_close =
     (if s < 1 then act_return SeedSkipped
      else do {
        generation \<leftarrow> ask_room rm_writer_generation;
        ready \<leftarrow> ask_room (\<lambda>r. ra_primary_loaded r \<and> \<not> ra_primary_dirty r);
        case generation of
          None \<Rightarrow> act_return EngineFailed
        | Some g \<Rightarrow>
            if \<not> ready then act_return PrimaryNotReady
            else do {
              capacity \<leftarrow> ensure_primary_capacity env;
              case capacity of
                Inl _ \<Rightarrow> act_return EngineFailed
              | Inr _ \<Rightarrow> do {
                  report \<leftarrow> engine_call env (ReqProject 1);
                  case project_report report of
                    Inl outcome \<Rightarrow> do {
                      _ \<leftarrow> recover_primary_after_engine_fault env;
                      act_return outcome }
                  | Inr content \<Rightarrow>
                      (case en_prepare_derived_body env content of
                         None \<Rightarrow> act_return DeterministicSkip
                       | Some prepared \<Rightarrow>
                           write_projection env g s actor_user_id session_id preemptive_stale_close
                             content prepared) } } })"

fun manual_persist_derived_ok :: "project_derived_outcome \<Rightarrow> bool" where
  "manual_persist_derived_ok Projected = True"
| "manual_persist_derived_ok Unchanged = True"
| "manual_persist_derived_ok SeedSkipped = True"
| "manual_persist_derived_ok DeterministicSkip = True"
| "manual_persist_derived_ok _ = False"

section \<open>Persisting and compaction\<close>

definition persist_failed :: "'n environment \<Rightarrow> uuid \<Rightarrow> string" where
  "persist_failed env request_id = ''persist-failed:'' @ en_uuid_show env request_id"

definition persisted :: "'n environment \<Rightarrow> uuid \<Rightarrow> string" where
  "persisted env request_id = ''persisted:'' @ en_uuid_show env request_id"

definition compact_failed :: "room_actor \<Rightarrow> room_actor" where
  "compact_failed r =
     r\<lparr>ra_compact_unhealthy := True,
       ra_compact_retry_at_tail_len := Some (length (cm_tail_payloads (ra_committed r)))\<rparr>"

text \<open>After a compaction the engine is recycled when it has to be, and the body projected.\<close>

definition project_compacted ::
    "'n environment \<Rightarrow> uuid \<Rightarrow> uuid \<Rightarrow> uuid \<Rightarrow> int \<Rightarrow> ('n, string) act" where
  "project_compacted env actor_user_id session_id request_id s = do {
     recycle \<leftarrow> ask_room (\<lambda>r. needs_recycle (ra_engine r));
     reloaded \<leftarrow> (if recycle then reload_primary_from_committed env else act_return (Inr ()));
     case reloaded of
       Inl _ \<Rightarrow> do { on_room compact_failed; act_return (persist_failed env request_id) }
     | Inr _ \<Rightarrow> do {
         outcome \<leftarrow> maybe_project_derived_body env s actor_user_id session_id True;
         if \<not> manual_persist_derived_ok outcome
         then do { on_room compact_failed; act_return (persist_failed env request_id) }
         else act_return (persisted env request_id) } }"

text \<open>The compaction of the rows at the cached tail, once the snapshot is valid.\<close>

definition compact_rows_at_tail ::
    "'n environment \<Rightarrow> uuid \<Rightarrow> uuid \<Rightarrow> uuid \<Rightarrow> u8 list \<Rightarrow> ('n, string) act" where
  "compact_rows_at_tail env actor_user_id session_id request_id snapshot = do {
     generation \<leftarrow> ask_room rm_writer_generation;
     case generation of
       None \<Rightarrow> act_return (persist_failed env request_id)
     | Some g \<Rightarrow> do {
         cutoff \<leftarrow> ask_room (\<lambda>r. cm_tail_seq (ra_committed r));
         compacted \<leftarrow> transact env actor_user_id session_id (\<lambda>ctx r.
           compact_collab_snapshot_in_room ctx (actor_fence r)
             \<lparr>ci_writer_generation = g, ci_cutoff_seq = cutoff, ci_expected_tail_seq = cutoff,
              ci_new_snapshot = snapshot\<rparr>);
         remote \<leftarrow> ask_room is_remote_task_room;
         case compacted of
           Done l \<Rightarrow> do {
             on_room (\<lambda>r. set_committed_from_load l
               (r\<lparr>ra_compact_unhealthy := False, ra_compact_retry_at_tail_len := None\<rparr>));
             project_compacted env actor_user_id session_id request_id (l_tail_seq l) }
         | Refused StaleCutoff \<Rightarrow> do {
             fatal_room_divergence env actor_user_id session_id;
             act_return (persist_failed env request_id) }
         | Refused StaleWriter \<Rightarrow> do {
             fatal_room_divergence env actor_user_id session_id;
             act_return (persist_failed env request_id) }
         | Refused _ \<Rightarrow> do { on_room compact_failed; act_return (persist_failed env request_id) }
         | DriverError \<Rightarrow>
             if remote
             then do { fatal_remote_write_unconfirmed; act_return (persist_failed env request_id) }
             else do { on_room compact_failed; act_return (persist_failed env request_id) } } }"

definition run_persist_steps :: "'n environment \<Rightarrow> uuid \<Rightarrow> uuid \<Rightarrow> ('n, string) act" where
  "run_persist_steps env conn_id request_id = do {
     connection \<leftarrow> ask_room (conn_of conn_id);
     case connection of
       None \<Rightarrow> act_return (persist_failed env request_id)
     | Some c \<Rightarrow>
         if cn_poisoned c \<or> cn_in_flight c then act_return (persist_failed env request_id)
         else do {
           auth \<leftarrow> locking_session_auth_by_ids env (cs_user_id (cn_session c)) (cs_session_id (cn_session c))
             (cn_read_only c);
           if auth \<noteq> AuthAllow then act_return (persist_failed env request_id)
           else if cn_read_only c then act_return (persisted env request_id)
           else do {
             capacity \<leftarrow> ensure_primary_capacity env;
             loaded \<leftarrow> ask_room ra_primary_loaded;
             if capacity \<noteq> Inr () \<or> \<not> loaded
             then do { on_room compact_failed; act_return (persist_failed env request_id) }
             else do {
               report \<leftarrow> engine_call env ReqSnapshot;
               case Option.bind report (decoded_update (en_b64_decode env)) of
                 None \<Rightarrow> do { on_room compact_failed; act_return (persist_failed env request_id) }
               | Some snapshot \<Rightarrow> do {
                   m \<leftarrow> await env;
                   if \<not> validate_snapshot_only (en_b64_decode env) (mo_validator m) snapshot
                   then do { on_room compact_failed; act_return (persist_failed env request_id) }
                   else compact_rows_at_tail env (cs_user_id (cn_session c)) (cs_session_id (cn_session c))
                          request_id snapshot } } } } }"

text \<open>The barriers that were ready when the flush began, in their order.\<close>

fun flush_barriers :: "'n environment \<Rightarrow> uuid \<Rightarrow> uuid list \<Rightarrow> ('n, unit) act" where
  "flush_barriers env conn_id [] = act_return ()"
| "flush_barriers env conn_id (request_id # rest) = do {
     on_room (update_conn conn_id (\<lambda>c. c\<lparr>cn_pending_persist :=
       filter (\<lambda>b. pb_request_id b \<noteq> request_id) (cn_pending_persist c)\<rparr>));
     result \<leftarrow> run_persist_steps env conn_id request_id;
     on_room (send_stateless conn_id result);
     flush_barriers env conn_id rest }"

definition flush_connection_persist :: "'n environment \<Rightarrow> uuid \<Rightarrow> nat \<Rightarrow> ('n, unit) act" where
  "flush_connection_persist env conn_id current_fifo = do {
     connection \<leftarrow> ask_room (conn_of conn_id);
     case connection of
       None \<Rightarrow> act_return ()
     | Some c \<Rightarrow> flush_barriers env conn_id
         (map pb_request_id (filter (\<lambda>b. pb_prefix_fifo b \<le> current_fifo) (cn_pending_persist c))) }"

definition strip_prefix :: "string \<Rightarrow> string \<Rightarrow> string option" where
  "strip_prefix prefix text =
     (if take (length prefix) text = prefix then Some (drop (length prefix) text) else None)"

definition handle_stateless :: "'n environment \<Rightarrow> uuid \<Rightarrow> string \<Rightarrow> ('n, unit) act" where
  "handle_stateless env conn_id text =
     (case Option.bind (strip_prefix ''persist:'' text) (en_uuid_parse env) of
        None \<Rightarrow> act_return ()
      | Some request_id \<Rightarrow> do {
          fifo \<leftarrow> ask_room ra_fifo_seq;
          on_room (update_conn conn_id (\<lambda>c. c\<lparr>cn_pending_persist := cn_pending_persist c @
            [\<lparr>pb_request_id = request_id, pb_prefix_fifo = fifo\<rparr>]\<rparr>));
          flush_connection_persist env conn_id fifo })"

definition compaction_due :: "room_actor \<Rightarrow> bool" where
  "compaction_due r \<longleftrightarrow>
     (if list_ex (\<lambda>(_, c). cn_pending_persist c \<noteq> []) (rm_connections r) then False
      else let rows = length (cm_tail_payloads (ra_committed r)) in
           if ra_compact_unhealthy r
           then (case ra_compact_retry_at_tail_len r of Some at_fail \<Rightarrow> rows \<ge> at_fail + 8 | None \<Rightarrow> False)
           else rows \<ge> 32)"

definition compaction_connection :: "room_actor \<Rightarrow> uuid option" where
  "compaction_connection r =
     (case find (\<lambda>(_, c). \<not> cn_read_only c \<and> cn_pending_persist c \<noteq> []) (rm_connections r) of
        Some (i, _) \<Rightarrow> Some i
      | None \<Rightarrow> map_option fst (find (\<lambda>(_, c). \<not> cn_read_only c) (rm_connections r)))"

definition maybe_compact :: "'n environment \<Rightarrow> ('n, unit) act" where
  "maybe_compact env = do {
     due \<leftarrow> ask_room compaction_due;
     target \<leftarrow> ask_room compaction_connection;
     m \<leftarrow> peek env;
     case (if due then target else None) of
       None \<Rightarrow> act_return ()
     | Some conn_id \<Rightarrow> do { _ \<leftarrow> run_persist_steps env conn_id (mo_uuid m); act_return () } }"

section \<open>Sync\<close>

definition b64_or_empty :: "'n environment \<Rightarrow> string \<Rightarrow> u8 list" where
  "b64_or_empty env text = (case en_b64_decode env text of Some bytes \<Rightarrow> bytes | None \<Rightarrow> [])"

text \<open>The state a client asks for with its state vector, then the state vector of the room.\<close>

definition handle_sync_step1 :: "'n environment \<Rightarrow> uuid \<Rightarrow> string \<Rightarrow> u8 list \<Rightarrow> ('n, unit) act" where
  "handle_sync_step1 env conn_id key vector =
     (let fail = (\<lambda>code reason. do {
            _ \<leftarrow> recover_primary_after_engine_fault env;
            on_room (close_connection conn_id code reason) })
      in do {
        capacity \<leftarrow> ensure_primary_capacity env;
        case capacity of
          Inl _ \<Rightarrow> on_room (close_connection conn_id 1011 ''engine unavailable'')
        | Inr _ \<Rightarrow> do {
            report \<leftarrow> engine_call env (ReqSync vector 1);
            case report of
              None \<Rightarrow> fail 1011 ''sync failed''
            | Some (Failed f) \<Rightarrow>
                if f = Malformed then fail 1008 ''invalid state vector'' else fail 1011 ''sync failed''
            | Some (StatusOk s) \<Rightarrow> do {
                (case eo_update_b64 s of
                   Some update \<Rightarrow> on_room (deliver_document_message conn_id key (Sync
                     \<lparr>step = Step2, y_protocol = encode_sync_payload Step2 (b64_or_empty env update)\<rparr>))
                 | None \<Rightarrow> act_return ());
                inspect \<leftarrow> engine_call env ReqInspect;
                case inspect of
                  Some (StatusOk s) \<Rightarrow>
                    (case eo_state_vector_b64 s of
                       Some sv \<Rightarrow> on_room (deliver_document_message conn_id key (Sync
                         \<lparr>step = Step1, y_protocol = encode_sync_payload Step1 (b64_or_empty env sv)\<rparr>))
                     | None \<Rightarrow> act_return ())
                | _ \<Rightarrow> fail 1011 ''sync failed'' } } })"

definition reload_then_reject :: "'n environment \<Rightarrow> uuid \<Rightarrow> string \<Rightarrow> ('n, unit) act" where
  "reload_then_reject env conn_id key = do {
     healthy \<leftarrow> reload_primary_or_close_room env;
     if healthy then reject_candidate env conn_id key else act_return () }"

text \<open>The durable append of a validated candidate. \<open>None\<close>: the candidate was refused and its
  connection has been answered; \<open>Some seq\<close>: it is the committed update after the cached tail.
  The caller has checked that there is a generation and a successful validation keeps it, so the
  panic of the code's \<open>expect\<close> is out of reach.\<close>

definition commit_candidate ::
    "'n environment \<Rightarrow> uuid \<Rightarrow> string \<Rightarrow> u8 list \<Rightarrow> uuid \<Rightarrow> uuid \<Rightarrow> ('n, int option) act" where
  "commit_candidate env conn_id key bytes actor_user_id session_id = do {
     guard \<leftarrow> ask_room ra_room_guard;
     generation \<leftarrow> ask_room rm_writer_generation;
     case (guard, generation) of
       (None, _) \<Rightarrow> do { fatal_fence_lost env; act_return None }
     | (Some _, None) \<Rightarrow> act_return None
     | (Some room_guard, Some g) \<Rightarrow> do {
         m \<leftarrow> peek env;
         expected_tail \<leftarrow> ask_room (\<lambda>r. cm_tail_seq (ra_committed r));
         appended \<leftarrow> transact env actor_user_id session_id (\<lambda>ctx r.
           guard_append (en_sha256 env) ctx room_guard
             \<lparr>ai_writer_generation = g, ai_expected_tail_seq = expected_tail, ai_op_id = mo_uuid m,
              ai_payload = bytes\<rparr>);
         remote \<leftarrow> ask_room is_remote_task_room;
         committed \<leftarrow> (case appended of
             DriverError \<Rightarrow> do {
               (if remote then fatal_remote_write_unconfirmed else fatal_fence_lost env);
               act_return None }
           | Done result \<Rightarrow> act_return (Some result)
           | Refused e \<Rightarrow>
               if e = StaleWriter then do {
                 fatal_writer_stale env Preempt;
                 reject_candidate env conn_id key;
                 act_return None }
               else if is_definite_append_rejection e then do {
                 reload_then_reject env conn_id key;
                 act_return None }
               else do {
                 reconciled \<leftarrow> reconcile_ambiguous_append env actor_user_id session_id (mo_uuid m)
                   expected_tail bytes (en_sha256 env bytes);
                 case reconciled of
                   Some result \<Rightarrow> act_return (Some result)
                 | None \<Rightarrow> do {
                     reload_then_reject env conn_id key;
                     act_return None } });
         case committed of
           None \<Rightarrow> act_return None
         | Some result \<Rightarrow>
             (let s = (case result of Committed s \<Rightarrow> s | DuplicateAck s \<Rightarrow> s) in
              if s \<noteq> expected_tail + 1 then do {
                healthy \<leftarrow> reload_primary_or_close_room env;
                (if healthy then do {
                   fatal_room_divergence env actor_user_id session_id;
                   reject_candidate env conn_id key }
                 else act_return ());
                act_return None }
              else act_return (Some s)) } }"

text \<open>After the commit: integrate, broadcast, acknowledge, project, persist.\<close>

definition announce_update ::
    "'n environment \<Rightarrow> uuid \<Rightarrow> string \<Rightarrow> u8 list \<Rightarrow> u8 list \<Rightarrow> int \<Rightarrow> uuid \<Rightarrow> uuid \<Rightarrow> ('n, unit) act" where
  "announce_update env conn_id key yp bytes s actor_user_id session_id = do {
     op_prefix \<leftarrow> ask_room ra_fifo_seq;
     integrated \<leftarrow> integrate_committed_update env bytes True;
     case integrated of
       Inl _ \<Rightarrow> do {
         report_sync_status conn_id key True;
         on_room (update_conn conn_id (\<lambda>c. c\<lparr>cn_in_flight := False\<rparr>));
         fatal_primary_unhealthy env actor_user_id session_id }
     | Inr _ \<Rightarrow> do {
         on_room (broadcast_update yp);
         on_room (update_conn conn_id (\<lambda>c. c\<lparr>cn_in_flight := False\<rparr>));
         report_sync_status conn_id key True;
         outcome \<leftarrow> maybe_project_derived_body env s actor_user_id session_id False;
         loaded \<leftarrow> ask_room ra_primary_loaded;
         if outcome = ProjectStaleWriter then fatal_writer_stale env AfterQueued
         else if \<not> loaded then fatal_primary_unhealthy env actor_user_id session_id
         else do {
           flush_connection_persist env conn_id op_prefix;
           maybe_compact env } } }"

definition publish_update ::
    "'n environment \<Rightarrow> uuid \<Rightarrow> string \<Rightarrow> u8 list \<Rightarrow> u8 list \<Rightarrow> int \<Rightarrow> uuid \<Rightarrow> uuid \<Rightarrow> ('n, unit) act" where
  "publish_update env conn_id key yp bytes s actor_user_id session_id = do {
     on_room (push_committed bytes s);
     announce_update env conn_id key yp bytes s actor_user_id session_id }"

definition commit_update ::
    "'n environment \<Rightarrow> uuid \<Rightarrow> string \<Rightarrow> u8 list \<Rightarrow> u8 list \<Rightarrow> ('n, unit) act" where
  "commit_update env conn_id key yp bytes = do {
     on_room (update_conn conn_id (\<lambda>c. c\<lparr>cn_in_flight := True\<rparr>));
     capacity \<leftarrow> ensure_primary_capacity env;
     generation \<leftarrow> ask_room rm_writer_generation;
     case capacity of
       Inl _ \<Rightarrow> on_room (\<lambda>r. close_connection conn_id 1011 ''engine unavailable''
                    (update_conn conn_id (\<lambda>c. c\<lparr>cn_in_flight := False\<rparr>) r))
     | Inr _ \<Rightarrow>
         (case generation of
            None \<Rightarrow> reject_candidate env conn_id key
          | Some _ \<Rightarrow> do {
              validation \<leftarrow> validate_candidate_on_primary env bytes;
              if validation = ValidatorUnavailable then reject_candidate_engine_unavailable env conn_id
              else if validation \<noteq> BundleOk then reject_candidate env conn_id key
              else do {
                ids \<leftarrow> ask_room (\<lambda>r. case conn_of conn_id r of
                    Some c \<Rightarrow> (cs_user_id (cn_session c), cs_session_id (cn_session c))
                  | None \<Rightarrow> (0, 0));
                committed \<leftarrow> commit_candidate env conn_id key bytes (fst ids) (snd ids);
                case committed of
                  None \<Rightarrow> act_return ()
                | Some s \<Rightarrow> publish_update env conn_id key yp bytes s (fst ids) (snd ids) } }) }"

definition handle_sync_update ::
    "'n environment \<Rightarrow> uuid \<Rightarrow> string \<Rightarrow> bool \<Rightarrow> u8 list \<Rightarrow> u8 list \<Rightarrow> ('n, unit) act" where
  "handle_sync_update env conn_id key read_only yp bytes =
     (if bytes = [] then do {
        dirty \<leftarrow> ask_room ra_primary_dirty;
        healthy \<leftarrow> (if dirty then reload_primary_or_close_room env else act_return True);
        if \<not> healthy then act_return ()
        else do {
          on_room (update_conn conn_id (\<lambda>c. c\<lparr>cn_in_flight := False, cn_poisoned := True\<rparr>));
          report_sync_status conn_id key False } }
      else if read_only \<and> \<not> is_empty_update bytes then do {
        on_room (update_conn conn_id (\<lambda>c. c\<lparr>cn_poisoned := True\<rparr>));
        report_sync_status conn_id key False }
      else if is_empty_update bytes then report_sync_status conn_id key True
      else do {
        connection \<leftarrow> ask_room (conn_of conn_id);
        case connection of
          None \<Rightarrow> report_sync_status conn_id key False
        | Some c \<Rightarrow>
            if cn_poisoned c \<or> cn_in_flight c then report_sync_status conn_id key False
            else do {
              now \<leftarrow> now_ms env;
              blocked \<leftarrow> on_room_result (user_write_reject_blocked now (cs_user_id (cn_session c)));
              if blocked then on_room (close_connection_ordered conn_id 1008 ''update rejected'')
              else commit_update env conn_id key yp bytes } })"

definition handle_sync ::
    "'n environment \<Rightarrow> uuid \<Rightarrow> string \<Rightarrow> bool \<Rightarrow> sync_message \<Rightarrow> ('n, unit) act" where
  "handle_sync env conn_id key read_only sync =
     (case parse_sync_payload (y_protocol sync) (max_binary_payload_bytes DEFAULT) of
        Inl _ \<Rightarrow> act_return ()
      | Inr (Step1, vector) \<Rightarrow> handle_sync_step1 env conn_id key vector
      | Inr (_, bytes) \<Rightarrow> handle_sync_update env conn_id key read_only (y_protocol sync) bytes)"

section \<open>Frames\<close>

definition close_unless_allowed ::
    "'n environment \<Rightarrow> uuid \<Rightarrow> collab_session \<Rightarrow> bool \<Rightarrow> ('n, bool) act" where
  "close_unless_allowed env conn_id session read_only = do {
     admission \<leftarrow> delivery_check env (cs_user_id session) (cs_session_id session);
     case admission of
       None \<Rightarrow> do { on_room (close_connection conn_id 1011 ''internal error''); act_return False }
     | Some Denied \<Rightarrow> do { on_room (close_connection conn_id 1008 ''permission revoked''); act_return False }
     | Some (Allowed admission_ro) \<Rightarrow>
         if read_only \<or> \<not> admission_ro then act_return True
         else do { on_room (close_connection conn_id 1008 ''permission revoked''); act_return False } }"

definition handle_document_message ::
    "'n environment \<Rightarrow> uuid \<Rightarrow> connection_state \<Rightarrow> document_message \<Rightarrow> ('n, unit) act" where
  "handle_document_message env conn_id c message =
     (case message of
        Auth auth \<Rightarrow> on_room (handle_auth conn_id (cn_routing_key c) (cn_read_only c) auth)
      | Sync sync \<Rightarrow> handle_sync env conn_id (cn_routing_key c) (cn_read_only c) sync
      | Awareness bytes \<Rightarrow> do {
          allowed \<leftarrow> close_unless_allowed env conn_id (cn_session c) (cn_read_only c);
          if allowed
          then on_room (handle_awareness (en_presence env) (cn_client_id c) (cn_session c) (cn_generation c) bytes)
          else act_return () }
      | QueryAwareness \<Rightarrow> on_room (handle_query_awareness conn_id (cn_routing_key c))
      | Stateless text \<Rightarrow> handle_stateless env conn_id text
      | Close _ \<Rightarrow> on_room (close_connection conn_id 1000 ''client close'')
      | _ \<Rightarrow> act_return ())"

definition finish_frame :: "uuid \<Rightarrow> nat \<Rightarrow> room_actor \<Rightarrow> room_actor" where
  "finish_frame conn_id n r =
     update_conn conn_id (\<lambda>c. c\<lparr>cn_pending_bytes := cn_pending_bytes c - n\<rparr>) r"

definition handle_frame :: "'n environment \<Rightarrow> uuid \<Rightarrow> u8 list \<Rightarrow> ('n, unit) act" where
  "handle_frame env conn_id bytes = do {
     connection \<leftarrow> ask_room (conn_of conn_id);
     limit \<leftarrow> ask_room (cfg_max_pending_bytes_per_connection \<circ> rm_config);
     case connection of
       None \<Rightarrow> act_return ()
     | Some c \<Rightarrow>
         if cn_pending_bytes c + length bytes > limit
         then on_room (close_connection conn_id 1009 ''pending bytes exceeded'')
         else do {
           on_room (update_conn conn_id (\<lambda>c. c\<lparr>cn_pending_bytes := cn_pending_bytes c + length bytes\<rparr>));
           case decode (en_uuid_parse env) bytes of
             Inl _ \<Rightarrow> on_room (close_connection conn_id 1003 ''invalid frame'')
           | Inr (ConnectionFrame _) \<Rightarrow> do {
               on_room (handle_connection_ping conn_id);
               on_room (finish_frame conn_id (length bytes)) }
           | Inr (DocumentFrame key room_name message) \<Rightarrow>
               if key \<noteq> cn_routing_key c then on_room (finish_frame conn_id (length bytes))
               else if room_name = None then on_room (close_connection conn_id 1008 ''invalid room'')
               else do {
                 allowed \<leftarrow> close_unless_allowed env conn_id (cn_session c) (cn_read_only c);
                 if \<not> allowed then act_return ()
                 else do {
                   handle_document_message env conn_id c message;
                   on_room (finish_frame conn_id (length bytes)) } } } }"

section \<open>The revocation sweep\<close>

fun revoked_connections ::
    "'n environment \<Rightarrow> (uuid \<times> connection_state) list \<Rightarrow> ('n, uuid list) act" where
  "revoked_connections env [] = act_return []"
| "revoked_connections env ((conn_id, c) # rest) = do {
     admission \<leftarrow> delivery_check env (cs_user_id (cn_session c)) (cs_session_id (cn_session c));
     others \<leftarrow> revoked_connections env rest;
     act_return (case admission of
         Some (Allowed admission_ro) \<Rightarrow> if cn_read_only c \<or> \<not> admission_ro then others else conn_id # others
       | Some Denied \<Rightarrow> conn_id # others
       | None \<Rightarrow> others) }"

definition close_revoked :: "uuid list \<Rightarrow> room_actor \<Rightarrow> room_actor" where
  "close_revoked ids r = fold (\<lambda>i. close_connection i 1008 ''permission revoked'') ids r"

definition poll_acl :: "'n environment \<Rightarrow> ('n, unit) act" where
  "poll_acl env = do {
     snapshots \<leftarrow> ask_room rm_connections;
     to_close \<leftarrow> revoked_connections env snapshots;
     on_room (close_revoked to_close) }"

section \<open>Joins\<close>

text \<open>The room's state is loaded for the first connection after a start or a lost claim; an editor
  claims the writer, a reader only loads.\<close>

definition load_for_join :: "'n environment \<Rightarrow> uuid \<Rightarrow> uuid \<Rightarrow> bool \<Rightarrow> ('n, join_error + unit) act" where
  "load_for_join env user_id session_id read_only = do {
     generation \<leftarrow> ask_room rm_writer_generation;
     if generation \<noteq> None then act_return (Inr ())
     else if \<not> read_only then do {
       claim \<leftarrow> claim_writer env user_id session_id;
       case claim of
         DriverError \<Rightarrow> act_return (Inl JoinDbError)
       | Refused e \<Rightarrow> act_return (Inl (if e = StaleWriter then WriterStale else AdmissionDenied))
       | Done c \<Rightarrow> do {
           adopted \<leftarrow> adopt_writer env c;
           case adopted of
             Inl err \<Rightarrow> do {
               on_room (close_all_connections 1011 ''engine reload failed'');
               act_return (Inl err) }
           | Inr _ \<Rightarrow> act_return (Inr ()) } }
     else do {
       load \<leftarrow> transact env user_id session_id (\<lambda>ctx r. load_room_collab_readonly ctx (actor_fence r));
       remote \<leftarrow> ask_room is_remote_task_room;
       case load of
         DriverError \<Rightarrow> do {
           (if remote then fatal_remote_write_unconfirmed else act_return ());
           act_return (Inl JoinDbError) }
       | Refused _ \<Rightarrow> act_return (Inl AdmissionDenied)
       | Done l \<Rightarrow> do {
           on_room (set_committed_from_load l);
           reloaded \<leftarrow> reload_primary_from_committed env;
           case reloaded of
             Inl err \<Rightarrow> do {
               on_room (close_all_connections 1011 ''engine reload failed'');
               act_return (Inl err) }
           | Inr _ \<Rightarrow> act_return (Inr ()) } } }"

definition catch_up_projection :: "'n environment \<Rightarrow> uuid \<Rightarrow> uuid \<Rightarrow> bool \<Rightarrow> ('n, join_error + unit) act" where
  "catch_up_projection env user_id session_id read_only = do {
     tail \<leftarrow> ask_room (\<lambda>r. cm_tail_seq (ra_committed r));
     generation \<leftarrow> ask_room rm_writer_generation;
     if \<not> read_only \<and> generation \<noteq> None \<and> tail \<ge> 1 then do {
       outcome \<leftarrow> maybe_project_derived_body env tail user_id session_id True;
       act_return (if outcome = ProjectStaleWriter then Inl WriterStale else Inr ()) }
     else act_return (Inr ()) }"

text \<open>Everything before the connection is admitted; the result is whether it may only read.\<close>

definition prepare_join :: "'n environment \<Rightarrow> room_join \<Rightarrow> ('n, join_error + bool) act" where
  "prepare_join env j = do {
     lost \<leftarrow> ask_room rm_fence_lost;
     full \<leftarrow> ask_room (\<lambda>r. length (rm_connections r) \<ge> cfg_max_connections_per_room (rm_config r));
     if lost then act_return (Inl EngineUnavailable)
     else if full then act_return (Inl RoomFull)
     else do {
       m \<leftarrow> await env;
       r \<leftarrow> ask_room id;
       let user_id = cs_user_id (jn_session j);
       let session_id = cs_session_id (jn_session j);
       if mo_fault m = StatementFault then act_return (Inl JoinDbError)
       else case resolve_collab_admission (mo_before m) (mo_db m) (x_actor (tx_context m r user_id session_id)) of
         Inl _ \<Rightarrow> act_return (Inl AdmissionDenied)
       | Inr admission \<Rightarrow> do {
           let read_only = (jn_read_only j \<or> adm_read_only admission);
           loaded \<leftarrow> load_for_join env user_id session_id read_only;
           case loaded of
             Inl err \<Rightarrow> act_return (Inl err)
           | Inr _ \<Rightarrow> do {
               capacity \<leftarrow> ensure_primary_capacity env;
               case capacity of
                 Inl err \<Rightarrow> act_return (Inl err)
               | Inr _ \<Rightarrow> do {
                   projected \<leftarrow> catch_up_projection env user_id session_id read_only;
                   primary \<leftarrow> ask_room ra_primary_loaded;
                   act_return (case projected of
                       Inl err \<Rightarrow> Inl err
                     | Inr _ \<Rightarrow> if primary then Inr read_only else Inl EngineUnavailable) } } } } }"

definition handle_join :: "'n environment \<Rightarrow> room_join \<Rightarrow> ('n, join_error + unit) act" where
  "handle_join env j = do {
     prepared \<leftarrow> prepare_join env j;
     case prepared of
       Inl err \<Rightarrow> act_return (Inl err)
     | Inr read_only \<Rightarrow> do {
         now \<leftarrow> now_ms env;
         admitted \<leftarrow> on_room_result (admit_connection now read_only j);
         act_return (if admitted then Inr () else Inl AdmissionDenied) } }"

section \<open>Writes and reads that come through the room's mailbox\<close>

definition verify_room_native_consumer ::
    "tx_ctx \<Rightarrow> consumer_proof option \<Rightarrow> 'n native_store \<Rightarrow> unit tx_result" where
  "verify_room_native_consumer ctx proof st =
     (if a_backend (x_actor ctx) = Postgres then Done ()
      else case proof of
        None \<Rightarrow> Refused StaleWriter
      | Some p \<Rightarrow>
          if \<not> native_fence_matches (cp_room p) (x_actor ctx) then Refused StaleWriter
          else snd (finish_native_room_operation (x_fault ctx) st
                 (st, case authorize_collab_read (x_before ctx) (x_db ctx) (x_actor ctx) of
                        Inl e \<Rightarrow> Refused e
                      | Inr _ \<Rightarrow>
                          if family_room_native_head ctx p st = Some (cp_generation p, cp_tail p)
                          then Done () else Refused StaleWriter)))"

definition check_cached_native_consumer :: "'n environment \<Rightarrow> uuid \<Rightarrow> uuid \<Rightarrow> ('n, bool) act" where
  "check_cached_native_consumer env actor credential = do {
     checked \<leftarrow> transact env actor credential (\<lambda>ctx r st.
       (st, verify_room_native_consumer ctx (native_consumer_proof r) st));
     remote \<leftarrow> ask_room is_remote_task_room;
     case checked of
       Done _ \<Rightarrow> act_return True
     | DriverError \<Rightarrow> do {
         (if remote then fatal_remote_write_unconfirmed else fatal_fence_lost env);
         act_return False }
     | Refused _ \<Rightarrow> do { fatal_fence_lost env; act_return False } }"

datatype forward_write_error =
  FwRejected | FwUnavailable | FwConflict | FwEngineLimit | FwEngineMalformed | FwAppendTooLarge

definition prepare_forward_writer :: "'n environment \<Rightarrow> uuid \<Rightarrow> uuid \<Rightarrow> ('n, forward_write_error + unit) act" where
  "prepare_forward_writer env actor_user_id session_id = do {
     generation \<leftarrow> ask_room rm_writer_generation;
     claimed \<leftarrow> (if generation = None then do {
         claim \<leftarrow> claim_writer env actor_user_id session_id;
         case claim of
           DriverError \<Rightarrow> act_return (Inl FwUnavailable)
         | Refused e \<Rightarrow> act_return (Inl (if e = Forbidden \<or> e = NotFound then FwRejected else FwUnavailable))
         | Done c \<Rightarrow> do {
             adopted \<leftarrow> adopt_writer env c;
             act_return (case adopted of Inl _ \<Rightarrow> Inl FwUnavailable | Inr _ \<Rightarrow> Inr ()) } }
       else do {
         capacity \<leftarrow> ensure_primary_capacity env;
         act_return (case capacity of Inl _ \<Rightarrow> Inl FwUnavailable | Inr _ \<Rightarrow> Inr ()) });
     case claimed of
       Inl err \<Rightarrow> act_return (Inl err)
     | Inr _ \<Rightarrow> do {
         auth \<leftarrow> locking_session_auth_by_ids env actor_user_id session_id False;
         case auth of
           AuthAllow \<Rightarrow> do {
             current \<leftarrow> check_cached_native_consumer env actor_user_id session_id;
             act_return (if current then Inr () else Inl FwUnavailable) }
         | AuthDeny \<Rightarrow> act_return (Inl FwRejected)
         | AuthDbError \<Rightarrow> act_return (Inl FwUnavailable) } }"

text \<open>The update the engine computes for a request; \<open>None\<close> when it changes nothing.\<close>

definition forward_payload ::
    "'n environment \<Rightarrow> 'n engine_status option \<Rightarrow> forward_write_error + u8 list" where
  "forward_payload env report =
     (case report of
        Some (StatusOk s) \<Rightarrow>
          (case (eo_applied s, Option.bind (eo_update_b64 s) (en_b64_decode env)) of
             (True, Some bytes) \<Rightarrow> Inr bytes
           | _ \<Rightarrow> Inl FwUnavailable)
      | Some (Failed (ResourceLimit _)) \<Rightarrow> Inl FwEngineLimit
      | Some (Failed Malformed) \<Rightarrow> Inl FwEngineMalformed
      | _ \<Rightarrow> Inl FwUnavailable)"

definition forward_append ::
    "'n environment \<Rightarrow> uuid \<Rightarrow> uuid \<Rightarrow> u8 list \<Rightarrow> ('n, forward_write_error + int) act" where
  "forward_append env actor_user_id session_id bytes = do {
     generation \<leftarrow> ask_room rm_writer_generation;
     case generation of
       None \<Rightarrow> act_return (Inl FwUnavailable)
     | Some g \<Rightarrow> do {
         m \<leftarrow> peek env;
         expected_tail \<leftarrow> ask_room (\<lambda>r. cm_tail_seq (ra_committed r));
         guard \<leftarrow> ask_room ra_room_guard;
         appended \<leftarrow> (case guard of
             None \<Rightarrow> act_return (Refused StaleWriter)
           | Some room_guard \<Rightarrow> transact env actor_user_id session_id (\<lambda>ctx r.
               guard_append (en_sha256 env) ctx room_guard
                 \<lparr>ai_writer_generation = g, ai_expected_tail_seq = expected_tail, ai_op_id = mo_uuid m,
                  ai_payload = bytes\<rparr>));
         remote \<leftarrow> ask_room ra_libsql_remote;
         committed \<leftarrow> (case appended of
             Done result \<Rightarrow> act_return (Inr result)
           | Refused e \<Rightarrow>
               if e = StaleWriter then do {
                 fatal_writer_stale env Preempt;
                 act_return (Inl FwUnavailable) }
               else if e = PayloadTooLarge \<or> e = StateBudgetExceeded then act_return (Inl FwAppendTooLarge)
               else if is_definite_append_rejection e then act_return (Inl FwRejected)
               else do {
                 reconciled \<leftarrow> reconcile_ambiguous_append env actor_user_id session_id (mo_uuid m)
                   expected_tail bytes (en_sha256 env bytes);
                 act_return (case reconciled of Some result \<Rightarrow> Inr result | None \<Rightarrow> Inl FwUnavailable) }
           | DriverError \<Rightarrow>
               if remote then do { fatal_remote_write_unconfirmed; act_return (Inl FwUnavailable) }
               else do {
                 reconciled \<leftarrow> reconcile_ambiguous_append env actor_user_id session_id (mo_uuid m)
                   expected_tail bytes (en_sha256 env bytes);
                 act_return (case reconciled of Some result \<Rightarrow> Inr result | None \<Rightarrow> Inl FwUnavailable) });
         case committed of
           Inl err \<Rightarrow> act_return (Inl err)
         | Inr result \<Rightarrow>
             (let s = (case result of Committed s \<Rightarrow> s | DuplicateAck s \<Rightarrow> s) in
              if s \<noteq> expected_tail + 1 then do {
                fatal_room_divergence env actor_user_id session_id;
                act_return (Inl FwUnavailable) }
              else act_return (Inr s)) } }"

text \<open>A forward write that restores no revision.\<close>

definition apply_forward_write ::
    "'n environment \<Rightarrow> uuid \<Rightarrow> uuid \<Rightarrow> request \<Rightarrow> int option \<Rightarrow> ('n, forward_write_error + int option) act" where
  "apply_forward_write env actor_user_id session_id req expected_tail_seq = do {
     prepared \<leftarrow> prepare_forward_writer env actor_user_id session_id;
     tail \<leftarrow> ask_room (\<lambda>r. cm_tail_seq (ra_committed r));
     case prepared of
       Inl err \<Rightarrow> act_return (Inl err)
     | Inr _ \<Rightarrow>
         if expected_tail_seq \<noteq> None \<and> expected_tail_seq \<noteq> Some tail then act_return (Inl FwConflict)
         else do {
           report \<leftarrow> engine_call env req;
           case forward_payload env report of
             Inl err \<Rightarrow> act_return (Inl err)
           | Inr bytes \<Rightarrow>
               if is_empty_update bytes then do {
                 current \<leftarrow> check_cached_native_consumer env actor_user_id session_id;
                 act_return (if current then Inr None else Inl FwUnavailable) }
               else do {
                 bundle \<leftarrow> ask_room ra_committed;
                 m \<leftarrow> await env;
                 let validation = validate_recovery_bundle (en_b64_decode env) (mo_validator m)
                   (cm_snapshot bundle) (cm_tail_payloads bundle) bytes;
                 if validation = ValidatorUnavailable then act_return (Inl FwUnavailable)
                 else if validation \<noteq> BundleOk then act_return (Inl FwRejected)
                 else do {
                   appended \<leftarrow> forward_append env actor_user_id session_id bytes;
                   case appended of
                     Inl err \<Rightarrow> act_return (Inl err)
                   | Inr s \<Rightarrow> do {
                       on_room (push_committed bytes s);
                       integrated \<leftarrow> integrate_committed_update env bytes False;
                       case integrated of
                         Inl _ \<Rightarrow> do {
                           fatal_primary_unhealthy env actor_user_id session_id;
                           act_return (Inl FwUnavailable) }
                       | Inr _ \<Rightarrow> do {
                           on_room (broadcast_update (encode_sync_payload Update bytes));
                           act_return (Inr (Some s)) } } } } } }"

datatype body_write_error = BwRejected | BwUnavailable | BwConflict | BwTooLarge | BwInvalid | BwDeriveFailed

fun body_write_error_of :: "forward_write_error \<Rightarrow> body_write_error" where
  "body_write_error_of FwRejected = BwRejected"
| "body_write_error_of FwUnavailable = BwUnavailable"
| "body_write_error_of FwConflict = BwConflict"
| "body_write_error_of FwEngineLimit = BwTooLarge"
| "body_write_error_of FwAppendTooLarge = BwTooLarge"
| "body_write_error_of FwEngineMalformed = BwInvalid"

definition handle_replace_body ::
    "'n environment \<Rightarrow> uuid \<Rightarrow> uuid \<Rightarrow> u8 list \<Rightarrow> int option \<Rightarrow> ('n, body_write_error + unit) act" where
  "handle_replace_body env actor_user_id session_id seed expected_tail_seq = do {
     written \<leftarrow> apply_forward_write env actor_user_id session_id (ReqReplaceFromUpdate seed 1) expected_tail_seq;
     case written of
       Inl err \<Rightarrow> act_return (Inl (body_write_error_of err))
     | Inr None \<Rightarrow> act_return (Inr ())
     | Inr (Some s) \<Rightarrow> do {
         _ \<leftarrow> maybe_project_derived_body env s actor_user_id session_id False;
         act_return (Inr ()) } }"

definition handle_project_live ::
    "'n environment \<Rightarrow> uuid \<Rightarrow> uuid \<Rightarrow> ('n, body_write_error + 'n json \<times> int) act" where
  "handle_project_live env actor_user_id session_id = do {
     prepared \<leftarrow> prepare_forward_writer env actor_user_id session_id;
     case prepared of
       Inl err \<Rightarrow> act_return (Inl (if err = FwRejected then BwRejected else BwUnavailable))
     | Inr _ \<Rightarrow> do {
         report \<leftarrow> engine_call env (ReqProject 1);
         case report of
           Some (StatusOk s) \<Rightarrow>
             (case eo_content_json s of
                Some json \<Rightarrow> do {
                  current \<leftarrow> check_cached_native_consumer env actor_user_id session_id;
                  tail \<leftarrow> ask_room (\<lambda>r. cm_tail_seq (ra_committed r));
                  act_return (if current then Inr (json, tail) else Inl BwUnavailable) }
              | None \<Rightarrow> act_return (Inl BwUnavailable))
         | Some (Failed (ResourceLimit _)) \<Rightarrow> act_return (Inl BwTooLarge)
         | _ \<Rightarrow> act_return (Inl BwUnavailable) } }"

text \<open>\<open>None\<close> is \<open>RevisionCaptureError::Unavailable\<close>.\<close>

definition handle_capture_revision ::
    "'n environment \<Rightarrow> uuid \<Rightarrow> uuid \<Rightarrow> ('n, (u8 list \<times> 'n json) option) act" where
  "handle_capture_revision env actor_user_id session_id = do {
     behind \<leftarrow> ask_room (\<lambda>r. \<not> rm_committed_loaded r \<or> rm_writer_generation r = None);
     loaded \<leftarrow> (if behind then do {
         load \<leftarrow> transact env actor_user_id session_id (\<lambda>ctx r. load_room_collab_readonly ctx (actor_fence r));
         remote \<leftarrow> ask_room is_remote_task_room;
         case load of
           DriverError \<Rightarrow> do {
             (if remote then fatal_remote_write_unconfirmed else act_return ());
             act_return False }
         | Refused _ \<Rightarrow> act_return False
         | Done l \<Rightarrow> do {
             on_room (set_committed_from_load l);
             reloaded \<leftarrow> reload_primary_from_committed env;
             act_return (reloaded = Inr ()) } }
       else act_return True);
     if \<not> loaded then act_return None
     else do {
       capacity \<leftarrow> ensure_primary_capacity env;
       if capacity \<noteq> Inr () then act_return None
       else do {
         current \<leftarrow> check_cached_native_consumer env actor_user_id session_id;
         if \<not> current then act_return None
         else do {
           snap \<leftarrow> engine_call env ReqRevisionSnapshot;
           case Option.bind snap (decoded_update (en_b64_decode env)) of
             None \<Rightarrow> act_return None
           | Some y_snapshot \<Rightarrow> do {
               report \<leftarrow> engine_call env (ReqProject 1);
               case project_report report of
                 Inl _ \<Rightarrow> act_return None
               | Inr content \<Rightarrow> do {
                   proof \<leftarrow> check_cached_native_consumer env actor_user_id session_id;
                   act_return (if proof then Some (y_snapshot, content) else None) } } } } } }"

section \<open>The lease, and the actor's loop\<close>

text \<open>One renewal of a lease row; \<open>None\<close> is a driver error. The row's new expiry is the
  database's.\<close>

definition renew_fence :: "tx_ctx \<Rightarrow> native_fence \<Rightarrow> bool option" where
  "renew_fence ctx f =
     (if a_backend (x_actor ctx) = Postgres \<or> x_fault ctx \<in> {StatementFault, CommitRefused, CommitReplyLost}
      then None
      else Some (snd (hand_over_lease f (nf_owner f) (a_now (x_actor ctx)) (x_db ctx)) = 1))"

definition renew_once :: "'n environment \<Rightarrow> native_fence \<Rightarrow> ('n, bool option) act" where
  "renew_once env f = do {
     m \<leftarrow> await env;
     r \<leftarrow> ask_room id;
     act_return (renew_fence (tx_context m r 0 0) f) }"

definition guard_renew :: "'n environment \<Rightarrow> room_guard \<Rightarrow> ('n, bool option) act" where
  "guard_renew env guard =
     (case guard of
        PgGuard \<Rightarrow> act_return (Some True)
      | FamilyGuard original current writer_owner \<Rightarrow> do {
          renewed \<leftarrow> renew_once env current;
          let activated = original\<lparr>nf_owner := writer_owner\<rparr>;
          if renewed = Some False \<and> activated \<noteq> current then do {
            again \<leftarrow> renew_once env activated;
            (if again = Some True
             then on_room (\<lambda>r. r\<lparr>ra_room_guard := Some (FamilyGuard original activated writer_owner)\<rparr>)
             else act_return ());
            act_return again }
          else act_return renewed })"

text \<open>Only a lease has a renewal interval; without one the loop's renewal branch is off.\<close>

fun has_renew_interval :: "room_guard \<Rightarrow> bool" where
  "has_renew_interval PgGuard = False"
| "has_renew_interval (FamilyGuard original current writer_owner) = True"

definition renew_tick :: "'n environment \<Rightarrow> ('n, unit) act" where
  "renew_tick env = do {
     lost \<leftarrow> ask_room rm_fence_lost;
     if lost then act_return ()
     else do {
       guard \<leftarrow> ask_room ra_room_guard;
       remote \<leftarrow> ask_room is_remote_task_room;
       case guard of
         None \<Rightarrow> fatal_fence_lost env
       | Some g \<Rightarrow>
           if \<not> has_renew_interval g then act_return ()
           else do {
             m \<leftarrow> peek env;
             renewed \<leftarrow> guard_renew env g;
             if \<not> mo_in_time m \<or> renewed = None
             then (if remote then fatal_remote_write_unconfirmed else fatal_fence_lost env)
             else if renewed = Some True then act_return ()
             else fatal_fence_lost env } } }"

datatype room_command =
  CmdJoin room_join
| CmdLeave uuid
| CmdFrame uuid "u8 list"
| CmdCaptureRevision uuid uuid
| CmdReplaceBody uuid uuid "u8 list" "int option"
| CmdProjectLive uuid uuid
| LeaseDrop uuid u64
| AclTick
| RenewTick

text \<open>One turn of the loop; the replies of joins, captures and writes go to their callers.\<close>

fun dispatch :: "'n environment \<Rightarrow> room_command \<Rightarrow> ('n, unit) act" where
  "dispatch env (CmdJoin j) = do { _ \<leftarrow> handle_join env j; act_return () }"
| "dispatch env (CmdLeave conn_id) = on_room (handle_leave conn_id)"
| "dispatch env (CmdFrame conn_id bytes) = handle_frame env conn_id bytes"
| "dispatch env (CmdCaptureRevision actor session) = do { _ \<leftarrow> handle_capture_revision env actor session; act_return () }"
| "dispatch env (CmdReplaceBody actor session seed expected) =
     do { _ \<leftarrow> handle_replace_body env actor session seed expected; act_return () }"
| "dispatch env (CmdProjectLive actor session) = do { _ \<leftarrow> handle_project_live env actor session; act_return () }"
| "dispatch env (LeaseDrop conn_id gen) = on_room (close_dropped_connection conn_id gen)"
| "dispatch env AclTick = poll_acl env"
| "dispatch env RenewTick = renew_tick env"

text \<open>The room exits once its fence is lost and its last connection is gone.\<close>

fun run_loop :: "'n environment \<Rightarrow> room_command list \<Rightarrow> ('n, unit) act" where
  "run_loop env [] = act_return ()"
| "run_loop env (cmd # rest) = do {
     _ \<leftarrow> await env;
     dispatch env cmd;
     finished \<leftarrow> ask_room (\<lambda>r. rm_fence_lost r \<and> rm_connections r = []);
     if finished then act_return () else run_loop env rest }"

definition teardown :: "'n environment \<Rightarrow> bool \<Rightarrow> ('n, bool) act" where
  "teardown env clean = do {
     on_room (if clean then drain_connections 1001 ''server shutdown''
              else drain_connections 1011 ''collab unavailable'');
     engine_stop_ok \<leftarrow> on_room_result (\<lambda>r. (eb_running (ra_engine r),
       r\<lparr>ra_engine := (ra_engine r)\<lparr>eb_running := False, eb_child := False\<rparr>\<rparr>));
     guard \<leftarrow> ask_room ra_room_guard;
     guard_clean \<leftarrow> (case guard of
         Some _ \<Rightarrow> do {
           on_room (\<lambda>r. r\<lparr>ra_room_guard := None\<rparr>);
           m \<leftarrow> await env;
           act_return (mo_released m) }
       | None \<Rightarrow> ask_room (\<lambda>r. \<not> ra_guard_cleanup_failed r));
     act_return (clean \<and> engine_stop_ok \<and> guard_clean) }"

definition spawned_room ::
    "room_config \<Rightarrow> uuid \<Rightarrow> uuid \<Rightarrow> collab_kind \<Rightarrow> db_backend \<Rightarrow> bool \<Rightarrow> engine_limits \<Rightarrow> room_guard \<Rightarrow>
     collab_load_state option \<Rightarrow> room_actor" where
  "spawned_room cfg workspace document k backend libsql_remote limits guard initial_load =
     (let r = \<lparr>rm_config = cfg, rm_channels = [], rm_budgets = [], rm_connections = [],
               rm_awareness = registry_new, rm_pending_awareness = [], rm_flushing_awareness = False,
               rm_client_id_owner = [], rm_user_reject_budgets = [], rm_writer_generation = None,
               rm_committed_loaded = False, rm_fence_lost = False, rm_session_revision = None,
               ra_workspace_id = workspace, ra_document_id = document, ra_kind = k,
               ra_backend = backend, ra_libsql_remote = libsql_remote,
               ra_engine = \<lparr>eb_running = True, eb_child = False, eb_ops_used = 0, eb_limits = limits\<rparr>,
               ra_room_guard = Some guard, ra_guard_cleanup_failed = False, ra_owner_record = None,
               ra_committed = \<lparr>cm_snapshot = [0, 0], cm_tail_payloads = [], cm_tail_seq = 0,
                               cm_snapshot_cutoff_seq = 0\<rparr>,
               ra_committed_writer_generation = 0, ra_fifo_seq = 0, ra_compact_unhealthy = False,
               ra_compact_retry_at_tail_len = None, ra_primary_loaded = False, ra_primary_dirty = False,
               ra_admission_reserved = True\<rparr>
      in case initial_load of Some l \<Rightarrow> set_committed_from_load l r | None \<Rightarrow> r)"

end
