(* ===== verification/RoomLogic.thy ===== *)
theory RoomLogic
  imports Room
begin

text \<open>
  A small logic for the handlers of \<open>Room\<close>: the weakest precondition of an action, what an action
  keeps, and locales that carry an invariant from the elementary changes of the world to the handlers.
  \<open>talks\<close> are the changes of the room's own bookkeeping and of its conversation with the
  connections; they touch neither its authority nor its copy of the document.
\<close>

section \<open>Weakest preconditions\<close>

definition wp :: "('w, 'a) state \<Rightarrow> ('a \<Rightarrow> 'w \<Rightarrow> bool) \<Rightarrow> 'w \<Rightarrow> bool" where
  "wp m Q w \<longleftrightarrow> (case run_state m w of (x, w') \<Rightarrow> Q x w')"

lemma wp_bind [simp]: "wp (State_Monad.bind m f) Q = wp m (\<lambda>x. wp (f x) Q)"
  by (simp add: wp_def fun_eq_iff split: prod.split)

lemma wp_return [simp]: "wp (act_return x) Q = Q x"
  by (simp add: wp_def fun_eq_iff act_return_def)

lemma wp_get [simp]: "wp State_Monad.get Q = (\<lambda>w. Q w w)"
  by (simp add: wp_def fun_eq_iff)

lemma wp_set [simp]: "wp (State_Monad.set w') Q = (\<lambda>w. Q () w')"
  by (simp add: wp_def fun_eq_iff)

lemma wp_ask_room [simp]: "wp (ask_room f) Q = (\<lambda>w. Q (f (w_room w)) w)"
  by (simp add: ask_room_def)

lemma wp_peek [simp]: "wp (peek env) Q = (\<lambda>w. Q (en_moments env (w_tick w)) w)"
  by (simp add: peek_def)

lemma wp_now_ms [simp]: "wp (now_ms env) Q = (\<lambda>w. Q (mo_clock (en_moments env (w_tick w))) w)"
  by (simp add: now_ms_def)

lemma wp_await [simp]:
  "wp (await env) Q = (\<lambda>w. let m = en_moments env (w_tick w) in Q m (others_run env m w))"
  by (simp add: await_def Let_def)

lemma wp_on_room_result [simp]:
  "wp (on_room_result f) Q = (\<lambda>w. case f (w_room w) of (x, r) \<Rightarrow> Q x (w\<lparr>w_room := r\<rparr>))"
  by (simp add: on_room_result_def fun_eq_iff split: prod.split)

lemma wp_on_room [simp]: "wp (on_room f) Q = (\<lambda>w. Q () (w\<lparr>w_room := f (w_room w)\<rparr>))"
  by (simp add: on_room_def)

lemma wp_on_store [simp]:
  "wp (on_store f) Q = (\<lambda>w. case f (w_store w) of (st, x) \<Rightarrow> Q x (w\<lparr>w_store := st\<rparr>))"
  by (simp add: on_store_def fun_eq_iff split: prod.split)

lemma wp_log_status [simp]:
  "wp (log_status conn_id ok) Q = (\<lambda>w. Q () (w\<lparr>w_statuses := w_statuses w @ [(conn_id, ok)]\<rparr>))"
  by (simp add: log_status_def)

lemma wp_transact [simp]:
  "wp (transact env actor credential f) Q = (\<lambda>w.
     let m = en_moments env (w_tick w); w = others_run env m w in
     case f (tx_context m (w_room w) actor credential) (w_room w) (w_store w) of
       (st, x) \<Rightarrow> Q x (w\<lparr>w_store := st\<rparr>))"
  by (simp add: transact_def Let_def)

lemma wp_if [simp]: "wp (if c then a else b) Q = (if c then wp a Q else wp b Q)"
  by simp

lemma wp_mono: "wp m Q w \<Longrightarrow> (\<And>x w'. Q x w' \<Longrightarrow> Q' x w') \<Longrightarrow> wp m Q' w"
  by (simp add: wp_def split: prod.splits)

lemma wp_conj: "wp m P w \<Longrightarrow> wp m Q w \<Longrightarrow> wp m (\<lambda>x w. P x w \<and> Q x w) w"
  by (simp add: wp_def split: prod.splits)

lemma wp_true [simp]: "wp m (\<lambda>x w. True) = (\<lambda>w. True)"
  by (simp add: wp_def fun_eq_iff split: prod.split)

section \<open>What an action keeps\<close>

definition keeps :: "('w \<Rightarrow> bool) \<Rightarrow> ('w, 'a) state \<Rightarrow> bool" where
  "keeps I m \<longleftrightarrow> (\<forall>w. I w \<longrightarrow> wp m (\<lambda>_. I) w)"

lemma keepsI: "(\<And>w. I w \<Longrightarrow> wp m (\<lambda>_. I) w) \<Longrightarrow> keeps I m"
  by (simp add: keeps_def)

lemma keepsD: "keeps I m \<Longrightarrow> I w \<Longrightarrow> wp m (\<lambda>_. I) w"
  by (simp add: keeps_def)

lemma keeps_bind: "keeps I m \<Longrightarrow> (\<And>x. keeps I (f x)) \<Longrightarrow> keeps I (State_Monad.bind m f)"
  by (auto simp: keeps_def intro: wp_mono)

lemma keeps_return: "keeps I (act_return x)"
  by (simp add: keeps_def)

lemma keeps_ask_room: "keeps I (ask_room f)"
  by (simp add: keeps_def)

lemma keeps_peek: "keeps I (peek env)"
  by (simp add: keeps_def)

lemma keeps_now_ms: "keeps I (now_ms env)"
  by (simp add: keeps_def)

lemma keeps_if: "(c \<Longrightarrow> keeps I a) \<Longrightarrow> (\<not> c \<Longrightarrow> keeps I b) \<Longrightarrow> keeps I (if c then a else b)"
  by simp

lemmas keeps_rules = keeps_bind keeps_return keeps_ask_room keeps_peek keeps_now_ms keeps_if

lemmas act_splits = option.split sum.split prod.split tx_result.split engine_status.split engine_failure.split
  recycle_error.split room_guard.split

section \<open>The room's conversation\<close>

definition duty :: "room_actor \<Rightarrow> _" where
  "duty r = (rm_fence_lost r, rm_writer_generation r, ra_backend r, ra_kind r,
     ra_libsql_remote r, ra_workspace_id r, ra_document_id r, ra_room_guard r, ra_committed r,
     ra_committed_writer_generation r)"

definition talks :: "room_actor \<Rightarrow> room_actor \<Rightarrow> bool" where
  "talks r r' \<longleftrightarrow> room_step\<^sup>*\<^sup>* r r' \<and> duty r' = duty r \<and>
     fst ` set (rm_connections r') \<subseteq> fst ` set (rm_connections r) \<and>
     (\<forall>g ch. detached g ch r \<longrightarrow> detached g ch r')"

lemma talksI:
  assumes "room_step\<^sup>*\<^sup>* r r'" and "duty r' = duty r"
    and "fst ` set (rm_connections r') \<subseteq> fst ` set (rm_connections r)"
    and "\<And>g ch. detached g ch r \<Longrightarrow> detached g ch r'"
  shows "talks r r'"
  using assms by (simp add: talks_def)

lemma talksD:
  assumes "talks r r'"
  shows "room_step\<^sup>*\<^sup>* r r'" "duty r' = duty r"
    "fst ` set (rm_connections r') \<subseteq> fst ` set (rm_connections r)"
    "detached g ch r \<Longrightarrow> detached g ch r'"
  using assms by (simp_all add: talks_def)

lemma talks_refl [simp]: "talks r r"
  by (simp add: talks_def)

lemma talks_trans:
  assumes "talks r s" and "talks s t"
  shows "talks r t"
proof (rule talksI)
  show "room_step\<^sup>*\<^sup>* r t"
    by (rule rtranclp_trans [OF talksD(1) [OF assms(1)] talksD(1) [OF assms(2)]])
  show "fst ` set (rm_connections t) \<subseteq> fst ` set (rm_connections r)"
    by (rule subset_trans [OF talksD(3) [OF assms(2)] talksD(3) [OF assms(1)]])
qed (use talksD(2,4) [OF assms(1)] talksD(2,4) [OF assms(2)] in simp_all)

text \<open>Bookkeeping that leaves connections, channels and duty alone.\<close>

lemma talks_internal:
  assumes "rm_config r' = rm_config r" "rm_channels r' = rm_channels r" "rm_budgets r' = rm_budgets r"
    "rm_connections r' = rm_connections r" "duty r' = duty r"
  shows "talks r r'"
proof (rule talksI)
  show "room_step\<^sup>*\<^sup>* r r'"
    using assms by (intro r_into_rtranclp room_step.internal) simp_all
  show "detached g ch r'" if "detached g ch r" for g ch
    using that assms room_ok_internal [of r r'] by (simp add: detached_def)
qed (use assms in simp_all)

text \<open>Deliveries, evictions and their flags.\<close>

lemma duty_close [simp]: "duty (close_events order c code reason r) = duty r"
  by (simp add: close_events_def enqueue_close_def enqueue_close_ordered_def signal_cancel_def Let_def
      set_channel_def duty_def split: close_order.split try_send_result.split prod.split option.split)

lemma duty_evict [simp]: "duty (snd (evict_connection conn_id code reason order r)) = duty r"
proof (cases "conn_of conn_id r")
  case (Some c)
  have "duty (r\<lparr>rm_awareness := a, rm_connections := m\<rparr>) = duty r" for a m
    by (simp add: duty_def)
  with Some show ?thesis
    by (simp add: evict_connection_def split: prod.split)
qed (simp add: evict_connection_def)

interpretation duty_evict: eviction_invariant "\<lambda>r. duty r = d" for d
  by unfold_locales (use duty_evict in simp, simp_all add: duty_def)

lemma duty_drop_permit [simp]: "duty (drop_permit p r) = duty r"
  by (cases "(p, r)" rule: drop_permit.cases) (simp_all add: Let_def set_budget_def duty_def)

lemma duty_stores [simp]: "duty (set_channel h ch r) = duty r" "duty (set_budget h bd r) = duty r"
  by (simp_all add: set_channel_def set_budget_def duty_def)

lemma duty_deliver: "duty (deliver_outbound conn_id bytes k r) = duty r"
  using duty_evict.backpressure [of _ "duty r" conn_id]
  by (simp add: deliver_outbound_def send_accounted_def Let_def
      split: option.split prod.split try_send_result.split)

interpretation duty: delivery_invariant "\<lambda>r. duty r = d" for d
  by unfold_locales (use duty_deliver in simp, simp_all add: duty_def)

lemma talks_delivery:
  assumes "\<And>I. delivery_invariant I \<Longrightarrow> I r \<Longrightarrow> I (f r)"
  shows "talks r (f r)"
proof (rule talksI)
  show "room_step\<^sup>*\<^sup>* r (f r)"
    by (rule assms [OF runs.delivery_invariant_axioms]) simp
  show "duty (f r) = duty r"
    by (rule assms [OF duty.delivery_invariant_axioms]) simp
  have "set (rm_connections (f r)) \<subseteq> set (rm_connections r)"
    by (rule assms [OF shrinking.delivery_invariant_axioms]) simp
  then show "fst ` set (rm_connections (f r)) \<subseteq> fst ` set (rm_connections r)"
    by (rule image_mono)
  show "detached g ch (f r)" if "detached g ch r" for g ch
    by (rule assms [OF detached.delivery_invariant_axioms that])
qed

lemma talks_deliver:
  "talks r (close_connection_in_order conn_id code reason order r)"
  "talks r (close_each code reason order r)"
  "talks r (broadcast_update yp r)"
  "talks r (broadcast_awareness encoded r)"
  "talks r (deliver_document_message conn_id key message r)"
  "talks r (handle_connection_ping conn_id r)"
  by (rule talks_delivery, erule delivery_invariant.close delivery_invariant.each delivery_invariant.updates
      delivery_invariant.presence delivery_invariant.message delivery_invariant.ping, assumption)+

text \<open>Marks of a connection, budgets of rejected updates and the flags of the engine.\<close>

lemma keeps_identityI:
  "(\<And>c. cn_events (f c) = cn_events c \<and> cn_cancel (f c) = cn_cancel c \<and>
     cn_outbound_budget (f c) = cn_outbound_budget c \<and> cn_client_id (f c) = cn_client_id c \<and>
     cn_session (f c) = cn_session c) \<Longrightarrow> keeps_identity f"
  by (simp add: keeps_identity_def)

lemma talks_update_conn:
  assumes "keeps_identity f"
  shows "talks r (update_conn conn_id f r)"
proof (rule talksI)
  show "room_step\<^sup>*\<^sup>* r (update_conn conn_id f r)"
    using assms by (intro r_into_rtranclp room_step.flags)
  show "duty (update_conn conn_id f r) = duty r"
    by (simp add: update_conn_def duty_def)
  show "detached g ch (update_conn conn_id f r)" if "detached g ch r" for g ch
  proof -
    from that have "room_ok (update_conn conn_id f r)"
      using assms by (simp add: detached_def keeps_identity_def room_ok_update_conn)
    with that assms show ?thesis
      by (auto simp: detached_def update_conn_def keeps_identity_def split: if_splits)
  qed
qed (force simp: update_conn_def)

lemma talks_reject_budget [simp]: "talks r (set_reject_budget user_id b r)"
  by (rule talks_internal) (simp_all add: set_reject_budget_def duty_def)

lemma talks_rejects:
  "talks r (record_user_rejected_candidate now user_id r)"
  "talks r (snd (user_write_reject_blocked now user_id r))"
  by (simp_all add: record_user_rejected_candidate_def user_write_reject_blocked_def Let_def split: option.split)

lemma talks_engine:
  "talks r (r\<lparr>ra_engine := b\<rparr>)"
  "talks r (primary_lost r)"
  "talks r (r\<lparr>ra_primary_dirty := d\<rparr>)"
  "talks r (r\<lparr>ra_primary_loaded := l, ra_primary_dirty := d\<rparr>)"
  "talks r (r\<lparr>ra_primary_dirty := d, ra_primary_loaded := l\<rparr>)"
  "talks r (r\<lparr>ra_primary_loaded := l, ra_primary_dirty := d, ra_admission_reserved := a\<rparr>)"
  "talks r (compact_failed r)"
  "talks r (r\<lparr>ra_guard_cleanup_failed := c\<rparr>)"
  by (rule talks_internal; simp add: primary_lost_def compact_failed_def duty_def)+

lemma talks_replies:
  "talks r (send_sync_status conn_id key ok r)"
  "talks r (send_stateless conn_id text r)"
  "talks r (close_connection conn_id code reason r)"
  "talks r (close_connection_ordered conn_id code reason r)"
  "talks r (close_all_connections code reason r)"
  "talks r (handle_auth conn_id key read_only auth r)"
  "talks r (handle_query_awareness conn_id key r)"
  "talks r (handle_leave conn_id r)"
  "talks r (close_dropped_connection conn_id gen r)"
  by (simp_all add: send_sync_status_def send_stateless_def close_connection_def close_connection_ordered_def
      close_all_connections_def handle_auth_def handle_query_awareness_def handle_leave_def Let_def
      close_dropped_connection_def talks_deliver split: option.split auth_message.split)

lemma talks_presence: "talks r (handle_awareness crates client_id session gen bytes r)"
proof -
  have "talks r (r\<lparr>rm_awareness := reg\<rparr>)" for reg
    by (rule talks_internal) (simp_all add: duty_def)
  then show ?thesis
    by (auto simp: handle_awareness_def Let_def split: option.split prod.split
        intro: talks_trans [OF _ talks_deliver(4)])
qed

lemma talks_close_revoked: "talks r (close_revoked ids r)"
  unfolding close_revoked_def
  by (induction ids arbitrary: r) (auto intro: talks_trans [OF talks_replies(3)])

lemma talks_finish_frame: "talks r (finish_frame conn_id n r)"
  by (simp add: finish_frame_def talks_update_conn keeps_identity_def)

lemma talks_close_idle:
  "talks r (close_connection conn_id code reason (update_conn conn_id (\<lambda>c. c\<lparr>cn_in_flight := f\<rparr>) r))"
  by (rule talks_trans [OF talks_update_conn talks_replies(3)]) (simp add: keeps_identity_def)

section \<open>Quiet handlers\<close>

text \<open>An invariant that survives what the others do and what the room says survives every handler that only
  asks the engine, the clock and the authority, and talks.\<close>

locale room_quiet =
  fixes env :: "'n environment" and I :: "'n world \<Rightarrow> bool"
  assumes others: "I w \<Longrightarrow> I (others_run env (en_moments env (w_tick w)) w)"
    and talk: "I w \<Longrightarrow> talks (w_room w) r \<Longrightarrow> I (w\<lparr>w_room := r\<rparr>)"
begin

lemma awaits: "keeps I (await env)"
  by (simp add: keeps_def Let_def others)

lemma talking: "(\<And>r. talks r (f r)) \<Longrightarrow> keeps I (on_room f)"
  by (simp add: keeps_def talk)

lemma talking_result: "(\<And>r. talks r (snd (f r))) \<Longrightarrow> keeps I (on_room_result f)"
proof (rule keepsI)
  fix w
  assume "\<And>r. talks r (snd (f r))" and "I w"
  from talk [OF this(2) this(1)] show "wp (on_room_result f) (\<lambda>_. I) w"
    by (cases "f (w_room w)") simp
qed

lemmas quiet_rules = keeps_rules awaits talking talking_result

lemmas talks_facts = talks_deliver talks_engine talks_replies talks_presence talks_close_revoked
  talks_finish_frame talks_close_idle talks_rejects

lemma engine_calls: "keeps I (engine_call env req)"
  unfolding engine_call_def by (auto intro!: quiet_rules simp: talks_engine split: prod.split)

lemma recycles: "keeps I (engine_recycle env)"
  unfolding engine_recycle_def by (auto intro!: quiet_rules simp: talks_engine split: prod.split)

lemma loads: "keeps I (load_engine_primary env)"
  unfolding load_engine_primary_def by (auto intro!: quiet_rules engine_calls)

lemma reloads: "keeps I (reload_primary_from_committed env)"
  unfolding reload_primary_from_committed_def
  by (auto intro!: quiet_rules recycles loads simp: talks_engine split: act_splits)

lemma capacity: "keeps I (ensure_primary_capacity env)"
  unfolding ensure_primary_capacity_def by (auto intro!: quiet_rules reloads)

lemma recovers: "keeps I (recover_primary_after_engine_fault env)"
  unfolding recover_primary_after_engine_fault_def by (auto intro!: quiet_rules reloads simp: talks_engine)

lemma applies: "keeps I (apply_primary env bytes)"
  unfolding apply_primary_def by (auto intro!: quiet_rules engine_calls)

lemma integrates: "keeps I (integrate_committed_update env bytes admitted)"
  unfolding integrate_committed_update_def
  by (auto intro!: quiet_rules reloads applies simp: talks_engine)

lemma auths: "keeps I (locking_session_auth_by_ids env user_id session_id read_only)"
  unfolding locking_session_auth_by_ids_def by (auto intro!: quiet_rules)

lemma checks: "keeps I (delivery_check env user_id session_id)"
  unfolding delivery_check_def by (auto intro!: quiet_rules)

lemma allowed: "keeps I (close_unless_allowed env conn_id session read_only)"
  unfolding close_unless_allowed_def
  by (auto intro!: quiet_rules checks simp: talks_facts split: option.split delivery_admission.split)

lemma revoked: "keeps I (revoked_connections env conns)"
  by (induction conns rule: list.induct) (auto intro!: quiet_rules checks)

lemma polls: "keeps I (poll_acl env)"
  unfolding poll_acl_def by (auto intro!: quiet_rules revoked simp: talks_facts)

lemma sync_step1: "keeps I (handle_sync_step1 env conn_id key vector)"
  unfolding handle_sync_step1_def Let_def
  by (auto intro!: quiet_rules capacity engine_calls recovers simp: talks_facts split: act_splits)

end

section \<open>Failures\<close>

text \<open>What the terminal failure paths need of an invariant: the fence may be lost, the generation given
  up, a candidate refused, and the cached document read again from the rows.\<close>

lemma duty_drops [simp]: "duty (fold (\<lambda>f. drop_permit (of_permit f)) fs r) = duty r"
  by (induction fs arbitrary: r) simp_all

lemma duty_transport [simp]: "duty (run_transport t r) = duty r"
proof -
  have "duty (r\<lparr>rm_channels := cs\<rparr>) = duty r" for cs
    by (simp add: duty_def)
  then show ?thesis
    by (cases t) (simp_all add: open_socket_def pre_auth_send_def transport_recv_def transport_sent_def
        transport_exit_def Let_def split: option.split list.split room_client_event.split)
qed

lemma duty_transports [simp]: "duty (fold run_transport ts r) = duty r"
  by (induction ts arbitrary: r) simp_all

lemma duty_others [simp]: "duty (w_room (others_run env m w)) = duty (w_room w)"
  by (simp add: others_run_def split: prod.split)

lemma duty_eqD:
  assumes "duty r = duty s"
  shows "rm_fence_lost r = rm_fence_lost s" "rm_writer_generation r = rm_writer_generation s"
    "ra_backend r = ra_backend s" "ra_kind r = ra_kind s" "ra_libsql_remote r = ra_libsql_remote s"
    "ra_room_guard r = ra_room_guard s" "ra_committed r = ra_committed s"
    "ra_committed_writer_generation r = ra_committed_writer_generation s"
  using assms by (simp_all add: duty_def)

lemmas duty_others_fields [simp] = duty_others [THEN duty_eqD(1)] duty_others [THEN duty_eqD(2)]
  duty_others [THEN duty_eqD(3)] duty_others [THEN duty_eqD(6)] duty_others [THEN duty_eqD(7)]

lemma tx_context_backend [simp]: "a_backend (x_actor (tx_context m r actor credential)) = ra_backend r"
  by (simp add: tx_context_def)

lemma drain_field:
  assumes "\<And>h ch s. f (set_channel h ch s) = f s"
  shows "f (drain_connections code reason r) = f (r\<lparr>rm_connections := []\<rparr>)"
  unfolding drain_connections_def
  by (rule fold_invariant [where Q = "\<lambda>_. True" and P = "\<lambda>s. f s = f (r\<lparr>rm_connections := []\<rparr>)"])
    (auto simp: enqueue_close_def signal_cancel_def Let_def assms split: option.split)

lemma lose_fence_fields [simp]:
  "ra_room_guard (lose_fence r) = ra_room_guard r"
  "ra_primary_loaded (lose_fence r) = False"
  "rm_fence_lost (lose_fence r) = True"
  "rm_writer_generation (lose_fence r) = None"
  "ra_backend (lose_fence r) = ra_backend r"
  by (simp_all add: lose_fence_def primary_lost_def set_channel_def
      drain_field [where f = ra_room_guard] drain_field [where f = ra_primary_loaded]
      drain_field [where f = rm_fence_lost] drain_field [where f = rm_writer_generation]
      drain_field [where f = ra_backend])

lemma guard_gone: "ra_room_guard r = None \<Longrightarrow> r\<lparr>ra_room_guard := None\<rparr> = r"
  by (cases r) simp

locale room_failing = room_quiet env I
  for env :: "'n environment" and I :: "'n world \<Rightarrow> bool" +
  assumes refuses: "I w \<Longrightarrow> I (w\<lparr>w_statuses := w_statuses w @ [(conn_id, False)]\<rparr>)"
    and loses: "I w \<Longrightarrow> I (w\<lparr>w_room := (lose_fence (w_room w))\<lparr>ra_room_guard := None\<rparr>\<rparr>)"
    and resigns: "I w \<Longrightarrow> I (w\<lparr>w_room := (w_room w)\<lparr>rm_writer_generation := None\<rparr>\<rparr>)"
    and reads: "I w \<Longrightarrow> load_room_collab_readonly ctx f (w_store w) = (st, x) \<Longrightarrow> I (w\<lparr>w_store := st\<rparr>)"
    and adopts: "I w \<Longrightarrow> a_backend (x_actor ctx) = ra_backend (w_room w) \<Longrightarrow>
      load_room_collab_readonly ctx f (w_store w) = (st, Done l) \<Longrightarrow>
      I (w\<lparr>w_store := st, w_room := set_committed_from_load l (w_room w)\<rparr>)"
begin

lemma refusals: "keeps I (report_sync_status conn_id key False)"
  unfolding report_sync_status_def
  by (intro keeps_bind talking) (simp_all add: talks_facts keeps_def refuses)

lemma fatal_remote: "keeps I fatal_remote_write_unconfirmed"
proof (rule keepsI)
  fix w
  assume "I w"
  let ?r = "lose_fence (w_room w)"
  let ?o = "case actor_fence (w_room w) of Some f \<Rightarrow> Some f | None \<Rightarrow> ra_owner_record (w_room w)"
  have "talks (?r\<lparr>ra_room_guard := None\<rparr>)
      (?r\<lparr>ra_guard_cleanup_failed := True, ra_owner_record := ?o, ra_room_guard := None\<rparr>)"
    by (rule talks_internal) (simp_all add: duty_def)
  with talk [OF loses [OF \<open>I w\<close>]]
  show "wp fatal_remote_write_unconfirmed (\<lambda>_. I) w"
    by (simp add: fatal_remote_write_unconfirmed_def)
qed

lemma fatal_lost: "keeps I (fatal_fence_lost env)"
proof (rule keepsI)
  fix w
  assume w: "I w"
  let ?w = "w\<lparr>w_room := (lose_fence (w_room w))\<lparr>ra_room_guard := None\<rparr>\<rparr>"
  have after: "wp (do { m \<leftarrow> await env;
      if mo_released m then act_return () else on_room (\<lambda>r. r\<lparr>ra_guard_cleanup_failed := True\<rparr>) })
      (\<lambda>_. I) ?w"
    by (rule keepsD [where I = I, OF _ loses [OF w]]) (auto intro!: quiet_rules simp: talks_engine)
  show "wp (fatal_fence_lost env) (\<lambda>_. I) w"
    using after loses [OF w] guard_gone [of "lose_fence (w_room w)"]
    by (cases "ra_room_guard (w_room w)") (simp_all add: fatal_fence_lost_def)
qed

lemma reload_or_close: "keeps I (reload_primary_or_close_room env)"
  unfolding reload_primary_or_close_room_def
  by (auto intro!: quiet_rules reloads fatal_lost split: act_splits)

lemma writer_stale: "keeps I (fatal_writer_stale env order)"
proof -
  have "keeps I (on_room (\<lambda>r. close_each 1008 ''writer stale'' order
      (r\<lparr>rm_writer_generation := None, rm_committed_loaded := False\<rparr>)))"
  proof (rule keepsI)
    fix w
    assume w: "I w"
    have "talks ((w_room w)\<lparr>rm_writer_generation := None\<rparr>)
        ((w_room w)\<lparr>rm_writer_generation := None, rm_committed_loaded := False\<rparr>)"
      by (rule talks_internal) (simp_all add: duty_def)
    from talk [OF resigns [OF w], simplified, OF talks_trans [OF this talks_deliver(2)]]
    show "wp (on_room (\<lambda>r. close_each 1008 ''writer stale'' order
      (r\<lparr>rm_writer_generation := None, rm_committed_loaded := False\<rparr>))) (\<lambda>_. I) w"
      by simp
  qed
  then show ?thesis
    unfolding fatal_writer_stale_def by (auto intro!: quiet_rules fatal_lost)
qed

lemma reload_rows: "keeps I (reload_from_rows env actor session)"
proof (rule keepsI)
  fix w
  assume "I w"
  let ?m = "en_moments env (w_tick w)"
  let ?w = "others_run env ?m w"
  obtain st x where load: "load_room_collab_readonly (tx_context ?m (w_room ?w) actor session)
      (actor_fence (w_room ?w)) (w_store ?w) = (st, x)"
    by fastforce
  have reload: "wp (reload_primary_from_committed env) (\<lambda>_. I) v" if "I v" for v
    by (rule keepsD [OF reloads that])
  note start = others [OF \<open>I w\<close>]
  show "wp (reload_from_rows env actor session) (\<lambda>_. I) w"
  proof (cases x)
    case (Done l)
    have "I (?w\<lparr>w_store := st, w_room := set_committed_from_load l (w_room ?w)\<rparr>)"
      using load by (intro adopts [OF start, where ctx = "tx_context ?m (w_room ?w) actor session"]) (simp_all add: Done)
    from reload [OF this] show ?thesis
      by (simp add: reload_from_rows_def Let_def load Done)
  qed (use reads [OF start load] in \<open>simp_all add: reload_from_rows_def Let_def load\<close>)
qed

lemma divergence: "keeps I (fatal_room_divergence env actor session)"
proof -
  have "I (w\<lparr>w_room := close_each 1011 ''room state diverged'' Preempt ((w_room w)\<lparr>rm_writer_generation := None\<rparr>)\<rparr>)"
    if "I w" for w
    using talk [OF resigns [OF that], simplified, OF talks_deliver(2)] by simp
  then have "keeps I (on_room (\<lambda>r. close_each 1011 ''room state diverged'' Preempt (r\<lparr>rm_writer_generation := None\<rparr>)))"
    by (simp add: keeps_def)
  then show ?thesis
    unfolding fatal_room_divergence_def by (auto intro!: quiet_rules fatal_lost reload_rows)
qed

lemma unhealthy: "keeps I (fatal_primary_unhealthy env actor session)"
  unfolding fatal_primary_unhealthy_def by (auto intro!: quiet_rules reload_rows simp: talks_facts)

lemma rejects: "keeps I (reject_candidate env conn_id key)"
  unfolding reject_candidate_def
  by (auto intro!: quiet_rules reload_or_close refusals simp: talks_facts talks_update_conn keeps_identity_def
      split: option.split)

lemma rejects_unavailable: "keeps I (reject_candidate_engine_unavailable env conn_id)"
  unfolding reject_candidate_engine_unavailable_def
  by (auto intro!: quiet_rules reload_or_close simp: talks_facts)

lemma reloads_rejects: "keeps I (reload_then_reject env conn_id key)"
  unfolding reload_then_reject_def by (auto intro!: quiet_rules reload_or_close rejects)

lemma looks_up: "keeps I (transact env actor session (\<lambda>ctx r st. (st, f ctx r st)))"
  by (simp add: keeps_def Let_def others)

lemma reads_rows: "keeps I (transact env actor session (\<lambda>ctx r. load_room_collab_readonly ctx (actor_fence r)))"
  by (auto simp: keeps_def Let_def split: prod.split intro: reads others)

lemma reconciles: "keeps I (reconcile_ambiguous_append env actor session operation expected bytes digest)"
  unfolding reconcile_ambiguous_append_def
  by (auto intro!: quiet_rules looks_up reads_rows divergence fatal_remote split: tx_result.split collab_db_error.split)

lemma validates: "keeps I (validate_candidate_on_primary env bytes)"
  unfolding validate_candidate_on_primary_def
  by (auto intro!: quiet_rules engine_calls reload_or_close simp: talks_engine split: act_splits)

lemma consumer_checks: "keeps I (check_cached_native_consumer env actor credential)"
  unfolding check_cached_native_consumer_def
  by (auto intro!: quiet_rules looks_up fatal_lost fatal_remote split: tx_result.split)

end

section \<open>Projections and compactions\<close>

locale room_projecting = room_failing env I
  for env :: "'n environment" and I :: "'n world \<Rightarrow> bool" +
  assumes projects: "I w \<Longrightarrow> project_derived_body_in_room ctx f inp (w_store w) = (st, y) \<Longrightarrow> I (w\<lparr>w_store := st\<rparr>)"
    and compacts: "I w \<Longrightarrow> rm_writer_generation (w_room w) = Some g \<Longrightarrow>
      a_backend (x_actor ctx) = ra_backend (w_room w) \<Longrightarrow> c = cm_tail_seq (ra_committed (w_room w)) \<Longrightarrow>
      compact_collab_snapshot_in_room ctx f \<lparr>ci_writer_generation = g, ci_cutoff_seq = c,
        ci_expected_tail_seq = c, ci_new_snapshot = snapshot\<rparr> (w_store w) = (st, x) \<Longrightarrow>
      I (w\<lparr>w_store := st\<rparr>) \<and>
      (\<forall>l. x = Done l \<longrightarrow> I (w\<lparr>w_store := st, w_room := set_committed_from_load l (w_room w)\<rparr>))"
begin

lemma writes_projection:
  "keeps I (write_projection env g s actor session preempt content prepared)"
proof -
  have "keeps I (transact env actor session (\<lambda>ctx r. project_derived_body_in_room ctx (actor_fence r) inp))" for inp
    by (auto simp: keeps_def Let_def split: prod.split intro: projects others)
  then show ?thesis
    unfolding write_projection_def
    by (auto intro!: quiet_rules writer_stale fatal_remote
        split: tx_result.split collab_db_error.split project_derived_body_result.split)
qed

lemma projections: "keeps I (maybe_project_derived_body env s actor session preempt)"
  unfolding maybe_project_derived_body_def
  by (auto intro!: quiet_rules capacity engine_calls recovers writes_projection split: option.split sum.split)

lemma compacted: "keeps I (project_compacted env actor session request_id s)"
  unfolding project_compacted_def
  by (auto intro!: quiet_rules reloads projections simp: talks_engine split: sum.split)

lemma compacts_rows: "keeps I (compact_rows_at_tail env actor session request_id snapshot)"
proof (rule keepsI)
  fix w
  assume w: "I w"
  let ?m = "en_moments env (w_tick w)"
  let ?w = "others_run env ?m w" and ?c = "cm_tail_seq (ra_committed (w_room w))"
  let ?fail = "do { on_room compact_failed; act_return (persist_failed env request_id) }"
  have fail: "keeps I ?fail" and diverge: "keeps I (do {
      fatal_room_divergence env actor session; act_return (persist_failed env request_id) })"
    and remote: "keeps I (do { fatal_remote_write_unconfirmed; act_return (persist_failed env request_id) })"
    by (auto intro!: quiet_rules divergence fatal_remote simp: talks_engine)
  show "wp (compact_rows_at_tail env actor session request_id snapshot) (\<lambda>_. I) w"
  proof (cases "rm_writer_generation (w_room w)")
    case (Some g)
    let ?run = "compact_collab_snapshot_in_room (tx_context ?m (w_room ?w) actor session) (actor_fence (w_room ?w))
      \<lparr>ci_writer_generation = g, ci_cutoff_seq = ?c, ci_expected_tail_seq = ?c, ci_new_snapshot = snapshot\<rparr>
      (w_store ?w)"
    obtain st x where run: "?run = (st, x)"
      by fastforce
    have loaded: "I (?w\<lparr>w_store := st, w_room := set_committed_from_load l (w_room ?w)\<rparr>)" if "x = Done l" for l
      using compacts [OF others [OF w] _ _ _ run] Some that by auto
    have st: "I (?w\<lparr>w_store := st\<rparr>)"
      using compacts [OF others [OF w] _ _ _ run] Some by auto
    show ?thesis
    proof (cases x)
      case (Done l)
      have "talks (set_committed_from_load l (w_room ?w)) (set_committed_from_load l
          ((w_room ?w)\<lparr>ra_compact_unhealthy := False, ra_compact_retry_at_tail_len := None\<rparr>))"
        by (rule talks_internal) (simp_all add: set_committed_from_load_def duty_def)
      from keepsD [OF compacted talk [OF loaded [OF Done], simplified, OF this], of actor session request_id "l_tail_seq l"]
      show ?thesis
        by (simp add: compact_rows_at_tail_def Some Let_def run Done)
    next
      case (Refused e)
      have "wp (if e = StaleCutoff \<or> e = StaleWriter
          then do { fatal_room_divergence env actor session; act_return (persist_failed env request_id) }
          else ?fail) (\<lambda>_. I) (?w\<lparr>w_store := st\<rparr>)"
        using keepsD [OF fail st] keepsD [OF diverge st] by simp
      then show ?thesis
        by (cases e) (simp_all add: compact_rows_at_tail_def Some Let_def run Refused)
    next
      case DriverError
      show ?thesis
        using keepsD [OF fail st] keepsD [OF remote st]
        by (simp add: compact_rows_at_tail_def Some Let_def run DriverError)
    qed
  qed (use w in \<open>simp add: compact_rows_at_tail_def\<close>)
qed

lemma persists: "keeps I (run_persist_steps env conn_id request_id)"
  unfolding run_persist_steps_def
  by (auto intro!: quiet_rules auths capacity engine_calls compacts_rows simp: talks_engine split: option.split)

lemma barriers: "keeps I (flush_barriers env conn_id ids)"
  by (induction ids) (auto intro!: quiet_rules persists simp: talks_facts talks_update_conn keeps_identity_def)

lemma flushes: "keeps I (flush_connection_persist env conn_id fifo)"
  unfolding flush_connection_persist_def by (auto intro!: quiet_rules barriers split: option.split)

lemma stateless: "keeps I (handle_stateless env conn_id text)"
  unfolding handle_stateless_def
  by (auto intro!: quiet_rules flushes simp: talks_update_conn keeps_identity_def split: option.split)

lemma compactions: "keeps I (maybe_compact env)"
  unfolding maybe_compact_def by (auto intro!: quiet_rules persists split: option.split)

lemma catches_up: "keeps I (catch_up_projection env user_id session_id read_only)"
  unfolding catch_up_projection_def by (auto intro!: quiet_rules projections)

end

text \<open>An invariant that an acknowledgement does not disturb.\<close>

locale room_acking = room_projecting env I
  for env :: "'n environment" and I :: "'n world \<Rightarrow> bool" +
  assumes acks: "I w \<Longrightarrow> I (w\<lparr>w_statuses := w_statuses w @ [(conn_id, True)]\<rparr>)"
begin

lemma reports: "keeps I (report_sync_status conn_id key ok)"
proof (cases ok)
  case True
  then show ?thesis
    unfolding report_sync_status_def
    by (intro keeps_bind talking) (simp_all add: talks_facts keeps_def acks)
qed (simp add: refusals)

lemma announces: "keeps I (announce_update env conn_id key yp bytes s actor session)"
  unfolding announce_update_def
  by (auto intro!: quiet_rules integrates reports projections writer_stale unhealthy flushes compactions
      simp: talks_facts talks_update_conn keeps_identity_def split: sum.split)

end

section \<open>Commits and claims\<close>

text \<open>A commit leaves a state that satisfies the invariant once the cached bundle has the update; a claim one
  that satisfies it now and after the room has adopted the claim.\<close>

locale room_committing = room_acking env I
  for env :: "'n environment" and I :: "'n world \<Rightarrow> bool" +
  assumes commits: "I w \<Longrightarrow> wp (commit_candidate env conn_id key bytes actor session)
      (\<lambda>c w'. case c of None \<Rightarrow> I w' | Some s \<Rightarrow> I (w'\<lparr>w_room := push_committed bytes s (w_room w')\<rparr>)) w"
    and forwards: "I w \<Longrightarrow> wp (forward_append env actor session bytes)
      (\<lambda>c w'. case c of Inl _ \<Rightarrow> I w' | Inr s \<Rightarrow> I (w'\<lparr>w_room := push_committed bytes s (w_room w')\<rparr>)) w"
    and claims: "I w \<Longrightarrow> wp (claim_writer env actor credential)
      (\<lambda>x w'. I w' \<and> (\<forall>c. x = Done c \<longrightarrow> wp (adopt_writer env c) (\<lambda>_. I) w')) w"
    and renews: "I w \<Longrightarrow> \<not> rm_fence_lost (w_room w) \<Longrightarrow>
      I (w\<lparr>w_room := (w_room w)\<lparr>ra_room_guard := Some g\<rparr>\<rparr>)"
begin

lemma publishes:
  "I (w\<lparr>w_room := push_committed bytes s (w_room w)\<rparr>) \<Longrightarrow>
    wp (publish_update env conn_id key yp bytes s actor session) (\<lambda>_. I) w"
  using keepsD [OF announces] by (simp add: publish_update_def)

lemma commit_publishes: "keeps I (do {
    committed \<leftarrow> commit_candidate env conn_id key bytes actor session;
    case committed of
      None \<Rightarrow> act_return ()
    | Some s \<Rightarrow> publish_update env conn_id key yp bytes s actor session })"
proof (rule keepsI)
  fix w
  assume "I w"
  from commits [OF this, of conn_id key bytes actor session]
  show "wp (do {
    committed \<leftarrow> commit_candidate env conn_id key bytes actor session;
    case committed of
      None \<Rightarrow> act_return ()
    | Some s \<Rightarrow> publish_update env conn_id key yp bytes s actor session }) (\<lambda>_. I) w"
    unfolding wp_bind by (rule wp_mono) (simp split: option.splits add: publishes)
qed

lemma commits_update: "keeps I (commit_update env conn_id key yp bytes)"
  unfolding commit_update_def
  by (auto intro!: quiet_rules capacity rejects rejects_unavailable validates
      keeps_bind [OF keeps_ask_room commit_publishes]
      simp: talks_facts talks_update_conn keeps_identity_def split: sum.split option.split)

lemma sync_update: "keeps I (handle_sync_update env conn_id key read_only yp bytes)"
  unfolding handle_sync_update_def
  by (auto intro!: quiet_rules reload_or_close reports commits_update
      simp: talks_facts talks_update_conn keeps_identity_def split: option.split)

lemma syncs: "keeps I (handle_sync env conn_id key read_only sync)"
  unfolding handle_sync_def
  by (auto intro!: quiet_rules sync_step1 sync_update split: sum.split prod.split sync_step.split)

lemma messages: "keeps I (handle_document_message env conn_id c message)"
  unfolding handle_document_message_def
  by (auto intro!: quiet_rules syncs stateless allowed simp: talks_facts split: document_message.split)

lemma frames: "keeps I (handle_frame env conn_id bytes)"
  unfolding handle_frame_def
  by (auto intro!: quiet_rules allowed messages simp: talks_facts talks_update_conn keeps_identity_def
      split: option.split sum.split wire_frame.split)

lemma claim_adopts:
  assumes a: "keeps I a" and b: "\<And>e. keeps I (b e)" and g: "\<And>x. keeps I (g x)"
  shows "keeps I (do {
    claim \<leftarrow> claim_writer env actor credential;
    case claim of DriverError \<Rightarrow> a | Refused e \<Rightarrow> b e | Done c \<Rightarrow> do { x \<leftarrow> adopt_writer env c; g x } })"
proof (rule keepsI)
  have step: "wp (adopt_writer env c) (\<lambda>_. I) v \<Longrightarrow> wp (adopt_writer env c) (\<lambda>x. wp (g x) (\<lambda>_. I)) v" for c v
    by (erule wp_mono) (rule keepsD [OF g])
  fix w
  assume "I w"
  from claims [OF this, of actor credential]
  show "wp (do {
    claim \<leftarrow> claim_writer env actor credential;
    case claim of DriverError \<Rightarrow> a | Refused e \<Rightarrow> b e | Done c \<Rightarrow> do { x \<leftarrow> adopt_writer env c; g x } }) (\<lambda>_. I) w"
    unfolding wp_bind
    by (rule wp_mono) (simp add: step keepsD [OF a] keepsD [OF b] split: tx_result.splits)
qed

lemma reads_adopts:
  assumes a: "\<And>remote. keeps I (a remote)" and b: "\<And>e. keeps I (b e)" and g: "\<And>x. keeps I (g x)"
  shows "keeps I (do {
    load \<leftarrow> transact env actor session (\<lambda>ctx r. load_room_collab_readonly ctx (actor_fence r));
    remote \<leftarrow> ask_room is_remote_task_room;
    case load of
      DriverError \<Rightarrow> a remote
    | Refused e \<Rightarrow> b e
    | Done l \<Rightarrow> do {
        on_room (set_committed_from_load l);
        reloaded \<leftarrow> reload_primary_from_committed env;
        g reloaded } })" (is "keeps I ?act")
proof (rule keepsI)
  fix w
  assume "I w"
  let ?m = "en_moments env (w_tick w)"
  let ?w = "others_run env ?m w"
  note start = others [OF \<open>I w\<close>]
  obtain st x where load: "load_room_collab_readonly (tx_context ?m (w_room ?w) actor session)
      (actor_fence (w_room ?w)) (w_store ?w) = (st, x)"
    by fastforce
  note st = reads [OF start load]
  have reload: "wp (reload_primary_from_committed env) (\<lambda>x. wp (g x) (\<lambda>_. I)) v" if "I v" for v
    using keepsD [OF keeps_bind [OF reloads g] that] by simp
  show "wp ?act (\<lambda>_. I) w"
  proof (cases x)
    case (Done l)
    have "I (?w\<lparr>w_store := st, w_room := set_committed_from_load l (w_room ?w)\<rparr>)"
      using load by (intro adopts [OF start, where ctx = "tx_context ?m (w_room ?w) actor session"]) (simp_all add: Done)
    from reload [OF this] show ?thesis
      by (simp add: Let_def load Done)
  qed (use keepsD [OF a st] keepsD [OF b st] in \<open>simp_all add: Let_def load\<close>)
qed

lemma join_loads: "keeps I (load_for_join env user_id session_id read_only)"
  unfolding load_for_join_def
  by (rule keeps_bind [OF keeps_ask_room], intro keeps_if keeps_return claim_adopts reads_adopts)
    (auto intro!: quiet_rules fatal_remote simp: talks_facts split: sum.split)

lemma prepares_join: "keeps I (prepare_join env j)"
  unfolding prepare_join_def Let_def
  by (auto intro!: quiet_rules join_loads capacity catches_up split: sum.split)

lemma prepares_writer: "keeps I (prepare_forward_writer env actor session)"
  unfolding prepare_forward_writer_def
  by (rule keeps_bind [OF keeps_ask_room], rule keeps_bind [OF keeps_if [OF claim_adopts]])
    (auto intro!: quiet_rules capacity auths consumer_checks split: sum.split locking_auth.split)

lemma forward_publishes: "keeps I (do {
    appended \<leftarrow> forward_append env actor session bytes;
    case appended of
      Inl err \<Rightarrow> act_return (Inl err)
    | Inr s \<Rightarrow> do { on_room (push_committed bytes s); f s } })"
  if f: "\<And>s. keeps I (f s)"
proof (rule keepsI)
  fix w
  assume "I w"
  from forwards [OF this, of actor session bytes]
  show "wp (do {
    appended \<leftarrow> forward_append env actor session bytes;
    case appended of
      Inl err \<Rightarrow> act_return (Inl err)
    | Inr s \<Rightarrow> do { on_room (push_committed bytes s); f s } }) (\<lambda>_. I) w"
    unfolding wp_bind by (rule wp_mono) (simp split: sum.splits add: keepsD [OF f])
qed

lemma forward_writes: "keeps I (apply_forward_write env actor session req expected)"
proof -
  have rest: "keeps I (do {
      integrated \<leftarrow> integrate_committed_update env bytes False;
      case integrated of
        Inl _ \<Rightarrow> do { fatal_primary_unhealthy env actor session; act_return (Inl FwUnavailable) }
      | Inr _ \<Rightarrow> do {
          on_room (broadcast_update (encode_sync_payload Update bytes));
          act_return (Inr (Some s)) } })" for bytes s
    by (auto intro!: quiet_rules integrates unhealthy simp: talks_facts split: sum.split)
  show ?thesis
    unfolding apply_forward_write_def Let_def
    by (auto intro!: keeps_bind [OF prepares_writer] keeps_bind [OF keeps_ask_room] keeps_bind [OF engine_calls]
        keeps_bind [OF consumer_checks] keeps_bind [OF awaits] keeps_return forward_publishes [OF rest]
        split: sum.split)
qed

lemma replaces: "keeps I (handle_replace_body env actor session seed expected)"
  unfolding handle_replace_body_def
  by (auto intro!: quiet_rules forward_writes projections split: sum.split option.split)

lemma projects_live: "keeps I (handle_project_live env actor session)"
  unfolding handle_project_live_def
  by (auto intro!: quiet_rules prepares_writer engine_calls consumer_checks split: act_splits)

lemma captures: "keeps I (handle_capture_revision env actor session)"
  unfolding handle_capture_revision_def
  by (rule keeps_bind [OF keeps_ask_room], rule keeps_bind [OF keeps_if [OF reads_adopts]])
    (auto intro!: quiet_rules fatal_remote capacity consumer_checks engine_calls split: option.split sum.split)

lemma alive_quiet: "room_quiet env (\<lambda>w. I w \<and> \<not> rm_fence_lost (w_room w))"
  by unfold_locales (auto intro: others talk dest: talksD(2) [THEN duty_eqD(1)])

lemma renewals: "keeps I (renew_tick env)"
proof (rule keepsI)
  fix w
  assume w: "I w"
  let ?J = "\<lambda>w. I w \<and> \<not> rm_fence_lost (w_room w)"
  have "keeps ?J (on_room (\<lambda>r. r\<lparr>ra_room_guard := Some g\<rparr>))" for g
    by (simp add: keeps_def renews)
  then have renew: "keeps ?J (guard_renew env g)" for g
    unfolding guard_renew_def renew_once_def Let_def
    by (auto intro!: keeps_rules room_quiet.awaits [OF alive_quiet] split: room_guard.split)
  have lost: "wp (if remote then fatal_remote_write_unconfirmed else fatal_fence_lost env) (\<lambda>_. I) v"
    if "I v" for remote v
    using keepsD [OF fatal_remote that] keepsD [OF fatal_lost that] by simp
  have after: "wp (guard_renew env g) (\<lambda>x. wp (f x) (\<lambda>_. I)) v"
    if "?J v" and "\<And>x v. I v \<Longrightarrow> wp (f x) (\<lambda>_. I) v" for g v and f :: "bool option \<Rightarrow> ('n, unit) act"
    using keepsD [OF renew that(1)] by (rule wp_mono) (use that(2) in blast)
  show "wp (renew_tick env) (\<lambda>_. I) w"
  proof (cases "rm_fence_lost (w_room w)")
    case False
    show ?thesis
    proof (cases "ra_room_guard (w_room w)")
      case (Some g)
      have "wp (guard_renew env g) (\<lambda>x. wp (if \<not> mo_in_time (en_moments env (w_tick w)) \<or> x = None
          then (if is_remote_task_room (w_room w) then fatal_remote_write_unconfirmed else fatal_fence_lost env)
          else if x = Some True then act_return () else fatal_fence_lost env) (\<lambda>_. I)) w"
        using w False by (intro after) (auto intro: lost keepsD [OF fatal_lost] keepsD [OF fatal_remote])
      with w show ?thesis
        by (simp add: renew_tick_def False Some)
    qed (use keepsD [OF fatal_lost w] in \<open>simp add: renew_tick_def False\<close>)
  qed (use w in \<open>simp add: renew_tick_def\<close>)
qed

text \<open>Everything but a join.\<close>

lemma dispatches: "(\<And>j. cmd \<noteq> CmdJoin j) \<Longrightarrow> keeps I (dispatch env cmd)"
  by (cases cmd) (auto intro!: keeps_rules frames captures replaces projects_live polls renewals talking
      simp: talks_facts)

end

section \<open>A join ends in a live room\<close>

definition alive :: "'n world \<Rightarrow> bool" where
  "alive w \<longleftrightarrow> \<not> rm_fence_lost (w_room w)"

lemma alive_is_quiet: "room_quiet env alive"
  by unfold_locales (auto simp: alive_def dest: talksD(2) [THEN duty_eqD(1)])

lemmas alive_rules = room_quiet.reloads [OF alive_is_quiet] room_quiet.capacity [OF alive_is_quiet]
  room_quiet.engine_calls [OF alive_is_quiet] room_quiet.recovers [OF alive_is_quiet]
  room_quiet.awaits [OF alive_is_quiet]

lemma wp_alive: "keeps alive m \<Longrightarrow> alive w \<Longrightarrow> (\<And>x w'. alive w' \<Longrightarrow> Q x w') \<Longrightarrow> wp m Q w"
  by (rule wp_mono [OF keepsD])

lemma alive_fields [simp]:
  "alive (w\<lparr>w_store := st\<rparr>) = alive w"
  "alive (others_run env m w) = alive w"
  "alive (w\<lparr>w_room := set_committed_from_load l r\<rparr>) = alive (w\<lparr>w_room := r\<rparr>)"
  "alive (w\<lparr>w_room := r\<lparr>rm_writer_generation := g\<rparr>\<rparr>) = alive (w\<lparr>w_room := r\<rparr>)"
  "alive (w\<lparr>w_room := r\<lparr>ra_room_guard := guard\<rparr>\<rparr>) = alive (w\<lparr>w_room := r\<rparr>)"
  "alive (w\<lparr>w_store := st, w_room := w_room v\<rparr>) = alive v"
  by (simp_all add: alive_def set_committed_from_load_def)

lemma claim_alive:
  assumes "alive w"
  shows "wp (claim_writer env actor credential) (\<lambda>x w'. \<forall>c. x = Done c \<longrightarrow> alive w') w"
  using assms by (auto simp: claim_writer_def Let_def split: option.split prod.split)

lemma adopt_alive:
  assumes "alive w"
  shows "wp (adopt_writer env c) (\<lambda>_. alive) w"
proof -
  have "alive (w\<lparr>w_room := set_committed_from_load (cw_load c) (w_room w)\<rparr>)"
    using assms by (simp add: alive_def set_committed_from_load_def)
  from wp_alive [OF alive_rules(1) this, where Q = "\<lambda>x. wp (case x of Inl err \<Rightarrow> act_return (Inl err)
      | Inr _ \<Rightarrow> do { on_room (\<lambda>r. r\<lparr>rm_writer_generation := Some (cw_writer_generation c)\<rparr>);
         act_return (Inr ()) }) (\<lambda>_. alive)"]
  show ?thesis
    by (simp add: adopt_writer_def split: sum.split)
qed

lemma load_alive:
  assumes "alive w"
  shows "wp (load_for_join env user_id session_id read_only) (\<lambda>x w'. x = Inr () \<longrightarrow> alive w') w"
proof -
  have claim: "wp (claim_writer env user_id session_id) (\<lambda>x. wp (case x of
      DriverError \<Rightarrow> act_return (Inl JoinDbError)
    | Refused e \<Rightarrow> act_return (Inl (if e = StaleWriter then WriterStale else AdmissionDenied))
    | Done c \<Rightarrow> do {
        adopted \<leftarrow> adopt_writer env c;
        case adopted of
          Inl err \<Rightarrow> do { on_room (close_all_connections 1011 ''engine reload failed''); act_return (Inl err) }
        | Inr _ \<Rightarrow> act_return (Inr ()) }) (\<lambda>x w'. x = Inr () \<longrightarrow> alive w')) w"
    using claim_alive [OF assms, of env user_id session_id]
    by (rule wp_mono) (auto split: tx_result.split sum.split intro!: wp_mono [OF adopt_alive])
  have reload: "alive v \<Longrightarrow> wp (reload_primary_from_committed env) (\<lambda>x. wp (case x of
      Inl err \<Rightarrow> do { on_room (close_all_connections 1011 ''engine reload failed''); act_return (Inl err) }
    | Inr _ \<Rightarrow> act_return (Inr ())) (\<lambda>x w'. x = Inr () \<longrightarrow> alive w')) v" for v
    by (rule wp_alive [OF alive_rules(1)]) (auto split: sum.split)
  show ?thesis
    unfolding load_for_join_def using assms claim
    by (auto simp: Let_def intro!: reload split: tx_result.split prod.split)
qed

lemma projection_alive:
  assumes "alive w"
  shows "wp (maybe_project_derived_body env s actor session preempt)
    (\<lambda>x w'. ra_primary_loaded (w_room w') \<longrightarrow> x = ProjectStaleWriter \<or> alive w') w"
proof -
  let ?Q = "\<lambda>x w'. ra_primary_loaded (w_room w') \<longrightarrow> x = ProjectStaleWriter \<or> alive w'"
  have writes: "wp (write_projection env g s actor session preempt content prepared) ?Q v" if "alive v"
    for g content prepared v
    using that by (auto simp: write_projection_def Let_def fatal_remote_write_unconfirmed_def
        split: prod.split tx_result.split collab_db_error.split project_derived_body_result.split)
  have recover: "wp (recover_primary_after_engine_fault env) (\<lambda>_. ?Q x) v" if "alive v" for x v
    by (rule wp_alive [OF alive_rules(4) that]) simp
  have report: "wp (engine_call env (ReqProject 1)) (\<lambda>report. wp (case project_report report of
      Inl outcome \<Rightarrow> do { _ \<leftarrow> recover_primary_after_engine_fault env; act_return outcome }
    | Inr content \<Rightarrow> (case en_prepare_derived_body env content of
        None \<Rightarrow> act_return DeterministicSkip
      | Some prepared \<Rightarrow> write_projection env g s actor session preempt content prepared)) ?Q) v" if "alive v" for g v
    by (rule wp_alive [OF alive_rules(3) that]) (auto split: sum.split option.split intro!: writes recover)
  have capacity: "wp (ensure_primary_capacity env) (\<lambda>x. wp (case x of
      Inl _ \<Rightarrow> act_return EngineFailed
    | Inr _ \<Rightarrow> do {
        report \<leftarrow> engine_call env (ReqProject 1);
        case project_report report of
          Inl outcome \<Rightarrow> do { _ \<leftarrow> recover_primary_after_engine_fault env; act_return outcome }
        | Inr content \<Rightarrow> (case en_prepare_derived_body env content of
            None \<Rightarrow> act_return DeterministicSkip
          | Some prepared \<Rightarrow> write_projection env g s actor session preempt content prepared) }) ?Q) v"
    if "alive v" for g v
    by (rule wp_alive [OF alive_rules(2) that]) (auto split: sum.split intro!: report)
  show ?thesis
    unfolding maybe_project_derived_body_def using assms
    by (auto split: option.split intro!: capacity)
qed

lemma prepare_alive:
  "wp (prepare_join env j) (\<lambda>x w'. (\<exists>ro. x = Inr ro) \<longrightarrow> alive w') w"
proof (cases "alive w")
  case True
  let ?u = "cs_user_id (jn_session j)" and ?s = "cs_session_id (jn_session j)"
  let ?Q = "\<lambda>x w'. (\<exists>ro. x = Inr ro) \<longrightarrow> alive w'"
  have catch: "wp (catch_up_projection env ?u ?s ro) (\<lambda>projected w'.
      ?Q (case projected of Inl err \<Rightarrow> Inl err
        | Inr _ \<Rightarrow> if ra_primary_loaded (w_room w') then Inr ro else Inl EngineUnavailable) w') v"
    if "alive v" for ro v
    unfolding catch_up_projection_def using that
    by (auto intro!: wp_mono [OF projection_alive [OF that]])
  have capacity: "wp (ensure_primary_capacity env) (\<lambda>x. wp (case x of
      Inl err \<Rightarrow> act_return (Inl err)
    | Inr _ \<Rightarrow> do {
        projected \<leftarrow> catch_up_projection env ?u ?s ro;
        primary \<leftarrow> ask_room ra_primary_loaded;
        act_return (case projected of Inl err \<Rightarrow> Inl err
          | Inr _ \<Rightarrow> if primary then Inr ro else Inl EngineUnavailable) }) ?Q) v" if "alive v" for ro v
    by (rule wp_alive [OF alive_rules(2) that]) (use catch in \<open>auto split: sum.split\<close>)
  have load: "wp (load_for_join env ?u ?s ro) (\<lambda>x. wp (case x of
      Inl err \<Rightarrow> act_return (Inl err)
    | Inr _ \<Rightarrow> do {
        capacity \<leftarrow> ensure_primary_capacity env;
        case capacity of
          Inl err \<Rightarrow> act_return (Inl err)
        | Inr _ \<Rightarrow> do {
            projected \<leftarrow> catch_up_projection env ?u ?s ro;
            primary \<leftarrow> ask_room ra_primary_loaded;
            act_return (case projected of Inl err \<Rightarrow> Inl err
              | Inr _ \<Rightarrow> if primary then Inr ro else Inl EngineUnavailable) } }) ?Q) v" if "alive v" for ro v
    using load_alive [OF that] by (rule wp_mono) (use capacity in \<open>auto split: sum.split\<close>)
  show ?thesis
    unfolding prepare_join_def using True load
    by (auto simp: Let_def split: sum.split)
qed (simp add: prepare_join_def alive_def)

section \<open>Invariants of single changes\<close>

text \<open>When every single change of the rows and of the cached bundle keeps an invariant, so do commits and claims.\<close>

locale room_appending = room_failing env I
  for env :: "'n environment" and I :: "'n world \<Rightarrow> bool" +
  assumes appends: "I w \<Longrightarrow> guard_append (en_sha256 env) ctx g inp (w_store w) = (st, x) \<Longrightarrow> I (w\<lparr>w_store := st\<rparr>)"
begin

lemma append_keeps: "keeps I (transact env actor session (\<lambda>ctx r. guard_append (en_sha256 env) ctx g inp))"
  by (auto simp: keeps_def Let_def split: prod.split intro: appends others)

lemma commit_keeps: "keeps I (commit_candidate env conn_id key bytes actor session)"
  unfolding commit_candidate_def Let_def
  by (auto intro!: quiet_rules append_keeps fatal_lost fatal_remote writer_stale rejects reloads_rejects
      reconciles reload_or_close divergence split: option.split prod.split tx_result.split)

lemma forward_keeps: "keeps I (forward_append env actor session bytes)"
  unfolding forward_append_def Let_def
  by (auto intro!: quiet_rules append_keeps fatal_remote writer_stale reconciles divergence
      split: option.split tx_result.split sum.split)

end

locale room_stepwise = room_acking env I + room_appending env I
  for env :: "'n environment" and I :: "'n world \<Rightarrow> bool" +
  assumes pushes: "I w \<Longrightarrow> I (w\<lparr>w_room := push_committed bytes s (w_room w)\<rparr>)"
    and caches: "I w \<Longrightarrow> I (w\<lparr>w_room := set_committed_from_load l (w_room w)\<rparr>)"
    and claim_rows: "I w \<Longrightarrow> ra_room_guard (w_room w) = Some g \<Longrightarrow>
      guard_claim_writer ctx g (w_store w) = (st, g', claim) \<Longrightarrow>
      I (w\<lparr>w_store := st, w_room := (w_room w)\<lparr>ra_room_guard := Some g'\<rparr>\<rparr>)"
    and guarded: "I w \<Longrightarrow> ra_room_guard (w_room w) = Some g \<Longrightarrow> alive w"
    and installs: "I w \<Longrightarrow> alive w \<Longrightarrow> I (w\<lparr>w_room := (w_room w)\<lparr>rm_writer_generation := gen\<rparr>\<rparr>)"
    and regards: "I w \<Longrightarrow> alive w \<Longrightarrow> I (w\<lparr>w_room := (w_room w)\<lparr>ra_room_guard := Some g\<rparr>\<rparr>)"
begin

lemma alive_stepwise: "room_quiet env (\<lambda>w. I w \<and> alive w)"
  by unfold_locales (auto simp: alive_def intro: others talk dest: talksD(2) [THEN duty_eqD(1)])

lemma adoption:
  assumes "I w" and "alive w"
  shows "wp (adopt_writer env c) (\<lambda>_. I) w"
proof -
  let ?w = "w\<lparr>w_room := set_committed_from_load (cw_load c) (w_room w)\<rparr>"
  from assms have "I ?w \<and> alive ?w"
    using caches [OF assms(1)] by (simp add: alive_def set_committed_from_load_def)
  from keepsD [OF room_quiet.reloads [OF alive_stepwise] this]
  have "wp (reload_primary_from_committed env) (\<lambda>x. wp (case x of
      Inl err \<Rightarrow> act_return (Inl err)
    | Inr _ \<Rightarrow> do { on_room (\<lambda>r. r\<lparr>rm_writer_generation := Some (cw_writer_generation c)\<rparr>); act_return (Inr ()) })
      (\<lambda>_. I)) ?w"
    by (rule wp_mono) (auto split: sum.split intro: installs)
  then show ?thesis
    by (simp add: adopt_writer_def)
qed

lemma claiming:
  assumes "I w"
  shows "wp (claim_writer env actor credential)
    (\<lambda>x w'. I w' \<and> (\<forall>c. x = Done c \<longrightarrow> wp (adopt_writer env c) (\<lambda>_. I) w')) w"
proof (cases "ra_room_guard (w_room w)")
  case (Some g)
  let ?m = "en_moments env (w_tick w)"
  let ?w = "others_run env ?m w"
  obtain st g' claim where run:
    "guard_claim_writer (tx_context ?m (w_room ?w) actor credential) g (w_store ?w) = (st, g', claim)"
    by (metis prod.exhaust)
  let ?v = "?w\<lparr>w_store := st, w_room := (w_room ?w)\<lparr>ra_room_guard := Some g'\<rparr>\<rparr>"
  have v: "I ?v"
    using claim_rows [OF others [OF assms] _ run] Some by simp
  moreover have "alive ?v"
    using guarded [OF v] by simp
  ultimately show ?thesis
    using keepsD [OF fatal_remote v]
    by (auto simp: claim_writer_def Some Let_def run adoption)
qed (use assms in \<open>simp add: claim_writer_def\<close>)

end

sublocale room_stepwise \<subseteq> room_committing
proof unfold_locales
  fix w conn_id key bytes actor session credential g
  assume w: "I w"
  show "wp (commit_candidate env conn_id key bytes actor session)
      (\<lambda>c w'. case c of None \<Rightarrow> I w' | Some s \<Rightarrow> I (w'\<lparr>w_room := push_committed bytes s (w_room w')\<rparr>)) w"
    using keepsD [OF commit_keeps w] by (rule wp_mono) (simp add: pushes split: option.split)
  show "wp (forward_append env actor session bytes)
      (\<lambda>c w'. case c of Inl _ \<Rightarrow> I w' | Inr s \<Rightarrow> I (w'\<lparr>w_room := push_committed bytes s (w_room w')\<rparr>)) w"
    using keepsD [OF forward_keeps w] by (rule wp_mono) (simp add: pushes split: sum.split)
  show "wp (claim_writer env actor credential)
    (\<lambda>x w'. I w' \<and> (\<forall>c. x = Done c \<longrightarrow> wp (adopt_writer env c) (\<lambda>_. I) w')) w"
    by (rule claiming [OF w])
  show "I (w\<lparr>w_room := (w_room w)\<lparr>ra_room_guard := Some g\<rparr>\<rparr>)" if "\<not> rm_fence_lost (w_room w)"
    using regards [OF w] that by (simp add: alive_def)
qed

end
