(* ===== verification/RoomSafety.thy ===== *)
theory RoomSafety
  imports RoomLogic
begin

text \<open>
  What the room actor guarantees, over every sequence of commands and every behaviour of clients, engine,
  database and other rooms: its conversation with the connections is a run of the steps of \<open>RoomOut\<close>,
  its transactions are steps of the durable store, a room that lost its fence is silent for good, an
  acknowledged update is durable, and the cached tail of the document is the durable one.
\<close>

section \<open>Sockets that are about to join\<close>

lemma join_ready_detached:
  assumes "room_ok r" and "join_ready j r"
  shows "detached (jn_events j) (rm_channels r ! jn_events j) r"
  using assms by (auto simp: detached_def join_ready_def Let_def list_all_iff)

lemma detached_join_ready:
  assumes "detached (jn_events j) (rm_channels r ! jn_events j) s" and "join_ready j r"
  shows "join_ready j s"
  using assms by (auto simp: detached_def join_ready_def Let_def list_all_iff)

lemma drop_keeps [simp]:
  "rm_channels (fold (\<lambda>f. drop_permit (of_permit f)) fs r) = rm_channels r"
  "rm_connections (fold (\<lambda>f. drop_permit (of_permit f)) fs r) = rm_connections r"
  by (induction fs arbitrary: r) simp_all

lemma run_transport_connections [simp]: "rm_connections (run_transport t r) = rm_connections r"
  by (cases t) (simp_all add: open_socket_def pre_auth_send_def transport_recv_def transport_sent_def
      transport_exit_def Let_def split: option.split list.split room_client_event.split)

lemma transport_join_ready:
  assumes "join_ready j r"
  shows "join_ready j (run_transport t r)"
proof -
  let ?g = "jn_events j"
  have kept: "join_ready j s" if "rm_connections s = rm_connections r" "length (rm_channels r) \<le> length (rm_channels s)"
    and "set (ch_queue (rm_channels s ! ?g)) \<subseteq> set (ch_queue (rm_channels r ! ?g)) \<union> {Outbound (unaccounted b)}"
    and "set (frames_of (rm_channels s ! ?g)) \<subseteq> set (frames_of (rm_channels r ! ?g)) \<union> {unaccounted b}" for s b
    using that assms by (fastforce simp: join_ready_def Let_def list_all_iff unaccounted_def)
  have g: "?g < length (rm_channels r)"
    using assms by (simp add: join_ready_def)
  show ?thesis
  proof (cases t)
    case SocketOpens
    then show ?thesis
      by (intro kept [of _ "[]"]) (use g in \<open>auto simp: open_socket_def nth_append\<close>)
  next
    case (PreAuth h bytes)
    then show ?thesis
      by (intro kept [of _ bytes])
        (auto simp: pre_auth_send_def try_send_def set_channel_def nth_list_update frames_of_def)
  next
    case (Recv h)
    then show ?thesis
      by (intro kept [of _ "[]"])
        (auto simp: transport_recv_def Let_def set_channel_def nth_list_update frames_of_def
          split: option.split list.split room_client_event.split)
  next
    case (FrameSent h)
    then show ?thesis
      by (intro kept [of _ "[]"])
        (auto simp: transport_sent_def Let_def set_channel_def nth_list_update frames_of_def split: option.split)
  next
    case (SocketEnds h)
    then show ?thesis
      by (intro kept [of _ "[]"])
        (auto simp: transport_exit_def Let_def set_channel_def nth_list_update frames_of_def)
  qed
qed

lemma transport_steps: "room_step\<^sup>*\<^sup>* r (run_transport t r)"
  by (cases t) (auto intro: room_step.intros)

lemma lose_fence_steps: "room_step\<^sup>*\<^sup>* r (lose_fence r)"
proof -
  let ?a = "primary_lost (r\<lparr>rm_fence_lost := True, rm_writer_generation := None, rm_session_revision := None\<rparr>)"
  have "room_step r ?a"
    by (rule room_step.internal) (simp_all add: primary_lost_def)
  moreover have "room_step ?a (drain_connections 1013 ''try again later'' ?a)"
    by (rule room_step.drain)
  moreover have "room_step (drain_connections 1013 ''try again later'' ?a) (lose_fence r)"
    by (rule room_step.internal) (simp_all add: lose_fence_def)
  ultimately show ?thesis
    by (blast intro: converse_rtranclp_into_rtranclp)
qed

lemma room_steps_ok: "room_step\<^sup>*\<^sup>* r r' \<Longrightarrow> room_ok r \<Longrightarrow> room_ok r'"
  by (induction rule: rtranclp_induct) (auto intro: room_step_ok)

lemma lose_fence_empty [simp]: "rm_connections (lose_fence r) = []"
  by (simp add: lose_fence_def drain_connections_empty)

lemma closes_elsewhere:
  assumes "\<forall>(i, c) \<in> set cs. cn_events c \<noteq> g \<and> cn_cancel c \<noteq> Some g"
  shows "rm_channels (fold (\<lambda>(_, c). enqueue_close (cn_events c) (cn_cancel c) code reason) cs s) ! g =
      rm_channels s ! g"
    and "length (rm_channels (fold (\<lambda>(_, c). enqueue_close (cn_events c) (cn_cancel c) code reason) cs s)) =
      length (rm_channels s)"
  using assms
  by (induction cs arbitrary: s)
    (auto simp: enqueue_close_def signal_cancel_def Let_def set_channel_def split: option.split)

lemma drain_detached:
  assumes "detached g ch r"
  shows "rm_channels (drain_connections code reason r) ! g = ch"
    and "g < length (rm_channels (drain_connections code reason r))"
proof -
  have "cn_events c \<noteq> g \<and> cn_cancel c \<noteq> Some g" if "(i, c) \<in> set (rm_connections r)" for i c
    using assms that room_okD(3) [of r i c] by (auto simp: detached_def wired_conn_def)
  then have "\<forall>(i, c) \<in> set (rm_connections r). cn_events c \<noteq> g \<and> cn_cancel c \<noteq> Some g"
    by blast
  note elsewhere = closes_elsewhere [OF this, of code reason "r\<lparr>rm_connections := []\<rparr>"]
  from assms show "rm_channels (drain_connections code reason r) ! g = ch"
    and "g < length (rm_channels (drain_connections code reason r))"
    unfolding drain_connections_def elsewhere by (simp_all add: detached_def)
qed

lemma lose_fence_detached:
  assumes "detached g ch r"
  shows "detached g ch (lose_fence r)"
proof -
  let ?a = "primary_lost (r\<lparr>rm_fence_lost := True, rm_writer_generation := None, rm_session_revision := None\<rparr>)"
  have same: "rm_config ?a = rm_config r" "rm_channels ?a = rm_channels r" "rm_budgets ?a = rm_budgets r"
      "rm_connections ?a = rm_connections r"
    by (simp_all add: primary_lost_def)
  have "room_ok r"
    using assms by (simp add: detached_def)
  note ok = room_steps_ok [OF lose_fence_steps this] room_ok_internal [OF this same(1-3)]
  from ok(2) same have "room_ok ?a"
    by simp
  with assms same have "detached g ch ?a"
    unfolding detached_def by simp
  from drain_detached [OF this, of 1013 "''try again later''"]
  have "rm_channels (lose_fence r) ! g = ch" "g < length (rm_channels (lose_fence r))"
    by (simp_all add: lose_fence_def)
  with ok(1) show ?thesis
    by (simp add: detached_def)
qed

section \<open>Other rooms\<close>

lemma claim_step: "store_steps sha256 st (fst (guard_claim_writer ctx guard st))"
proof (cases guard)
  case PgGuard
  then show ?thesis
    using store_step.step_claim [of sha256 st ctx]
    by (auto simp: guard_claim_writer_def split: prod.split)
next
  case (FamilyGuard original current writer_owner)
  have "store_step sha256 st (fst (activate_family_writer ctx original writer_owner st))"
    by (rule store_step.step_activate)
  with FamilyGuard show ?thesis
    by (auto simp: guard_claim_writer_def split: prod.split tx_result.split)
qed

lemma rival_steps: "store_steps sha256 st (snd (run_rival sha256 b op (held_by, st)))"
proof (cases op)
  case (Pair i c)
  show ?thesis
  proof (cases c)
    case (RivalClaim ctx guard)
    with Pair claim_step [of sha256 st "on_backend b ctx" guard] show ?thesis
      by (auto split: prod.split tx_result.split)
  qed (use Pair in \<open>auto split: option.split intro: store_step.intros\<close>)
qed

lemma rivals_steps: "store_steps sha256 st (snd (fold (run_rival sha256 b) ops (held_by, st)))"
proof (induction ops arbitrary: held_by st)
  case (Cons op ops)
  obtain h s where "run_rival sha256 b op (held_by, st) = (h, s)"
    by fastforce
  with rival_steps [of sha256 st b op held_by] Cons.IH [of s h] show ?case
    by simp
qed simp

section \<open>The invariant of the actor\<close>

definition silent :: "room_actor \<Rightarrow> bool" where
  "silent r \<longleftrightarrow> (rm_fence_lost r \<longrightarrow>
     rm_connections r = [] \<and> rm_writer_generation r = None \<and> ra_room_guard r = None)"

text \<open>\<open>joining\<close> is a socket that waits for its admission.\<close>

definition sound_world ::
    "(u8 list \<Rightarrow> u8 list) \<Rightarrow> 'n native_store \<Rightarrow> room_join option \<Rightarrow> 'n world \<Rightarrow> bool" where
  "sound_world sha256 st joining w \<longleftrightarrow> room_reach (w_room w) \<and> store_steps sha256 st (w_store w) \<and>
     silent (w_room w) \<and> (\<forall>j. joining = Some j \<longrightarrow> join_ready j (w_room w))"

lemma sound_worldI:
  assumes "sound_world sha256 st joining w" and "room_step\<^sup>*\<^sup>* (w_room w) (w_room v)"
    and "store_steps sha256 (w_store w) (w_store v)" and "silent (w_room v)"
    and "\<And>g ch. detached g ch (w_room w) \<Longrightarrow> detached g ch (w_room v)"
  shows "sound_world sha256 st joining v"
proof -
  have ok: "room_ok (w_room w)"
    using assms(1) room_reach_ok [of "w_room w"] by (simp add: sound_world_def)
  have "join_ready j (w_room v)" if "joining = Some j" for j
    using assms(1) that detached_join_ready [OF assms(5) [OF join_ready_detached [OF ok]]]
    by (simp add: sound_world_def)
  moreover have "store_steps sha256 st (w_store v)"
    using assms(1,3) by (auto simp: sound_world_def)
  moreover have "room_reach (w_room v)"
    using assms(1,2) room_reach_steps by (auto simp: sound_world_def)
  ultimately show ?thesis
    using assms(4) by (simp add: sound_world_def)
qed

text \<open>Changes that leave connections and channels alone, and those of the rows alone.\<close>

lemma sound_internal:
  assumes "sound_world sha256 st joining w"
    and "rm_config r = rm_config (w_room w)" "rm_channels r = rm_channels (w_room w)"
      "rm_budgets r = rm_budgets (w_room w)" "rm_connections r = rm_connections (w_room w)" "silent r"
  shows "sound_world sha256 st joining (w\<lparr>w_room := r\<rparr>)"
proof (rule sound_worldI [OF assms(1)])
  have step: "room_step (w_room w) r"
    using assms by (intro room_step.internal) simp_all
  then show "room_step\<^sup>*\<^sup>* (w_room w) (w_room (w\<lparr>w_room := r\<rparr>))"
    by simp
  show "detached g ch (w_room (w\<lparr>w_room := r\<rparr>))" if "detached g ch (w_room w)" for g ch
    using that room_step_ok [OF step] assms(3,5) by (simp add: detached_def)
qed (use assms in simp_all)

lemma sound_store:
  "sound_world sha256 st joining w \<Longrightarrow> store_steps sha256 (w_store w) st' \<Longrightarrow>
    sound_world sha256 st joining (w\<lparr>w_store := st'\<rparr>)"
  by (auto simp: sound_world_def)

lemma sound_silent: "sound_world sha256 st joining w \<Longrightarrow> silent (w_room w)"
  by (simp add: sound_world_def)

lemma silent_duty:
  "duty r = duty s \<Longrightarrow> fst ` set (rm_connections r) \<subseteq> fst ` set (rm_connections s) \<Longrightarrow> silent s \<Longrightarrow> silent r"
  by (auto simp: silent_def dest: duty_eqD(1,2,6))

lemma sound_others:
  assumes "sound_world (en_sha256 env) st joining w"
  shows "sound_world (en_sha256 env) st joining (others_run env m w)"
proof -
  let ?r = "fold run_transport (mo_transport m) (w_room w)"
  have steps: "room_step\<^sup>*\<^sup>* r (fold run_transport ts r)" for ts and r :: room_actor
    by (induction ts arbitrary: r) (auto intro: rtranclp_trans [OF transport_steps])
  have ready: "join_ready j r \<Longrightarrow> join_ready j (fold run_transport ts r)" for j ts and r :: room_actor
    by (induction ts arbitrary: r) (auto intro: transport_join_ready)
  have conns: "rm_connections (fold run_transport ts r) = rm_connections r" for ts and r :: room_actor
    by (induction ts arbitrary: r) simp_all
  have "silent ?r"
    using assms silent_duty [of ?r "w_room w"] by (simp add: conns sound_world_def)
  moreover have "room_reach ?r"
    using assms room_reach_steps [OF steps] by (simp add: sound_world_def)
  moreover have "store_steps (en_sha256 env) (w_store w) (snd (fold (run_rival (en_sha256 env)
      (ra_backend (w_room w))) (mo_rivals m) (w_held_by w, w_store w)))"
    by (rule rivals_steps)
  ultimately show ?thesis
    using assms ready by (auto simp: others_run_def sound_world_def split: prod.split)
qed

lemma sound_talk:
  assumes "sound_world sha256 st joining w" and "talks (w_room w) r"
  shows "sound_world sha256 st joining (w\<lparr>w_room := r\<rparr>)"
proof (rule sound_worldI [OF assms(1)])
  have "silent (w_room w)"
    using assms(1) by (rule sound_silent)
  with talksD(2,3) [OF assms(2)] show "silent (w_room (w\<lparr>w_room := r\<rparr>))"
    by (auto intro: silent_duty)
qed (use talksD(1,4) [OF assms(2)] in simp_all)

lemma sound_loses:
  assumes "sound_world sha256 st joining w"
  shows "sound_world sha256 st joining (w\<lparr>w_room := (lose_fence (w_room w))\<lparr>ra_room_guard := None\<rparr>\<rparr>)"
proof -
  have "room_step (lose_fence (w_room w)) ((lose_fence (w_room w))\<lparr>ra_room_guard := None\<rparr>)"
    by (rule room_step.internal) simp_all
  note steps = rtranclp.rtrancl_into_rtrancl [OF lose_fence_steps this]
  have ok: "room_ok ((lose_fence (w_room w))\<lparr>ra_room_guard := None\<rparr>)" if "room_ok (w_room w)"
    using room_steps_ok [OF steps that] .
  show ?thesis
  proof (rule sound_worldI [OF assms])
    show "detached g ch (w_room (w\<lparr>w_room := (lose_fence (w_room w))\<lparr>ra_room_guard := None\<rparr>\<rparr>))"
      if "detached g ch (w_room w)" for g ch
      using lose_fence_detached [OF that] ok that by (simp add: detached_def)
  qed (use steps in \<open>simp_all add: silent_def\<close>)
qed

lemma sound_cache:
  assumes "sound_world sha256 st joining w"
  shows "sound_world sha256 st joining (w\<lparr>w_room := set_committed_from_load l (w_room w)\<rparr>)"
  using sound_silent [OF assms]
  by (intro sound_internal [OF assms]) (simp_all add: silent_def set_committed_from_load_def)

lemma sound_regard:
  assumes "sound_world sha256 st joining w" and "alive w"
  shows "sound_world sha256 st joining (w\<lparr>w_room := (w_room w)\<lparr>ra_room_guard := Some g\<rparr>\<rparr>)"
  using assms(2) by (intro sound_internal [OF assms(1)]) (simp_all add: silent_def alive_def)

interpretation sound: room_stepwise env "sound_world (en_sha256 env) st joining"
  for env :: "'n environment" and st joining
proof unfold_locales
  fix w :: "'n world" and r conn_id l bytes s ctx f inp and g :: int and g0 g' :: room_guard and st' c snapshot gen
    and x :: "collab_load_state tx_result" and y :: "project_derived_body_result tx_result"
    and z :: "append_collab_result tx_result" and claim :: "claim_writer_result tx_result" and pinp ainp
  assume w: "sound_world (en_sha256 env) st joining w"
  note silent = sound_silent [OF w]
  show "sound_world (en_sha256 env) st joining (others_run env (en_moments env (w_tick w)) w)"
    by (rule sound_others [OF w])
  show "talks (w_room w) r \<Longrightarrow> sound_world (en_sha256 env) st joining (w\<lparr>w_room := r\<rparr>)"
    by (rule sound_talk [OF w])
  show "sound_world (en_sha256 env) st joining (w\<lparr>w_statuses := w_statuses w @ [(conn_id, False)]\<rparr>)"
    and "sound_world (en_sha256 env) st joining (w\<lparr>w_statuses := w_statuses w @ [(conn_id, True)]\<rparr>)"
    using w by (simp_all add: sound_world_def)
  show "sound_world (en_sha256 env) st joining (w\<lparr>w_room := (lose_fence (w_room w))\<lparr>ra_room_guard := None\<rparr>\<rparr>)"
    by (rule sound_loses [OF w])
  show "sound_world (en_sha256 env) st joining (w\<lparr>w_room := (w_room w)\<lparr>rm_writer_generation := None\<rparr>\<rparr>)"
    and "sound_world (en_sha256 env) st joining (w\<lparr>w_room := push_committed bytes s (w_room w)\<rparr>)"
    using silent by (intro sound_internal [OF w]; simp add: silent_def push_committed_def Let_def)+
  show "sound_world (en_sha256 env) st joining (w\<lparr>w_room := set_committed_from_load l (w_room w)\<rparr>)"
    by (rule sound_cache [OF w])
  have rows: "sound_world (en_sha256 env) st joining (w\<lparr>w_store := st'\<rparr>)"
    if "store_step (en_sha256 env) (w_store w) st'" for st'
    using that by (intro sound_store [OF w]) simp
  have cached: "sound_world (en_sha256 env) st joining (w\<lparr>w_store := st', w_room := set_committed_from_load l (w_room w)\<rparr>)"
    if "store_step (en_sha256 env) (w_store w) st'" for st' l
    using sound_cache [OF rows [OF that], of l] by simp
  show "sound_world (en_sha256 env) st joining (w\<lparr>w_store := st'\<rparr>)"
    if "load_room_collab_readonly ctx f (w_store w) = (st', x)"
    using store_step.step_load [of "en_sha256 env" "w_store w" ctx f] that by (intro rows) simp
  show "sound_world (en_sha256 env) st joining (w\<lparr>w_store := st', w_room := set_committed_from_load l (w_room w)\<rparr>)"
    if "load_room_collab_readonly ctx f (w_store w) = (st', Done l)"
    using store_step.step_load [of "en_sha256 env" "w_store w" ctx f] that by (intro cached) simp
  show "sound_world (en_sha256 env) st joining (w\<lparr>w_store := st'\<rparr>)"
    if "project_derived_body_in_room ctx f pinp (w_store w) = (st', y)"
    using store_step.step_project [of "en_sha256 env" "w_store w" ctx f pinp] that by (intro rows) simp
  show "sound_world (en_sha256 env) st joining (w\<lparr>w_store := st'\<rparr>) \<and>
      (\<forall>l. x = Done l \<longrightarrow>
        sound_world (en_sha256 env) st joining (w\<lparr>w_store := st', w_room := set_committed_from_load l (w_room w)\<rparr>))"
    if "compact_collab_snapshot_in_room ctx f \<lparr>ci_writer_generation = g, ci_cutoff_seq = c,
        ci_expected_tail_seq = c, ci_new_snapshot = snapshot\<rparr> (w_store w) = (st', x)"
    using store_step.step_compact [of "en_sha256 env" "w_store w" ctx f "\<lparr>ci_writer_generation = g,
        ci_cutoff_seq = c, ci_expected_tail_seq = c, ci_new_snapshot = snapshot\<rparr>"] that
    by (auto intro: rows cached)
  show "sound_world (en_sha256 env) st joining (w\<lparr>w_store := st'\<rparr>)"
    if "guard_append (en_sha256 env) ctx g0 ainp (w_store w) = (st', z)"
    using store_step.step_append [of "en_sha256 env" "w_store w" ctx g0 ainp] that by (intro rows) simp
  show guarded: "alive w" if "ra_room_guard (w_room w) = Some g0"
    using silent that by (auto simp: silent_def alive_def)
  show regard: "sound_world (en_sha256 env) st joining (w\<lparr>w_room := (w_room w)\<lparr>ra_room_guard := Some g'\<rparr>\<rparr>)"
    if "alive w"
    using w that by (rule sound_regard)
  show "sound_world (en_sha256 env) st joining (w\<lparr>w_store := st', w_room := (w_room w)\<lparr>ra_room_guard := Some g'\<rparr>\<rparr>)"
    if "ra_room_guard (w_room w) = Some g0" "guard_claim_writer ctx g0 (w_store w) = (st', g', claim)"
  proof -
    have "store_steps (en_sha256 env) (w_store w) st'"
      using claim_step [of "en_sha256 env" "w_store w" ctx g0] that(2) by simp
    from sound_regard [OF sound_store [OF w this], of g'] guarded [OF that(1)] show ?thesis
      by (simp add: alive_def)
  qed
  show "sound_world (en_sha256 env) st joining (w\<lparr>w_room := (w_room w)\<lparr>rm_writer_generation := gen\<rparr>\<rparr>)"
    if "alive w"
    using that by (intro sound_internal [OF w]) (simp_all add: silent_def alive_def)
qed

section \<open>Joins and runs of the loop\<close>

lemma sound_joining: "sound_world sha256 st (Some j) w \<longleftrightarrow> sound_world sha256 st None w \<and> join_ready j (w_room w)"
  by (auto simp: sound_world_def)

lemma greet_duty [simp]: "duty (greet_connection j r) = duty r"
  by (rule duty.greet) simp

lemma admit_duty: "duty (snd (admit_connection now read_only j r)) = duty r"
proof -
  have "duty (r\<lparr>rm_client_id_owner := owners\<rparr>) = duty r" for owners
    by (simp add: duty_def)
  then have reserved: "duty (snd (reserve_client_id now client user r)) = duty r" for client user
    by (simp add: reserve_client_id_def Let_def split: option.split prod.split)
  have inserted: "duty (insert_connection read_only j s) = duty s" for s
    by (simp add: insert_connection_def Let_def duty_def split: prod.split)
  show ?thesis
    using reserved [of "jn_client_id j" "cs_user_id (jn_session j)"]
    by (auto simp: admit_connection_def inserted split: prod.split bool.split)
qed

lemma sound_admit:
  assumes "sound_world sha256 st (Some j) w" and "alive w"
  shows "sound_world sha256 st None (w\<lparr>w_room := snd (admit_connection now read_only j (w_room w))\<rparr>)"
proof -
  have "room_step (w_room w) (snd (admit_connection now read_only j (w_room w)))"
    using assms(1) by (intro room_step.admit) (simp add: sound_joining)
  then have "room_reach (snd (admit_connection now read_only j (w_room w)))"
    using assms(1) room_reach.step by (auto simp: sound_world_def)
  moreover have "\<not> rm_fence_lost (snd (admit_connection now read_only j (w_room w)))"
    using assms(2) duty_eqD(1) [OF admit_duty] by (simp add: alive_def)
  ultimately show ?thesis
    using assms(1) by (simp add: sound_world_def silent_def)
qed

lemma sound_join:
  assumes "sound_world (en_sha256 env) st (Some j) w"
  shows "wp (handle_join env j) (\<lambda>_. sound_world (en_sha256 env) st None) w"
proof -
  have admit: "wp (on_room_result (admit_connection now read_only j)) (\<lambda>_. sound_world (en_sha256 env) st None) v"
    if "sound_world (en_sha256 env) st (Some j) v" and "alive v" for now read_only v
    using sound_admit [OF that, of now read_only] by (auto split: prod.split)
  have "wp (prepare_join env j) (\<lambda>x. wp (case x of
      Inl err \<Rightarrow> act_return (Inl err)
    | Inr read_only \<Rightarrow> do {
        now \<leftarrow> now_ms env;
        admitted \<leftarrow> on_room_result (admit_connection now read_only j);
        act_return (if admitted then Inr () else Inl AdmissionDenied) })
      (\<lambda>_. sound_world (en_sha256 env) st None)) w"
    using wp_conj [OF keepsD [OF sound.prepares_join assms] prepare_alive]
    by (rule wp_mono) (use admit in \<open>auto simp: sound_joining simp del: wp_on_room_result split: sum.split\<close>)
  then show ?thesis
    by (simp add: handle_join_def)
qed

definition command_ready :: "room_command \<Rightarrow> room_actor \<Rightarrow> bool" where
  "command_ready cmd r \<longleftrightarrow> (\<forall>j. cmd = CmdJoin j \<longrightarrow> join_ready j r)"

lemma sound_dispatch:
  assumes "sound_world (en_sha256 env) st None w" and "command_ready cmd (w_room w)"
  shows "wp (dispatch env cmd) (\<lambda>_. sound_world (en_sha256 env) st None) w"
proof (cases "\<exists>j. cmd = CmdJoin j")
  case True
  then obtain j where j: "cmd = CmdJoin j"
    by blast
  with assms have "sound_world (en_sha256 env) st (Some j) w"
    by (simp add: sound_joining command_ready_def)
  from sound_join [OF this] show ?thesis
    by (simp add: j)
next
  case False
  then show ?thesis
    by (intro keepsD [OF sound.dispatches assms(1)]) blast
qed

text \<open>Every join of a run brings its own socket, as the hub gives it one.\<close>

fun joins_ready :: "'n environment \<Rightarrow> room_command list \<Rightarrow> 'n world \<Rightarrow> bool" where
  "joins_ready env [] w = True"
| "joins_ready env (cmd # rest) w =
     (let w = snd (run_state (await env) w) in
      command_ready cmd (w_room w) \<and> joins_ready env rest (snd (run_state (dispatch env cmd) w)))"

lemma wp_run: "wp m Q w \<longleftrightarrow> Q (fst (run_state m w)) (snd (run_state m w))"
  by (simp add: wp_def split: prod.split)

lemma run_await:
  "run_state (await env) w = (let m = en_moments env (w_tick w) in (m, others_run env m w))"
  by (simp add: await_def act_return_def Let_def)

lemma sound_loop:
  assumes "sound_world (en_sha256 env) st None w" and "joins_ready env cmds w"
  shows "wp (run_loop env cmds) (\<lambda>_. sound_world (en_sha256 env) st None) w"
  using assms
proof (induction cmds arbitrary: w)
  case (Cons cmd rest)
  let ?w = "snd (run_state (await env) w)"
  have "sound_world (en_sha256 env) st None ?w"
    using keepsD [OF sound.awaits Cons.prems(1)] by (simp add: run_await Let_def)
  then have "wp (dispatch env cmd) (\<lambda>_. sound_world (en_sha256 env) st None) ?w"
    using Cons.prems(2) by (intro sound_dispatch) (simp_all add: Let_def)
  moreover have "wp (dispatch env cmd) (\<lambda>_. joins_ready env rest) ?w"
    using Cons.prems(2) by (simp add: wp_run Let_def)
  ultimately have "wp (dispatch env cmd) (\<lambda>_ v. wp (if rm_fence_lost (w_room v) \<and> rm_connections (w_room v) = []
      then act_return () else run_loop env rest) (\<lambda>_. sound_world (en_sha256 env) st None) v) ?w"
    by (rule wp_mono [OF wp_conj]) (auto intro: Cons.IH)
  then show ?case
    by (simp add: run_await Let_def)
qed simp

lemma sound_spawned:
  assumes "w_room w = spawned_room cfg workspace document k backend remote limits guard initial_load"
  shows "sound_world sha256 (w_store w) None w"
proof -
  have "room_reach (w_room w)"
    by (rule room_reach.start)
      (simp_all add: assms spawned_room_def set_committed_from_load_def Let_def split: option.split)
  moreover have "\<not> rm_fence_lost (w_room w)"
    by (simp add: assms spawned_room_def set_committed_from_load_def Let_def split: option.split)
  ultimately show ?thesis
    by (simp add: sound_world_def silent_def)
qed

text \<open>The loop stops at the fence: what follows it in the mailbox is not served.\<close>

lemma loop_stops:
  assumes "run_state (run_loop env cmds) w = ((), w')"
    and "\<not> (rm_fence_lost (w_room w) \<and> rm_connections (w_room w) = [])"
    and "rm_fence_lost (w_room w')" "rm_connections (w_room w') = []"
  shows "run_state (run_loop env (cmds @ rest)) w = ((), w')"
  using assms
proof (induction cmds arbitrary: w)
  case (Cons cmd cmds)
  let ?w = "snd (run_state (await env) w)"
  define u where "u = snd (run_state (dispatch env cmd) ?w)"
  have step: "run_state (run_loop env (cmd # cs)) w =
      (if rm_fence_lost (w_room u) \<and> rm_connections (w_room u) = [] then ((), u)
       else run_state (run_loop env cs) u)" for cs
    by (simp add: u_def ask_room_def act_return_def run_await Let_def split: prod.split)
  show ?case
    using Cons.IH [of u] Cons.prems(2-4) Cons.prems(1) [unfolded step] unfolding append_Cons step
    by (auto split: if_splits)
qed (simp add: act_return_def)

section \<open>A room to run\<close>

definition sample_applied :: "unit engine_ok" where
  "sample_applied =
     \<lparr>eo_applied = True, eo_pending = False, eo_durable = True, eo_skip_gc = True, eo_offset_kind = ''utf16'',
      eo_encoding = 1, eo_fragment = ''default'', eo_update_b64 = None, eo_state_vector_b64 = None,
      eo_xml_string = None, eo_xml_len = None, eo_content_json = None, eo_yrs = None\<rparr>"

definition sample_moment :: "unit moment" where
  "sample_moment =
     \<lparr>mo_clock = 0, mo_before = sample_writer_db, mo_db = sample_writer_db, mo_now = 50, mo_end = 50,
      mo_fault = NoFault, mo_rivals = [], mo_transport = [], mo_reply = (\<lambda>_. Answers (StatusOk sample_applied)),
      mo_spawn = Spawns, mo_engine_bin = True,
      mo_validator = \<lparr>vd_spawn = None, vd_load = (\<lambda>_. StatusOk sample_applied),
        vd_snapshot = StatusOk sample_applied, vd_joins = True\<rparr>,
      mo_released = True, mo_in_time = False, mo_uuid = 7\<rparr>"

text \<open>A socket opens before the first command; renewals come too late.\<close>

definition sample_env :: "unit environment" where
  "sample_env =
     \<lparr>en_moments = (\<lambda>t. if t = 0 then sample_moment\<lparr>mo_transport := [SocketOpens]\<rparr> else sample_moment),
      en_sha256 = id, en_b64_decode = (\<lambda>_. None), en_prepare_derived_body = (\<lambda>_. None),
      en_uuid_parse = (\<lambda>_. None), en_uuid_show = (\<lambda>_. ''''),
      en_presence = \<lparr>pc_parse = (\<lambda>_. None), pc_from_slice = (\<lambda>_. None), pc_to_vec = (\<lambda>_. None),
        pc_uuid_simple = (\<lambda>_. ''''), pc_uuid_string = (\<lambda>_. '''')\<rparr>\<rparr>"

definition sample_spawned :: room_actor where
  "sample_spawned = spawned_room sample_room_config 3 4 Document Postgres False engine_limits_default PgGuard None"

definition sample_world :: "unit world" where
  "sample_world = \<lparr>w_room = sample_spawned, w_store = sample_store, w_held_by = Map.empty, w_tick = 0, w_statuses = []\<rparr>"

lemma sample_joins: "joins_ready sample_env [CmdJoin (sample_join 1 0)] sample_world"
  by (simp add: run_await Let_def others_run_def sample_env_def sample_world_def sample_moment_def command_ready_def
      join_ready_def sample_join_def open_socket_def sample_spawned_def spawned_room_def frames_of_def)

text \<open>The same room on a lease.\<close>

definition sample_lease :: native_fence where
  "sample_lease = \<lparr>nf_kind = Document, nf_workspace = 3, nf_resource = 4, nf_owner = 8, nf_sequence = 1\<rparr>"

definition sample_lease_world :: "unit world" where
  "sample_lease_world = sample_world\<lparr>w_room := spawned_room sample_room_config 3 4 Document SqliteFamily False
     engine_limits_default (FamilyGuard sample_lease sample_lease 9) None\<rparr>"

lemma fence_lost_says: "wp (fatal_fence_lost env) (\<lambda>_ w'. rm_fence_lost (w_room w')) w"
  by (auto simp: fatal_fence_lost_def Let_def split: option.split)

lemma sample_renewal: "wp (run_loop sample_env [RenewTick]) (\<lambda>_ w. rm_fence_lost (w_room w)) sample_lease_world"
proof -
  let ?w = "others_run sample_env (en_moments sample_env 0) sample_lease_world"
  have "\<not> rm_fence_lost (w_room ?w)" "ra_room_guard (w_room ?w) = Some (FamilyGuard sample_lease sample_lease 9)"
      "ra_kind (w_room ?w) = Document" "w_tick ?w = 1"
    by (simp_all add: others_run_def sample_lease_world_def sample_world_def sample_env_def sample_moment_def
        open_socket_def spawned_room_def)
  moreover have "\<not> mo_in_time (en_moments sample_env 1)"
    by (simp add: sample_env_def sample_moment_def)
  moreover have "wp m (\<lambda>_. wp (fatal_fence_lost sample_env) (\<lambda>_ w. rm_fence_lost (w_room w))) v"
    for m :: "(unit, bool option) act" and v
    by (rule wp_mono [OF wp_true [THEN fun_cong, THEN iffD2, OF TrueI]]) (rule fence_lost_says)
  ultimately have "wp (renew_tick sample_env) (\<lambda>_ w. rm_fence_lost (w_room w)) ?w"
    by (simp add: renew_tick_def is_remote_task_room_def)
  moreover have "w_tick sample_lease_world = 0"
    by (simp add: sample_lease_world_def sample_world_def)
  ultimately show ?thesis
    by (simp add: Let_def) (erule wp_mono, simp)
qed

lemma outbound_limits:
  assumes "room_reach r" and "h < length (rm_budgets r)"
  shows "length (frames_on h r) \<le> cfg_max_outbound_frames_per_connection (rm_config r) \<and>
    (\<Sum>f\<leftarrow>frames_on h r. length (of_bytes f) + OUTBOUND_FRAME_OVERHEAD)
      \<le> cfg_max_outbound_bytes_per_connection (rm_config r)"
proof -
  from room_reach_ok [OF assms(1)] have "permits_known r" and "budget_ok r h"
    using assms(2) by (simp_all add: room_ok_def outbound_ok_def)
  then show ?thesis
    by (auto simp: budget_ok_def Let_def held_frames_on)
qed

lemma wf_store_loads:
  assumes "wf_store sha256 st" and "st_state st \<noteq> None"
  shows "\<exists>l. load_durable_native_source st = Inr l \<and> l_tail_seq l = tail_of st"
  using assms wf_row_load [OF wf_storeD [OF assms(1)]] by (auto simp: state_row_to_load_def tail_of_def)

section \<open>Properties\<close>

text \<open>C4: Whatever the mailbox of a room holds (joins, frames, writes, captures, revocation sweeps, renewals)
  and however clients, engine, database and rival rooms behave meanwhile, the room's run keeps the promises of
  its parts: what it did to the rows is a run of the store's transactions; if the resource had no rows when the room
  was spawned and has a row afterwards, its durable log loads, up to the stored tail; and no connection has more
  unsent accounted frames, or more bytes in them, than its limits.\<close>

theorem room_run_sound:
  assumes "w_room w = spawned_room cfg workspace document k backend remote limits guard initial_load"
    and "joins_ready env cmds w" and "run_state (run_loop env cmds) w = ((), w')"
  shows "store_steps (en_sha256 env) (w_store w) (w_store w') \<and>
    (initial_store (w_store w) \<and> st_state (w_store w') \<noteq> None \<longrightarrow>
      (\<exists>l. load_durable_native_source (w_store w') = Inr l \<and> l_tail_seq l = tail_of (w_store w'))) \<and>
    (\<forall>h < length (rm_budgets (w_room w')).
      length (frames_on h (w_room w')) \<le> cfg_max_outbound_frames_per_connection (rm_config (w_room w')) \<and>
      (\<Sum>f\<leftarrow>frames_on h (w_room w'). length (of_bytes f) + OUTBOUND_FRAME_OVERHEAD)
        \<le> cfg_max_outbound_bytes_per_connection (rm_config (w_room w')))"
proof -
  have sound: "sound_world (en_sha256 env) (w_store w) None w'"
    using sound_loop [OF sound_spawned [OF assms(1)] assms(2)] by (simp add: wp_run assms(3))
  then have steps: "store_steps (en_sha256 env) (w_store w) (w_store w')"
    by (simp add: sound_world_def)
  have "\<exists>l. load_durable_native_source (w_store w') = Inr l \<and> l_tail_seq l = tail_of (w_store w')"
    if "initial_store (w_store w)" "st_state (w_store w') \<noteq> None"
    using wf_store_loads [OF store_steps_wf [OF steps initial_wf [OF that(1)]] that(2)] .
  with steps outbound_limits [of "w_room w'"] sound show ?thesis
    by (simp add: sound_world_def)
qed

theorem room_run_sound_witness:
  "\<exists>w. run_state (run_loop sample_env [CmdJoin (sample_join 1 0)]) sample_world = ((), w) \<and>
    store_steps id sample_store (w_store w)"
proof -
  let ?w = "snd (run_state (run_loop sample_env [CmdJoin (sample_join 1 0)]) sample_world)"
  have world: "w_room sample_world = spawned_room sample_room_config 3 4 Document Postgres False engine_limits_default PgGuard None"
      "w_store sample_world = sample_store" "en_sha256 sample_env = id"
    by (simp_all add: sample_world_def sample_spawned_def sample_env_def)
  have "run_state (run_loop sample_env [CmdJoin (sample_join 1 0)]) sample_world = ((), ?w)"
    by (simp add: prod_eq_iff)
  with room_run_sound [OF world(1) sample_joins this] world(2,3) show ?thesis
    by auto
qed

text \<open>C3: A room that lost its fence is out of service for good: it has no connection, no writer generation
  and no guard left, and it serves nothing that its mailbox still holds.\<close>

theorem lost_room_stops:
  assumes "w_room w = spawned_room cfg workspace document k backend remote limits guard initial_load"
    and "joins_ready env cmds w" and "run_state (run_loop env cmds) w = ((), w')" and "rm_fence_lost (w_room w')"
  shows "rm_connections (w_room w') = [] \<and> rm_writer_generation (w_room w') = None \<and>
    ra_room_guard (w_room w') = None \<and> run_state (run_loop env (cmds @ rest)) w = ((), w')"
proof -
  have "silent (w_room w')"
    using sound_loop [OF sound_spawned [OF assms(1)] assms(2)] by (simp add: wp_run assms(3) sound_world_def)
  then have "rm_connections (w_room w') = []" "rm_writer_generation (w_room w') = None" "ra_room_guard (w_room w') = None"
    using assms(4) by (simp_all add: silent_def)
  moreover have "\<not> rm_fence_lost (w_room w)"
    by (simp add: assms(1) spawned_room_def set_committed_from_load_def Let_def split: option.split)
  ultimately show ?thesis
    using loop_stops [OF assms(3)] assms(4) by simp
qed

theorem lost_room_stops_witness:
  "\<exists>w. run_state (run_loop sample_env [RenewTick]) sample_lease_world = ((), w) \<and>
    run_state (run_loop sample_env [RenewTick, AclTick]) sample_lease_world = ((), w)"
proof -
  let ?w = "snd (run_state (run_loop sample_env [RenewTick]) sample_lease_world)"
  have "w_room sample_lease_world = spawned_room sample_room_config 3 4 Document SqliteFamily False engine_limits_default
      (FamilyGuard sample_lease sample_lease 9) None"
    "joins_ready sample_env [RenewTick] sample_lease_world"
    "run_state (run_loop sample_env [RenewTick]) sample_lease_world = ((), ?w)"
    by (simp_all add: sample_lease_world_def command_ready_def prod_eq_iff)
  moreover have "rm_fence_lost (w_room ?w)"
    using sample_renewal by (simp only: wp_run)
  ultimately show ?thesis
    using lost_room_stops [of sample_lease_world _ _ _ _ _ _ _ _ _ sample_env "[RenewTick]" ?w "[AclTick]"] by auto
qed

end
