(* ===== verification/RoomDurable.thy ===== *)
theory RoomDurable
  imports RoomSafety
begin

text \<open>
  What an acknowledgement means: a \<open>SyncStatus\<close> that tells a client its update is applied is sent only
  when the durable rows hold a receipt for exactly that update.
\<close>

section \<open>Invariants of the rows\<close>

text \<open>A predicate that no transaction falsifies survives every handler.\<close>

locale stable_rows =
  fixes sha256 :: "u8 list \<Rightarrow> u8 list" and P :: "'n native_store \<Rightarrow> bool"
  assumes stable: "P st \<Longrightarrow> store_step sha256 st st' \<Longrightarrow> P st'"
begin

lemma stable_steps: "store_steps sha256 st st' \<Longrightarrow> P st \<Longrightarrow> P st'"
  by (induction rule: rtranclp_induct) (auto intro: stable)

lemma others_store: "P (w_store w) \<Longrightarrow> en_sha256 env = sha256 \<Longrightarrow> P (w_store (others_run env m w))"
  using stable_steps [OF rivals_steps [of sha256 "w_store w" "ra_backend (w_room w)" "mo_rivals m" "w_held_by w"]]
  by (auto simp: others_run_def split: prod.split)

lemma step_stable: "P st \<Longrightarrow> f st = (st', x) \<Longrightarrow> store_step sha256 st (fst (f st)) \<Longrightarrow> P st'"
  using stable [of st st'] by simp

lemma acking: "en_sha256 env = sha256 \<Longrightarrow> room_acking env (\<lambda>w. P (w_store w))"
  by unfold_locales
    (auto intro: others_store step_stable [OF _ _ step_load] step_stable [OF _ _ step_project]
      step_stable [OF _ _ step_compact])

end

definition receipt_for :: "(u8 list \<Rightarrow> u8 list) \<Rightarrow> uuid \<Rightarrow> u8 list \<Rightarrow> int \<Rightarrow> 'n native_store \<Rightarrow> bool" where
  "receipt_for sha256 user_id bytes s st \<longleftrightarrow>
     list_ex (\<lambda>rc. rc_seq rc = s \<and> rc_payload_len rc = int (length bytes) \<and>
       rc_payload_sha256 rc = sha256 bytes \<and> rc_actor_user_id rc = user_id) (st_receipts st)"

interpretation receipts: stable_rows sha256 "receipt_for sha256 user_id bytes s" for sha256 user_id bytes s
proof
  show "receipt_for sha256 user_id bytes s st'" if "receipt_for sha256 user_id bytes s st" "store_step sha256 st st'"
    for st st' :: "'n native_store"
    using row_change_grows [OF store_step_change [OF that(2)]] that(1) by (auto simp: receipt_for_def)
qed

lemma fetch_optional_mem: "fetch_optional rs = Some r \<Longrightarrow> r \<in> set rs"
  by (cases rs) simp_all

lemma append_receipt:
  assumes "guard_append sha256 ctx guard inp st = (st', Done result)"
    and "s = (case result of Committed s \<Rightarrow> s | DuplicateAck s \<Rightarrow> s)"
  shows "receipt_for sha256 (a_actor (x_actor ctx)) (ai_payload inp) s st'"
proof -
  obtain p where p: "append_collab_native sha256 ctx (family_fence guard) inp st = (st', Done p)"
      "Done result = confirmed (Done p)"
    using append_body_cases [OF assms(1)] by auto
  have found: "rc \<in> set (st_receipts (seeded st))" if "native_operation_receipt (seeded st) (ai_op_id inp) = Some rc" for rc
    using that by (auto simp: native_operation_receipt_def comp_eq_filter dest: fetch_optional_mem)
  from append_native_Done [OF p(1)] p(2) assms(2) found show ?thesis
    by (cases p) (force simp: receipt_for_def list_ex_iff receipt_matches_def)+
qed

lemma verify_receipt:
  assumes "verify_room_collab_operation ctx inp proof st = Done rc"
    and "vi_payload_len inp = int (length bytes)" "vi_payload_sha256 inp = sha256 bytes"
  shows "receipt_for sha256 (vi_actor_user_id inp) bytes (rc_seq rc) st"
proof -
  have "verify_native_operation ctx inp st = Done rc"
    using assms(1) by (auto simp: verify_room_collab_operation_def finish_native_room_operation_def
        split: if_splits option.splits tx_result.splits tx_fault.splits)
  then show ?thesis
    using assms(2,3)
    by (auto simp: verify_native_operation_def receipt_for_def list_ex_iff native_operation_receipt_def comp_eq_filter
        dest!: fetch_optional_mem split: sum.splits option.splits if_splits)
qed

section \<open>Replies before the commit\<close>

definition unacked :: "(uuid \<times> bool) list \<Rightarrow> 'n world \<Rightarrow> bool" where
  "unacked base w \<longleftrightarrow> (\<exists>fs. w_statuses w = base @ fs \<and> list_all (\<lambda>(_, ok). \<not> ok) fs)"

lemma unacked_room [simp]:
  "unacked base (w\<lparr>w_room := r\<rparr>) = unacked base w"
  "unacked base (w\<lparr>w_store := st\<rparr>) = unacked base w"
  "unacked base (others_run env m w) = unacked base w"
  by (simp_all add: unacked_def others_run_def split: prod.split)

lemma unacked_refuse: "unacked base w \<Longrightarrow> unacked base (w\<lparr>w_statuses := w_statuses w @ [(conn_id, False)]\<rparr>)"
  unfolding unacked_def by (auto intro: exI [of _ "fs @ [(conn_id, False)]" for fs])

interpretation unacked: room_appending env "unacked base" for env :: "'n environment" and base
  by unfold_locales (simp_all add: unacked_refuse)

text \<open>A candidate that commits has its receipt, one past the cached tail.\<close>

lemma reconcile_receipt:
  "wp (reconcile_ambiguous_append env actor session operation tail bytes (en_sha256 env bytes))
    (\<lambda>x w'. \<forall>result. x = Some result \<longrightarrow>
      receipt_for (en_sha256 env) actor bytes (case result of Committed s \<Rightarrow> s | DuplicateAck s \<Rightarrow> s) (w_store w')) w"
proof -
  have "receipt_for (en_sha256 env) actor bytes (rc_seq rc) st"
    if "verify_room_collab_operation ctx \<lparr>vi_op_id = operation, vi_payload_len = int (length bytes),
        vi_payload_sha256 = en_sha256 env bytes, vi_actor_user_id = actor\<rparr> proof st = Done rc"
    for ctx "proof" rc and st :: "'a native_store"
    using verify_receipt [OF that, of bytes "en_sha256 env"] by simp
  then show ?thesis
    unfolding reconcile_ambiguous_append_def
    by (auto simp: Let_def split: tx_result.split collab_db_error.split prod.split)
qed

lemma commit_receipt:
  "wp (commit_candidate env conn_id key bytes actor session)
    (\<lambda>x w'. \<forall>s. x = Some s \<longrightarrow> s = cm_tail_seq (ra_committed (w_room w)) + 1 \<and>
      receipt_for (en_sha256 env) actor bytes s (w_store w')) w"
proof -
  let ?Q = "\<lambda>x w'. \<forall>s. x = Some s \<longrightarrow> s = cm_tail_seq (ra_committed (w_room w)) + 1 \<and>
      receipt_for (en_sha256 env) actor bytes s (w_store w')"
  let ?t = "cm_tail_seq (ra_committed (w_room w))"
  let ?finish = "\<lambda>committed. case committed of
      None \<Rightarrow> act_return None
    | Some result \<Rightarrow>
        (let s = (case result of Committed s \<Rightarrow> s | DuplicateAck s \<Rightarrow> s) in
         if s \<noteq> ?t + 1 then do {
           healthy \<leftarrow> reload_primary_or_close_room env;
           (if healthy then do {
              fatal_room_divergence env actor session;
              reject_candidate env conn_id key }
            else act_return ());
           act_return None }
         else act_return (Some s))"
  have finish: "wp (?finish committed) ?Q v"
    if "\<forall>result. committed = Some result \<longrightarrow>
      receipt_for (en_sha256 env) actor bytes (case result of Committed s \<Rightarrow> s | DuplicateAck s \<Rightarrow> s) (w_store v)"
    for committed v
    using that by (auto simp: Let_def split: option.split)
  have reconciled: "wp (reconcile_ambiguous_append env actor session operation ?t bytes (en_sha256 env bytes))
      (\<lambda>x. wp (case x of
          Some result \<Rightarrow> act_return (Some result)
        | None \<Rightarrow> do { reload_then_reject env conn_id key; act_return None })
        (\<lambda>committed. wp (?finish committed) ?Q)) v" for operation v
    by (rule wp_mono [OF reconcile_receipt]) (auto simp: Let_def split: option.split)
  let ?m = "en_moments env (w_tick w)"
  let ?w = "others_run env ?m w"
  show ?thesis
  proof (cases "ra_room_guard (w_room w) = None \<or> rm_writer_generation (w_room w) = None")
    case False
    then obtain guard g where g: "ra_room_guard (w_room w) = Some guard" "rm_writer_generation (w_room w) = Some g"
      by auto
    obtain st x where run: "guard_append (en_sha256 env) (tx_context ?m (w_room ?w) actor session) guard
        \<lparr>ai_writer_generation = g, ai_expected_tail_seq = ?t, ai_op_id = mo_uuid ?m, ai_payload = bytes\<rparr>
        (w_store ?w) = (st, x)"
      by fastforce
    have appended: "receipt_for (en_sha256 env) actor bytes (case result of Committed s \<Rightarrow> s | DuplicateAck s \<Rightarrow> s) st"
      if "x = Done result" for result
      using append_receipt [OF run [unfolded that] refl] by (simp add: tx_context_def)
    show ?thesis
    proof (cases x)
      case (Done result)
      with finish [of "Some result" "?w\<lparr>w_store := st\<rparr>"] appended show ?thesis
        by (simp add: commit_candidate_def g Let_def run)
    next
      case (Refused e)
      with reconciled [of "mo_uuid ?m" "?w\<lparr>w_store := st\<rparr>", unfolded Let_def] show ?thesis
        by (simp add: commit_candidate_def g Let_def run)
    next
      case DriverError
      then show ?thesis
        by (simp add: commit_candidate_def g Let_def run)
    qed
  qed (auto simp: commit_candidate_def split: option.split)
qed

text \<open>The engine's work before a commit leaves connections and cached tail alone.\<close>

definition steady :: "room_actor \<Rightarrow> 'n world \<Rightarrow> bool" where
  "steady r w \<longleftrightarrow> rm_connections (w_room w) = rm_connections r \<and> duty (w_room w) = duty r"

lemma steady_room [simp]:
  "steady r (w\<lparr>w_room := (w_room w)\<lparr>ra_engine := b\<rparr>\<rparr>) = steady r w"
  "steady r (w\<lparr>w_room := primary_lost (w_room w)\<rparr>) = steady r w"
  "steady r (w\<lparr>w_room := (w_room w)\<lparr>ra_primary_dirty := d\<rparr>\<rparr>) = steady r w"
  "steady r (w\<lparr>w_room := (w_room w)\<lparr>ra_primary_loaded := l, ra_primary_dirty := d, ra_admission_reserved := a\<rparr>\<rparr>) = steady r w"
  by (simp_all add: steady_def duty_def primary_lost_def)

lemma transports_connections [simp]: "rm_connections (fold run_transport ts r) = rm_connections r"
  by (induction ts arbitrary: r) simp_all

lemma steady_others [simp]: "steady r (others_run env m w) = steady r w"
proof -
  have "rm_connections (w_room (others_run env m w)) = rm_connections (w_room w)"
    by (simp add: others_run_def split: prod.split)
  then show ?thesis
    by (simp add: steady_def)
qed

lemma steady_awaits: "keeps (steady r) (await env)"
  by (simp add: keeps_def Let_def)

lemma steady_engine: "keeps (steady r) (engine_call env req)" "keeps (steady r) (engine_recycle env)"
  by (simp_all add: keeps_def engine_call_def engine_recycle_def Let_def split: prod.split)

lemma steady_reload: "keeps (steady r) (reload_primary_from_committed env)"
  unfolding reload_primary_from_committed_def load_engine_primary_def
  by (auto intro!: keeps_rules steady_engine split: option.split sum.split) (simp_all add: keeps_def)

lemma steady_capacity: "keeps (steady r) (ensure_primary_capacity env)"
  unfolding ensure_primary_capacity_def by (auto intro!: keeps_rules steady_reload)

lemma steady_validation:
  assumes "steady r w"
  shows "wp (validate_candidate_on_primary env bytes) (\<lambda>x w'. x = BundleOk \<longrightarrow> steady r w') w"
proof -
  have refused: "((if healthy then outcome else ValidatorUnavailable) = BundleOk) = False" if "outcome \<noteq> BundleOk"
    for healthy outcome
    using that by simp
  have "wp (engine_call env (ReqApply bytes 1)) (\<lambda>report. wp (case report of
      None \<Rightarrow> do { _ \<leftarrow> reload_primary_or_close_room env; act_return ValidatorUnavailable }
    | Some status \<Rightarrow>
        (case classify_admission_load status of
           Inr _ \<Rightarrow> do { on_room (\<lambda>r. r\<lparr>ra_primary_dirty := True\<rparr>); act_return BundleOk }
         | Inl outcome \<Rightarrow>
             if outcome \<noteq> BundleOk then do {
               healthy \<leftarrow> reload_primary_or_close_room env;
               act_return (if healthy then outcome else ValidatorUnavailable) }
             else act_return outcome)) (\<lambda>x w'. x = BundleOk \<longrightarrow> steady r w')) w"
    using keepsD [OF steady_engine(1) assms] by (rule wp_mono) (auto simp: refused split: option.split sum.split)
  then show ?thesis
    by (simp add: validate_candidate_on_primary_def)
qed

section \<open>An acknowledged update is durable\<close>

definition acked_durably :: "(u8 list \<Rightarrow> u8 list) \<Rightarrow> uuid \<Rightarrow> room_actor \<Rightarrow> u8 list \<Rightarrow> 'n world \<Rightarrow> bool" where
  "acked_durably sha256 conn_id r bytes w \<longleftrightarrow>
     (case conn_of conn_id r of
        None \<Rightarrow> False
      | Some c \<Rightarrow> \<not> cn_poisoned c \<and> \<not> cn_in_flight c \<and>
          receipt_for sha256 (cs_user_id (cn_session c)) bytes (cm_tail_seq (ra_committed r) + 1) (w_store w))"

lemma conn_of_update: "conn_of conn_id (update_conn conn_id f r) = map_option f (conn_of conn_id r)"
proof -
  have "map_of (map (\<lambda>(i, c). (i, if i = conn_id then f c else c)) cs) conn_id = map_option f (map_of cs conn_id)" for cs
    by (induction cs) auto
  then show ?thesis
    by (simp add: conn_of_def update_conn_def)
qed

lemma publish_durable:
  "receipt_for (en_sha256 env) user_id bytes n (w_store w) \<Longrightarrow>
    wp (publish_update env conn_id key yp bytes s actor session) (\<lambda>_ w'. receipt_for (en_sha256 env) user_id bytes n (w_store w')) w"
  using keepsD [OF room_acking.announces [OF receipts.acking [OF refl, of env user_id bytes n]],
    of "w\<lparr>w_room := push_committed bytes s (w_room w)\<rparr>" conn_id key yp bytes s actor session]
  by (simp add: publish_update_def)

text \<open>\<open>marked\<close> is the room once the connection's update is in flight.\<close>

abbreviation marked :: "uuid \<Rightarrow> room_actor \<Rightarrow> room_actor" where
  "marked conn_id \<equiv> update_conn conn_id (\<lambda>c. c\<lparr>cn_in_flight := True\<rparr>)"

lemma steady_marked:
  assumes "steady (marked conn_id r) w" and "conn_of conn_id r = Some c"
  shows "conn_of conn_id (w_room w) = Some (c\<lparr>cn_in_flight := True\<rparr>)"
    and "cm_tail_seq (ra_committed (w_room w)) = cm_tail_seq (ra_committed r)"
proof -
  have "duty (marked conn_id r) = duty r"
    by (simp add: update_conn_def duty_def)
  with assms(1) show "cm_tail_seq (ra_committed (w_room w)) = cm_tail_seq (ra_committed r)"
    using duty_eqD(7) [of "w_room w" r] by (simp add: steady_def)
  have "conn_of conn_id (marked conn_id r) = Some (c\<lparr>cn_in_flight := True\<rparr>)"
    using assms(2) by (simp add: conn_of_update)
  with assms(1) show "conn_of conn_id (w_room w) = Some (c\<lparr>cn_in_flight := True\<rparr>)"
    by (simp add: steady_def conn_of_def)
qed

text \<open>Either no acknowledgement has been made, or the update is durable.\<close>

abbreviation settled :: "'n environment \<Rightarrow> (uuid \<times> bool) list \<Rightarrow> uuid \<Rightarrow> room_actor \<Rightarrow> u8 list \<Rightarrow> 'n world \<Rightarrow> bool" where
  "settled env base conn_id r bytes w \<equiv> unacked base w \<or> acked_durably (en_sha256 env) conn_id r bytes w"

abbreviation waiting :: "(uuid \<times> bool) list \<Rightarrow> uuid \<Rightarrow> room_actor \<Rightarrow> 'n world \<Rightarrow> bool" where
  "waiting base conn_id r w \<equiv> unacked base w \<and> steady (marked conn_id r) w"

lemma quietly:
  assumes "keeps (unacked base) m" and "unacked base w"
  shows "wp m (\<lambda>_. settled env base conn_id r bytes) w"
  using keepsD [OF assms] by (rule wp_mono) simp

lemma commit_settles:
  assumes "waiting base conn_id r w" and "conn_of conn_id r = Some c" "\<not> cn_poisoned c" "\<not> cn_in_flight c"
  shows "wp (do {
    ids \<leftarrow> ask_room (\<lambda>r. case conn_of conn_id r of
        Some c \<Rightarrow> (cs_user_id (cn_session c), cs_session_id (cn_session c))
      | None \<Rightarrow> (0, 0));
    committed \<leftarrow> commit_candidate env conn_id key bytes (fst ids) (snd ids);
    case committed of
      None \<Rightarrow> act_return ()
    | Some s \<Rightarrow> publish_update env conn_id key yp bytes s (fst ids) (snd ids) }) (\<lambda>_. settled env base conn_id r bytes) w"
proof -
  note now = steady_marked [OF conjunct2 [OF assms(1)] assms(2)]
  have "wp (commit_candidate env conn_id key bytes (cs_user_id (cn_session c)) session) (\<lambda>x. wp (case x of
      None \<Rightarrow> act_return ()
    | Some s \<Rightarrow> publish_update env conn_id key yp bytes s (cs_user_id (cn_session c)) session) (\<lambda>_. settled env base conn_id r bytes)) w"
    for session
    using wp_conj [OF keepsD [OF unacked.commit_keeps conjunct1 [OF assms(1)]] commit_receipt]
    by (rule wp_mono)
      (auto simp: now acked_durably_def assms split: option.split intro!: wp_mono [OF publish_durable])
  then show ?thesis
    unfolding wp_bind wp_ask_room now by (simp cong: option.case_cong)
qed

lemma validation_settles:
  assumes "waiting base conn_id r w" and "conn_of conn_id r = Some c" "\<not> cn_poisoned c" "\<not> cn_in_flight c"
  shows "wp (do {
    validation \<leftarrow> validate_candidate_on_primary env bytes;
    if validation = ValidatorUnavailable then reject_candidate_engine_unavailable env conn_id
    else if validation \<noteq> BundleOk then reject_candidate env conn_id key
    else do {
      ids \<leftarrow> ask_room (\<lambda>r. case conn_of conn_id r of
          Some c \<Rightarrow> (cs_user_id (cn_session c), cs_session_id (cn_session c))
        | None \<Rightarrow> (0, 0));
      committed \<leftarrow> commit_candidate env conn_id key bytes (fst ids) (snd ids);
      case committed of
        None \<Rightarrow> act_return ()
      | Some s \<Rightarrow> publish_update env conn_id key yp bytes s (fst ids) (snd ids) } }) (\<lambda>_. settled env base conn_id r bytes) w"
  unfolding wp_bind [of "validate_candidate_on_primary env bytes"]
  using wp_conj [OF keepsD [OF unacked.validates conjunct1 [OF assms(1)]] steady_validation [OF conjunct2 [OF assms(1)]]]
  by (rule wp_mono)
    (auto simp del: wp_bind intro!: commit_settles [OF _ assms(2-4)] quietly
        unacked.rejects unacked.rejects_unavailable)

lemma update_settles:
  assumes "unacked base w" and "w_room w = r" and "conn_of conn_id r = Some c" "\<not> cn_poisoned c" "\<not> cn_in_flight c"
  shows "wp (commit_update env conn_id key yp bytes) (\<lambda>_. settled env base conn_id r bytes) w"
proof -
  have closing: "keeps (unacked base) (on_room (\<lambda>r. close_connection conn_id 1011 ''engine unavailable''
      (update_conn conn_id (\<lambda>c. c\<lparr>cn_in_flight := False\<rparr>) r)))"
    by (simp add: keeps_def)
  have start: "unacked base (w\<lparr>w_room := marked conn_id (w_room w)\<rparr>)"
      "steady (marked conn_id r) (w\<lparr>w_room := marked conn_id (w_room w)\<rparr>)"
    using assms(1,2) by (simp_all add: steady_def)
  show ?thesis
    unfolding commit_update_def wp_bind [of "on_room _"] wp_on_room wp_bind [of "ensure_primary_capacity env"]
      wp_bind [of "ask_room _"] wp_ask_room
    using wp_conj [OF keepsD [OF unacked.capacity start(1)] keepsD [OF steady_capacity start(2)]]
    by (rule wp_mono)
      (auto simp del: wp_bind wp_on_room intro!: validation_settles [OF _ assms(3-5)] quietly closing
        unacked.rejects split: sum.split option.split)
qed

lemma blocked_fields [simp]:
  "rm_connections (snd (user_write_reject_blocked now user_id r)) = rm_connections r"
  "ra_committed (snd (user_write_reject_blocked now user_id r)) = ra_committed r"
  by (simp_all add: user_write_reject_blocked_def set_reject_budget_def Let_def split: option.split)

lemma sync_update_settles:
  assumes "\<not> is_empty_update bytes" and "unacked base w"
  shows "wp (handle_sync_update env conn_id key read_only yp bytes)
    (\<lambda>_ w'. settled env base conn_id (w_room w) bytes w' \<and> (read_only \<longrightarrow> unacked base w')) w"
proof -
  let ?Q = "\<lambda>_ w'. settled env base conn_id (w_room w) bytes w' \<and> (read_only \<longrightarrow> unacked base w')"
  have quiet: "wp m ?Q v" if "keeps (unacked base) m" "unacked base v" for m and v :: "'a world"
    using keepsD [OF that] by (rule wp_mono) simp
  show ?thesis
  proof (cases "bytes = [] \<or> read_only \<or> conn_of conn_id (w_room w) = None \<or>
      (\<exists>c. conn_of conn_id (w_room w) = Some c \<and> (cn_poisoned c \<or> cn_in_flight c))")
    case True
    have "keeps (unacked base) (do {
        dirty \<leftarrow> ask_room ra_primary_dirty;
        healthy \<leftarrow> (if dirty then reload_primary_or_close_room env else act_return True);
        if \<not> healthy then act_return ()
        else do {
          on_room (update_conn conn_id (\<lambda>c. c\<lparr>cn_in_flight := False, cn_poisoned := True\<rparr>));
          report_sync_status conn_id key False } })"
      and "keeps (unacked base) (do {
        on_room (update_conn conn_id (\<lambda>c. c\<lparr>cn_poisoned := True\<rparr>));
        report_sync_status conn_id key False })"
      by (auto intro!: unacked.quiet_rules unacked.reload_or_close unacked.refusals
          simp: talks_update_conn keeps_identity_def)
    note answers = quiet [OF this(1) assms(2)] quiet [OF this(2) assms(2)] quiet [OF unacked.refusals assms(2), of conn_id key]
    show ?thesis
    proof (cases "bytes = [] \<or> read_only")
      case True
      then show ?thesis
        using answers(1,2) assms(1) by (auto simp: handle_sync_update_def simp del: wp_bind)
    next
      case False
      with True show ?thesis
        using answers(3) assms(1) by (auto simp: handle_sync_update_def)
    qed
  next
    case False
    then obtain c where c: "conn_of conn_id (w_room w) = Some c" "\<not> cn_poisoned c" "\<not> cn_in_flight c"
      by auto
    let ?u = "cs_user_id (cn_session c)" and ?now = "mo_clock (en_moments env (w_tick w))"
    obtain blocked r where r: "user_write_reject_blocked ?now ?u (w_room w) = (blocked, r)"
      by fastforce
    have same: "conn_of conn_id r = Some c" "ra_committed r = ra_committed (w_room w)"
      using blocked_fields [of ?now ?u "w_room w"] c(1) by (simp_all add: r conn_of_def)
    have "wp (commit_update env conn_id key yp bytes) (\<lambda>_. settled env base conn_id r bytes) (w\<lparr>w_room := r\<rparr>)"
      using assms(2) c(2,3) same(1) by (intro update_settles) simp_all
    then have "wp (commit_update env conn_id key yp bytes) ?Q (w\<lparr>w_room := r\<rparr>)"
      by (rule wp_mono) (use False same c in \<open>simp add: acked_durably_def\<close>)
    then show ?thesis
      using False assms by (simp add: handle_sync_update_def c r)
  qed
qed

section \<open>A small commit\<close>

lemma said_acking: "room_acking env (\<lambda>w. x \<in> set (w_statuses w))"
  by unfold_locales (simp_all add: others_run_def split: prod.split)

lemmas said = room_acking.axioms(1) [OF said_acking, THEN room_projecting.projections]
  room_acking.axioms(1) [OF said_acking, THEN room_projecting.flushes]
  room_acking.axioms(1) [OF said_acking, THEN room_projecting.compactions]
  said_acking [THEN room_acking.axioms(1), THEN room_projecting.axioms(1), THEN room_failing.unhealthy]
  said_acking [THEN room_acking.axioms(1), THEN room_projecting.axioms(1), THEN room_failing.writer_stale]

lemma announce_says: "wp (announce_update env conn_id key yp bytes s actor session)
  (\<lambda>_ w'. (conn_id, True) \<in> set (w_statuses w')) w"
proof -
  let ?Q = "\<lambda>_ w'. (conn_id, True) \<in> set (w_statuses w')"
  let ?rest = "\<lambda>p. do {
      outcome \<leftarrow> maybe_project_derived_body env s actor session False;
      loaded \<leftarrow> ask_room ra_primary_loaded;
      if outcome = ProjectStaleWriter then fatal_writer_stale env AfterQueued
      else if \<not> loaded then fatal_primary_unhealthy env actor session
      else do { flush_connection_persist env conn_id p; maybe_compact env } }"
  have says: "wp (do { report_sync_status conn_id key True; m }) ?Q v"
    if "keeps (\<lambda>w. (conn_id, True) \<in> set (w_statuses w)) m" for m :: "('a, unit) act" and v
    by (simp add: report_sync_status_def keepsD [OF that])
  have rest: "keeps (\<lambda>w. (conn_id, True) \<in> set (w_statuses w)) (?rest p)" for p
    by (auto intro!: keeps_rules said)
  have unhealthy: "keeps (\<lambda>w. (conn_id, True) \<in> set (w_statuses w)) (do {
      on_room (update_conn conn_id (\<lambda>c. c\<lparr>cn_in_flight := False\<rparr>)); fatal_primary_unhealthy env actor session })"
    by (intro keeps_bind said) (simp add: keeps_def)
  show ?thesis
    unfolding announce_update_def wp_bind [of "ask_room _"] wp_ask_room wp_bind [of "integrate_committed_update _ _ _"]
    by (rule wp_mono [OF wp_true [THEN fun_cong, THEN iffD2, OF TrueI]])
      (auto simp: wp_bind [of "on_room _"] simp del: wp_bind intro!: says rest unhealthy split: sum.split)
qed

definition sample_editor :: room_join where
  "sample_editor = (sample_join 1 0)\<lparr>jn_session := sample_session\<lparr>cs_user_id := 1, cs_session_id := 2\<rparr>\<rparr>"

definition sample_writer_world :: "unit world" where
  "sample_writer_world =
     \<lparr>w_room = sample_spawned\<lparr>
        rm_channels := [\<lparr>ch_capacity = 8, ch_queue = [], ch_sending = None, ch_closed = False, ch_cancel = None\<rparr>],
        rm_budgets := [new_budget sample_room_config],
        rm_connections := [(1, new_connection False sample_editor 0 1)],
        rm_writer_generation := Some 0, ra_primary_loaded := True,
        ra_engine := (ra_engine sample_spawned)\<lparr>eb_child := True\<rparr>\<rparr>,
      w_store = sample_store, w_held_by = Map.empty, w_tick = 1, w_statuses = []\<rparr>"

lemma sample_sync_parse: "parse_sync_payload [2, 3, 1, 2, 3] (max_binary_payload_bytes DEFAULT) = Inr (Update, [1, 2, 3])"
  by code_simp

lemma sample_fields:
  "ra_room_guard sample_spawned = Some PgGuard" "ra_kind sample_spawned = Document" "ra_backend sample_spawned = Postgres"
  "ra_workspace_id sample_spawned = 3" "ra_document_id sample_spawned = 4" "ra_primary_dirty sample_spawned = False"
  "ra_committed sample_spawned = \<lparr>cm_snapshot = [0, 0], cm_tail_payloads = [], cm_tail_seq = 0, cm_snapshot_cutoff_seq = 0\<rparr>"
  "ra_engine sample_spawned = \<lparr>eb_running = True, eb_child = False, eb_ops_used = 0, eb_limits = engine_limits_default\<rparr>"
  "rm_user_reject_budgets sample_spawned = []"
  by (simp_all add: sample_spawned_def spawned_room_def)

lemmas sample_commit_run = sample_append [unfolded sample_ctx_def sample_actor_def sample_input_def]

definition sample_ready :: "unit world \<Rightarrow> bool" where
  "sample_ready w \<longleftrightarrow> duty (w_room w) = duty (sample_spawned\<lparr>rm_writer_generation := Some 0\<rparr>) \<and>
     ra_primary_loaded (w_room w) \<and> \<not> ra_primary_dirty (w_room w) \<and>
     ra_engine (w_room w) = (ra_engine sample_spawned)\<lparr>eb_child := True\<rparr> \<and>
     (\<exists>c. conn_of 1 (w_room w) = Some c \<and> cn_session c = jn_session sample_editor) \<and>
     w_store w = sample_store \<and> 0 < w_tick w"

lemma sample_moments [simp]: "0 < t \<Longrightarrow> en_moments sample_env t = sample_moment" "en_sha256 sample_env = id"
  by (simp_all add: sample_env_def)

lemma sample_others [simp]: "others_run sample_env sample_moment w = w\<lparr>w_tick := w_tick w + 1\<rparr>"
  by (simp add: others_run_def sample_moment_def)

lemma sample_context:
  assumes "sample_ready w" and "duty r = duty (w_room w)"
  shows "tx_context sample_moment r 1 2 = sample_ctx"
  using assms by (simp add: sample_ready_def duty_def tx_context_def sample_moment_def sample_ctx_def sample_actor_def sample_fields)

lemma duty_marks [simp]:
  "duty (update_conn conn_id f r) = duty r" "duty (r\<lparr>ra_engine := b\<rparr>) = duty r" "duty (r\<lparr>ra_primary_dirty := d\<rparr>) = duty r"
  by (simp_all add: duty_def update_conn_def)

lemma update_conn_fields [simp]:
  "ra_primary_loaded (update_conn conn_id f r) = ra_primary_loaded r"
  "ra_primary_dirty (update_conn conn_id f r) = ra_primary_dirty r"
  "ra_engine (update_conn conn_id f r) = ra_engine r"
  "ra_room_guard (update_conn conn_id f r) = ra_room_guard r"
  "ra_committed (update_conn conn_id f r) = ra_committed r"
  "rm_writer_generation (update_conn conn_id f r) = rm_writer_generation r"
  by (simp_all add: update_conn_def)

lemma conn_of_engine [simp]:
  "conn_of conn_id (r\<lparr>ra_engine := b\<rparr>) = conn_of conn_id r"
  "conn_of conn_id (r\<lparr>ra_primary_dirty := d\<rparr>) = conn_of conn_id r"
  by (simp_all add: conn_of_def)

lemma sample_commit_says:
  assumes "sample_ready w"
  shows "wp (commit_update sample_env 1 key yp [1, 2, 3]) (\<lambda>_ w'. (1, True) \<in> set (w_statuses w')) w"
proof -
  have duty: "rm_writer_generation (w_room w) = Some 0" "ra_room_guard (w_room w) = Some PgGuard"
      "cm_tail_seq (ra_committed (w_room w)) = 0"
    using assms by (simp_all add: sample_ready_def duty_def sample_fields)
  have ctx: "tx_context sample_moment r 1 2 = sample_ctx"
    if "duty r = duty (sample_spawned\<lparr>rm_writer_generation := Some 0\<rparr>)" for r
    using that assms by (intro sample_context [OF assms]) (simp add: sample_ready_def)
  obtain c where c: "conn_of 1 (w_room w) = Some c" "cn_session c = jn_session sample_editor"
    using assms by (auto simp: sample_ready_def)
  have editor: "cs_user_id (jn_session sample_editor) = 1" "cs_session_id (jn_session sample_editor) = 2"
    by (simp_all add: sample_editor_def)
  have tick: "0 < w_tick w" "mo_engine_bin sample_moment" "mo_uuid sample_moment = 7"
      "mo_reply sample_moment req = Answers (StatusOk sample_applied)" "eo_applied sample_applied" for req
    using assms by (simp_all add: sample_ready_def sample_moment_def sample_applied_def)
  show ?thesis
    using assms
    by (simp add: commit_update_def ensure_primary_capacity_def needs_recycle_def validate_candidate_on_primary_def engine_call_def
        bridge_call_def commit_candidate_def publish_update_def announce_says Let_def tick duty c editor conn_of_update
        sample_ready_def sample_fields ctx engine_limits_default_def MAX_OPS_def sample_append [unfolded sample_input_def])
qed

lemma sample_commit:
  "wp (handle_sync sample_env 1 ''d'' False \<lparr>step = Update, y_protocol = [2, 3, 1, 2, 3]\<rparr>)
    (\<lambda>_ w. (1, True) \<in> set (w_statuses w)) sample_writer_world"
proof -
  let ?r = "w_room sample_writer_world" and ?c = "new_connection False sample_editor 0 1"
  obtain bs where bs: "user_write_reject_blocked 0 (cs_user_id (cn_session ?c)) ?r =
      (False, ?r\<lparr>rm_user_reject_budgets := bs\<rparr>)"
    by (simp add: user_write_reject_blocked_def reject_budget_of_def sample_writer_world_def sample_fields set_reject_budget_def)
  have conn: "conn_of 1 ?r = Some ?c" "\<not> cn_poisoned ?c" "\<not> cn_in_flight ?c"
    by (simp_all add: sample_writer_world_def conn_of_def new_connection_def)
  have "sample_ready (sample_writer_world\<lparr>w_room := ?r\<lparr>rm_user_reject_budgets := bs\<rparr>\<rparr>)"
    using conn by (simp add: sample_ready_def duty_def conn_of_def) (simp add: sample_writer_world_def sample_fields new_connection_def)
  moreover have "mo_clock (en_moments sample_env (w_tick sample_writer_world)) = 0"
    by (simp add: sample_writer_world_def sample_moment_def)
  ultimately show ?thesis
    using sample_commit_says [of _ "''d''" "[2, 3, 1, 2, 3]"] conn bs
    by (simp add: handle_sync_def sample_sync_parse handle_sync_update_def is_empty_update_def)
qed

section \<open>Properties\<close>

text \<open>C1: An acknowledgement is a promise of durability. When the handling of a client's update (any payload but the
  empty update) makes the room answer any connection with a positive \<open>SyncStatus\<close>, whatever faults, lost commit
  replies, engine deaths and rival rooms it met on the way, the update came over a connection that may write and
  was clean, and the durable rows hold a receipt for exactly these bytes, by this connection's user, one past the
  tail the room had cached; and no later transaction of any room removes that receipt.\<close>

theorem acked_update_durable:
  assumes "parse_sync_payload (y_protocol sync) (max_binary_payload_bytes DEFAULT) = Inr (s, bytes)"
    and "s \<noteq> Step1" and "\<not> is_empty_update bytes"
    and "run_state (handle_sync env conn_id key read_only sync) w = ((), w')"
    and "w_statuses w' = w_statuses w @ replies" and "(i, True) \<in> set replies"
  shows "\<not> read_only \<and> (\<exists>c rc. conn_of conn_id (w_room w) = Some c \<and> \<not> cn_poisoned c \<and> \<not> cn_in_flight c \<and>
    rc_seq rc = cm_tail_seq (ra_committed (w_room w)) + 1 \<and> rc_payload_len rc = int (length bytes) \<and>
    rc_payload_sha256 rc = en_sha256 env bytes \<and> rc_actor_user_id rc = cs_user_id (cn_session c) \<and>
    (\<forall>later. store_steps (en_sha256 env) (w_store w') later \<longrightarrow> rc \<in> set (st_receipts later)))"
proof -
  have "unacked (w_statuses w) w"
    by (simp add: unacked_def)
  from sync_update_settles [OF assms(3) this, of env conn_id key read_only "y_protocol sync"]
  have "wp (handle_sync env conn_id key read_only sync) (\<lambda>_ v. settled env (w_statuses w) conn_id (w_room w) bytes v \<and>
      (read_only \<longrightarrow> unacked (w_statuses w) v)) w"
    using assms(1,2) by (cases s) (simp_all add: handle_sync_def)
  moreover have "\<not> unacked (w_statuses w) w'"
    using assms(5,6) by (auto simp: unacked_def list_all_iff)
  ultimately have "\<not> read_only" and "acked_durably (en_sha256 env) conn_id (w_room w) bytes w'"
    by (auto simp: wp_run assms(4))
  moreover have "rc \<in> set (st_receipts later)"
    if "rc \<in> set (st_receipts (w_store w'))" "store_steps (en_sha256 env) (w_store w') later" for rc later
    using store_steps_grow [OF that(2)] that(1) by auto
  ultimately show ?thesis
    by (force simp: acked_durably_def receipt_for_def list_ex_iff split: option.splits)
qed

theorem acked_update_durable_witness:
  "\<exists>w rc. run_state (handle_sync sample_env 1 ''d'' False \<lparr>step = Update, y_protocol = [2, 3, 1, 2, 3]\<rparr>)
      sample_writer_world = ((), w) \<and> (1, True) \<in> set (w_statuses w) \<and>
    rc \<in> set (st_receipts (w_store w)) \<and> rc_seq rc = 1 \<and> rc_payload_sha256 rc = [1, 2, 3]"
proof -
  let ?sync = "\<lparr>step = Update, y_protocol = [2, 3, 1, 2, 3]\<rparr>"
  let ?w = "snd (run_state (handle_sync sample_env 1 ''d'' False ?sync) sample_writer_world)"
  have run: "run_state (handle_sync sample_env 1 ''d'' False ?sync) sample_writer_world = ((), ?w)"
    by (simp add: prod_eq_iff)
  have said: "(1, True) \<in> set (w_statuses ?w)"
    using sample_commit by (simp only: wp_run)
  have "w_statuses sample_writer_world = []" "cm_tail_seq (ra_committed (w_room sample_writer_world)) = 0"
    by (simp_all add: sample_writer_world_def sample_fields)
  with acked_update_durable [of ?sync Update "[1, 2, 3]", OF _ _ _ run _ said] run said show ?thesis
    by (auto simp: sample_sync_parse is_empty_update_def)
qed

end
