(* ===== verification/RoomTail.thy ===== *)
theory RoomTail
  imports RoomDurable "HOL-Library.Sublist"
begin

text \<open>
  The cached copy of the document and the fencing of writers, on PostgreSQL: as long as the rows still carry
  the generation a room writes with, nobody else holds that generation, the room's cached tail is the durable
  tail, and every durable row after the snapshot is among the payloads the room has cached.
\<close>

section \<open>Transactions and generations\<close>

text \<open>What loads, projections and compactions do to the rows: the heads stay, and rows may go from the front.\<close>

definition calm :: "'n native_store \<Rightarrow> 'n native_store \<Rightarrow> bool" where
  "calm st st' \<longleftrightarrow> generation_of st' = generation_of st \<and> tail_of st' = tail_of st \<and>
     suffix (map payload (st_updates st')) (map payload (st_updates st))"

lemma calm_refl [simp]: "calm st st"
  by (simp add: calm_def)

lemma calm_same: "st_state st' = st_state st \<Longrightarrow> st_updates st' = st_updates st \<Longrightarrow> calm st st'"
  by (simp add: calm_def generation_of_def tail_of_def)

lemma calm_seeded [simp]: "calm st (seeded st)"
  by (simp add: calm_def)

lemma calm_finish:
  assumes "\<And>v. snd body = Done v \<Longrightarrow> calm st (fst body)"
  shows "calm st (fst (finish_native_room_operation fault st body))"
  using assms finish_cases [of fault st body] by auto

lemma calm_load: "calm st (fst (load_room_collab_readonly ctx fence st))"
proof -
  have body: "calm st st'" if "load_collab_native LoadReader ctx st = (st', Done v)" for st' v
    using load_native_Done [OF that] by simp
  show ?thesis
    unfolding load_room_collab_readonly_def
    by (cases "load_collab_native LoadReader ctx st")
      (auto intro!: calm_finish split: option.split prod.splits tx_result.splits if_splits dest: body)
qed

lemma calm_project: "calm st (fst (project_derived_body_in_room ctx fence inp st))"
  unfolding project_derived_body_in_room_def
proof (rule calm_finish)
  fix v
  assume "snd (project_collab_derived_body ctx fence inp st) = Done v"
  then show "calm st (fst (project_collab_derived_body ctx fence inp st))"
    using projected_rows [of ctx fence inp st "fst (project_collab_derived_body ctx fence inp st)" v]
    by (simp add: prod_eq_iff calm_same)
qed

lemma calm_compacted:
  assumes "st_state (seeded st) = Some r" and "snapshot_cutoff_seq r \<le> c" and "c \<le> tail_seq r"
    and "c = tail_seq r \<or> (\<forall>u \<in> set (st_updates st). seq u \<le> c)"
    and "int (length snapshot) \<le> MAX_COLLAB_SNAPSHOT_BYTES" and "wf_store sha256 st"
  shows "calm st (compact_native_rows actor (writer_generation r) c snapshot (seeded st))"
proof -
  let ?st = "compact_native_rows actor (writer_generation r) c snapshot (seeded st)"
  have "wf_row sha256 (seeded st) r"
    using wf_storeD [OF wf_seeded [OF assms(6)] assms(1)] .
  then have "st_updates ?st = []"
    using compact_at_tail(2) [of sha256 "seeded st" r c] assms by simp
  moreover have "generation_of ?st = generation_of st" "tail_of ?st = tail_of st"
    unfolding heads_of [OF assms(1)] using assms(1) by (simp_all add: generation_of_def tail_of_def)
  ultimately show ?thesis
    by (simp add: calm_def)
qed

lemma calm_compact:
  assumes "wf_store sha256 st"
  shows "calm st (fst (compact_collab_snapshot_in_room ctx fence inp st))"
proof -
  have "calm st (fst (compact_native ctx fence inp st))" if "snd (compact_native ctx fence inp st) = Done v" for v
  proof -
    from that have "compact_native ctx fence inp st = (fst (compact_native ctx fence inp st), Done v)"
      by (simp add: prod_eq_iff)
    from compact_native_Done [OF this] obtain r where r: "st_state (seeded st) = Some r"
        "writer_generation r = ci_writer_generation inp"
        "snapshot_cutoff_seq r \<le> ci_cutoff_seq inp" "ci_cutoff_seq inp \<le> tail_seq r"
        "ci_cutoff_seq inp = tail_seq r \<or> (\<forall>u \<in> set (st_updates st). seq u \<le> ci_cutoff_seq inp)"
        "int (length (ci_new_snapshot inp)) \<le> MAX_COLLAB_SNAPSHOT_BYTES"
      and st': "fst (compact_native ctx fence inp st) = seeded st \<or>
        fst (compact_native ctx fence inp st) = compact_native_rows (a_actor (x_actor ctx))
          (ci_writer_generation inp) (ci_cutoff_seq inp) (ci_new_snapshot inp) (seeded st)"
      by blast
    from calm_compacted [OF r(1,3,4,5,6) assms] st' r(2) show ?thesis
      by auto
  qed
  then show ?thesis
    by (simp add: compact_collab_snapshot_in_room_def calm_finish split: sum.split)
qed

text \<open>An append changes the heads only while the rows carry the input's generation and tail.\<close>

lemma append_heads:
  assumes "guard_append sha256 ctx guard inp st = (st', x)"
  shows "calm st st' \<and> (\<forall>s. x \<noteq> Done (Committed s)) \<or>
    generation_of st = ai_writer_generation inp \<and> generation_of st' = generation_of st \<and>
    tail_of st = ai_expected_tail_seq inp \<and> tail_of st' = ai_expected_tail_seq inp + 1 \<and>
    st_updates st' = st_updates st @ [\<lparr>seq = ai_expected_tail_seq inp + 1, op_id = ai_op_id inp, payload = ai_payload inp\<rparr>] \<and>
    (x = Done (Committed (ai_expected_tail_seq inp + 1)) \<or> x = DriverError)"
proof -
  have "?thesis" if "append_collab_native sha256 ctx (family_fence guard) inp st = (st', Done p)"
    and "x = confirmed (Done p) \<or> x = DriverError" for p
  proof (cases p)
    case (Appended s)
    with append_native_Done [OF that(1)] obtain r where r: "st_state (seeded st) = Some r" "s = tail_seq r + 1"
        "append_fits inp r (seeded st)" "st' = appended sha256 (a_actor (x_actor ctx)) inp r (seeded st)"
      by auto
    have "generation_of st' = generation_of st" "tail_of st' = tail_seq r + 1"
      unfolding heads_of [OF r(1)] using r(4) by (simp_all add: generation_of_def tail_of_def)
    with r that(2) Appended heads_of [OF r(1)] show ?thesis
      by (simp add: append_fits_def)
  next
    case (Replay s)
    with append_native_Done [OF that(1)] that(2) show ?thesis
      by auto
  qed
  with append_body_cases [OF assms] show ?thesis
    by (metis calm_refl)
qed

text \<open>On PostgreSQL a claim that answers has raised the generation, and its load is the durable source.\<close>

lemma claim_heads:
  assumes "guard_claim_writer ctx guard st = (st', guard', x)" and "a_backend (x_actor ctx) = Postgres"
  shows "(calm st st' \<and> (\<forall>c. x \<noteq> Done c)) \<or> generation_of st' = generation_of st + 1 \<and>
    (\<forall>c. x = Done c \<longrightarrow> cw_writer_generation c = l_writer_generation (cw_load c) \<and>
      load_durable_native_source st' = Inr (cw_load c))"
proof (cases guard)
  case PgGuard
  let ?body = "load_collab_native ClaimWriter ctx st"
  have bumped: "generation_of (fst (bump_native_writer_generation (seeded st))) = generation_of st + 1"
  proof -
    obtain r where r: "st_state (seeded st) = Some r"
      using seeded_state by blast
    show ?thesis
      unfolding heads_of [OF r] using r by (simp add: bump_native_writer_generation_def generation_of_def)
  qed
  have "finish_native_room_operation (x_fault ctx) st ?body = (st', x)"
    using assms PgGuard by (simp add: guard_claim_writer_def claim_writer_and_load_def split: prod.splits)
  moreover have "x = Done c \<Longrightarrow> ?body = (st', Done c)" for c
    using calculation finish_Done by metis
  moreover have "st' = st \<or> (\<exists>v. ?body = (st', Done v))"
    using finish_cases [of "x_fault ctx" st ?body] calculation(1) by (auto simp: prod_eq_iff)
  ultimately show ?thesis
    using load_native_Done [of ClaimWriter ctx st st'] bumped by (metis calm_refl)
next
  case (FamilyGuard original current writer_owner)
  have refused: "snd (activate_in_tx ctx original writer_owner st) \<noteq> Done v" for v
    using assms(2) by (auto simp: activate_in_tx_def split: prod.splits tx_result.splits)
  have "fst (activate_family_writer ctx original writer_owner st) = st \<and>
      (\<forall>v. snd (activate_family_writer ctx original writer_owner st) \<noteq> Done v)"
    using finish_cases [of "x_fault ctx" st "activate_in_tx ctx original writer_owner st"] refused
      finish_Done [of "x_fault ctx" st "activate_in_tx ctx original writer_owner st"]
    by (auto simp: activate_family_writer_def prod_eq_iff)
  with assms(1) FamilyGuard show ?thesis
    by (auto simp: guard_claim_writer_def split: if_splits prod.splits tx_result.splits)
qed

section \<open>Fenced generations\<close>

definition owns :: "int \<Rightarrow> committed_bundle \<Rightarrow> (nat \<rightharpoonup> int) \<Rightarrow> 'n native_store \<Rightarrow> bool" where
  "owns g b held_by st \<longleftrightarrow> g \<le> generation_of st \<and> g \<notin> ran held_by \<and>
     (generation_of st = g \<longrightarrow> tail_of st = cm_tail_seq b \<and>
       suffix (map payload (st_updates st)) (cm_tail_payloads b))"

definition held_ok :: "(nat \<rightharpoonup> int) \<Rightarrow> 'n native_store \<Rightarrow> bool" where
  "held_ok held_by st \<longleftrightarrow> (\<forall>g \<in> ran held_by. g \<le> generation_of st)"

lemma owns_calm: "owns g b held_by st \<Longrightarrow> calm st st' \<Longrightarrow> owns g b held_by st'"
  by (auto simp: owns_def calm_def intro: suffix_order.trans)

lemma held_calm: "held_ok held_by st \<Longrightarrow> calm st st' \<Longrightarrow> held_ok held_by st'"
  by (simp add: held_ok_def calm_def)

lemma source_heads:
  assumes "wf_store sha256 st" and "load_durable_native_source st = Inr l"
  shows "l_writer_generation l = generation_of st" "l_tail_seq l = tail_of st" "l_tail l = st_updates st"
proof -
  obtain r where r: "st_state st = Some r"
    using assms(2) by (cases "st_state st") (simp_all add: load_durable_native_source_def)
  have "l = state_row_to_load r (st_updates st)"
    using wf_row_load [OF wf_storeD [OF assms(1) r] r] assms(2) by simp
  with r show "l_writer_generation l = generation_of st" "l_tail_seq l = tail_of st" "l_tail l = st_updates st"
    by (simp_all add: state_row_to_load_def generation_of_def tail_of_def)
qed

lemma rival_change:
  assumes "run_rival sha256 Postgres (i, c) (held_by, st) = (held_by', st')" and "wf_store sha256 st"
  shows "held_by' = held_by \<and> (calm st st' \<or> generation_of st' = generation_of st \<and> generation_of st \<in> ran held_by) \<or>
    generation_of st' = generation_of st + 1 \<and> (held_by' = held_by \<or> held_by' = held_by(i \<mapsto> generation_of st'))"
proof (cases c)
  case (RivalClaim ctx guard)
  obtain st1 guard' x where run: "guard_claim_writer (on_backend Postgres ctx) guard st = (st1, guard', x)"
    by (metis prod.exhaust)
  have wf: "wf_store sha256 st1"
    using store_steps_wf [OF claim_step assms(2), of "on_backend Postgres ctx" guard] by (simp add: run)
  have heads: "(calm st st1 \<and> (\<forall>c. x \<noteq> Done c)) \<or> generation_of st1 = generation_of st + 1 \<and>
      (\<forall>c. x = Done c \<longrightarrow> cw_writer_generation c = generation_of st1)"
    using claim_heads [OF run] source_heads(1) [OF wf] by (fastforce simp: on_backend_def)
  with assms(1) RivalClaim run show ?thesis
    by (cases x) auto
next
  case (RivalAppend ctx guard tail operation bytes)
  show ?thesis
  proof (cases "held_by i")
    case (Some g)
    let ?inp = "\<lparr>ai_writer_generation = g, ai_expected_tail_seq = tail, ai_op_id = operation, ai_payload = bytes\<rparr>"
    obtain x where "guard_append sha256 (on_backend Postgres ctx) guard ?inp st = (st', x)"
      using assms(1) RivalAppend Some by (auto simp: prod_eq_iff)
    from append_heads [OF this] assms(1) RivalAppend Some show ?thesis
      by (auto simp: ran_def)
  qed (use assms RivalAppend in simp)
next
  case (RivalCompact ctx fence cutoff tail snapshot)
  with assms calm_compact [OF assms(2)] show ?thesis
    by (auto split: option.splits)
next
  case (RivalProject ctx fence tail content plain chosung)
  with assms calm_project show ?thesis
    by (auto split: option.splits)
next
  case (RivalLoad ctx fence)
  with assms calm_load show ?thesis
    by auto
qed

lemma rival_owns:
  assumes "run_rival sha256 Postgres op (held_by, st) = (held_by', st')" and "wf_store sha256 st" and "held_ok held_by st"
  shows "held_ok held_by' st'" and "owns g b held_by st \<Longrightarrow> owns g b held_by' st'"
proof -
  obtain i c where op: "op = (i, c)"
    by fastforce
  note change = rival_change [OF assms(1) [unfolded op] assms(2)]
  have ran: "ran (held_by(i \<mapsto> h)) \<subseteq> insert h (ran held_by)" for h
    by (auto simp: ran_def)
  show "held_ok held_by' st'"
    using change assms(3) ran [of "generation_of st'"] by (fastforce simp: held_ok_def calm_def)
  show "owns g b held_by' st'" if "owns g b held_by st"
  proof (cases "calm st st' \<and> held_by' = held_by")
    case False
    with change have "held_by' = held_by \<and> generation_of st' = generation_of st \<and> generation_of st \<in> ran held_by \<or>
        generation_of st' = generation_of st + 1 \<and> (held_by' = held_by \<or> held_by' = held_by(i \<mapsto> generation_of st'))"
      by blast
    with that ran [of "generation_of st'"] show ?thesis
      by (auto simp: owns_def)
  qed (use that owns_calm in auto)
qed

lemma rivals_own:
  assumes "wf_store sha256 st" and "held_ok held_by st"
    and "fold (run_rival sha256 Postgres) ops (held_by, st) = (held_by', st')"
  shows "held_ok held_by' st' \<and> wf_store sha256 st' \<and> (\<forall>g b. owns g b held_by st \<longrightarrow> owns g b held_by' st')"
  using assms
proof (induction ops arbitrary: held_by st)
  case (Cons op ops)
  obtain h s where run: "run_rival sha256 Postgres op (held_by, st) = (h, s)"
    by fastforce
  have "wf_store sha256 s"
    using store_steps_wf [OF rival_steps Cons.prems(1), of Postgres op held_by] by (simp add: run)
  with Cons.IH [of s h] Cons.prems rival_owns [OF run] show ?case
    by (auto simp: run)
qed simp

section \<open>The room and its rows\<close>

definition base_world :: "(u8 list \<Rightarrow> u8 list) \<Rightarrow> 'n world \<Rightarrow> bool" where
  "base_world sha256 w \<longleftrightarrow> ra_backend (w_room w) = Postgres \<and> wf_store sha256 (w_store w) \<and>
     held_ok (w_held_by w) (w_store w)"

definition tail_with :: "(u8 list \<Rightarrow> u8 list) \<Rightarrow> committed_bundle \<Rightarrow> 'n world \<Rightarrow> bool" where
  "tail_with sha256 b w \<longleftrightarrow> base_world sha256 w \<and>
     (\<forall>g. rm_writer_generation (w_room w) = Some g \<longrightarrow> owns g b (w_held_by w) (w_store w))"

definition tail_world :: "(u8 list \<Rightarrow> u8 list) \<Rightarrow> 'n world \<Rightarrow> bool" where
  "tail_world sha256 w \<longleftrightarrow> tail_with sha256 (ra_committed (w_room w)) w"

lemma tail_base: "tail_with sha256 b w \<Longrightarrow> base_world sha256 w" "tail_world sha256 w \<Longrightarrow> base_world sha256 w"
  by (simp_all add: tail_world_def tail_with_def)

lemma base_resigned: "base_world sha256 w \<Longrightarrow> rm_writer_generation (w_room w) = None \<Longrightarrow> tail_world sha256 w"
  by (simp add: tail_world_def tail_with_def)

lemma base_others:
  assumes "base_world (en_sha256 env) w"
  shows "base_world (en_sha256 env) (others_run env m w)"
    and "tail_with (en_sha256 env) b w \<Longrightarrow> tail_with (en_sha256 env) b (others_run env m w)"
    and "owns g b (w_held_by w) (w_store w) \<Longrightarrow> owns g b (w_held_by (others_run env m w)) (w_store (others_run env m w))"
proof -
  obtain held_by st where run: "fold (run_rival (en_sha256 env) Postgres) (mo_rivals m) (w_held_by w, w_store w) = (held_by, st)"
    by fastforce
  then have fields: "w_held_by (others_run env m w) = held_by" "w_store (others_run env m w) = st"
    using assms by (simp_all add: others_run_def base_world_def)
  note own = rivals_own [OF _ _ run]
  show base: "base_world (en_sha256 env) (others_run env m w)"
    using assms own by (simp add: base_world_def fields)
  show "tail_with (en_sha256 env) b (others_run env m w)" if "tail_with (en_sha256 env) b w"
    using base that own assms by (simp add: tail_with_def fields base_world_def)
  show "owns g b (w_held_by w) (w_store w) \<Longrightarrow> owns g b (w_held_by (others_run env m w)) (w_store (others_run env m w))"
    using own assms by (simp add: fields base_world_def)
qed

lemma tail_others: "tail_world (en_sha256 env) w \<Longrightarrow> tail_world (en_sha256 env) (others_run env m w)"
  using base_others(2) [OF tail_base(2)] by (simp add: tail_world_def)

lemma base_duty:
  assumes "duty r = duty (w_room w)"
  shows "base_world sha256 (w\<lparr>w_room := r\<rparr>) = base_world sha256 w" "tail_with sha256 b (w\<lparr>w_room := r\<rparr>) = tail_with sha256 b w"
    "tail_world sha256 (w\<lparr>w_room := r\<rparr>) = tail_world sha256 w"
  using duty_eqD(2,3,7) [OF assms] by (simp_all add: base_world_def tail_with_def tail_world_def)

lemma base_statuses [simp]:
  "base_world sha256 (w\<lparr>w_statuses := s\<rparr>) = base_world sha256 w"
  "tail_world sha256 (w\<lparr>w_statuses := s\<rparr>) = tail_world sha256 w"
  by (simp_all add: base_world_def tail_with_def tail_world_def)

lemma base_calm:
  assumes "base_world sha256 w" and "calm (w_store w) st" and "store_step sha256 (w_store w) st"
  shows "base_world sha256 (w\<lparr>w_store := st\<rparr>)"
    and "tail_with sha256 b w \<Longrightarrow> tail_with sha256 b (w\<lparr>w_store := st\<rparr>)"
proof -
  show base: "base_world sha256 (w\<lparr>w_store := st\<rparr>)"
    using assms(1) row_change_wf [OF store_step_change [OF assms(3)]] held_calm [OF _ assms(2)]
    by (simp add: base_world_def)
  show "tail_with sha256 b (w\<lparr>w_store := st\<rparr>)" if "tail_with sha256 b w"
    using base that owns_calm [OF _ assms(2)] by (simp add: tail_with_def)
qed

lemma tail_calm:
  "tail_world sha256 w \<Longrightarrow> calm (w_store w) st \<Longrightarrow> store_step sha256 (w_store w) st \<Longrightarrow> tail_world sha256 (w\<lparr>w_store := st\<rparr>)"
  using base_calm(2) [OF tail_base(2)] by (simp add: tail_world_def)

text \<open>A copy of the durable source is a right copy.\<close>

lemma tail_cache:
  assumes "tail_world sha256 w" and "load_durable_native_source (w_store w) = Inr l"
  shows "tail_world sha256 (w\<lparr>w_room := set_committed_from_load l (w_room w)\<rparr>)"
proof -
  have "wf_store sha256 (w_store w)"
    using assms(1) by (simp add: tail_world_def tail_with_def base_world_def)
  note heads = source_heads [OF this assms(2)]
  show ?thesis
    using assms(1) by (simp add: tail_world_def tail_with_def base_world_def set_committed_from_load_def owns_def heads)
qed

lemma load_source:
  assumes "load_room_collab_readonly ctx fence st = (st', Done l)"
  shows "load_durable_native_source st' = Inr l"
proof -
  have mapped: "\<exists>v. x = Done v \<and> l = cw_load v" if "map_done cw_load x = Done l" for x
    using that by (cases x) auto
  obtain v where "load_collab_native LoadReader ctx st = (st', Done v)" "l = cw_load v"
    using assms
    by (auto simp: load_room_collab_readonly_def finish_Done apsnd_def map_prod_def dest!: mapped
        split: if_splits option.splits prod.splits tx_result.splits)
  then show ?thesis
    using load_native_Done [of LoadReader ctx st st' v] by auto
qed

lemma compact_source:
  assumes "compact_collab_snapshot_in_room ctx fence inp st = (st', Done l)" and "wf_store sha256 st'"
  shows "load_durable_native_source st' = Inr l"
proof -
  have "compact_native ctx fence inp st = (st', Done l)"
    using assms(1) by (auto simp: compact_collab_snapshot_in_room_def finish_Done split: sum.splits)
  from compact_native_Done [OF this] obtain row tail where row: "st_state st' = Some row"
      "load_native_tail st' (snapshot_cutoff_seq row) (int (length (state row))) = Inr tail" "l = state_row_to_load row tail"
    by blast
  have wf: "wf_row sha256 st' row"
    using wf_storeD [OF assms(2) row(1)] .
  show ?thesis
    using wf_row_load [OF wf row(1)] wf_row_tail [OF wf] row(2,3) by simp
qed

interpretation based: room_failing env "base_world (en_sha256 env)" for env :: "'n environment"
proof unfold_locales
  fix w :: "'n world" and r conn_id ctx f st l and x :: "collab_load_state tx_result"
  assume w: "base_world (en_sha256 env) w"
  show "base_world (en_sha256 env) (others_run env (en_moments env (w_tick w)) w)"
    by (rule base_others(1) [OF w])
  show "talks (w_room w) r \<Longrightarrow> base_world (en_sha256 env) (w\<lparr>w_room := r\<rparr>)"
    using w by (simp add: base_duty talksD(2))
  show "base_world (en_sha256 env) (w\<lparr>w_statuses := w_statuses w @ [(conn_id, False)]\<rparr>)"
    and "base_world (en_sha256 env) (w\<lparr>w_room := (lose_fence (w_room w))\<lparr>ra_room_guard := None\<rparr>\<rparr>)"
    and "base_world (en_sha256 env) (w\<lparr>w_room := (w_room w)\<lparr>rm_writer_generation := None\<rparr>\<rparr>)"
    using w by (simp_all add: base_world_def)
  show reads: "base_world (en_sha256 env) (w\<lparr>w_store := st\<rparr>)" if "load_room_collab_readonly ctx f (w_store w) = (st, x)"
    for st and x :: "collab_load_state tx_result"
    using base_calm(1) [OF w calm_load step_load, of ctx f] that by simp
  show "base_world (en_sha256 env) (w\<lparr>w_store := st, w_room := set_committed_from_load l (w_room w)\<rparr>)"
    if "load_room_collab_readonly ctx f (w_store w) = (st, Done l)"
    using reads [OF that] by (simp add: base_world_def set_committed_from_load_def)
qed

interpretation tail: room_acking env "tail_world (en_sha256 env)" for env :: "'n environment"
proof unfold_locales
  fix w :: "'n world" and r conn_id ctx f st l g c snapshot inp
    and x :: "collab_load_state tx_result" and y :: "project_derived_body_result tx_result"
  assume w: "tail_world (en_sha256 env) w"
  show "tail_world (en_sha256 env) (others_run env (en_moments env (w_tick w)) w)"
    by (rule tail_others [OF w])
  show "talks (w_room w) r \<Longrightarrow> tail_world (en_sha256 env) (w\<lparr>w_room := r\<rparr>)"
    using w by (simp add: base_duty talksD(2))
  show "tail_world (en_sha256 env) (w\<lparr>w_statuses := w_statuses w @ [(conn_id, False)]\<rparr>)"
    "tail_world (en_sha256 env) (w\<lparr>w_statuses := w_statuses w @ [(conn_id, True)]\<rparr>)"
    using w by simp_all
  show "tail_world (en_sha256 env) (w\<lparr>w_room := (lose_fence (w_room w))\<lparr>ra_room_guard := None\<rparr>\<rparr>)"
    "tail_world (en_sha256 env) (w\<lparr>w_room := (w_room w)\<lparr>rm_writer_generation := None\<rparr>\<rparr>)"
    using tail_base(2) [OF w] by (auto intro!: base_resigned simp: base_world_def)
  show reads: "tail_world (en_sha256 env) (w\<lparr>w_store := st\<rparr>)" if "load_room_collab_readonly ctx f (w_store w) = (st, x)"
    for st and x :: "collab_load_state tx_result"
    using tail_calm [OF w calm_load step_load, of ctx f] that by simp
  show "tail_world (en_sha256 env) (w\<lparr>w_store := st, w_room := set_committed_from_load l (w_room w)\<rparr>)"
    if "load_room_collab_readonly ctx f (w_store w) = (st, Done l)"
    using tail_cache [OF reads [OF that]] load_source [OF that] by simp
  show "tail_world (en_sha256 env) (w\<lparr>w_store := st\<rparr>)"
    if "project_derived_body_in_room ctx f inp (w_store w) = (st, y)"
    using tail_calm [OF w calm_project step_project, of ctx f inp] that by simp
  let ?inp = "\<lparr>ci_writer_generation = g, ci_cutoff_seq = c, ci_expected_tail_seq = c, ci_new_snapshot = snapshot\<rparr>"
  have wf: "wf_store (en_sha256 env) (w_store w)"
    using tail_base(2) [OF w] by (simp add: base_world_def)
  show "tail_world (en_sha256 env) (w\<lparr>w_store := st\<rparr>) \<and>
      (\<forall>l. x = Done l \<longrightarrow> tail_world (en_sha256 env) (w\<lparr>w_store := st, w_room := set_committed_from_load l (w_room w)\<rparr>))"
    if run: "compact_collab_snapshot_in_room ctx f ?inp (w_store w) = (st, x)"
  proof -
    have st: "tail_world (en_sha256 env) (w\<lparr>w_store := st\<rparr>)"
      using tail_calm [OF w calm_compact [OF wf] step_compact, of ctx f ?inp] run by simp
    have "wf_store (en_sha256 env) st"
      using tail_base(2) [OF st] by (simp add: base_world_def)
    with st tail_cache [OF st] compact_source [of ctx f ?inp "w_store w" st] run show ?thesis
      by auto
  qed
qed

lemma divergence_resigns:
  assumes "base_world (en_sha256 env) w"
  shows "wp (fatal_room_divergence env actor session) (\<lambda>_. tail_world (en_sha256 env)) w"
proof -
  note duty = talksD(2) [OF talks_deliver(2), of 1011 "''room state diverged''" Preempt]
  have resign: "wp (on_room (\<lambda>r. close_each 1011 ''room state diverged'' Preempt (r\<lparr>rm_writer_generation := None\<rparr>)))
      (\<lambda>_. tail_world (en_sha256 env)) v" if "base_world (en_sha256 env) v" for v
    using that by (auto intro!: base_resigned simp: base_world_def duty_eqD(2,3) [OF duty])
  have "wp (reload_from_rows env actor session) (\<lambda>_. wp (on_room (\<lambda>r. close_each 1011 ''room state diverged'' Preempt
      (r\<lparr>rm_writer_generation := None\<rparr>))) (\<lambda>_. tail_world (en_sha256 env))) w"
    using keepsD [OF based.reload_rows assms] by (rule wp_mono) (rule resign)
  with assms show ?thesis
    by (simp add: fatal_room_divergence_def base_world_def)
qed

lemma loss_resigns:
  assumes "base_world (en_sha256 env) w"
  shows "wp (fatal_fence_lost env) (\<lambda>_. tail_world (en_sha256 env)) w"
    and "wp fatal_remote_write_unconfirmed (\<lambda>_. tail_world (en_sha256 env)) w"
proof -
  let ?lost = "(lose_fence (w_room w))\<lparr>ra_room_guard := None\<rparr>"
  let ?o = "case actor_fence (w_room w) of Some f \<Rightarrow> Some f | None \<Rightarrow> ra_owner_record (w_room w)"
  have lost: "tail_world (en_sha256 env) (w\<lparr>w_room := ?lost\<rparr>)"
    using assms by (intro base_resigned) (simp_all add: base_world_def)
  have "wp (do { m \<leftarrow> await env;
      if mo_released m then act_return () else on_room (\<lambda>r. r\<lparr>ra_guard_cleanup_failed := True\<rparr>) })
      (\<lambda>_. tail_world (en_sha256 env)) (w\<lparr>w_room := ?lost\<rparr>)"
    by (rule keepsD [where I = "tail_world (en_sha256 env)", OF _ lost]) (auto intro!: tail.quiet_rules simp: talks_engine)
  with lost guard_gone [of "lose_fence (w_room w)"] show "wp (fatal_fence_lost env) (\<lambda>_. tail_world (en_sha256 env)) w"
    by (cases "ra_room_guard (w_room w)") (simp_all add: fatal_fence_lost_def)
  have "talks ?lost ((lose_fence (w_room w))\<lparr>ra_guard_cleanup_failed := True, ra_owner_record := ?o, ra_room_guard := None\<rparr>)"
    by (rule talks_internal) (simp_all add: duty_def)
  with tail.talk [OF lost] show "wp fatal_remote_write_unconfirmed (\<lambda>_. tail_world (en_sha256 env)) w"
    by (simp add: fatal_remote_write_unconfirmed_def)
qed

section \<open>Commits\<close>

definition pushed :: "u8 list \<Rightarrow> int \<Rightarrow> committed_bundle \<Rightarrow> committed_bundle" where
  "pushed bytes s b = (if cm_tail_seq b < s then b\<lparr>cm_tail_payloads := cm_tail_payloads b @ [bytes]\<rparr> else b)\<lparr>cm_tail_seq := s\<rparr>"

lemma tail_pushed:
  "tail_world sha256 (w\<lparr>w_room := push_committed bytes s (w_room w)\<rparr>) \<longleftrightarrow> tail_with sha256 (pushed bytes s (ra_committed (w_room w))) w"
  by (simp add: tail_world_def tail_with_def base_world_def push_committed_def pushed_def Let_def)

lemma wf_receipt_seq: "wf_store sha256 st \<Longrightarrow> rc \<in> set (st_receipts st) \<Longrightarrow> rc_seq rc \<le> tail_of st"
proof -
  assume wf: "wf_store sha256 st" and rc: "rc \<in> set (st_receipts st)"
  obtain r where r: "st_state st = Some r"
    using wf rc by (cases "st_state st") (simp_all add: wf_store_def)
  have "rc_seq ` set (st_receipts st) = {1 .. tail_seq r}"
    using wf_storeD [OF wf r] unfolding wf_row_def by (metis list.set_map set_upto)
  with rc r show ?thesis
    by (auto simp: tail_of_def)
qed

text \<open>A receipt past the cached tail means that the generation is no longer current.\<close>

lemma receipt_stale:
  assumes "tail_with sha256 b w" and "receipt_for sha256 user_id bytes (cm_tail_seq b + 1) (w_store w)"
  shows "tail_with sha256 b' w"
proof -
  have wf: "wf_store sha256 (w_store w)"
    using tail_base(1) [OF assms(1)] by (simp add: base_world_def)
  have "cm_tail_seq b + 1 \<le> tail_of (w_store w)"
    using assms(2) wf_receipt_seq [OF wf] by (fastforce simp: receipt_for_def list_ex_iff)
  with assms(1) show ?thesis
    by (auto simp: tail_with_def owns_def)
qed

text \<open>The world while the fate of an append is open: nothing happened, or the row is there.\<close>

definition pending_world :: "(u8 list \<Rightarrow> u8 list) \<Rightarrow> committed_bundle \<Rightarrow> u8 list \<Rightarrow> 'n world \<Rightarrow> bool" where
  "pending_world sha256 b bytes w \<longleftrightarrow> ra_committed (w_room w) = b \<and> (tail_with sha256 b w \<or>
     tail_with sha256 (pushed bytes (cm_tail_seq b + 1) b) w \<and> cm_tail_seq b < tail_of (w_store w))"

lemma append_pending:
  assumes "tail_world sha256 w" and "rm_writer_generation (w_room w) = Some g"
    and "b = ra_committed (w_room w)"
    and "guard_append sha256 ctx guard \<lparr>ai_writer_generation = g, ai_expected_tail_seq = cm_tail_seq b,
      ai_op_id = operation, ai_payload = bytes\<rparr> (w_store w) = (st, x)"
  shows "pending_world sha256 b bytes (w\<lparr>w_store := st\<rparr>)"
    and "x = Refused e \<Longrightarrow> tail_with sha256 b (w\<lparr>w_store := st\<rparr>)"
    and "x = Done (DuplicateAck s) \<Longrightarrow> tail_with sha256 b (w\<lparr>w_store := st\<rparr>)"
    and "x = Done (Committed s) \<Longrightarrow> s = cm_tail_seq b + 1 \<and>
      tail_with sha256 (pushed bytes (cm_tail_seq b + 1) b) (w\<lparr>w_store := st\<rparr>)"
proof -
  have step: "store_step sha256 (w_store w) st"
    using step_append [of sha256 "w_store w" ctx guard] assms(4) by (metis fst_conv)
  have w: "tail_with sha256 b w"
    using assms(1,3) by (simp add: tail_world_def)
  let ?inp = "\<lparr>ai_writer_generation = g, ai_expected_tail_seq = cm_tail_seq b, ai_op_id = operation, ai_payload = bytes\<rparr>"
  have calm: "tail_with sha256 b (w\<lparr>w_store := st\<rparr>)" if "calm (w_store w) st"
    by (rule base_calm(2) [OF tail_base(1) [OF w] that step w])
  have base: "base_world sha256 (w\<lparr>w_store := st\<rparr>)" if "generation_of st = generation_of (w_store w)"
    using tail_base(1) [OF w] row_change_wf [OF store_step_change [OF step]] that
    by (simp add: base_world_def held_ok_def)
  have appended: "tail_with sha256 (pushed bytes (cm_tail_seq b + 1) b) (w\<lparr>w_store := st\<rparr>) \<and> cm_tail_seq b < tail_of st"
    if "generation_of st = generation_of (w_store w)" "generation_of (w_store w) = g" "tail_of st = cm_tail_seq b + 1"
      "st_updates st = st_updates (w_store w) @ [\<lparr>seq = cm_tail_seq b + 1, op_id = operation, payload = bytes\<rparr>]"
    using base that w assms(2) by (simp add: tail_with_def owns_def pushed_def)
  note heads = append_heads [OF assms(4)]
  show "pending_world sha256 b bytes (w\<lparr>w_store := st\<rparr>)"
    using heads calm appended assms(3) by (auto simp: pending_world_def)
  show "x = Refused e \<Longrightarrow> tail_with sha256 b (w\<lparr>w_store := st\<rparr>)"
    "x = Done (DuplicateAck s) \<Longrightarrow> tail_with sha256 b (w\<lparr>w_store := st\<rparr>)"
    using heads calm by auto
  show "x = Done (Committed s) \<Longrightarrow> s = cm_tail_seq b + 1 \<and>
      tail_with sha256 (pushed bytes (cm_tail_seq b + 1) b) (w\<lparr>w_store := st\<rparr>)"
    using heads appended by auto
qed

lemma pending_base: "pending_world sha256 b bytes w \<Longrightarrow> base_world sha256 w"
  using tail_base(1) by (auto simp: pending_world_def)

lemma pending_others:
  assumes "pending_world (en_sha256 env) b bytes w"
  shows "pending_world (en_sha256 env) b bytes (others_run env m w)"
proof -
  have "tail_of (w_store w) \<le> tail_of (w_store (others_run env m w))"
    using store_steps_grow [OF rivals_steps [of "en_sha256 env" "w_store w" "ra_backend (w_room w)" "mo_rivals m" "w_held_by w"]]
    by (auto simp: others_run_def split: prod.split)
  with assms base_others(2) [OF pending_base [OF assms]] show ?thesis
    by (fastforce simp: pending_world_def)
qed

lemma pending_load:
  assumes "pending_world sha256 b bytes w" and "load_room_collab_readonly ctx fence (w_store w) = (st, x)"
  shows "pending_world sha256 b bytes (w\<lparr>w_store := st\<rparr>)"
    and "x = Done l \<Longrightarrow> l_tail_seq l \<le> cm_tail_seq b \<Longrightarrow> tail_world sha256 (w\<lparr>w_store := st\<rparr>)"
proof -
  have calm: "calm (w_store w) st" and step: "store_step sha256 (w_store w) st"
    using calm_load [of "w_store w" ctx fence] step_load [of sha256 "w_store w" ctx fence] assms(2) by simp_all
  from assms(1) base_calm(2) [OF pending_base [OF assms(1)] calm step]
  show pending: "pending_world sha256 b bytes (w\<lparr>w_store := st\<rparr>)"
    using calm by (auto simp: pending_world_def calm_def)
  assume "x = Done l" "l_tail_seq l \<le> cm_tail_seq b"
  moreover have "wf_store sha256 st"
    using pending_base [OF pending] by (simp add: base_world_def)
  ultimately have "tail_of st \<le> cm_tail_seq b"
    using source_heads(2) load_source assms(2) by metis
  with pending show "tail_world sha256 (w\<lparr>w_store := st\<rparr>)"
    by (auto simp: pending_world_def tail_world_def)
qed

text \<open>Only a receipt, or the tail of the rows, decides; every other answer gives the generation up.\<close>

lemma give_up:
  assumes "base_world (en_sha256 env) w"
  shows "wp (do { fatal_room_divergence env actor session; act_return None })
      (\<lambda>x w'. case x of None \<Rightarrow> tail_world (en_sha256 env) w' | Some y \<Rightarrow> Q y w') w"
    and "wp (do { fatal_remote_write_unconfirmed; act_return None })
      (\<lambda>x w'. case x of None \<Rightarrow> tail_world (en_sha256 env) w' | Some y \<Rightarrow> Q y w') w"
  using divergence_resigns [OF assms, of actor session] loss_resigns(2) [OF assms] by simp_all

lemma readback_tail:
  assumes "pending_world (en_sha256 env) b bytes w"
  shows "wp (do {
      load \<leftarrow> transact env actor session (\<lambda>ctx r. load_room_collab_readonly ctx (actor_fence r));
      case load of
        Done l \<Rightarrow>
          if list_ex (\<lambda>u. op_id u = operation) (l_tail l) \<or> l_tail_seq l > cm_tail_seq b
          then do { fatal_room_divergence env actor session; act_return None }
          else act_return None
      | Refused _ \<Rightarrow> do { fatal_room_divergence env actor session; act_return None }
      | DriverError \<Rightarrow>
          if remote then do { fatal_remote_write_unconfirmed; act_return None }
          else do { fatal_room_divergence env actor session; act_return None } })
    (\<lambda>x w'. case x of None \<Rightarrow> tail_world (en_sha256 env) w' | Some y \<Rightarrow> Q y w') w"
proof -
  let ?m = "en_moments env (w_tick w)"
  let ?w = "others_run env ?m w"
  obtain st x where run: "load_room_collab_readonly (tx_context ?m (w_room ?w) actor session) (actor_fence (w_room ?w))
      (w_store ?w) = (st, x)"
    by fastforce
  note v = pending_load [OF pending_others [OF assms] run]
  note fails = give_up [OF pending_base [OF v(1)], where Q = Q]
  show ?thesis
    using fails v(2) by (cases x) (auto simp: Let_def run not_less)
qed

lemma reconcile_tail:
  assumes R: "\<And>v. R v \<Longrightarrow> pending_world (en_sha256 env) b bytes v" "\<And>v m. R v \<Longrightarrow> R (others_run env m v)"
    and "R w"
  shows "wp (reconcile_ambiguous_append env actor session operation (cm_tail_seq b) bytes (en_sha256 env bytes))
    (\<lambda>x w'. case x of None \<Rightarrow> tail_world (en_sha256 env) w'
      | Some result \<Rightarrow> R w' \<and> receipt_for (en_sha256 env) actor bytes
          (case result of Committed s \<Rightarrow> s | DuplicateAck s \<Rightarrow> s) (w_store w')) w"
proof -
  let ?m = "en_moments env (w_tick w)"
  let ?w = "others_run env ?m w"
  let ?x = "verify_room_collab_operation (tx_context ?m (w_room ?w) actor session) \<lparr>vi_op_id = operation,
      vi_payload_len = int (length bytes), vi_payload_sha256 = en_sha256 env bytes, vi_actor_user_id = actor\<rparr>
      (native_consumer_proof (w_room ?w)) (w_store ?w)"
  have w: "R ?w"
    using R(2) assms(3) .
  note pending = R(1) [OF w]
  have same: "v\<lparr>w_store := w_store v\<rparr> = v" for v :: "'a world"
    by simp
  note readback = readback_tail [OF pending, where remote = "is_remote_task_room (w_room ?w)"]
    and fails = give_up [OF pending_base [OF pending]]
  show ?thesis
  proof (cases ?x)
    case (Done rc)
    with w verify_receipt [OF Done, of bytes "en_sha256 env"] show ?thesis
      by (simp add: reconcile_ambiguous_append_def Let_def)
  next
    case (Refused e)
    show ?thesis
    proof (cases "e = NotFound")
      case True
      show ?thesis
        unfolding reconcile_ambiguous_append_def wp_bind [of "transact _ _ _ _"] wp_transact Let_def prod.case Refused True
          wp_bind [of "ask_room _"] wp_ask_room tx_result.case collab_db_error.case same
        using readback [unfolded wp_bind [of "transact _ _ _ _"] wp_transact Let_def] .
    next
      case False
      with Refused fails show ?thesis
        by (cases e) (simp_all add: reconcile_ambiguous_append_def Let_def)
    qed
  next
    case DriverError
    with fails show ?thesis
      by (simp add: reconcile_ambiguous_append_def Let_def)
  qed
qed

text \<open>A receipt one past the cached tail lets the room push the update.\<close>

lemma pending_receipt:
  assumes "pending_world sha256 b bytes w" and "receipt_for sha256 actor bytes (cm_tail_seq b + 1) (w_store w)"
  shows "tail_world sha256 (w\<lparr>w_room := push_committed bytes (cm_tail_seq b + 1) (w_room w)\<rparr>)"
  using assms receipt_stale by (auto simp: pending_world_def tail_pushed)

definition unwritten :: "(u8 list \<Rightarrow> u8 list) \<Rightarrow> committed_bundle \<Rightarrow> 'n world \<Rightarrow> bool" where
  "unwritten sha256 b w \<longleftrightarrow> ra_committed (w_room w) = b \<and> tail_with sha256 b w"

lemma unwritten_facts:
  "unwritten sha256 b w \<Longrightarrow> pending_world sha256 b bytes w" "unwritten sha256 b w \<Longrightarrow> tail_world sha256 w"
  "unwritten (en_sha256 env) b w \<Longrightarrow> unwritten (en_sha256 env) b (others_run env m w)"
  by (auto simp: unwritten_def pending_world_def tail_world_def intro: base_others(2) [OF tail_base(1)])

lemma reconcile_pending:
  assumes "pending_world (en_sha256 env) b bytes w"
  shows "wp (reconcile_ambiguous_append env actor session operation (cm_tail_seq b) bytes (en_sha256 env bytes))
    (\<lambda>x w'. case x of None \<Rightarrow> tail_world (en_sha256 env) w'
      | Some result \<Rightarrow> pending_world (en_sha256 env) b bytes w' \<and> receipt_for (en_sha256 env) actor bytes
          (case result of Committed s \<Rightarrow> s | DuplicateAck s \<Rightarrow> s) (w_store w')) w"
  by (rule reconcile_tail [where R = "pending_world (en_sha256 env) b bytes"]) (simp_all add: assms pending_others)

lemma reconcile_unwritten:
  assumes "unwritten (en_sha256 env) b w"
  shows "wp (reconcile_ambiguous_append env actor session operation (cm_tail_seq b) bytes (en_sha256 env bytes))
    (\<lambda>x w'. case x of None \<Rightarrow> tail_world (en_sha256 env) w'
      | Some result \<Rightarrow> unwritten (en_sha256 env) b w' \<and> receipt_for (en_sha256 env) actor bytes
          (case result of Committed s \<Rightarrow> s | DuplicateAck s \<Rightarrow> s) (w_store w')) w"
  by (rule reconcile_tail [where R = "unwritten (en_sha256 env) b"]) (simp_all add: assms unwritten_facts)

definition pushes_on :: "(u8 list \<Rightarrow> u8 list) \<Rightarrow> u8 list \<Rightarrow> int option \<Rightarrow> 'n world \<Rightarrow> bool" where
  "pushes_on sha256 bytes x w \<longleftrightarrow> (case x of
       None \<Rightarrow> tail_world sha256 w
     | Some s \<Rightarrow> tail_world sha256 (w\<lparr>w_room := push_committed bytes s (w_room w)\<rparr>))"

lemma pushes_on_simps [simp]:
  "pushes_on sha256 bytes None = tail_world sha256"
  "pushes_on sha256 bytes (Some s) = (\<lambda>w. tail_world sha256 (w\<lparr>w_room := push_committed bytes s (w_room w)\<rparr>))"
  by (simp_all add: pushes_on_def fun_eq_iff)

lemma commit_finishes:
  assumes "t \<noteq> s \<Longrightarrow> tail_world (en_sha256 env) w"
    and "t = s \<Longrightarrow> tail_world (en_sha256 env) (w\<lparr>w_room := push_committed bytes s (w_room w)\<rparr>)"
  shows "wp (if s \<noteq> t then do {
      healthy \<leftarrow> reload_primary_or_close_room env;
      (if healthy then do {
         fatal_room_divergence env actor session;
         reject_candidate env conn_id key }
       else act_return ());
      act_return None }
    else act_return (Some s)) (pushes_on (en_sha256 env) bytes) w"
proof (cases "s = t")
  case False
  have "keeps (tail_world (en_sha256 env)) (do {
      healthy \<leftarrow> reload_primary_or_close_room env;
      (if healthy then do {
         fatal_room_divergence env actor session;
         reject_candidate env conn_id key }
       else act_return ()) })"
    by (auto intro!: tail.quiet_rules tail.reload_or_close tail.divergence tail.rejects)
  from keepsD [OF this] assms(1) False show ?thesis
    by simp
qed (use assms in simp)

lemma commit_tail:
  assumes w: "tail_world (en_sha256 env) w"
  shows "wp (commit_candidate env conn_id key bytes actor session) (pushes_on (en_sha256 env) bytes) w"
proof (cases "ra_room_guard (w_room w) = None \<or> rm_writer_generation (w_room w) = None")
  case False
  then obtain guard g where g: "ra_room_guard (w_room w) = Some guard" "rm_writer_generation (w_room w) = Some g"
    by auto
  let ?m = "en_moments env (w_tick w)" and ?b = "ra_committed (w_room w)"
  let ?w = "others_run env ?m w" and ?t = "cm_tail_seq (ra_committed (w_room w))"
  obtain st x where run: "guard_append (en_sha256 env) (tx_context ?m (w_room ?w) actor session) guard
      \<lparr>ai_writer_generation = g, ai_expected_tail_seq = ?t, ai_op_id = mo_uuid ?m, ai_payload = bytes\<rparr>
      (w_store ?w) = (st, x)"
    by fastforce
  let ?v = "?w\<lparr>w_store := st\<rparr>"
  have same: "rm_writer_generation (w_room ?w) = Some g" "?b = ra_committed (w_room ?w)"
    by (simp_all add: g)
  note after = append_pending [OF tail_others [OF w] same run] and
    finish = commit_finishes [where bytes = bytes and actor = actor and session = session and conn_id = conn_id and key = key]
  have unwritten: "tail_with (en_sha256 env) ?b ?v \<Longrightarrow> unwritten (en_sha256 env) ?b ?v"
    by (simp add: unwritten_def)
  show ?thesis
  proof (cases x)
    case (Done result)
    have receipt: "receipt_for (en_sha256 env) actor bytes (case result of Committed s \<Rightarrow> s | DuplicateAck s \<Rightarrow> s) st"
      using append_receipt [OF run [unfolded Done] refl] by (simp add: tx_context_def)
    let ?s = "case result of Committed s \<Rightarrow> s | DuplicateAck s \<Rightarrow> s"
    have "?t + 1 \<noteq> ?s \<Longrightarrow> tail_world (en_sha256 env) ?v"
      using after(3,4) Done unwritten unwritten_facts(2) by (cases result) auto
    moreover have "?t + 1 = ?s \<Longrightarrow> tail_world (en_sha256 env) (?v\<lparr>w_room := push_committed bytes ?s (w_room ?v)\<rparr>)"
      using pending_receipt [OF after(1), of actor] receipt by simp
    ultimately show ?thesis
      using finish [of "?t + 1" ?s env ?v] by (simp add: commit_candidate_def g Let_def run Done)
  next
    case (Refused e)
    with after(2) unwritten have u: "unwritten (en_sha256 env) ?b ?v"
      by blast
    note v = unwritten_facts(2) [OF u]
    have stale: "keeps (tail_world (en_sha256 env)) (do { fatal_writer_stale env Preempt; reject_candidate env conn_id key })"
      by (auto intro!: tail.quiet_rules tail.writer_stale tail.rejects)
    let ?finish = "\<lambda>x. wp (case x of
        None \<Rightarrow> do { reload_then_reject env conn_id key; act_return None }
      | Some result \<Rightarrow> act_return (Some result)) (\<lambda>y. wp (case y of
        None \<Rightarrow> act_return None
      | Some result \<Rightarrow> (let s = (case result of Committed s \<Rightarrow> s | DuplicateAck s \<Rightarrow> s) in
          if s \<noteq> ?t + 1 then do {
            healthy \<leftarrow> reload_primary_or_close_room env;
            (if healthy then do {
               fatal_room_divergence env actor session;
               reject_candidate env conn_id key }
             else act_return ());
            act_return None }
          else act_return (Some s))) (pushes_on (en_sha256 env) bytes))"
    have "?finish x z" if "case x of None \<Rightarrow> tail_world (en_sha256 env) z
        | Some result \<Rightarrow> unwritten (en_sha256 env) ?b z \<and> receipt_for (en_sha256 env) actor bytes
            (case result of Committed s \<Rightarrow> s | DuplicateAck s \<Rightarrow> s) (w_store z)" for x z
    proof (cases x)
      case (Some result)
      with that have z: "unwritten (en_sha256 env) ?b z"
        by simp
      from that show ?thesis
        unfolding Some Let_def option.case wp_return
        by (intro finish unwritten_facts(2) [OF z]) 
          (metis pending_receipt [OF unwritten_facts(1) [OF z], of actor])
    qed (use that keepsD [OF tail.reloads_rejects] in simp)
    then have reconciled: "wp (reconcile_ambiguous_append env actor session (mo_uuid ?m) ?t bytes (en_sha256 env bytes)) ?finish ?v"
      by (rule wp_mono [OF reconcile_unwritten [OF u]])
    from reconciled [unfolded Let_def] keepsD [OF stale v] keepsD [OF tail.reloads_rejects v] show ?thesis
      by (simp add: commit_candidate_def g Let_def run Refused)
  next
    case DriverError
    with loss_resigns [OF pending_base [OF after(1)]] show ?thesis
      by (simp add: commit_candidate_def g Let_def run)
  qed
next
  case True
  with w keepsD [OF tail.fatal_lost w] show ?thesis
    by (auto simp: commit_candidate_def split: option.split)
qed

lemma forward_concludes:
  assumes "pending_world (en_sha256 env) b bytes w"
    and "receipt_for (en_sha256 env) actor bytes (case result of Committed s \<Rightarrow> s | DuplicateAck s \<Rightarrow> s) (w_store w)"
  shows "wp (let s = (case result of Committed s \<Rightarrow> s | DuplicateAck s \<Rightarrow> s) in
      if s \<noteq> cm_tail_seq b + 1 then do {
        fatal_room_divergence env actor session;
        act_return (Inl FwUnavailable) }
      else act_return (Inr s)) (\<lambda>x w'. case x of Inl _ \<Rightarrow> tail_world (en_sha256 env) w'
        | Inr s \<Rightarrow> tail_world (en_sha256 env) (w'\<lparr>w_room := push_committed bytes s (w_room w')\<rparr>)) w"
  using divergence_resigns [OF pending_base [OF assms(1)]] pending_receipt [OF assms(1), of actor] assms(2)
  by (cases result) (auto simp: Let_def)

lemma forward_tail:
  assumes w: "tail_world (en_sha256 env) w"
  shows "wp (forward_append env actor session bytes) (\<lambda>x w'. case x of Inl _ \<Rightarrow> tail_world (en_sha256 env) w'
    | Inr s \<Rightarrow> tail_world (en_sha256 env) (w'\<lparr>w_room := push_committed bytes s (w_room w')\<rparr>)) w"
proof (cases "ra_room_guard (w_room w) = None \<or> rm_writer_generation (w_room w) = None")
  case False
  then obtain guard g where g: "ra_room_guard (w_room w) = Some guard" "rm_writer_generation (w_room w) = Some g"
    by auto
  let ?m = "en_moments env (w_tick w)" and ?b = "ra_committed (w_room w)"
  let ?w = "others_run env ?m w" and ?t = "cm_tail_seq (ra_committed (w_room w))"
  obtain st x where run: "guard_append (en_sha256 env) (tx_context ?m (w_room ?w) actor session) guard
      \<lparr>ai_writer_generation = g, ai_expected_tail_seq = ?t, ai_op_id = mo_uuid ?m, ai_payload = bytes\<rparr>
      (w_store ?w) = (st, x)"
    by fastforce
  let ?v = "?w\<lparr>w_store := st\<rparr>"
  have same: "rm_writer_generation (w_room ?w) = Some g" "?b = ra_committed (w_room ?w)"
    by (simp_all add: g)
  note after = append_pending [OF tail_others [OF w] same run]
  let ?Q = "\<lambda>x w'. case x of Inl _ \<Rightarrow> tail_world (en_sha256 env) w'
    | Inr s \<Rightarrow> tail_world (en_sha256 env) (w'\<lparr>w_room := push_committed bytes s (w_room w')\<rparr>)"
  let ?finish = "\<lambda>x. wp (case case x of None \<Rightarrow> Inl FwUnavailable | Some result \<Rightarrow> Inr result of
        Inl err \<Rightarrow> act_return (Inl err)
      | Inr result \<Rightarrow> (let s = (case result of Committed s \<Rightarrow> s | DuplicateAck s \<Rightarrow> s) in
          if s \<noteq> ?t + 1 then do {
            fatal_room_divergence env actor session;
            act_return (Inl FwUnavailable) }
          else act_return (Inr s))) ?Q"
  have finish: "?finish x z" if "case x of None \<Rightarrow> tail_world (en_sha256 env) z
      | Some result \<Rightarrow> pending_world (en_sha256 env) ?b bytes z \<and> receipt_for (en_sha256 env) actor bytes
          (case result of Committed s \<Rightarrow> s | DuplicateAck s \<Rightarrow> s) (w_store z)" for x z
    using that forward_concludes [of env ?b bytes z actor _ session] by (cases x) simp_all
  have reconciled: "wp (reconcile_ambiguous_append env actor session (mo_uuid ?m) ?t bytes (en_sha256 env bytes)) ?finish ?v"
    by (rule wp_mono [OF reconcile_pending [OF after(1)] finish])
  show ?thesis
  proof (cases x)
    case (Done result)
    have "receipt_for (en_sha256 env) actor bytes (case result of Committed s \<Rightarrow> s | DuplicateAck s \<Rightarrow> s) st"
      using append_receipt [OF run [unfolded Done] refl] by (simp add: tx_context_def)
    with forward_concludes [OF after(1), of actor result session] show ?thesis
      by (simp add: forward_append_def g Let_def run Done)
  next
    case (Refused e)
    with after(2) have v: "tail_world (en_sha256 env) ?v"
      by (simp add: tail_world_def)
    from keepsD [OF tail.writer_stale v] v reconciled [unfolded Let_def] show ?thesis
      by (simp add: forward_append_def g Let_def run Refused)
  next
    case DriverError
    with loss_resigns(2) [OF pending_base [OF after(1)]] reconciled [unfolded Let_def] show ?thesis
      by (simp add: forward_append_def g Let_def run)
  qed
next
  case True
  with w keepsD [OF tail.writer_stale w] show ?thesis
    by (cases "rm_writer_generation (w_room w)") (simp_all add: forward_append_def)
qed

section \<open>Claims\<close>

text \<open>The rows of a fresh claim: the claimed generation is above every rival's and its copy is right.\<close>

definition claimed_world :: "(u8 list \<Rightarrow> u8 list) \<Rightarrow> int \<Rightarrow> 'n world \<Rightarrow> bool" where
  "claimed_world sha256 g w \<longleftrightarrow> base_world sha256 w \<and> owns g (ra_committed (w_room w)) (w_held_by w) (w_store w)"

lemma claimed_quiet: "room_quiet env (claimed_world (en_sha256 env) g)"
  by unfold_locales (auto simp: claimed_world_def base_duty(1) talksD(2) duty_eqD(7) [OF talksD(2)]
      intro: base_others(1) base_others(3))

lemma claimed_installs:
  "claimed_world sha256 g w \<Longrightarrow> tail_world sha256 (w\<lparr>w_room := (w_room w)\<lparr>rm_writer_generation := Some g\<rparr>\<rparr>)"
  by (simp add: claimed_world_def tail_world_def tail_with_def base_world_def)

lemma claim_rows_tail:
  assumes w: "tail_world sha256 w"
    and run: "guard_claim_writer ctx guard (w_store w) = (st, guard', x)" "a_backend (x_actor ctx) = Postgres"
  shows "tail_world sha256 (w\<lparr>w_store := st\<rparr>)"
    and "x = Done c \<Longrightarrow> tail_world sha256 (w\<lparr>w_store := st, w_room := set_committed_from_load (cw_load c) (w_room w)\<rparr>)"
    and "x = Done c \<Longrightarrow> claimed_world sha256 (cw_writer_generation c)
      (w\<lparr>w_store := st, w_room := set_committed_from_load (cw_load c) (w_room w)\<rparr>)"
proof -
  note heads = claim_heads [OF run]
  have wf: "wf_store sha256 st"
    using tail_base(2) [OF w] store_steps_wf [OF claim_step, of sha256 "w_store w" ctx guard] run by (simp add: base_world_def)
  show st: "tail_world sha256 (w\<lparr>w_store := st\<rparr>)"
  proof (cases "calm (w_store w) st")
    case False
    with heads wf w show ?thesis
      by (force simp: tail_world_def tail_with_def base_world_def held_ok_def owns_def)
  qed (use w wf owns_calm held_calm in \<open>auto simp: tail_world_def tail_with_def base_world_def\<close>)
  assume did: "x = Done c"
  with heads have source: "load_durable_native_source st = Inr (cw_load c)"
      "cw_writer_generation c = generation_of st" "generation_of st = generation_of (w_store w) + 1"
    using source_heads(1) [OF wf] by auto
  from tail_cache [OF st] source(1)
  show "tail_world sha256 (w\<lparr>w_store := st, w_room := set_committed_from_load (cw_load c) (w_room w)\<rparr>)"
    by simp
  have "generation_of st \<notin> ran (w_held_by w)"
    using tail_base(2) [OF w] source(3) by (force simp: base_world_def held_ok_def)
  with tail_base(2) [OF st] source source_heads [OF wf source(1)]
  show "claimed_world sha256 (cw_writer_generation c)
      (w\<lparr>w_store := st, w_room := set_committed_from_load (cw_load c) (w_room w)\<rparr>)"
    by (simp add: claimed_world_def base_world_def owns_def set_committed_from_load_def)
qed

lemma claim_tail:
  assumes w: "tail_world (en_sha256 env) w"
  shows "wp (claim_writer env actor credential)
    (\<lambda>x w'. tail_world (en_sha256 env) w' \<and> (\<forall>c. x = Done c \<longrightarrow> wp (adopt_writer env c) (\<lambda>_. tail_world (en_sha256 env)) w')) w"
proof (cases "ra_room_guard (w_room w)")
  case (Some guard)
  let ?m = "en_moments env (w_tick w)"
  let ?w = "others_run env ?m w"
  obtain st guard' claim where run:
    "guard_claim_writer (tx_context ?m (w_room ?w) actor credential) guard (w_store ?w) = (st, guard', claim)"
    by (metis prod.exhaust)
  have backend: "a_backend (x_actor (tx_context ?m (w_room ?w) actor credential)) = Postgres"
    using tail_base(2) [OF w] by (simp add: base_world_def)
  note rows = claim_rows_tail [OF tail_others [OF w] run backend]
  let ?v = "?w\<lparr>w_store := st, w_room := (w_room ?w)\<lparr>ra_room_guard := Some guard'\<rparr>\<rparr>"
  have regard: "tail_world sha256 (v\<lparr>w_room := r\<lparr>ra_room_guard := h\<rparr>\<rparr>) = tail_world sha256 (v\<lparr>w_room := r\<rparr>)"
    "claimed_world sha256 gen (v\<lparr>w_room := r\<lparr>ra_room_guard := h\<rparr>\<rparr>) = claimed_world sha256 gen (v\<lparr>w_room := r\<rparr>)"
    "set_committed_from_load l (r\<lparr>ra_room_guard := h\<rparr>) = (set_committed_from_load l r)\<lparr>ra_room_guard := h\<rparr>"
    for sha256 h r l gen and v :: "'a world"
    by (simp_all add: tail_world_def tail_with_def claimed_world_def base_world_def set_committed_from_load_def)
  have "tail_world (en_sha256 env) (?w\<lparr>w_store := st, w_room := w_room ?w\<rparr>)"
    using rows(1) by simp
  then have v: "tail_world (en_sha256 env) ?v"
    by (simp only: regard)
  have "wp (adopt_writer env c) (\<lambda>_. tail_world (en_sha256 env)) ?v" if "claim = Done c" for c
  proof -
    let ?u = "?w\<lparr>w_store := st, w_room := set_committed_from_load (cw_load c) ((w_room ?w)\<lparr>ra_room_guard := Some guard'\<rparr>)\<rparr>"
    have u: "tail_world (en_sha256 env) ?u" "claimed_world (en_sha256 env) (cw_writer_generation c) ?u"
      using rows(2,3) [OF that] by (simp_all only: regard)
    have "wp (reload_primary_from_committed env) (\<lambda>x. wp (case x of
        Inl err \<Rightarrow> act_return (Inl err)
      | Inr _ \<Rightarrow> do { on_room (\<lambda>r. r\<lparr>rm_writer_generation := Some (cw_writer_generation c)\<rparr>); act_return (Inr ()) })
        (\<lambda>_. tail_world (en_sha256 env))) ?u"
      by (rule wp_mono [OF wp_conj [OF keepsD [OF tail.reloads u(1)] keepsD [OF room_quiet.reloads [OF claimed_quiet] u(2)]]])
        (auto split: sum.split intro: claimed_installs)
    then show ?thesis
      by (simp add: adopt_writer_def)
  qed
  with v keepsD [OF tail.fatal_remote v] show ?thesis
    by (auto simp: claim_writer_def Some Let_def run)
qed (use w in \<open>simp add: claim_writer_def\<close>)

interpretation tail: room_committing env "tail_world (en_sha256 env)" for env :: "'n environment"
proof unfold_locales
  fix w :: "'n world" and conn_id key bytes actor session credential g
  assume w: "tail_world (en_sha256 env) w"
  show "wp (commit_candidate env conn_id key bytes actor session) (\<lambda>c w'. case c of
      None \<Rightarrow> tail_world (en_sha256 env) w'
    | Some s \<Rightarrow> tail_world (en_sha256 env) (w'\<lparr>w_room := push_committed bytes s (w_room w')\<rparr>)) w"
    using commit_tail [OF w] by (simp add: pushes_on_def [abs_def])
  show "wp (forward_append env actor session bytes) (\<lambda>c w'. case c of
      Inl _ \<Rightarrow> tail_world (en_sha256 env) w'
    | Inr s \<Rightarrow> tail_world (en_sha256 env) (w'\<lparr>w_room := push_committed bytes s (w_room w')\<rparr>)) w"
    by (rule forward_tail [OF w])
  show "wp (claim_writer env actor credential) (\<lambda>x w'. tail_world (en_sha256 env) w' \<and>
      (\<forall>c. x = Done c \<longrightarrow> wp (adopt_writer env c) (\<lambda>_. tail_world (en_sha256 env)) w')) w"
    by (rule claim_tail [OF w])
  show "tail_world (en_sha256 env) (w\<lparr>w_room := (w_room w)\<lparr>ra_room_guard := Some g\<rparr>\<rparr>)"
    using w by (simp add: tail_world_def tail_with_def base_world_def)
qed

section \<open>Runs\<close>

lemma tail_join:
  assumes "tail_world (en_sha256 env) w"
  shows "wp (handle_join env j) (\<lambda>_. tail_world (en_sha256 env)) w"
proof -
  have admit: "wp (on_room_result (admit_connection now read_only j)) (\<lambda>_. tail_world (en_sha256 env)) v"
    if "tail_world (en_sha256 env) v" for now read_only v
    using that base_duty(3) [OF admit_duty [of now read_only j "w_room v"], of "en_sha256 env"] by (auto split: prod.split)
  have "wp (prepare_join env j) (\<lambda>x. wp (case x of
      Inl err \<Rightarrow> act_return (Inl err)
    | Inr read_only \<Rightarrow> do {
        now \<leftarrow> now_ms env;
        admitted \<leftarrow> on_room_result (admit_connection now read_only j);
        act_return (if admitted then Inr () else Inl AdmissionDenied) })
      (\<lambda>_. tail_world (en_sha256 env))) w"
    using keepsD [OF tail.prepares_join assms]
    by (rule wp_mono) (use admit in \<open>auto simp del: wp_on_room_result split: sum.split\<close>)
  then show ?thesis
    by (simp add: handle_join_def)
qed

lemma tail_dispatch: "keeps (tail_world (en_sha256 env)) (dispatch env cmd)"
proof (cases "\<exists>j. cmd = CmdJoin j")
  case False
  then show ?thesis
    by (intro tail.dispatches) blast
qed (auto intro!: keepsI simp: tail_join)

lemma tail_loop: "keeps (tail_world (en_sha256 env)) (run_loop env cmds)"
  by (induction cmds) (auto intro!: keeps_rules tail.awaits tail_dispatch)

lemma sample_claim:
  "guard_claim_writer sample_ctx PgGuard sample_store =
    (fst (bump_native_writer_generation (seeded sample_store)), PgGuard,
     Done \<lparr>cw_writer_generation = 1, cw_load = state_row_to_load ((the (st_state (seeded sample_store)))\<lparr>writer_generation := 1\<rparr>) []\<rparr>)"
proof -
  have "current_native_write_scope sample_ctx t None = Some True" for t
    by (simp add: current_native_write_scope_def sample_ctx_def sample_actor_def)
  moreover have "authorize_collab_write (x_before sample_ctx) (x_db sample_ctx) (x_actor sample_ctx) = Inr ()"
    using sample_may_append by (simp add: may_append_def)
  moreover have "a_backend (x_actor sample_ctx) = Postgres" "x_fault sample_ctx = NoFault"
    by (simp_all add: sample_ctx_def sample_actor_def)
  ultimately show ?thesis
    by (simp add: guard_claim_writer_def claim_writer_and_load_def finish_native_room_operation_def load_collab_native_def
        in_scope_def sample_store_def collab_limits ensure_collab_state_def
        native_state_generation_def insert_empty_native_state_def EMPTY_YJS_STATE_V1_def seeded_def
        bump_native_writer_generation_def load_durable_native_source_def load_native_tail_def
        native_tail_stats_def state_row_to_load_def load_budget_allows_def COLLAB_STATE_ENCODING_V1_def Let_def)
qed

definition sample_holds :: "unit world \<Rightarrow> bool" where
  "sample_holds w \<longleftrightarrow> rm_writer_generation (w_room w) = Some 1 \<and> generation_of (w_store w) = 1 \<and>
     ra_backend (w_room w) = Postgres \<and> 0 < w_tick w"

lemma sample_holding: "room_quiet sample_env sample_holds"
  by unfold_locales (auto simp: sample_holds_def dest!: talksD(2) dest: duty_eqD(2) duty_eqD(3))

lemma sample_consumes: "keeps sample_holds (check_cached_native_consumer sample_env actor credential)"
  by (simp add: keeps_def check_cached_native_consumer_def verify_room_native_consumer_def Let_def)
    (simp add: sample_holds_def)

lemma sample_replies:
  "mo_engine_bin sample_moment" "mo_spawn sample_moment = Spawns" "mo_reply sample_moment req = Answers (StatusOk sample_applied)"
  "eo_applied sample_applied" "\<not> eo_pending sample_applied"
  by (simp_all add: sample_moment_def sample_applied_def)

lemma sample_reloads:
  assumes "0 < w_tick w" and "eb_running (ra_engine (w_room w))"
  shows "wp (reload_primary_from_committed sample_env) (\<lambda>x _. x = Inr ()) w"
  using assms sample_replies
  by (simp add: reload_primary_from_committed_def load_engine_primary_def engine_recycle_def engine_call_def bridge_recycle_def
      bridge_call_def Let_def)

lemma sample_adopts:
  assumes "sample_holds (w\<lparr>w_room := (w_room w)\<lparr>rm_writer_generation := Some 1\<rparr>\<rparr>)" and "eb_running (ra_engine (w_room w))"
    and "cw_writer_generation c = 1"
  shows "wp (adopt_writer sample_env c) (\<lambda>x v. x = Inr () \<and> sample_holds v) w"
proof -
  let ?J = "\<lambda>v. sample_holds (v\<lparr>w_room := (w_room v)\<lparr>rm_writer_generation := Some 1\<rparr>\<rparr>)"
  let ?w = "w\<lparr>w_room := set_committed_from_load (cw_load c) (w_room w)\<rparr>"
  have quiet: "room_quiet sample_env ?J"
    by unfold_locales (auto simp: sample_holds_def dest!: talksD(2) dest: duty_eqD(3))
  have w: "?J ?w" "0 < w_tick ?w" "eb_running (ra_engine (w_room ?w))"
    using assms(1,2) by (simp_all add: sample_holds_def set_committed_from_load_def)
  have "wp (reload_primary_from_committed sample_env) (\<lambda>x. wp (case x of
      Inl err \<Rightarrow> act_return (Inl err)
    | Inr _ \<Rightarrow> do { on_room (\<lambda>r. r\<lparr>rm_writer_generation := Some (cw_writer_generation c)\<rparr>); act_return (Inr ()) })
      (\<lambda>x v. x = Inr () \<and> sample_holds v)) ?w"
    by (rule wp_mono [OF wp_conj [OF sample_reloads [OF w(2,3)] keepsD [OF room_quiet.reloads [OF quiet] w(1)]]])
      (simp add: assms(3))
  then show ?thesis
    by (simp add: adopt_writer_def)
qed

lemma sample_claims:
  "wp (run_loop sample_env [CmdProjectLive 1 2])
    (\<lambda>_ w. rm_writer_generation (w_room w) = Some 1 \<and> generation_of (w_store w) = 1) sample_world"
proof -
  define w where "w = others_run sample_env (en_moments sample_env 0) sample_world"
  have fields: "w_store w = sample_store" "w_tick w = 1" "eb_running (ra_engine (w_room w))" "ra_room_guard (w_room w) = Some PgGuard"
      "tx_context sample_moment (w_room w) 1 2 = sample_ctx" "ra_backend (w_room w) = Postgres"
    by (simp_all add: w_def others_run_def sample_env_def sample_world_def sample_moment_def open_socket_def sample_fields
        tx_context_def sample_ctx_def sample_actor_def)
  have none: "rm_writer_generation (w_room w) = None"
    by (simp add: w_def sample_world_def sample_spawned_def spawned_room_def)
  let ?st = "fst (bump_native_writer_generation (seeded sample_store))"
  let ?v = "w\<lparr>w_tick := Suc (Suc 0), w_store := ?st, w_room := (w_room w)\<lparr>ra_room_guard := Some PgGuard\<rparr>\<rparr>"
  let ?c = "\<lparr>cw_writer_generation = 1, cw_load =
      state_row_to_load ((the (st_state (seeded sample_store)))\<lparr>writer_generation := 1\<rparr>) []\<rparr>"
  have v: "sample_holds (?v\<lparr>w_room := (w_room ?v)\<lparr>rm_writer_generation := Some 1\<rparr>\<rparr>)" "eb_running (ra_engine (w_room ?v))"
    using fields
    by (simp_all add: sample_holds_def bump_native_writer_generation_def seeded_def sample_store_def generation_of_def
        insert_empty_native_state_def)
  note rules = room_quiet.quiet_rules [OF sample_holding] room_quiet.auths [OF sample_holding]
    room_quiet.engine_calls [OF sample_holding] sample_consumes
  let ?lock = "do {
      auth \<leftarrow> locking_session_auth_by_ids sample_env 1 2 False;
      case auth of
        AuthAllow \<Rightarrow> do {
          current \<leftarrow> check_cached_native_consumer sample_env 1 2;
          act_return (if current then Inr () else Inl FwUnavailable) }
      | AuthDeny \<Rightarrow> act_return (Inl FwRejected)
      | AuthDbError \<Rightarrow> act_return (Inl FwUnavailable) }"
  have locked: "keeps sample_holds ?lock"
    by (auto intro!: rules split: locking_auth.split)
  have "wp (adopt_writer sample_env ?c) (\<lambda>x. wp (case case x of Inl _ \<Rightarrow> Inl FwUnavailable | Inr _ \<Rightarrow> Inr () of
      Inl err \<Rightarrow> act_return (Inl err) | Inr _ \<Rightarrow> ?lock) (\<lambda>_. sample_holds)) ?v"
    by (rule wp_mono [OF sample_adopts [OF v, of ?c]]) (simp_all add: keepsD [OF locked, unfolded wp_bind])
  then have "wp (prepare_forward_writer sample_env 1 2) (\<lambda>_. sample_holds) w"
    by (simp add: prepare_forward_writer_def claim_writer_def fields none sample_claim Let_def)
  then have "wp (handle_project_live sample_env 1 2) (\<lambda>_. sample_holds) w"
    unfolding handle_project_live_def wp_bind [of "prepare_forward_writer sample_env 1 2"]
    by (rule wp_mono) (auto intro!: keepsD [of sample_holds] rules simp del: wp_bind split: sum.split act_splits)
  then show ?thesis
    by (simp add: w_def Let_def sample_world_def) (erule wp_mono, simp add: sample_holds_def)
qed

section \<open>Properties\<close>

text \<open>C2: The fence holds. Whatever a room on PostgreSQL has done since it was opened on a well-formed log, as long
  as it believes to be the writer no other room holds its generation, and while the rows still carry that
  generation the room's cached tail is the durable tail and every durable update after the snapshot is in the
  room's cached copy: an update that another room committed cannot be missing from what the room serves.\<close>

theorem cached_tail_durable:
  assumes "w_room w = spawned_room cfg workspace document k Postgres remote limits guard initial_load"
    and "wf_store (en_sha256 env) (w_store w)" and "held_ok (w_held_by w) (w_store w)"
    and "run_state (run_loop env cmds) w = ((), w')" and "rm_writer_generation (w_room w') = Some g"
  shows "g \<le> generation_of (w_store w') \<and> g \<notin> ran (w_held_by w') \<and>
    (generation_of (w_store w') = g \<longrightarrow> tail_of (w_store w') = cm_tail_seq (ra_committed (w_room w')) \<and>
      suffix (map payload (st_updates (w_store w'))) (cm_tail_payloads (ra_committed (w_room w'))))"
proof -
  have "rm_writer_generation (w_room w) = None" "ra_backend (w_room w) = Postgres"
    by (simp_all add: assms(1) spawned_room_def set_committed_from_load_def Let_def split: option.split)
  with assms(2,3) have "tail_world (en_sha256 env) w"
    by (intro base_resigned) (simp_all add: base_world_def)
  from keepsD [OF tail_loop this, of cmds] have "tail_world (en_sha256 env) w'"
    by (simp add: wp_run assms(4))
  with assms(5) show ?thesis
    by (simp add: tail_world_def tail_with_def owns_def)
qed

theorem cached_tail_durable_witness:
  "\<exists>w. run_state (run_loop sample_env [CmdProjectLive 1 2]) sample_world = ((), w) \<and>
    rm_writer_generation (w_room w) = Some 1 \<and> 1 \<notin> ran (w_held_by w) \<and>
    tail_of (w_store w) = cm_tail_seq (ra_committed (w_room w))"
proof -
  let ?w = "snd (run_state (run_loop sample_env [CmdProjectLive 1 2]) sample_world)"
  have run: "run_state (run_loop sample_env [CmdProjectLive 1 2]) sample_world = ((), ?w)"
    by (simp add: prod_eq_iff)
  have held: "rm_writer_generation (w_room ?w) = Some 1" "generation_of (w_store ?w) = 1"
    using sample_claims by (simp_all only: wp_run)
  have world: "w_room sample_world = spawned_room sample_room_config 3 4 Document Postgres False engine_limits_default PgGuard None"
      "wf_store (en_sha256 sample_env) (w_store sample_world)" "held_ok (w_held_by sample_world) (w_store sample_world)"
    by (simp_all add: sample_world_def sample_spawned_def initial_wf sample_initial held_ok_def)
  from cached_tail_durable [OF world run held(1)] run held show ?thesis
    by blast
qed

end
