(* ===== verification/Spec2Isabelle.thy ===== *)
theory Spec2Isabelle
  imports Wire Awareness Engine Admission RateLimit Zip Collections Blocks Chunk RoomTail
begin

text \<open>
  Verification of the FVOCI server: a workspace server (documents, tasks, attachments, search) with
  live collaborative editing, written in Rust over PostgreSQL, SQLite and libSQL. Paths below are
  relative to the server crate (\<open>src/src\<close>) or to \<open>src/crates\<close>.

  \<^bold>\<open>The program and its parts.\<close> A browser opens a WebSocket to a collaboration room. Each
  frame is decoded by the wire codec (\<open>collab/wire.rs\<close>); sync frames carry the y-protocol
  envelope (\<open>collab/y_sync.rs\<close>), awareness frames the presence of each client
  (\<open>collab/awareness.rs\<close>). A room runs the CRDT in a child process whose resource limits,
  requests and pipe frames are in \<open>crates/collab-engine\<close>; rooms are admitted against a memory
  budget (\<open>collab/admission.rs\<close>, \<open>collab/config.rs\<close>). Every write is rechecked against
  the sharing tables (\<open>collab/access.rs\<close>), appended to the durable log with a receipt and a
  writer generation (\<open>db/collab.rs\<close>, \<open>collab/guard.rs\<close>), and sent to the other
  connections through bounded channels with a byte budget each (\<open>collab/room.rs\<close>,
  \<open>collab/transport.rs\<close>). Around it, the HTTP side limits
  request rates (\<open>http/rate_limit.rs\<close>) and event streams (\<open>streams/hub.rs\<close>), imports
  and exports ZIP archives (\<open>documents/import_zip.rs\<close>, \<open>export_zip.rs\<close>), edits single
  blocks of a document (\<open>documents/blocks.rs\<close>), cuts texts for the search index
  (\<open>search/chunk.rs\<close>), and validates the JSON of task lists, saved views and collections
  (\<open>tasks/list_query.rs\<close>, \<open>collections.rs\<close>).

  \<^bold>\<open>Theories.\<close>
  \<^item> \<open>Prelude\<close>: results and their sequencing (the \<open>?\<close> operator), saturating
    arithmetic, little-endian integers, UTF-8 as bytes with validity and lossy decoding, string
    splitting and trimming, \<open>min_by_key\<close>, and the locale \<open>finite_map\<close> of a key-value map,
    interpreted for the ordered map (\<open>bt\<close>, Rust's \<open>BTreeMap\<close>) and the hash map
    (\<open>hm\<close>).
  \<^item> \<open>Lib0\<close>, \<open>YSync\<close>, \<open>Wire\<close>: variable-length integers, the sync
    envelope, and frames with all limits. A frame the encoder writes decodes to itself, with the
    room its routing key names; the encoder
    succeeds exactly within the limits; the decoder only returns frames within them; room names parse
    back.
  \<^item> \<open>Json\<close>, \<open>Awareness\<close>: JSON values, the presence codec and filter, and the
    registry with claims, updates, eviction of tombstones and departures as a state machine. The registry
    stays within 128 clients, a connection changes only its own client, what it stores and sends are exactly
    the updates a one-client reference accepts, only allow-listed presence fields leave the server.
  \<^item> \<open>Engine\<close>: limits of the engine child, their validation, the request checks of parent
    and child, and the pipe framing; validated limits agree with one another, and the child's check is the
    parent's up to base64 padding, which refuses a snapshot of the full 8 MiB.
  \<^item> \<open>Admission\<close>: the memory ledger and the stream slots, both interpretations of one locale
    \<open>bounded_pool\<close>; the stream counter is a step relation over interleaved atomic operations.
  \<^item> \<open>Access\<close>: users, sessions, memberships, grants and documents as tables, the locking
    recheck of the writer and the snapshot query that filters deliveries; both give the same answer.
  \<^item> \<open>CollabStore\<close>: the rows of the durable log and the transactions on them (append with
    receipt and fence, load, compaction, projection of the derived body) with every fault at commit, and
    the step relation of the rooms' transactions. The log stays well formed and loads, an append that is retried is
    stored once, and what was appended is what loads.
  \<^item> \<open>RoomOut\<close>: connections of a room with their channels and byte budgets, delivery,
    eviction of slow readers, closing, presence flushing, client-id reservations and the socket side,
    with a step relation over all of them. The accounted frames and bytes stay within the budgets, an ordered
    close follows the queued frames, a flush of presence gives all who stay the same messages and the removals of
    those it evicted, client ids are exclusive. The locales \<open>eviction_invariant\<close> and \<open>delivery_invariant\<close> carry an
    invariant from single evictions and deliveries to the whole handlers.
  \<^item> \<open>RoomWorld\<close>: the world a room acts in, as a state monad: its actor record, the engine child,
    the rows, the writer generations of rival rooms, and an environment that decides at every await what clients,
    engine, database and rivals do meanwhile, every fault and lost commit reply included.
  \<^item> \<open>Room\<close>: the handlers of \<open>collab/room.rs\<close> in that monad: joins and claims, frames and
    commits with the reconciliation of ambiguous appends, projection and compaction, forward writes, captures,
    access polls, lease renewal, the mailbox loop and the teardown.
  \<^item> \<open>RoomLogic\<close>: weakest preconditions of actions, and the chain of locales from \<open>room_quiet\<close>
    to \<open>room_committing\<close> and \<open>room_stepwise\<close>: from what an invariant survives of single
    steps it follows that every handler keeps it.
  \<^item> \<open>RoomSafety\<close>, \<open>RoomDurable\<close>, \<open>RoomTail\<close>: their interpretations. Every run
    of a room is a run of the store's transactions and keeps the outbound limits; a room that lost its
    fence stops; an acknowledged update has a durable receipt; on PostgreSQL a room's writer generation is
    its own and its cached tail is the durable one while the rows carry that generation.
  \<^item> \<open>RateLimit\<close>: sliding-window counters with eviction; no window ever holds more allowed
    calls than its limit, over any history that stays under the key capacity.
  \<^item> \<open>Zip\<close>: the streaming writer as a state machine and the bounded reader; exported
    archives of importable names import to the same files, accepted uploads stay within their bounds, names are safe.
  \<^item> \<open>ViewQuery\<close>, \<open>Collections\<close>: strict JSON contracts; accepted bodies are within
    the documented bounds, stored JSON is canonical, cursors and fingerprints are faithful.
  \<^item> \<open>Blocks\<close>: the recursive edit of a document tree equals a preorder search.
  \<^item> \<open>Chunk\<close>: the chunker terminates and its chunks cover the text.

  \<^bold>\<open>Conventions.\<close> A \<open>Result\<close> is a sum with the error on the left; a mutating method
  returns the new state, or is an action of the state monad in the room theories; loops are recursive
  functions with termination proofs, so no fuel is used.
  Integers are words where they wrap or saturate in reach of an input, and natural numbers or integers
  with the code's range checks elsewhere. Strings are byte lists (\<open>str_ok\<close> is Rust's UTF-8
  invariant), except in \<open>Chunk\<close>, where a text is the list of its characters. Crates outside the
  repository are parameters: UUID parsing and printing, \<open>serde_json\<close> parsing and printing,
  base64, checksums, the inflater, calendar dates; what is relied on of them appears as a hypothesis
  (\<open>crates_ok\<close>, \<open>crc_streams\<close> and the like), and every property with such a hypothesis has
  a witness with concrete functions.

  \<^bold>\<open>Not modelled.\<close> The other SQL of \<open>db\<close> and its migrations, the HTTP routing of
  \<open>http\<close>, object storage, mail, push and OIDC clients are I/O whose behaviour is that of the
  database and of remote services. Of the collaboration side, the hub that opens rooms
  (\<open>collab/hub.rs\<close>), the socket loop of \<open>collab/transport.rs\<close> (present by its effect on the channels),
  the restore of revisions with the revision of an edit session in \<open>collab/room.rs\<close>, the writes to the durable log
  outside the rooms (restored revisions, appends without a room, first rows of imports and duplicates), and the CRDT session of the
  engine child are not modelled: the child's answers are a parameter of the room's environment. The office, PDF and Markdown
  converters, the gantt layout, the license check and the quota rules are not modelled. The vendored
  \<open>yrs\<close>, \<open>libsql\<close> and \<open>markdown\<close> crates, the generated API description, the
  web client and the build tools are outside the development.
\<close>

section \<open>Properties that span components\<close>

text \<open>C15: Every sync frame the wire decoder lets through is one the room's sync parser accepts:
  the payload it hands on parses in \<open>y_sync.rs\<close>, under the same binary limit, to the step
  the wire decoder announced.\<close>

theorem decoded_sync_parses:
  assumes "decode_with_limits try_parse bs L = Inr (DocumentFrame key room (Sync m))"
  shows "\<exists>update. parse_sync_payload (y_protocol m) (max_binary_payload_bytes L) = Inr (step m, update)
    \<and> length update \<le> max_binary_payload_bytes L"
proof -
  from decode_within [OF assms] obtain p where
    p: "parse_sync_payload (y_protocol m) (max_binary_payload_bytes L) = Inr (step m, p)"
    using message_ok_Sync [of L m] by auto
  with parse_sync_payload_bound show ?thesis
    by blast
qed

theorem decoded_sync_parses_witness:
  "\<exists>update. parse_sync_payload [2, 2, 0, 0] 8388608 = Inr (Update, update)"
proof -
  have "decode_with_limits (\<lambda>_. None) [2, 97, 98, 0, 2, 2, 0, 0] DEFAULT =
      Inr (DocumentFrame ''ab'' None (Sync \<lparr>step = Update, y_protocol = [2, 2, 0, 0]\<rparr>))"
    by code_simp
  from decoded_sync_parses [OF this] show ?thesis
    by (auto simp: DEFAULT_def)
qed

end
